(* ===== verification/Prelude.thy ===== *)
theory Prelude
  imports
    Main
    "HOL-Library.Word"
    "HOL-Library.List_Lexorder"
    "HOL-Library.Char_ord"
    "HOL-Library.Sublist"
begin

unbundle bit_operations_syntax

section \<open>Shared vocabulary of the development\<close>

text \<open>
  This theory holds what every component of the model of pgrwl uses: the types of Go values
  (byte strings, 32 and 64 bit integers), the errors a Go function returns, a state-and-error
  monad in which the stateful code is written, a weakest-precondition calculus for it, and the
  part of the Go standard library (\<open>strings\<close>, \<open>path/filepath\<close>, \<open>strconv\<close>, \<open>fmt\<close>) the source calls.

  A Go string and a Go \<open>[]byte\<close> are both a list of bytes, that is a \<open>char list\<close>.  The case
  conversions and the trimming of blanks are the ASCII ones.
\<close>

named_theorems go_defs
  \<comment> \<open>definitions of the small standard-library functions, for evaluation on concrete inputs\<close>

subsection \<open>Types\<close>

type_synonym bytes = "char list"
type_synonym u32 = "32 word"
type_synonym u64 = "64 word"
type_synonym lsn = "64 word"

text \<open>
  Errors.  \<open>EWrap\<close> is \<open>fmt.Errorf("...: %w", err)\<close>; \<open>EMsg\<close> a new error with its text (without
  the formatted arguments); the other constructors are the sentinel errors the source compares
  with \<open>errors.Is\<close>.  \<open>EPanic\<close> and \<open>EExit\<close> are not Go errors: they are a run-time panic and
  \<open>os.Exit\<close>, which no \<open>if err != nil\<close> of the source catches.
\<close>

datatype gerr =
    ECanceled
  | EDeadlineExceeded
  | EEOF
  | EUnexpectedEOF
  | ENotExist
  | EClosed
  | EOS nat
  | EMsg string
  | EWrap string gerr
  | EPanic string
  | EExit nat

fun errors_Is :: "gerr \<Rightarrow> gerr \<Rightarrow> bool" where
  "errors_Is (EWrap m e) t = (EWrap m e = t \<or> errors_Is e t)"
| "errors_Is e t = (e = t)"

text \<open>The text of an error, where the source looks at it.\<close>

fun gerr_text :: "gerr \<Rightarrow> string" where
  "gerr_text (EMsg m) = m"
| "gerr_text (EWrap m e) = m @ '': '' @ gerr_text e"
| "gerr_text ENotExist = ''file does not exist''"
| "gerr_text e = ''''"

fun is_abort :: "gerr \<Rightarrow> bool" where
  "is_abort (EPanic m) = True"
| "is_abort (EExit n) = True"
| "is_abort e = False"

subsection \<open>The state-and-error monad\<close>

text \<open>A computation takes the state and returns an error or a value, and the new state.\<close>

type_synonym ('s, 'a) m = "'s \<Rightarrow> (gerr + 'a) \<times> 's"

definition retE :: "'a \<Rightarrow> ('s, 'a) m" where
  "retE x s = (Inr x, s)"

definition throwE :: "gerr \<Rightarrow> ('s, 'a) m" where
  "throwE e s = (Inl e, s)"

definition bindE :: "('s, 'a) m \<Rightarrow> ('a \<Rightarrow> ('s, 'b) m) \<Rightarrow> ('s, 'b) m" where
  "bindE f g s = (case f s of (Inl e, t) \<Rightarrow> (Inl e, t) | (Inr x, t) \<Rightarrow> g x t)"

definition thenE :: "('s, 'a) m \<Rightarrow> ('s, 'b) m \<Rightarrow> ('s, 'b) m" where
  "thenE f g = bindE f (\<lambda>_. g)"

definition getE :: "('s \<Rightarrow> 'a) \<Rightarrow> ('s, 'a) m" where
  "getE f s = (Inr (f s), s)"

definition modE :: "('s \<Rightarrow> 's) \<Rightarrow> ('s, unit) m" where
  "modE f s = (Inr (), f s)"

text \<open>\<open>liftE\<close> runs a pure fallible function.\<close>

definition liftE :: "gerr + 'a \<Rightarrow> ('s, 'a) m" where
  "liftE r s = (r, s)"

text \<open>\<open>wrapE\<close> is \<open>if err != nil { return fmt.Errorf("msg: %w", err) }\<close>; a panic is not caught.\<close>

definition wrap_err :: "string \<Rightarrow> gerr \<Rightarrow> gerr" where
  "wrap_err msg e = (if is_abort e then e else EWrap msg e)"

definition wrapE :: "string \<Rightarrow> ('s, 'a) m \<Rightarrow> ('s, 'a) m" where
  "wrapE msg f s = (case f s of (Inl e, t) \<Rightarrow> (Inl (wrap_err msg e), t) | (Inr x, t) \<Rightarrow> (Inr x, t))"

text \<open>\<open>tryE\<close> is \<open>x, err := f()\<close> followed by code that looks at \<open>err\<close>: the error becomes a value.\<close>

definition tryE :: "('s, 'a) m \<Rightarrow> ('s, gerr + 'a) m" where
  "tryE f s = (case f s of
      (Inl e, t) \<Rightarrow> if is_abort e then (Inl e, t) else (Inr (Inl e), t)
    | (Inr x, t) \<Rightarrow> (Inr (Inr x), t))"

definition whenE :: "bool \<Rightarrow> ('s, unit) m \<Rightarrow> ('s, unit) m" where
  "whenE b f = (if b then f else retE ())"

subsection \<open>Weakest preconditions\<close>

text \<open>
  \<open>wp f Q R s\<close>: run from \<open>s\<close>, \<open>f\<close> returns a value that satisfies \<open>Q\<close> in the final state or
  an error that satisfies \<open>R\<close>.  Computations are total functions, so this is total
  correctness.  The rules for the combinators are simplification rules; an operation's own
  rule is stated as an implication and used through \<open>wp_conseq\<close>.
\<close>

definition wp :: "('s, 'a) m \<Rightarrow> ('a \<Rightarrow> 's \<Rightarrow> bool) \<Rightarrow> (gerr \<Rightarrow> 's \<Rightarrow> bool) \<Rightarrow> 's \<Rightarrow> bool" where
  "wp f Q R s = (case f s of (Inl e, t) \<Rightarrow> R e t | (Inr x, t) \<Rightarrow> Q x t)"

lemma wp_retE [simp]: "wp (retE x) Q R = Q x"
  by (simp add: wp_def retE_def fun_eq_iff)

lemma wp_throwE [simp]: "wp (throwE e) Q R = R e"
  by (simp add: wp_def throwE_def fun_eq_iff)

lemma wp_bindE [simp]: "wp (bindE f g) Q R = wp f (\<lambda>x. wp (g x) Q R) R"
  by (auto simp: wp_def bindE_def fun_eq_iff split: sum.splits prod.splits)

lemma wp_thenE [simp]: "wp (thenE f g) Q R = wp f (\<lambda>_. wp g Q R) R"
  by (simp add: thenE_def)

lemma wp_getE [simp]: "wp (getE f) Q R = (\<lambda>s. Q (f s) s)"
  by (simp add: wp_def getE_def fun_eq_iff)

lemma wp_modE [simp]: "wp (modE f) Q R = (\<lambda>s. Q () (f s))"
  by (simp add: wp_def modE_def fun_eq_iff)

lemma wp_liftE [simp]: "wp (liftE r) Q R = (\<lambda>s. case r of Inl e \<Rightarrow> R e s | Inr x \<Rightarrow> Q x s)"
  by (simp add: wp_def liftE_def fun_eq_iff split: sum.splits)

lemma wp_wrapE [simp]: "wp (wrapE msg f) Q R = wp f Q (\<lambda>e. R (wrap_err msg e))"
  by (auto simp: wp_def wrapE_def fun_eq_iff split: sum.splits prod.splits)

lemma wp_tryE [simp]:
  "wp (tryE f) Q R =
     wp f (\<lambda>x. Q (Inr x)) (\<lambda>e t. if is_abort e then R e t else Q (Inl e) t)"
  by (auto simp: wp_def tryE_def fun_eq_iff split: sum.splits prod.splits)

lemma wp_whenE [simp]: "wp (whenE b f) Q R = (\<lambda>s. if b then wp f Q R s else Q () s)"
  by (simp add: whenE_def fun_eq_iff)

lemma wp_conseq:
  assumes "wp f Q R s" and "\<And>x t. Q x t \<Longrightarrow> Q' x t" and "\<And>e t. R e t \<Longrightarrow> R' e t"
  shows "wp f Q' R' s"
  using assms by (auto simp: wp_def split: sum.splits prod.splits)

lemma wp_conj:
  "wp f Q R s \<Longrightarrow> wp f Q' R' s \<Longrightarrow> wp f (\<lambda>x t. Q x t \<and> Q' x t) (\<lambda>e t. R e t \<and> R' e t) s"
  by (auto simp: wp_def split: sum.splits prod.splits)

lemma wpD_ok: "wp f Q R s \<Longrightarrow> f s = (Inr x, t) \<Longrightarrow> Q x t"
  by (simp add: wp_def)

lemma wpD_err: "wp f Q R s \<Longrightarrow> f s = (Inl e, t) \<Longrightarrow> R e t"
  by (simp add: wp_def)

lemma wpI: "(\<And>x t. f s = (Inr x, t) \<Longrightarrow> Q x t) \<Longrightarrow> (\<And>e t. f s = (Inl e, t) \<Longrightarrow> R e t) \<Longrightarrow> wp f Q R s"
  by (auto simp: wp_def split: sum.splits prod.splits)

text \<open>\<open>keeps v f\<close>: whatever \<open>f\<close> does, it leaves the part \<open>v\<close> of the state as it was.\<close>

named_theorems keeps_intros
  \<comment> \<open>rules that prove that a computation leaves a part of the state alone\<close>

definition keeps :: "('s \<Rightarrow> 'x) \<Rightarrow> ('s, 'a) m \<Rightarrow> bool" where
  "keeps v f \<longleftrightarrow> (\<forall>s. v (snd (f s)) = v s)"

lemma keepsD: "keeps v f \<Longrightarrow> f s = (r, t) \<Longrightarrow> v t = v s"
  by (metis keeps_def snd_conv)

lemma keeps_wp: "keeps v f \<Longrightarrow> wp f (\<lambda>_ t. v t = v s) (\<lambda>_ t. v t = v s) s"
  by (rule wpI) (auto dest: keepsD)

lemma keeps_basic [keeps_intros]:
  "keeps v (retE x)" "keeps v (throwE e)" "keeps v (getE g)" "keeps v (liftE r)"
  by (simp_all add: keeps_def retE_def throwE_def getE_def liftE_def)

lemma keeps_modE [keeps_intros]: "(\<And>s. v (g s) = v s) \<Longrightarrow> keeps v (modE g)"
  by (simp add: keeps_def modE_def)

lemma keeps_bindE [keeps_intros]:
  assumes "keeps v f" and "\<And>x. keeps v (g x)"
  shows "keeps v (bindE f g)"
  unfolding keeps_def
proof
  fix s
  obtain r t where f: "f s = (r, t)" by fastforce
  with keepsD [OF assms(1) f] assms(2) show "v (snd (bindE f g s)) = v s"
    by (cases r) (simp_all add: bindE_def keeps_def)
qed

lemma keeps_thenE [keeps_intros]: "keeps v f \<Longrightarrow> keeps v g \<Longrightarrow> keeps v (thenE f g)"
  by (simp add: thenE_def keeps_bindE)

lemma keeps_tryE [keeps_intros]: "keeps v f \<Longrightarrow> keeps v (tryE f)"
  unfolding keeps_def by (rule allI, drule_tac x = s in spec) (auto simp: tryE_def split: prod.split sum.split)

lemma keeps_wrapE [keeps_intros]: "keeps v f \<Longrightarrow> keeps v (wrapE m f)"
  unfolding keeps_def by (rule allI, drule_tac x = s in spec) (auto simp: wrapE_def split: prod.split sum.split)

lemma keeps_whenE [keeps_intros]: "(b \<Longrightarrow> keeps v f) \<Longrightarrow> keeps v (whenE b f)"
  by (simp add: whenE_def keeps_basic)

lemma keeps_if [keeps_intros]: "(b \<Longrightarrow> keeps v f) \<Longrightarrow> (\<not> b \<Longrightarrow> keeps v g) \<Longrightarrow> keeps v (if b then f else g)"
  by simp

lemma keeps_case_option [keeps_intros]: "(x = None \<Longrightarrow> keeps v f) \<Longrightarrow> (\<And>y. x = Some y \<Longrightarrow> keeps v (g y)) \<Longrightarrow>
    keeps v (case x of None \<Rightarrow> f | Some y \<Rightarrow> g y)"
  by (simp split: option.split)

lemma keeps_case_sum [keeps_intros]: "(\<And>y. x = Inl y \<Longrightarrow> keeps v (f y)) \<Longrightarrow> (\<And>y. x = Inr y \<Longrightarrow> keeps v (g y)) \<Longrightarrow>
    keeps v (case x of Inl y \<Rightarrow> f y | Inr y \<Rightarrow> g y)"
  by (simp split: sum.split)

lemma keeps_case_prod [keeps_intros]: "(\<And>a b. x = (a, b) \<Longrightarrow> keeps v (f a b)) \<Longrightarrow> keeps v (case x of (a, b) \<Rightarrow> f a b)"
  by (simp split: prod.split)

text \<open>A computation on one part of a pair of states.\<close>

definition on_fst :: "('a, 'x) m \<Rightarrow> ('a \<times> 'b, 'x) m" where
  "on_fst f s = (case f (fst s) of (r, t) \<Rightarrow> (r, (t, snd s)))"

definition on_snd :: "('b, 'x) m \<Rightarrow> ('a \<times> 'b, 'x) m" where
  "on_snd f s = (case f (snd s) of (r, t) \<Rightarrow> (r, (fst s, t)))"

lemma wp_on_fst [simp]: "wp (on_fst f) Q R s = wp f (\<lambda>x t. Q x (t, snd s)) (\<lambda>e t. R e (t, snd s)) (fst s)"
  by (simp add: wp_def on_fst_def split: prod.split sum.split)

lemma wp_on_snd [simp]: "wp (on_snd f) Q R s = wp f (\<lambda>x t. Q x (fst s, t)) (\<lambda>e t. R e (fst s, t)) (snd s)"
  by (simp add: wp_def on_snd_def split: prod.split sum.split)

lemma keeps_on_fst [keeps_intros]: "keeps snd (on_fst f)" "keeps v f \<Longrightarrow> keeps (\<lambda>s. v (fst s)) (on_fst f)"
  by (auto simp: keeps_def on_fst_def split: prod.split) (metis snd_conv)

lemma keeps_on_snd [keeps_intros]: "keeps fst (on_snd f)" "keeps v f \<Longrightarrow> keeps (\<lambda>s. v (snd s)) (on_snd f)"
  by (auto simp: keeps_def on_snd_def split: prod.split) (metis snd_conv)

lemmas exec_simps = retE_def throwE_def bindE_def thenE_def getE_def modE_def liftE_def
  wrapE_def wrap_err_def tryE_def whenE_def

subsection \<open>Package strings\<close>

definition has_prefix :: "string \<Rightarrow> string \<Rightarrow> bool" where [go_defs]:
  "has_prefix s p = (take (length p) s = p)"

definition has_suffix :: "string \<Rightarrow> string \<Rightarrow> bool" where [go_defs]:
  "has_suffix s p = (length p \<le> length s \<and> drop (length s - length p) s = p)"

definition trim_prefix :: "string \<Rightarrow> string \<Rightarrow> string" where [go_defs]:
  "trim_prefix s p = (if has_prefix s p then drop (length p) s else s)"

definition trim_suffix :: "string \<Rightarrow> string \<Rightarrow> string" where [go_defs]:
  "trim_suffix s p = (if has_suffix s p then take (length s - length p) s else s)"

definition is_blank :: "char \<Rightarrow> bool" where [go_defs]:
  "is_blank c = (of_char c \<in> {9, 10, 11, 12, 13, 32 :: nat})"

definition trim_space :: "string \<Rightarrow> string" where [go_defs]:
  "trim_space s = rev (dropWhile is_blank (rev (dropWhile is_blank s)))"

text \<open>\<open>strings.Trim(s, "/")\<close> and \<open>strings.TrimRight(s, "/")\<close> with a one-character cut set.\<close>

definition trim_right_char :: "char \<Rightarrow> string \<Rightarrow> string" where [go_defs]:
  "trim_right_char c s = rev (dropWhile (\<lambda>d. d = c) (rev s))"

definition trim_char :: "char \<Rightarrow> string \<Rightarrow> string" where [go_defs]:
  "trim_char c s = trim_right_char c (dropWhile (\<lambda>d. d = c) s)"

definition upper_char :: "char \<Rightarrow> char" where [go_defs]:
  "upper_char c = (let n = (of_char c :: nat) in if 97 \<le> n \<and> n \<le> 122 then char_of (n - 32) else c)"

definition lower_char :: "char \<Rightarrow> char" where [go_defs]:
  "lower_char c = (let n = (of_char c :: nat) in if 65 \<le> n \<and> n \<le> 90 then char_of (n + 32) else c)"

definition to_upper :: "string \<Rightarrow> string" where [go_defs]:
  "to_upper s = map upper_char s"

definition to_lower :: "string \<Rightarrow> string" where [go_defs]:
  "to_lower s = map lower_char s"

definition equal_fold :: "string \<Rightarrow> string \<Rightarrow> bool" where [go_defs]:
  "equal_fold s t = (to_lower s = to_lower t)"

fun str_contains :: "string \<Rightarrow> string \<Rightarrow> bool" where
  "str_contains [] p = (p = [])"
| "str_contains (c # s) p = (has_prefix (c # s) p \<or> str_contains s p)"

text \<open>\<open>strings.Split(s, c)\<close> for a separator of one byte.\<close>

fun split_on :: "char \<Rightarrow> string \<Rightarrow> string list" where
  "split_on c [] = [[]]"
| "split_on c (d # s) =
     (if d = c then [] # split_on c s
      else (case split_on c s of [] \<Rightarrow> [[d]] | w # ws \<Rightarrow> (d # w) # ws))"

fun join_with :: "string \<Rightarrow> string list \<Rightarrow> string" where
  "join_with sep [] = []"
| "join_with sep [w] = w"
| "join_with sep (w # v # ws) = w @ sep @ join_with sep (v # ws)"

lemma split_on_ne [simp]: "split_on c s \<noteq> []"
  by (cases s) (auto split: list.splits)

lemma has_suffix_append [simp]: "has_suffix (s @ p) p"
  by (simp add: has_suffix_def)

lemma trim_suffix_append [simp]: "trim_suffix (s @ p) p = s"
  by (simp add: trim_suffix_def)

lemma has_suffix_iff: "has_suffix s p \<longleftrightarrow> (\<exists>u. s = u @ p)"
  by (auto simp: has_suffix_def) (metis append_take_drop_id)

lemma has_prefix_iff: "has_prefix s p \<longleftrightarrow> (\<exists>u. s = p @ u)"
  by (auto simp: has_prefix_def) (metis append_take_drop_id)

lemma has_prefix_append [simp]: "has_prefix (p @ s) p"
  by (simp add: has_prefix_def)

lemma trim_prefix_append [simp]: "trim_prefix (p @ s) p = s"
  by (simp add: trim_prefix_def)

text \<open>Two tables agree outside a set of keys.\<close>

definition outside :: "string set \<Rightarrow> (string \<Rightarrow> bytes option) \<Rightarrow> (string \<Rightarrow> bytes option) \<Rightarrow> bool" where
  "outside N f g \<longleftrightarrow> (\<forall>q. q \<notin> N \<longrightarrow> g q = f q)"

lemma outside_refl [simp]: "outside N f f"
  by (simp add: outside_def)

lemma outside_trans: "outside N f g \<Longrightarrow> outside N g h \<Longrightarrow> outside N f h"
  by (simp add: outside_def)

lemma outside_mono: "outside M f g \<Longrightarrow> M \<subseteq> N \<Longrightarrow> outside N f g"
  by (auto simp: outside_def)

lemma outside_upd [simp]: "outside N f (f(p := x)) \<longleftrightarrow> p \<in> N \<or> x = f p"
  by (auto simp: outside_def)

end
