(* ===== verification/IOStream.thy ===== *)
theory IOStream
  imports Prelude
begin

section \<open>Readers, writers and codecs (package io, internal/opt/shared/streamcrypt/codec, ioutils)\<close>

text \<open>
  A reader is what it will deliver: its bytes and then an error, \<open>EEOF\<close> for a normal end.  A writer
  is a state that collects what is written and in which any write may fail.  The compression
  libraries are parameters: what a compressor has emitted after it was given some bytes, with and
  without closing it, and what the decompressor's reader delivers.
\<close>

subsection \<open>Readers\<close>

type_synonym io_reader = "bytes \<times> gerr"

text \<open>\<open>io.ReadFull\<close>: the bytes read, and the error.\<close>

definition io_ReadFull :: "nat \<Rightarrow> io_reader \<Rightarrow> (bytes \<times> gerr option) \<times> io_reader" where
  "io_ReadFull n = (\<lambda>(d, e).
     if n \<le> length d then ((take n d, None), (drop n d, e))
     else ((d, Some (if e = EEOF \<and> d \<noteq> [] then EUnexpectedEOF else e)), ([], e)))"

lemma io_ReadFull_enough: "n \<le> length d \<Longrightarrow> io_ReadFull n (d, e) = ((take n d, None), (drop n d, e))"
  by (simp add: io_ReadFull_def)

text \<open>\<open>io.ReadAll\<close>.\<close>

definition io_ReadAll :: "io_reader \<Rightarrow> gerr + bytes" where
  "io_ReadAll = (\<lambda>(d, e). if e = EEOF then Inr d else Inl e)"

subsection \<open>Writers\<close>

record sink =
  k_out :: bytes
  k_tick :: nat
  k_fault :: "nat \<Rightarrow> gerr option"

definition sink_Write :: "bytes \<Rightarrow> ('a sink_scheme, unit) m" where
  "sink_Write p s =
     (case k_fault s (k_tick s) of
        Some e \<Rightarrow> (Inl e, s\<lparr>k_tick := Suc (k_tick s)\<rparr>)
      | None \<Rightarrow> (Inr (), s\<lparr>k_out := k_out s @ p, k_tick := Suc (k_tick s)\<rparr>))"

lemma wp_sink_Write [simp]:
  "wp (sink_Write p) Q R = (\<lambda>s. case k_fault s (k_tick s) of
      Some e \<Rightarrow> R e (s\<lparr>k_tick := Suc (k_tick s)\<rparr>)
    | None \<Rightarrow> Q () (s\<lparr>k_out := k_out s @ p, k_tick := Suc (k_tick s)\<rparr>))"
  by (auto simp: wp_def sink_Write_def fun_eq_iff split: option.split)

text \<open>The pieces in which \<open>io.Copy\<close> moves data, and \<open>io.Copy\<close> into a writer.\<close>

definition copyBufSize :: nat where "copyBufSize = 32 * 1024"

fun pieces :: "nat \<Rightarrow> bytes \<Rightarrow> bytes list" where
  "pieces n d = (if d = [] \<or> n = 0 then [] else take n d # pieces n (drop n d))"

declare pieces.simps [simp del]

lemma concat_pieces: "0 < n \<Longrightarrow> concat (pieces n d) = d"
proof (induction n d rule: pieces.induct)
  case (1 n d)
  then show ?case by (subst pieces.simps) auto
qed

fun write_all :: "(bytes \<Rightarrow> ('s, unit) m) \<Rightarrow> bytes list \<Rightarrow> ('s, unit) m" where
  "write_all w [] = retE ()"
| "write_all w (p # ps) = thenE (w p) (write_all w ps)"

definition io_Copy :: "(bytes \<Rightarrow> ('s, unit) m) \<Rightarrow> io_reader \<Rightarrow> ('s, unit) m" where
  "io_Copy w = (\<lambda>(d, e).
     thenE (write_all w (pieces copyBufSize d)) (if e = EEOF then retE () else throwE e))"

subsection \<open>Codecs\<close>

definition GzipFileExt :: string where "GzipFileExt = ''.gz''"
definition GzipCompName :: string where "GzipCompName = ''gzip''"
definition ZstdFileExt :: string where "ZstdFileExt = ''.zst''"
definition ZstdCompName :: string where "ZstdCompName = ''zstd''"

text \<open>\<open>c_new\<close> is the error of \<open>NewWriter\<close>, \<open>c_emit d\<close> what has come out after \<open>d\<close> was written, \<open>c_rest d\<close>
  what \<open>Flush\<close> and \<open>Close\<close> then add.\<close>

record Compressor =
  c_new :: "gerr option"
  c_emit :: "bytes \<Rightarrow> bytes"
  c_rest :: "bytes \<Rightarrow> bytes"
  c_FileExtension :: string
  c_Name :: string

record Decompressor =
  d_Decompress :: "io_reader \<Rightarrow> gerr + io_reader"
  d_FileExtension :: string

text \<open>The libraries: \<open>compress/gzip\<close> and \<open>klauspost/compress/zstd\<close>.\<close>

record complib =
  gzip_emit :: "bytes \<Rightarrow> bytes"
  gzip_rest :: "bytes \<Rightarrow> bytes"
  gzip_NewReader :: "io_reader \<Rightarrow> gerr + io_reader"
  zstd_NewWriter :: "gerr option"
  zstd_emit :: "bytes \<Rightarrow> bytes"
  zstd_rest :: "bytes \<Rightarrow> bytes"
  zstd_NewReader :: "io_reader \<Rightarrow> gerr + io_reader"

definition GzipCompressor :: "complib \<Rightarrow> Compressor" where
  "GzipCompressor L = \<lparr>c_new = None, c_emit = gzip_emit L, c_rest = gzip_rest L,
     c_FileExtension = GzipFileExt, c_Name = GzipCompName\<rparr>"

definition GzipDecompressor :: "complib \<Rightarrow> Decompressor" where
  "GzipDecompressor L = \<lparr>d_Decompress = gzip_NewReader L, d_FileExtension = GzipFileExt\<rparr>"

definition ZstdCompressor :: "complib \<Rightarrow> Compressor" where
  "ZstdCompressor L = \<lparr>c_new = zstd_NewWriter L, c_emit = zstd_emit L, c_rest = zstd_rest L,
     c_FileExtension = ZstdFileExt, c_Name = ZstdCompName\<rparr>"

definition ZstdDecompressor :: "complib \<Rightarrow> Decompressor" where
  "ZstdDecompressor L = \<lparr>d_Decompress = zstd_NewReader L, d_FileExtension = ZstdFileExt\<rparr>"

definition GetDecompressor :: "complib \<Rightarrow> Compressor option \<Rightarrow> Decompressor option" where
  "GetDecompressor L c =
     (case c of
        None \<Rightarrow> None
      | Some x \<Rightarrow>
          if c_FileExtension x = GzipFileExt then Some (GzipDecompressor L)
          else if c_FileExtension x = ZstdFileExt then Some (ZstdDecompressor L)
          else None)"

text \<open>What the libraries promise: a complete compressed stream decompresses to what was written.\<close>

definition complib_ok :: "complib \<Rightarrow> bool" where
  "complib_ok L \<longleftrightarrow> zstd_NewWriter L = None \<and>
     (\<forall>d. gzip_NewReader L (gzip_emit L d @ gzip_rest L d, EEOF) = Inr (d, EEOF)) \<and>
     (\<forall>d. zstd_NewReader L (zstd_emit L d @ zstd_rest L d, EEOF) = Inr (d, EEOF))"

subsection \<open>MultiCloser\<close>

text \<open>
  The closers are names of resources; closing one may fail.  Every distinct closer is closed once,
  in order, and the first error is returned, with the texts of the later ones.
\<close>

datatype close_err = CloseErr gerr | CloseJoin close_err gerr

fun close_loop :: "('c \<Rightarrow> gerr option) \<Rightarrow> 'c list \<Rightarrow> 'c list \<Rightarrow> close_err option \<Rightarrow> 'c list \<times> close_err option" where
  "close_loop cl seen [] firstErr = (rev seen, firstErr)"
| "close_loop cl seen (c # cs) firstErr =
     (if c \<in> set seen then close_loop cl seen cs firstErr
      else close_loop cl (c # seen) cs
        (case cl c of
           None \<Rightarrow> firstErr
         | Some e \<Rightarrow> Some (case firstErr of Some f \<Rightarrow> CloseJoin f e | None \<Rightarrow> CloseErr e)))"

definition MultiCloser_Close :: "('c \<Rightarrow> gerr option) \<Rightarrow> 'c list \<Rightarrow> 'c list \<times> close_err option" where
  "MultiCloser_Close cl closers = close_loop cl [] closers None"

lemma close_loop_closed:
  "distinct seen \<Longrightarrow> distinct (fst (close_loop cl seen cs e)) \<and> set (fst (close_loop cl seen cs e)) = set seen \<union> set cs"
  by (induction cl seen cs e rule: close_loop.induct) auto

lemma close_loop_err:
  "snd (close_loop cl seen cs e) = None \<longleftrightarrow> e = None \<and> (\<forall>c \<in> set cs - set seen. cl c = None)"
  by (induction cl seen cs e rule: close_loop.induct) (auto split: option.splits)

end
