(* ===== verification/GoLib.thy ===== *)
theory GoLib
  imports Prelude
begin

section \<open>Paths, numbers and formatting\<close>

text \<open>
  The part of \<open>path/filepath\<close> (on Unix), \<open>strconv\<close> and \<open>fmt\<close> that pgrwl calls, with the few
  facts its components need: joining a directory with a plain file name, and the round trip of
  fixed-width upper-case hexadecimal.
\<close>

subsection \<open>Package path/filepath\<close>

text \<open>
  \<open>filepath.Clean\<close>: split at the slashes, drop empty and \<open>.\<close> elements, let \<open>..\<close> remove the
  element before it (the accumulator holds the kept elements, last first).
\<close>

fun clean_elems :: "bool \<Rightarrow> string list \<Rightarrow> string list \<Rightarrow> string list" where
  "clean_elems rooted acc [] = rev acc"
| "clean_elems rooted acc (w # ws) =
     (if w = '''' \<or> w = ''.'' then clean_elems rooted acc ws
      else if w = ''..'' then
        (case acc of
           [] \<Rightarrow> if rooted then clean_elems rooted [] ws else clean_elems rooted [''..''] ws
         | a # as \<Rightarrow> if a = ''..'' then clean_elems rooted (''..'' # acc) ws
                     else clean_elems rooted as ws)
      else clean_elems rooted (w # acc) ws)"

definition rooted :: "string \<Rightarrow> bool" where [go_defs]:
  "rooted p = has_prefix p ''/''"

definition path_elems :: "string \<Rightarrow> string list" where [go_defs]:
  "path_elems p = clean_elems (rooted p) [] (split_on (CHR ''/'') p)"

definition path_of :: "bool \<Rightarrow> string list \<Rightarrow> string" where [go_defs]:
  "path_of r ws = (if r then ''/'' @ join_with ''/'' ws
                   else if ws = [] then ''.'' else join_with ''/'' ws)"

definition filepath_Clean :: "string \<Rightarrow> string" where [go_defs]:
  "filepath_Clean p = path_of (rooted p) (path_elems p)"

definition filepath_Join :: "string list \<Rightarrow> string" where [go_defs]:
  "filepath_Join ws = (case dropWhile (\<lambda>w. w = '''') ws of
      [] \<Rightarrow> '''' | v # vs \<Rightarrow> filepath_Clean (join_with ''/'' (v # vs)))"

definition filepath_Base :: "string \<Rightarrow> string" where [go_defs]:
  "filepath_Base p =
     (if p = '''' then ''.''
      else let q = trim_right_char (CHR ''/'') p
           in if q = '''' then ''/'' else last (split_on (CHR ''/'') q))"

definition filepath_Dir :: "string \<Rightarrow> string" where [go_defs]:
  "filepath_Dir p =
     filepath_Clean (rev (dropWhile (\<lambda>c. c \<noteq> CHR ''/'') (rev p)))"

definition filepath_Ext :: "string \<Rightarrow> string" where [go_defs]:
  "filepath_Ext p =
     (let w = last (split_on (CHR ''/'') p)
      in if CHR ''.'' \<in> set w then CHR ''.'' # rev (takeWhile (\<lambda>c. c \<noteq> CHR ''.'') (rev w)) else '''')"

text \<open>A plain file name: one path element that \<open>Clean\<close> keeps.\<close>

definition plain_name :: "string \<Rightarrow> bool" where [go_defs]:
  "plain_name w = (w \<noteq> '''' \<and> w \<noteq> ''.'' \<and> w \<noteq> ''..'' \<and> CHR ''/'' \<notin> set w)"

lemma split_on_plain: "c \<notin> set w \<Longrightarrow> split_on c w = [w]"
  by (induction w) auto

lemma split_on_sep: "split_on c (u @ c # v) = split_on c u @ split_on c v"
proof (induction u)
  case Nil
  then show ?case by simp
next
  case (Cons d u)
  then show ?case by (cases "split_on c u") auto
qed

lemma split_on_snoc_plain: "c \<notin> set w \<Longrightarrow> split_on c (u @ c # w) = split_on c u @ [w]"
  by (simp add: split_on_sep split_on_plain)

lemma split_on_join:
  assumes "ws \<noteq> []" and "\<forall>w \<in> set ws. c \<notin> set w"
  shows "split_on c (join_with [c] ws) = ws"
  using assms
proof (induction ws rule: induct_list012)
  case 1
  then show ?case by simp
next
  case (2 w)
  then show ?case by (simp add: split_on_plain)
next
  case (3 w v vs)
  then show ?case by (simp add: split_on_sep split_on_plain)
qed

lemma split_on_elems: "w \<in> set (split_on c s) \<Longrightarrow> c \<notin> set w"
proof (induction s arbitrary: w)
  case Nil
  then show ?case by simp
next
  case (Cons d s)
  then show ?case by (cases "split_on c s") (auto split: if_splits)
qed

lemma clean_elems_snoc:
  assumes "w \<noteq> ''''" "w \<noteq> ''.''" "w \<noteq> ''..''"
  shows "clean_elems r acc (ws @ [w]) = clean_elems r acc ws @ [w]"
  using assms by (induction r acc ws rule: clean_elems.induct) (auto split: list.splits)

lemma clean_elems_elems:
  "v \<in> set (clean_elems r acc ws) \<Longrightarrow> v \<in> set acc \<or> v \<in> set ws \<and> v \<noteq> '''' \<and> v \<noteq> ''.'' \<or> v = ''..''"
  by (induction r acc ws rule: clean_elems.induct) (auto split: if_splits list.splits)

lemma path_elems_no_slash: "v \<in> set (path_elems p) \<Longrightarrow> CHR ''/'' \<notin> set v"
  unfolding path_elems_def by (drule clean_elems_elems) (auto dest: split_on_elems)

lemma path_elems_ne: "v \<in> set (path_elems p) \<Longrightarrow> v \<noteq> ''''"
  unfolding path_elems_def by (drule clean_elems_elems) auto

lemma rooted_append: "u \<noteq> [] \<Longrightarrow> rooted (u @ v) = rooted u"
  by (cases u) (auto simp: rooted_def has_prefix_def)

lemma path_elems_join:
  assumes "d \<noteq> ''''" and "plain_name w"
  shows "path_elems (d @ ''/'' @ w) = path_elems d @ [w]"
proof -
  have "split_on (CHR ''/'') (d @ ''/'' @ w) = split_on (CHR ''/'') d @ [w]"
    using assms(2) split_on_snoc_plain [of "CHR ''/''" w d] by (simp add: plain_name_def)
  moreover have "rooted (d @ ''/'' @ w) = rooted d"
    using assms(1) by (simp add: rooted_append)
  ultimately show ?thesis
    using assms(2) by (simp add: path_elems_def clean_elems_snoc plain_name_def)
qed

text \<open>Joining a directory with a plain name appends one element to the cleaned directory.\<close>

definition dir_child :: "string \<Rightarrow> string \<Rightarrow> string" where
  "dir_child d w = path_of (rooted d) (path_elems d @ [w])"

lemma filepath_Join_child:
  assumes "d \<noteq> ''''" and "plain_name w"
  shows "filepath_Join [d, w] = dir_child d w"
proof -
  have r: "rooted (d @ ''/'' @ w) = rooted d"
    using assms(1) by (simp add: rooted_append)
  have "filepath_Join [d, w] = filepath_Clean (d @ ''/'' @ w)"
    using assms by (simp add: filepath_Join_def plain_name_def)
  also have "\<dots> = path_of (rooted (d @ ''/'' @ w)) (path_elems (d @ ''/'' @ w))"
    by (simp only: filepath_Clean_def)
  also have "\<dots> = path_of (rooted d) (path_elems d @ [w])"
    by (simp only: r path_elems_join [OF assms])
  finally show ?thesis by (simp add: dir_child_def)
qed

lemma join_with_snoc:
  "join_with sep (ws @ [w]) = (if ws = [] then w else join_with sep ws @ sep @ w)"
  by (induction ws rule: induct_list012) auto

lemma dir_child_append:
  "dir_child d w =
     (if path_elems d = [] then (if rooted d then ''/'' @ w else w)
      else path_of (rooted d) (path_elems d) @ ''/'' @ w)"
  by (auto simp: dir_child_def path_of_def join_with_snoc)

lemma dir_child_prefix: "\<exists>u. \<forall>w. dir_child d w = u @ w"
proof -
  have "\<forall>w. dir_child d w =
      (if path_elems d = [] then (if rooted d then ''/'' else '''')
       else path_of (rooted d) (path_elems d) @ ''/'') @ w"
    by (simp add: dir_child_append)
  then show ?thesis by blast
qed

lemma dir_child_inj [simp]: "dir_child d w = dir_child d v \<longleftrightarrow> w = v"
  using dir_child_prefix [of d] by (metis same_append_eq)

lemma dir_child_suffix: "dir_child d (w @ v) = dir_child d w @ v"
  using dir_child_prefix [of d] by (metis append.assoc)


lemma filepath_Base_child:
  assumes "plain_name w"
  shows "filepath_Base (u @ ''/'' @ w) = w" and "filepath_Base w = w"
proof -
  have w: "w \<noteq> []" "CHR ''/'' \<notin> set w" using assms by (auto simp: plain_name_def)
  then obtain xs x where x: "w = xs @ [x]"
    by (cases w rule: rev_cases) auto
  with w(2) have t: "trim_right_char (CHR ''/'') (v @ w) = v @ w" for v
    by (auto simp: trim_right_char_def)
  have "filepath_Base (v @ w) = last (split_on (CHR ''/'') (v @ w))" for v
    using t [of v] w(1) by (simp add: filepath_Base_def Let_def)
  note b = this
  show "filepath_Base (u @ ''/'' @ w) = w"
    using b [of "u @ ''/''"] w split_on_snoc_plain [OF w(2), of u] by simp
  show "filepath_Base w = w"
    using b [of "[]"] w by (simp add: split_on_plain)
qed

lemma filepath_Base_dir_child:
  assumes "plain_name w"
  shows "filepath_Base (dir_child d w) = w"
proof (cases "path_elems d = []")
  case True
  then show ?thesis
    using filepath_Base_child(1) [OF assms, of "[]"] filepath_Base_child(2) [OF assms]
    by (auto simp: dir_child_append)
next
  case False
  then show ?thesis
    using filepath_Base_child(1) [OF assms] by (simp add: dir_child_append)
qed

subsection \<open>Clean is idempotent\<close>

definition kept :: "string list \<Rightarrow> bool" where
  "kept es = (\<forall>w \<in> set es. w \<noteq> '''' \<and> w \<noteq> ''.'' \<and> w \<noteq> ''..'')"

definition dots :: "nat \<Rightarrow> string list" where
  "dots k = replicate k ''..''"

lemma clean_elems_kept: "kept es \<Longrightarrow> clean_elems r acc es = rev acc @ es"
  by (induction es arbitrary: acc) (auto simp: kept_def)

lemma clean_elems_dots:
  "kept es \<Longrightarrow> clean_elems False (dots k) (dots m @ es) = dots (k + m) @ es"
proof (induction m arbitrary: k)
  case 0
  then show ?case by (simp add: clean_elems_kept dots_def)
next
  case (Suc m)
  have "clean_elems False (dots k) (dots (Suc m) @ es) = clean_elems False (dots (Suc k)) (dots m @ es)"
    by (cases k) (simp_all add: dots_def)
  then show ?case using Suc.IH [OF Suc.prems, of "Suc k"] by simp
qed

definition path_form :: "bool \<Rightarrow> string list \<Rightarrow> bool" where
  "path_form r us = (\<exists>k es. us = dots k @ es \<and> kept es \<and> (r \<longrightarrow> k = 0))"

lemma path_form_snoc: "path_form r us \<Longrightarrow> kept [w] \<Longrightarrow> path_form r (us @ [w])"
proof -
  assume "path_form r us" and w: "kept [w]"
  then obtain k es where "us = dots k @ es" "kept es" "r \<longrightarrow> k = 0"
    unfolding path_form_def by blast
  then have "us @ [w] = dots k @ (es @ [w])" "kept (es @ [w])" "r \<longrightarrow> k = 0"
    using w by (auto simp: kept_def)
  then show "path_form r (us @ [w])" unfolding path_form_def by blast
qed

lemma path_form_dots: "path_form False (dots k)" "path_form r []"
  by (auto simp: path_form_def kept_def dots_def intro: exI [of _ k] exI [of _ 0])

lemma path_form_butlast:
  assumes "path_form r (us @ [v])" and "v \<noteq> ''..''"
  shows "path_form r us"
proof -
  from assms(1) obtain k es where e: "us @ [v] = dots k @ es" "kept es" "r \<longrightarrow> k = 0"
    unfolding path_form_def by blast
  have "es \<noteq> []"
  proof
    assume "es = []"
    with e(1) have "v \<in> set (dots k)" by (metis append_Nil2 in_set_conv_decomp)
    with assms(2) show False by (simp add: dots_def)
  qed
  then obtain fs where "es = fs @ [v]" "us = dots k @ fs"
    using e(1) by (metis append_butlast_last_id append_assoc append1_eq_conv)
  with e(2,3) show ?thesis unfolding path_form_def kept_def by auto
qed

lemma path_form_dotdot:
  assumes "path_form r (us @ [''..''])"
  shows "\<not> r \<and> path_form r (us @ [''..'', ''..''])"
proof -
  from assms obtain k es where e: "us @ [''..''] = dots k @ es" "kept es" "r \<longrightarrow> k = 0"
    unfolding path_form_def by blast
  have "es = []"
    using e(1,2) by (cases es rule: rev_cases) (auto simp: kept_def)
  with e have u: "us @ [''..''] = dots k" "k \<noteq> 0" by (auto simp: dots_def intro: gr0I)
  then have "us @ [''..'', ''..''] = dots (Suc k)"
    by (metis append.assoc append_Cons append_Nil dots_def replicate_Suc replicate_append_same)
  with u(2) e(3) show ?thesis by (auto intro: path_form_dots)
qed

lemma clean_elems_form: "path_form r (rev acc) \<Longrightarrow> path_form r (clean_elems r acc ws)"
proof (induction ws arbitrary: acc)
  case Nil
  then show ?case by simp
next
  case (Cons w ws)
  consider "w = '''' \<or> w = ''.''" | "kept [w]" | "w = ''..''" by (auto simp: kept_def)
  then show ?case
  proof cases
    case 1
    then show ?thesis using Cons by simp
  next
    case 2
    then show ?thesis using Cons.IH [of "w # acc"] path_form_snoc [OF Cons.prems 2] by (simp add: kept_def)
  next
    case w: 3
    show ?thesis
    proof (cases acc)
      case Nil
      then show ?thesis
        using Cons.IH [of "[]"] Cons.IH [of "[''..'']"] path_form_dots(1) [of 1] path_form_dots(2) [of r] w
        by (cases r) (auto simp: dots_def)
    next
      case (Cons a as)
      then have pf: "path_form r (rev as @ [a])" using Cons.prems by simp
      show ?thesis
      proof (cases "a = ''..''")
        case True
        with path_form_dotdot [of r "rev as"] pf have "path_form r (rev as @ [''..'', ''..''])"
          by blast
        then have "path_form r (rev (''..'' # acc))" using True \<open>acc = a # as\<close> by simp
        from Cons.IH [OF this] show ?thesis using w True \<open>acc = a # as\<close> by simp
      next
        case False
        from Cons.IH [OF path_form_butlast [OF pf False]]
        show ?thesis using w False \<open>acc = a # as\<close> by simp
      qed
    qed
  qed
qed

lemma clean_elems_idem: "clean_elems r [] (clean_elems r [] ws) = clean_elems r [] ws"
proof -
  have "path_form r (clean_elems r [] ws)"
    by (rule clean_elems_form) (simp add: path_form_dots)
  then obtain k es where c: "clean_elems r [] ws = dots k @ es" "kept es" "r \<longrightarrow> k = 0"
    unfolding path_form_def by blast
  show ?thesis
  proof (cases r)
    case True
    with c show ?thesis by (simp add: clean_elems_kept dots_def)
  next
    case False
    with c clean_elems_dots [OF c(2), of 0 k] show ?thesis by (simp add: dots_def)
  qed
qed

lemma clean_elems_Nil: "clean_elems r acc ([] # ws) = clean_elems r acc ws"
  by simp

lemma path_elems_path_of:
  assumes "clean_elems r [] es = es" and "\<forall>w \<in> set es. w \<noteq> '''' \<and> CHR ''/'' \<notin> set w"
  shows "path_elems (path_of r es) = es" and "rooted (path_of r es) = r"
proof -
  show ro: "rooted (path_of r es) = r"
  proof (cases "r \<or> es = []")
    case True
    then show ?thesis by (auto simp: path_of_def rooted_def has_prefix_def)
  next
    case False
    then obtain w ws where e: "es = w # ws" by (cases es) auto
    with assms(2) obtain c cs where "w = c # cs" "c \<noteq> CHR ''/''" by (cases w) auto
    with e False show ?thesis by (cases ws) (auto simp: path_of_def rooted_def has_prefix_def)
  qed
  show "path_elems (path_of r es) = es"
  proof (cases "es = []")
    case True
    then show ?thesis
      by (cases r) (simp_all add: path_of_def path_elems_def rooted_def has_prefix_def)
  next
    case False
    then have sp: "split_on (CHR ''/'') (join_with ''/'' es) = es"
      using assms(2) by (intro split_on_join) auto
    show ?thesis
      using ro sp assms(1) False by (auto simp: path_elems_def path_of_def)
  qed
qed

lemma path_elems_Clean [simp]: "path_elems (filepath_Clean p) = path_elems p"
  and rooted_Clean [simp]: "rooted (filepath_Clean p) = rooted p"
proof -
  have "clean_elems (rooted p) [] (path_elems p) = path_elems p"
    unfolding path_elems_def by (rule clean_elems_idem)
  note path_elems_path_of [OF this]
  then show "path_elems (filepath_Clean p) = path_elems p" "rooted (filepath_Clean p) = rooted p"
    by (auto simp: filepath_Clean_def path_elems_ne path_elems_no_slash)
qed

lemma filepath_Clean_idem [simp]: "filepath_Clean (filepath_Clean p) = filepath_Clean p"
  by (subst filepath_Clean_def) (simp, simp add: filepath_Clean_def)

lemma filepath_Clean_Dir [simp]: "filepath_Clean (filepath_Dir p) = filepath_Dir p"
  by (simp add: filepath_Dir_def)

subsection \<open>Packages strconv and fmt\<close>

definition hex_digit :: "nat \<Rightarrow> char" where [go_defs]:
  "hex_digit d = (if d < 10 then char_of (48 + d) else char_of (55 + d))"

fun hex_upper :: "nat \<Rightarrow> string" where
  "hex_upper n = (if n < 16 then [hex_digit n] else hex_upper (n div 16) @ [hex_digit (n mod 16)])"

declare hex_upper.simps [simp del]

text \<open>The verb \<open>%0wX\<close>: at least \<open>w\<close> upper-case digits, padded with zeros, never truncated.\<close>

definition fmt_X :: "nat \<Rightarrow> nat \<Rightarrow> string" where [go_defs]:
  "fmt_X w n = (let h = hex_upper n in replicate (w - length h) (CHR ''0'') @ h)"

text \<open>The low \<open>w\<close> digits of a number, the form in which fixed-width names are compared.\<close>

fun hexw :: "nat \<Rightarrow> nat \<Rightarrow> string" where
  "hexw 0 n = []"
| "hexw (Suc w) n = hexw w (n div 16) @ [hex_digit (n mod 16)]"

definition digit_val :: "char \<Rightarrow> nat option" where [go_defs]:
  "digit_val c = (let n = of_char c :: nat in
     if 48 \<le> n \<and> n \<le> 57 then Some (n - 48)
     else if 97 \<le> n \<and> n \<le> 122 then Some (n - 87)
     else if 65 \<le> n \<and> n \<le> 90 then Some (n - 55)
     else None)"

definition ErrSyntax :: gerr where
  "ErrSyntax = EMsg ''invalid syntax''"

definition ErrRange :: gerr where
  "ErrRange = EMsg ''value out of range''"

text \<open>The digit loop of \<open>strconv.ParseUint\<close>: the first bad digit or the first overflow decides.\<close>

fun parse_digits :: "nat \<Rightarrow> nat \<Rightarrow> nat \<Rightarrow> string \<Rightarrow> gerr + nat" where
  "parse_digits base maxv n [] = Inr n"
| "parse_digits base maxv n (c # s) =
     (case digit_val c of
        None \<Rightarrow> Inl ErrSyntax
      | Some d \<Rightarrow> if base \<le> d then Inl ErrSyntax
                  else if maxv < n * base + d then Inl ErrRange
                  else parse_digits base maxv (n * base + d) s)"

definition ParseUint :: "string \<Rightarrow> nat \<Rightarrow> nat \<Rightarrow> gerr + nat" where [go_defs]:
  "ParseUint s base bits = (if s = [] then Inl ErrSyntax else parse_digits base (2 ^ bits - 1) 0 s)"

text \<open>\<open>strconv.ParseInt\<close>: an optional sign, then \<open>ParseUint\<close> and the range check of the width.\<close>

definition ParseInt :: "string \<Rightarrow> nat \<Rightarrow> nat \<Rightarrow> gerr + int" where [go_defs]:
  "ParseInt s base bits =
     (case s of
        [] \<Rightarrow> Inl ErrSyntax
      | c # t \<Rightarrow>
          (let neg = (c = CHR ''-''); u = (if c = CHR ''-'' \<or> c = CHR ''+'' then t else s)
           in case ParseUint u base 64 of
                Inl e \<Rightarrow> Inl e
              | Inr n \<Rightarrow> if \<not> neg \<and> 2 ^ (bits - 1) \<le> n then Inl ErrRange
                         else if neg \<and> 2 ^ (bits - 1) < n then Inl ErrRange
                         else Inr (if neg then - int n else int n)))"

definition Atoi :: "string \<Rightarrow> gerr + int" where [go_defs]:
  "Atoi s = ParseInt s 10 64"

lemma digit_val_hex_digit: "d < 16 \<Longrightarrow> digit_val (hex_digit d) = Some d"
  by (auto simp: digit_val_def hex_digit_def Let_def)

lemma hex_digit_less: "a < 16 \<Longrightarrow> b < 16 \<Longrightarrow> hex_digit a < hex_digit b \<longleftrightarrow> a < b"
  by (auto simp: hex_digit_def less_char_def)

lemma hex_digit_inj: "a < 16 \<Longrightarrow> b < 16 \<Longrightarrow> hex_digit a = hex_digit b \<longleftrightarrow> a = b"
  by (metis digit_val_hex_digit option.inject)

lemma length_hexw [simp]: "length (hexw w n) = w"
  by (induction w arbitrary: n) auto

lemma hexw_zero: "hexw w 0 = replicate w (CHR ''0'')"
proof (induction w)
  case 0
  then show ?case by simp
next
  case (Suc w)
  have "hex_digit 0 = CHR ''0''" by code_simp
  with Suc show ?case by (simp add: replicate_append_same)
qed

lemma hexw_pad: "n < 16 ^ w \<Longrightarrow> 0 < w \<Longrightarrow> hexw w n = replicate (w - length (hex_upper n)) (CHR ''0'') @ hex_upper n"
proof (induction w arbitrary: n)
  case 0
  then show ?case by simp
next
  case (Suc w)
  show ?case
  proof (cases "n < 16")
    case True
    then show ?thesis by (simp add: hex_upper.simps [of n] hexw_zero)
  next
    case False
    with Suc.prems have "n div 16 < 16 ^ w" by (simp add: less_mult_imp_div_less mult.commute)
    moreover have "0 < w" using False Suc.prems by (cases w) auto
    ultimately show ?thesis using Suc.IH [of "n div 16"] False
      by (simp add: hex_upper.simps [of n])
  qed
qed

lemma fmt_X_hexw: "n < 16 ^ w \<Longrightarrow> 0 < w \<Longrightarrow> fmt_X w n = hexw w n"
  by (simp add: fmt_X_def Let_def hexw_pad)

lemma parse_digits_append:
  "parse_digits b m n (s @ t) = (case parse_digits b m n s of Inl e \<Rightarrow> Inl e | Inr k \<Rightarrow> parse_digits b m k t)"
  by (induction s arbitrary: n) (auto split: option.splits)

lemma parse_digits_hexw:
  "n < 16 ^ w \<Longrightarrow> n \<le> m \<Longrightarrow> parse_digits 16 m 0 (hexw w n) = Inr n"
proof (induction w arbitrary: n)
  case 0
  then show ?case by simp
next
  case (Suc w)
  from Suc.prems have "n div 16 < 16 ^ w" by (simp add: less_mult_imp_div_less mult.commute)
  moreover from Suc.prems have "n div 16 \<le> m" by (meson div_le_dividend le_trans)
  ultimately have "parse_digits 16 m 0 (hexw w (n div 16)) = Inr (n div 16)" by (rule Suc.IH)
  then show ?case using Suc.prems
    by (simp add: parse_digits_append digit_val_hex_digit not_less)
qed

lemma ParseUint_hexw: "n < 16 ^ 8 \<Longrightarrow> ParseUint (hexw 8 n) 16 32 = Inr n"
  using parse_digits_hexw [of n 8 "2 ^ 32 - 1"]
  by (simp add: ParseUint_def flip: length_0_conv)

lemma lex_append_eq_len:
  fixes u v s t :: string
  assumes "length u = length v"
  shows "u @ s < v @ t \<longleftrightarrow> u < v \<or> u = v \<and> s < t"
  using assms by (induction u v rule: list_induct2) auto

lemma lex_snoc_digit:
  fixes u v :: string
  assumes "length u = length v"
  shows "u @ [c] < v @ [d] \<longleftrightarrow> u < v \<or> u = v \<and> c < d"
  using lex_append_eq_len [OF assms, of "[c]" "[d]"] by simp

lemma hexw_inj: "a < 16 ^ w \<Longrightarrow> b < 16 ^ w \<Longrightarrow> hexw w a = hexw w b \<longleftrightarrow> a = b"
  by (metis parse_digits_hexw max.cobounded1 max.cobounded2 sum.inject(2))

lemma div_mod_lex:
  fixes a b s :: nat
  assumes "0 < s"
  shows "a < b \<longleftrightarrow> a div s < b div s \<or> a div s = b div s \<and> a mod s < b mod s"
proof -
  have "a div s < b div s \<Longrightarrow> a < b"
    by (metis div_le_mono leD leI)
  moreover have "a < b \<Longrightarrow> a div s \<le> b div s" by (simp add: div_le_mono)
  moreover have "a div s = b div s \<Longrightarrow> a < b \<longleftrightarrow> a mod s < b mod s"
    by (metis add_less_cancel_left mult_div_mod_eq)
  ultimately show ?thesis by linarith
qed

text \<open>The order of fixed-width hexadecimal strings is the order of the numbers.\<close>

lemma hexw_less: "a < 16 ^ w \<Longrightarrow> b < 16 ^ w \<Longrightarrow> hexw w a < hexw w b \<longleftrightarrow> a < b"
proof (induction w arbitrary: a b)
  case 0
  then show ?case by simp
next
  case (Suc w)
  from Suc.prems have d: "a div 16 < 16 ^ w" "b div 16 < 16 ^ w"
    by (simp_all add: less_mult_imp_div_less mult.commute)
  have "hexw (Suc w) a < hexw (Suc w) b \<longleftrightarrow>
      a div 16 < b div 16 \<or> a div 16 = b div 16 \<and> a mod 16 < b mod 16"
    using Suc.IH [OF d] hexw_inj [OF d] by (simp add: lex_snoc_digit hex_digit_less)
  also have "\<dots> \<longleftrightarrow> a < b"
    using div_mod_lex [of 16 a b] by simp
  finally show ?case .
qed

lemma hexw_digits: "c \<in> set (hexw w n) \<Longrightarrow> \<exists>d<16. c = hex_digit d"
  by (induction w arbitrary: n) (auto intro: exI [of _ "n mod 16" for n])

end
