(* ===== verification/AesGcm.thy ===== *)
theory AesGcm
  imports IOStream GoLib "HOL-Library.Word"
begin

section \<open>Chunked AES-GCM (internal/opt/shared/streamcrypt/crypt/aesgcm)\<close>

text \<open>
  The encrypting writer and the decrypting reader as state machines over their buffers.  The cipher
  (\<open>crypto/cipher\<close>), the key derivation (\<open>argon2\<close>) and the random salt are parameters: \<open>aead\<close> has the
  two operations of the cipher under a key and the key derivation, with \<open>aead_ok\<close> what they promise.
\<close>

subsection \<open>The cipher\<close>

record aead =
  IDKey :: "string \<Rightarrow> bytes \<Rightarrow> bytes"
  Seal :: "bytes \<Rightarrow> bytes \<Rightarrow> bytes \<Rightarrow> bytes"
  OpenA :: "bytes \<Rightarrow> bytes \<Rightarrow> bytes \<Rightarrow> bytes option"
  NewCipher :: "bytes \<Rightarrow> gerr option"
  Overhead :: nat

definition aead_ok :: "aead \<Rightarrow> bool" where
  "aead_ok A \<longleftrightarrow> (\<forall>p s. NewCipher A (IDKey A p s) = None) \<and>
     (\<forall>k n pt. OpenA A k n (Seal A k n pt) = Some pt \<and> length (Seal A k n pt) = length pt + Overhead A)"

definition chunkSize :: nat where "chunkSize = 64 * 1024"
definition nonceSize :: nat where "nonceSize = 12"
definition saltSize :: nat where "saltSize = 16"
definition headerPrefix :: string where "headerPrefix = ''AEADv1''"

definition GeneratePBEKey :: "aead \<Rightarrow> string \<Rightarrow> bytes \<Rightarrow> bytes" where
  "GeneratePBEKey A password salt = IDKey A password salt"

text \<open>\<open>rand.Read\<close> is the parameter \<open>rnd\<close>.\<close>

definition GenerateRandomNBytes :: "(nat \<Rightarrow> gerr + bytes) \<Rightarrow> nat \<Rightarrow> gerr + bytes" where
  "GenerateRandomNBytes rnd n = rnd n"

record ChunkedGCMCrypter =
  Password :: string

definition NewChunkedGCMCrypter :: "string \<Rightarrow> ChunkedGCMCrypter" where
  "NewChunkedGCMCrypter password = \<lparr>Password = password\<rparr>"

definition gcm_FileExtension :: "ChunkedGCMCrypter \<Rightarrow> string" where
  "gcm_FileExtension c = ''.aes''"

definition gcm_Name :: "ChunkedGCMCrypter \<Rightarrow> string" where
  "gcm_Name c = ''aes-256-gcm''"

subsection \<open>The writer\<close>

record gcmChunkedWriter = sink +
  gw_key :: bytes
  gw_buf :: bytes
  gw_chunkNum :: "64 word"

text \<open>\<open>binary.BigEndian.PutUint64(nonce[4:], n)\<close>.\<close>

definition be64 :: "64 word \<Rightarrow> bytes" where
  "be64 w = map (\<lambda>i. char_of (unat (drop_bit (8 * (7 - i)) w) mod 256 :: nat)) [0..<8]"

definition nonce_of :: "64 word \<Rightarrow> bytes" where
  "nonce_of n = replicate 4 (CHR 0x00) @ be64 n"

definition gcm_flush :: "aead \<Rightarrow> ('a gcmChunkedWriter_scheme, unit) m" where
  "gcm_flush A =
     bindE (getE (\<lambda>g. (nonce_of (gw_chunkNum g), gw_key g, gw_buf g))) (\<lambda>(nonce, key, buf).
     thenE (sink_Write nonce)
    (thenE (sink_Write (Seal A key nonce buf))
      (modE (\<lambda>g. g\<lparr>gw_chunkNum := gw_chunkNum g + 1, gw_buf := []\<rparr>))))"

text \<open>\<open>Write\<close>: fill the buffer up to the chunk size, flush a full one.  The buffer is never full between
  calls, so every turn takes at least one byte; \<open>None\<close> stands for the loop that makes no progress.\<close>

fun gcm_write_loop :: "aead \<Rightarrow> nat \<Rightarrow> bytes \<Rightarrow> ('a gcmChunkedWriter_scheme, unit) m" where
  "gcm_write_loop A 0 p = throwE (EPanic ''loop does not end'')"
| "gcm_write_loop A (Suc n) p =
     (if p = [] then retE ()
      else
        bindE (getE (\<lambda>g. min (chunkSize - length (gw_buf g)) (length p))) (\<lambda>space.
        thenE (modE (\<lambda>g. g\<lparr>gw_buf := gw_buf g @ take space p\<rparr>))
       (thenE (bindE (getE (\<lambda>g. length (gw_buf g) = chunkSize)) (\<lambda>full. whenE full (gcm_flush A)))
         (gcm_write_loop A n (drop space p)))))"

definition gcm_Write :: "aead \<Rightarrow> bytes \<Rightarrow> ('a gcmChunkedWriter_scheme, unit) m" where
  "gcm_Write A p = gcm_write_loop A (Suc (length p)) p"

definition gcm_Close :: "aead \<Rightarrow> ('a gcmChunkedWriter_scheme, unit) m" where
  "gcm_Close A = bindE (getE (\<lambda>g. 0 < length (gw_buf g))) (\<lambda>b. whenE b (gcm_flush A))"

text \<open>\<open>Encrypt\<close>: write the header and set up the writer.\<close>

definition gcm_Encrypt :: "aead \<Rightarrow> (nat \<Rightarrow> gerr + bytes) \<Rightarrow> ChunkedGCMCrypter \<Rightarrow> ('a gcmChunkedWriter_scheme, unit) m" where
  "gcm_Encrypt A rnd c =
     bindE (liftE (GenerateRandomNBytes rnd saltSize)) (\<lambda>salt.
       let key = GeneratePBEKey A (Password c) salt in
       case NewCipher A key of
         Some e \<Rightarrow> throwE e
       | None \<Rightarrow>
           thenE (sink_Write headerPrefix)
          (thenE (sink_Write salt)
            (modE (\<lambda>g. g\<lparr>gw_key := key, gw_buf := [], gw_chunkNum := 0\<rparr>))))"

subsection \<open>The reader\<close>

record gcmChunkedReader =
  gr_key :: bytes
  gr_src :: io_reader
  gr_chunkNum :: "64 word"
  gr_buf :: bytes

definition gcm_Decrypt :: "aead \<Rightarrow> ChunkedGCMCrypter \<Rightarrow> io_reader \<Rightarrow> gerr + gcmChunkedReader" where
  "gcm_Decrypt A c r =
     (case io_ReadFull (length headerPrefix + saltSize) r of
        ((h, Some e), _) \<Rightarrow> Inl e
      | ((header, None), r') \<Rightarrow>
          if take (length headerPrefix) header \<noteq> headerPrefix then Inl (EMsg ''invalid file header'')
          else
            let salt = drop (length headerPrefix) header; key = GeneratePBEKey A (Password c) salt in
            case NewCipher A key of
              Some e \<Rightarrow> Inl e
            | None \<Rightarrow> Inr \<lparr>gr_key = key, gr_src = r', gr_chunkNum = 0, gr_buf = []\<rparr>)"

definition ErrTampered :: gerr where
  "ErrTampered = EMsg ''decryption failed: tampering or corruption detected''"

definition gcm_copy_out :: "nat \<Rightarrow> gcmChunkedReader \<Rightarrow> (bytes \<times> gerr option) \<times> gcmChunkedReader" where
  "gcm_copy_out k g = ((take k (gr_buf g), None), g\<lparr>gr_buf := drop k (gr_buf g)\<rparr>)"

text \<open>\<open>Read\<close> into a buffer of length \<open>k\<close>: the bytes and the error.\<close>

definition gcm_Read :: "aead \<Rightarrow> nat \<Rightarrow> gcmChunkedReader \<Rightarrow> (bytes \<times> gerr option) \<times> gcmChunkedReader" where
  "gcm_Read A k g =
     (if gr_buf g \<noteq> [] then gcm_copy_out k g
      else
        case io_ReadFull nonceSize (gr_src g) of
          ((_, Some e), r1) \<Rightarrow> (([], Some e), g\<lparr>gr_src := r1\<rparr>)
        | ((nonce, None), r1) \<Rightarrow>
            (case io_ReadFull (chunkSize + Overhead A) r1 of
               ((ciphertext, err), r2) \<Rightarrow>
                 if err \<noteq> None \<and> err \<noteq> Some EEOF \<and> err \<noteq> Some EUnexpectedEOF
                 then (([], err), g\<lparr>gr_src := r2\<rparr>)
                 else
                   (case OpenA A (gr_key g) nonce ciphertext of
                      None \<Rightarrow> (([], Some ErrTampered), g\<lparr>gr_src := r2\<rparr>)
                    | Some pt \<Rightarrow>
                        gcm_copy_out k (g\<lparr>gr_src := r2, gr_buf := pt, gr_chunkNum := gr_chunkNum g + 1\<rparr>))))"

text \<open>Reading it to the end with buffers of length \<open>Suc k\<close>: what it delivers as a reader.\<close>

lemma gcm_Read_less:
  assumes "gcm_Read A (Suc k) g = ((d, None), g')"
  shows "(length (fst (gr_src g')) < length (fst (gr_src g))) \<or>
    gr_src g' = gr_src g \<and> length (gr_buf g') < length (gr_buf g)"
proof -
  obtain d0 e0 where s: "gr_src g = (d0, e0)" by (cases "gr_src g")
  show ?thesis
    using assms
    by (auto simp: gcm_Read_def gcm_copy_out_def s io_ReadFull_def nonceSize_def split: if_splits option.splits)
qed

function gcm_drain :: "aead \<Rightarrow> nat \<Rightarrow> gcmChunkedReader \<Rightarrow> io_reader" where
  "gcm_drain A k g =
     (case gcm_Read A (Suc k) g of
        ((d, Some e), _) \<Rightarrow> (d, e)
      | ((d, None), g') \<Rightarrow> (case gcm_drain A k g' of (d', e) \<Rightarrow> (d @ d', e)))"
  by pat_completeness auto
termination
  by (relation "measures [\<lambda>(A, k, g). length (fst (gr_src g)), \<lambda>(A, k, g). length (gr_buf g)]")
    (auto dest!: sym [of "((_, None), _)"] gcm_Read_less)

declare gcm_drain.simps [simp del]

end
