(* ===== verification/AesGcmSpec.thy ===== *)
theory AesGcmSpec
  imports AesGcm
begin

section \<open>Correctness of the chunked encryption\<close>

text \<open>
  The stored format is the header, the salt and one frame per chunk, a nonce and the sealed chunk; every
  chunk but the last is full.  The reader delivers the chunks of any such sequence of frames, whatever
  their nonces are and whatever their order.
\<close>

subsection \<open>Frames\<close>

fun frames :: "aead \<Rightarrow> bytes \<Rightarrow> (bytes \<times> bytes) list \<Rightarrow> bytes" where
  "frames A key [] = []"
| "frames A key ((nonce, c) # fs) = nonce @ Seal A key nonce c @ frames A key fs"

lemma frames_append: "frames A key (xs @ ys) = frames A key xs @ frames A key ys"
  by (induction A key xs rule: frames.induct) auto

definition counted :: "bytes list \<Rightarrow> (bytes \<times> bytes) list" where
  "counted cs = map (\<lambda>(i, c). (nonce_of (word_of_nat i), c)) (enumerate 0 cs)"

lemma counted_snoc: "counted (cs @ [c]) = counted cs @ [(nonce_of (word_of_nat (length cs)), c)]"
  by (simp add: counted_def enumerate_append_eq)

lemma map_snd_counted: "map snd (counted cs) = cs"
  by (induction cs rule: rev_induct) (simp_all add: counted_snoc, simp add: counted_def)

lemma length_be64 [simp]: "length (be64 n) = 8"
  by (simp add: be64_def)

lemma length_nonce_of [simp]: "length (nonce_of n) = nonceSize"
  by (simp add: nonce_of_def nonceSize_def)

lemma char_of_mod_eq: "(char_of (m mod 256 :: nat) = char_of (n mod 256)) \<longleftrightarrow> m mod 256 = n mod (256::nat)"
  by (metis char_of_mod_256 of_char_of mod_mod_trivial)

lemma be64_byte: "i < 8 \<Longrightarrow> j < 8 \<Longrightarrow>
    bit (unat (drop_bit (8 * i) w) mod 256) j \<longleftrightarrow> bit (w :: 64 word) (8 * i + j)"
proof -
  assume a: "i < 8" "j < 8"
  have "unat (drop_bit (8 * i) w) mod 256 = take_bit 8 (unat (drop_bit (8 * i) w))"
    by (simp add: take_bit_eq_mod)
  moreover have "bit (unat (drop_bit (8 * i) w)) j = bit (drop_bit (8 * i) w) j"
    by (simp add: bit_unsigned_iff)
  ultimately show ?thesis using a by (simp add: bit_take_bit_iff bit_drop_bit_eq)
qed

lemma be64_inj: "be64 m = be64 n \<Longrightarrow> m = n"
proof (rule bit_word_eqI)
  fix b assume e: "be64 m = be64 n" and b: "b < LENGTH(64)"
  let ?i = "b div 8"
  have i: "?i < 8" "7 - ?i < 8" "7 - (7 - ?i) = ?i" using b by (auto simp: less_mult_imp_div_less)
  have "be64 m ! (7 - ?i) = be64 n ! (7 - ?i)" using e by simp
  then have "unat (drop_bit (8 * ?i) m) mod 256 = unat (drop_bit (8 * ?i) n) mod 256"
    using i by (simp add: be64_def char_of_mod_eq)
  then show "bit m b = bit n b"
    using be64_byte [OF i(1), of "b mod 8" m] be64_byte [OF i(1), of "b mod 8" n] by simp
qed

lemma nonce_of_inj: "nonce_of m = nonce_of n \<longleftrightarrow> m = n"
  by (auto simp: nonce_of_def dest: be64_inj)

lemma distinct_nonces: "length cs \<le> 2 ^ 64 \<Longrightarrow> distinct (map fst (counted cs))"
proof (induction cs rule: rev_induct)
  case Nil
  then show ?case by (simp add: counted_def)
next
  case (snoc c cs)
  have "word_of_nat i \<noteq> (word_of_nat (length cs) :: 64 word)" if "i < length cs" for i
    using that snoc.prems by (simp add: word_unat_eq_iff unat_of_nat take_bit_nat_eq_self)
  then have "nonce_of (word_of_nat (length cs)) \<notin> set (map fst (counted cs))"
    by (force simp: counted_def nonce_of_inj in_set_enumerate_eq)
  with snoc show ?case by (simp add: counted_snoc)
qed

subsection \<open>The writer\<close>

definition gw_inv :: "aead \<Rightarrow> bytes \<Rightarrow> bytes \<Rightarrow> (nat \<Rightarrow> gerr option) \<Rightarrow> bytes \<Rightarrow> 'a gcmChunkedWriter_scheme \<Rightarrow> bool" where
  "gw_inv A pre key F data g \<longleftrightarrow> (\<exists>cs. gw_key g = key \<and> k_fault g = F \<and>
     k_out g = pre @ frames A key (counted cs) \<and>
     gw_chunkNum g = word_of_nat (length cs) \<and> data = concat cs @ gw_buf g \<and>
     (\<forall>c \<in> set cs. length c = chunkSize) \<and> length (gw_buf g) < chunkSize)"

definition gw_done :: "aead \<Rightarrow> bytes \<Rightarrow> bytes \<Rightarrow> bytes \<Rightarrow> 'a gcmChunkedWriter_scheme \<Rightarrow> bool" where
  "gw_done A pre key data g \<longleftrightarrow> (\<exists>cs. k_out g = pre @ frames A key (counted cs) \<and> data = concat cs \<and>
     (\<forall>c \<in> set (butlast cs). length c = chunkSize) \<and> (\<forall>c \<in> set cs. 0 < length c \<and> length c \<le> chunkSize))"

lemma wp_gcm_flush:
  assumes "gw_key g = key" and "k_out g = pre @ frames A key (counted cs)" and "k_fault g = F"
    and "gw_chunkNum g = word_of_nat (length cs)"
    and "\<And>t. gw_key t = key \<Longrightarrow> k_fault t = F \<Longrightarrow> k_out t = pre @ frames A key (counted (cs @ [gw_buf g])) \<Longrightarrow>
      gw_chunkNum t = word_of_nat (length (cs @ [gw_buf g])) \<Longrightarrow> gw_buf t = [] \<Longrightarrow> Q () t"
    and "\<And>n e t. F n = Some e \<Longrightarrow> R e t"
  shows "wp (gcm_flush A) Q R g"
  using assms by (auto simp: gcm_flush_def counted_snoc frames_append split: option.split)

lemma chunkSize_pos [simp]: "0 < chunkSize"
  by (simp add: chunkSize_def)

lemma wp_gcm_write_loop:
  assumes "gw_inv A pre key F data g" and "length p < n"
  shows "wp (gcm_write_loop A n p) (\<lambda>_. gw_inv A pre key F (data @ p)) (\<lambda>e _. \<exists>n. F n = Some e) g"
  using assms
proof (induction n arbitrary: data g p)
  case (Suc n)
  obtain cs where cs: "gw_key g = key" "k_fault g = F" "k_out g = pre @ frames A key (counted cs)"
    "gw_chunkNum g = word_of_nat (length cs)" "data = concat cs @ gw_buf g"
    "\<forall>c \<in> set cs. length c = chunkSize" "length (gw_buf g) < chunkSize"
    using Suc.prems(1) unfolding gw_inv_def by blast
  let ?k = "min (chunkSize - length (gw_buf g)) (length p)"
  show ?case
  proof (cases "p = []")
    case True
    then show ?thesis using Suc.prems by simp
  next
    case False
    with cs(7) Suc.prems(2) have less: "length (drop ?k p) < n" by (cases p) (auto simp: min_def)
    note step = Suc.IH [OF _ less]
    have d: "(data @ take ?k p) @ drop ?k p = data @ p" by simp
    let ?g = "g\<lparr>gw_buf := gw_buf g @ take ?k p\<rparr>"
    show ?thesis
    proof (cases "length (gw_buf g) + ?k = chunkSize")
      case full: True
      have "wp (gcm_flush A) (\<lambda>_. wp (gcm_write_loop A n (drop ?k p)) (\<lambda>_. gw_inv A pre key F (data @ p))
          (\<lambda>e _. \<exists>n. F n = Some e)) (\<lambda>e _. \<exists>n. F n = Some e) ?g"
      proof (rule wp_gcm_flush [where cs = cs])
        fix t :: "'a gcmChunkedWriter_scheme"
        assume t: "gw_key t = key" "k_fault t = F" "k_out t = pre @ frames A key (counted (cs @ [gw_buf ?g]))"
          "gw_chunkNum t = word_of_nat (length (cs @ [gw_buf ?g]))" "gw_buf t = []"
        have "gw_inv A pre key F (data @ take ?k p) t"
          unfolding gw_inv_def by (rule exI [of _ "cs @ [gw_buf ?g]"]) (use t cs full in auto)
        from step [OF this] show "wp (gcm_write_loop A n (drop ?k p)) (\<lambda>_. gw_inv A pre key F (data @ p))
          (\<lambda>e _. \<exists>n. F n = Some e) t" unfolding d .
      qed (use cs in auto)
      with False full show ?thesis by (simp add: min_def split: if_splits)
    next
      case notfull: False
      have "gw_inv A pre key F (data @ take ?k p) ?g"
        unfolding gw_inv_def by (rule exI [of _ cs]) (use cs notfull in auto)
      from step [OF this] False notfull show ?thesis unfolding d by (simp add: min_def split: if_splits)
    qed
  qed
qed simp

lemma wp_gcm_Write:
  assumes "gw_inv A pre key F data g"
  shows "wp (gcm_Write A p) (\<lambda>_. gw_inv A pre key F (data @ p)) (\<lambda>e _. \<exists>n. F n = Some e) g"
  unfolding gcm_Write_def by (rule wp_gcm_write_loop [OF assms]) simp

lemma wp_gcm_write_all:
  assumes "gw_inv A pre key F data g"
  shows "wp (write_all (gcm_Write A) ps) (\<lambda>_. gw_inv A pre key F (data @ concat ps)) (\<lambda>e _. \<exists>n. F n = Some e) g"
  using assms
proof (induction ps arbitrary: data g)
  case (Cons p ps)
  show ?case
    using Cons.IH by (auto intro!: wp_conseq [OF wp_gcm_Write [OF Cons.prems]] dest: Cons.IH)
qed simp

lemma wp_gcm_Close:
  assumes "gw_inv A pre key F data g"
  shows "wp (gcm_Close A) (\<lambda>_. gw_done A pre key data) (\<lambda>e _. \<exists>n. F n = Some e) g"
proof -
  obtain cs where cs: "gw_key g = key" "k_fault g = F" "k_out g = pre @ frames A key (counted cs)"
    "gw_chunkNum g = word_of_nat (length cs)" "data = concat cs @ gw_buf g"
    "\<forall>c \<in> set cs. length c = chunkSize" "length (gw_buf g) < chunkSize"
    using assms unfolding gw_inv_def by blast
  have some: "wp (gcm_flush A) (\<lambda>_. gw_done A pre key data) (\<lambda>e _. \<exists>n. F n = Some e) g" if "gw_buf g \<noteq> []"
  proof (rule wp_gcm_flush [where cs = cs, OF cs(1,3,2,4)])
    fix t :: "'a gcmChunkedWriter_scheme"
    assume "k_out t = pre @ frames A key (counted (cs @ [gw_buf g]))"
    then show "gw_done A pre key data t"
      unfolding gw_done_def by (intro exI [of _ "cs @ [gw_buf g]"]) (use cs that in auto)
  qed blast
  have none: "gw_done A pre key data g" if "gw_buf g = []"
    unfolding gw_done_def by (rule exI [of _ cs]) (use cs that in \<open>auto dest: in_set_butlastD\<close>)
  show ?thesis using some none by (simp add: gcm_Close_def)
qed

text \<open>Encrypting a stream that is written in the given pieces.\<close>

definition encrypt_pieces :: "aead \<Rightarrow> (nat \<Rightarrow> gerr + bytes) \<Rightarrow> ChunkedGCMCrypter \<Rightarrow> bytes list \<Rightarrow> ('a gcmChunkedWriter_scheme, unit) m" where
  "encrypt_pieces A rnd c ps =
     thenE (gcm_Encrypt A rnd c) (thenE (write_all (gcm_Write A) ps) (gcm_Close A))"

lemma wp_encrypt_pieces:
  assumes "rnd saltSize = Inr salt" and "NewCipher A (IDKey A (Password c) salt) = None"
  shows "wp (encrypt_pieces A rnd c ps)
    (\<lambda>_. gw_done A (k_out g @ headerPrefix @ salt) (IDKey A (Password c) salt) (concat ps))
    (\<lambda>e _. \<exists>n. k_fault g n = Some e) g"
proof -
  have start: "gw_inv A pre key F [] t" if "gw_key t = key" "k_fault t = F" "k_out t = pre" "gw_chunkNum t = 0" "gw_buf t = []"
    for pre key F and t :: "'a gcmChunkedWriter_scheme"
    unfolding gw_inv_def by (rule exI [of _ "[]"]) (use that in \<open>simp add: counted_def\<close>)
  show ?thesis
    unfolding encrypt_pieces_def gcm_Encrypt_def
    by (auto simp: GenerateRandomNBytes_def GeneratePBEKey_def assms Let_def split: option.split
        intro!: wp_conseq [OF wp_gcm_write_all] start wp_gcm_Close elim: wp_conseq)
qed

subsection \<open>The reader\<close>

definition good_frames :: "(bytes \<times> bytes) list \<Rightarrow> bool" where
  "good_frames fs \<longleftrightarrow> (\<forall>(n, c) \<in> set fs. length n = nonceSize) \<and>
     (\<forall>(n, c) \<in> set (butlast fs). length c = chunkSize) \<and> (\<forall>(n, c) \<in> set fs. length c \<le> chunkSize)"

lemma good_frames_Cons:
  "good_frames ((n, c) # fs) \<Longrightarrow> length n = nonceSize \<and> length c \<le> chunkSize \<and>
     (fs \<noteq> [] \<longrightarrow> length c = chunkSize) \<and> good_frames fs"
  by (auto simp: good_frames_def split: if_splits)

lemma gcm_drain_buf:
  "gcm_drain A k \<lparr>gr_key = key, gr_src = src, gr_chunkNum = i, gr_buf = b\<rparr> =
     (case gcm_drain A k \<lparr>gr_key = key, gr_src = src, gr_chunkNum = i, gr_buf = []\<rparr> of (d, e) \<Rightarrow> (b @ d, e))"
proof (induction "length b" arbitrary: b rule: less_induct)
  case less
  show ?case
  proof (cases b)
    case (Cons x b')
    have "gcm_drain A k \<lparr>gr_key = key, gr_src = src, gr_chunkNum = i, gr_buf = b\<rparr> =
      (case gcm_drain A k \<lparr>gr_key = key, gr_src = src, gr_chunkNum = i, gr_buf = drop (Suc k) b\<rparr> of
         (d, e) \<Rightarrow> (take (Suc k) b @ d, e))"
      by (subst gcm_drain.simps) (simp add: gcm_Read_def gcm_copy_out_def Cons split: prod.split)
    also have "\<dots> = (case gcm_drain A k \<lparr>gr_key = key, gr_src = src, gr_chunkNum = i, gr_buf = []\<rparr> of
         (d, e) \<Rightarrow> (b @ d, e))"
      by (subst less) (simp_all add: Cons split: prod.split)
    finally show ?thesis .
  qed (simp split: prod.split)
qed

lemma gcm_drain_frame:
  assumes "aead_ok A" and "length n = nonceSize" and "length c \<le> chunkSize" and "rest \<noteq> [] \<longrightarrow> length c = chunkSize"
  shows "gcm_drain A k \<lparr>gr_key = key, gr_src = (n @ Seal A key n c @ rest, EEOF), gr_chunkNum = i, gr_buf = []\<rparr> =
    (case gcm_drain A k \<lparr>gr_key = key, gr_src = (rest, EEOF), gr_chunkNum = i + 1, gr_buf = []\<rparr> of (d, e) \<Rightarrow> (c @ d, e))"
proof -
  have s: "length (Seal A key n c) = length c + Overhead A" "OpenA A key n (Seal A key n c) = Some c"
    using assms(1) by (simp_all add: aead_ok_def)
  have r: "gcm_Read A (Suc k) \<lparr>gr_key = key, gr_src = (n @ Seal A key n c @ rest, EEOF), gr_chunkNum = i, gr_buf = []\<rparr> =
     ((take (Suc k) c, None), \<lparr>gr_key = key, gr_src = (rest, EEOF), gr_chunkNum = i + 1, gr_buf = drop (Suc k) c\<rparr>)"
  proof (cases "length c = chunkSize")
    case True
    then show ?thesis
      using assms(2) s by (simp add: gcm_Read_def io_ReadFull_def gcm_copy_out_def)
  next
    case False
    then show ?thesis
      using assms(2-4) s by (simp add: gcm_Read_def io_ReadFull_def gcm_copy_out_def)
  qed
  show ?thesis
    by (subst gcm_drain.simps, simp only: r) (simp add: gcm_drain_buf [where b = "drop (Suc k) c"] split: prod.split)
qed

lemma gcm_drain_frames:
  assumes "aead_ok A" and "good_frames fs"
  shows "gcm_drain A k \<lparr>gr_key = key, gr_src = (frames A key fs, EEOF), gr_chunkNum = i, gr_buf = []\<rparr> =
    (concat (map snd fs), EEOF)"
  using assms(2)
proof (induction fs arbitrary: i)
  case Nil
  then show ?case by (subst gcm_drain.simps) (simp add: gcm_Read_def io_ReadFull_def nonceSize_def)
next
  case (Cons f fs)
  obtain n c where f: "f = (n, c)" by (cases f)
  have g: "length n = nonceSize" "length c \<le> chunkSize" "fs \<noteq> [] \<longrightarrow> length c = chunkSize" "good_frames fs"
    using good_frames_Cons Cons.prems f by blast+
  have "frames A key fs \<noteq> [] \<longrightarrow> length c = chunkSize" using g(3) by (cases fs) auto
  from gcm_drain_frame [OF assms(1) g(1,2) this] show ?case
    using Cons.IH [OF g(4)] by (simp add: f)
qed

lemma gcm_Decrypt_header:
  assumes "aead_ok A" and "length salt = saltSize"
  shows "gcm_Decrypt A c (headerPrefix @ salt @ body, e) =
    Inr \<lparr>gr_key = IDKey A (Password c) salt, gr_src = (body, e), gr_chunkNum = 0, gr_buf = []\<rparr>"
  using assms by (simp add: gcm_Decrypt_def io_ReadFull_def aead_ok_def GeneratePBEKey_def Let_def)

lemma good_frames_counted:
  assumes "\<forall>c \<in> set (butlast cs). length c = chunkSize"
    and "\<forall>c \<in> set cs. 0 < length c \<and> length c \<le> chunkSize"
  shows "good_frames (counted cs)"
proof -
  have m: "map snd (butlast (counted cs)) = butlast cs" "map snd (counted cs) = cs"
    by (simp_all add: map_butlast map_snd_counted)
  have "x \<in> set (butlast cs)" if "(n, x) \<in> set (butlast (counted cs))" for n x
    using that m(1) by (metis imageI image_set snd_conv)
  moreover have "x \<in> set cs" if "(n, x) \<in> set (counted cs)" for n x
    using that m(2) by (metis imageI image_set snd_conv)
  moreover have "length n = nonceSize" if "(n, x) \<in> set (counted cs)" for n x
    using that by (auto simp: counted_def)
  ultimately show ?thesis using assms unfolding good_frames_def by blast
qed

lemma gw_done_read:
  assumes "aead_ok A" and "length salt = saltSize"
    and "gw_done A (headerPrefix @ salt) (IDKey A (Password c) salt) data t"
  shows "\<exists>r. gcm_Decrypt A c (k_out t, EEOF) = Inr r \<and> gcm_drain A k r = (data, EEOF)"
proof -
  obtain cs where cs: "k_out t = headerPrefix @ salt @ frames A (IDKey A (Password c) salt) (counted cs)"
    "data = concat cs" "\<forall>c \<in> set (butlast cs). length c = chunkSize"
    "\<forall>c \<in> set cs. 0 < length c \<and> length c \<le> chunkSize"
    using assms(3) by (auto simp: gw_done_def)
  have "good_frames (counted cs)" using cs(3,4) by (rule good_frames_counted)
  from gcm_drain_frames [OF assms(1) this] show ?thesis
    by (simp add: cs(1,2) gcm_Decrypt_header [OF assms(1,2)] map_snd_counted)
qed

subsection \<open>Properties\<close>

text \<open>C18: Decrypting what was encrypted gives the data back: if a stream is written in any pieces and
  closed without an error, then reading the stored bytes with the same password, with read buffers of any
  size, delivers exactly the data and a normal end.\<close>

theorem gcm_roundtrip:
  assumes "aead_ok A" and "rnd saltSize = Inr salt" and "length salt = saltSize" and "k_out g = []"
    and "encrypt_pieces A rnd c ps g = (Inr (), t)"
  shows "\<exists>r. gcm_Decrypt A c (k_out t, EEOF) = Inr r \<and> gcm_drain A k r = (concat ps, EEOF)"
proof (rule gw_done_read [OF assms(1,3)])
  have "NewCipher A (IDKey A (Password c) salt) = None" using assms(1) by (simp add: aead_ok_def)
  from wpD_ok [OF wp_encrypt_pieces [where rnd = rnd and salt = salt and ps = ps, OF assms(2) this] assms(5)]
  show "gw_done A (headerPrefix @ salt) (IDKey A (Password c) salt) (concat ps) t"
    by (simp add: assms(4))
qed

text \<open>The stored format: the header, the salt and one frame per chunk, every chunk but the last full and
  none empty; no nonce is used twice under the key of the stream.\<close>

theorem gcm_format:
  assumes "rnd saltSize = Inr salt" and "NewCipher A (IDKey A (Password c) salt) = None" and "k_out g = []"
    and "encrypt_pieces A rnd c ps g = (Inr (), t)" and "length (concat ps) \<le> 2 ^ 64"
  shows "\<exists>fs. k_out t = headerPrefix @ salt @ frames A (IDKey A (Password c) salt) fs \<and>
    concat (map snd fs) = concat ps \<and> distinct (map fst fs) \<and>
    (\<forall>c \<in> set (butlast (map snd fs)). length c = chunkSize) \<and>
    (\<forall>c \<in> set (map snd fs). 0 < length c \<and> length c \<le> chunkSize)"
proof -
  from wpD_ok [OF wp_encrypt_pieces [where rnd = rnd and salt = salt and ps = ps, OF assms(1,2)] assms(4)] assms(3)
  obtain cs where cs: "k_out t = headerPrefix @ salt @ frames A (IDKey A (Password c) salt) (counted cs)"
    "concat ps = concat cs" "\<forall>c \<in> set (butlast cs). length c = chunkSize"
    "\<forall>c \<in> set cs. 0 < length c \<and> length c \<le> chunkSize"
    by (auto simp: gw_done_def)
  have "length cs \<le> length (concat cs)"
    using cs(4) by (induction cs) (auto simp: neq_Nil_conv)
  then have "distinct (map fst (counted cs))"
    using assms(5) cs(2) by (intro distinct_nonces) simp
  with cs show ?thesis
    by (intro exI [of _ "counted cs"]) (simp add: map_snd_counted)
qed

text \<open>C36: The reader does not check the counter in the nonces: frames with any nonces, in any order, repeated
  or left out at the end, are delivered without an error.  So a stored file whose chunks were exchanged
  decrypts to other data, and one cut at a chunk boundary decrypts to a prefix.\<close>

theorem gcm_order_unchecked:
  assumes "aead_ok A" and "length salt = saltSize" and "good_frames fs"
  shows "\<exists>r. gcm_Decrypt A c (headerPrefix @ salt @ frames A (IDKey A (Password c) salt) fs, EEOF) = Inr r \<and>
    gcm_drain A k r = (concat (map snd fs), EEOF)"
  by (simp add: gcm_Decrypt_header [OF assms(1,2)] gcm_drain_frames [OF assms(1,3)])




subsection \<open>Concrete runs\<close>

text \<open>A stand-in for the cipher, which appends a tag of sixteen zero bytes, and a fixed salt.\<close>

definition toy_aead :: aead where
  "toy_aead = \<lparr>IDKey = (\<lambda>p s. p @ s), Seal = (\<lambda>k n pt. pt @ replicate 16 (CHR 0x00)),
     OpenA = (\<lambda>k n ct. if 16 \<le> length ct then Some (take (length ct - 16) ct) else None),
     NewCipher = (\<lambda>k. None), Overhead = 16\<rparr>"

definition toy_rnd :: "nat \<Rightarrow> gerr + bytes" where
  "toy_rnd n = Inr (replicate n (CHR ''s''))"

definition toy_writer :: gcmChunkedWriter where
  "toy_writer = \<lparr>k_out = [], k_tick = 0, k_fault = (\<lambda>_. None), gw_key = [], gw_buf = [], gw_chunkNum = 0\<rparr>"

definition toy_crypter :: ChunkedGCMCrypter where
  "toy_crypter = NewChunkedGCMCrypter ''pw''"

lemma toy_ok: "aead_ok toy_aead" "toy_rnd saltSize = Inr (replicate saltSize (CHR ''s''))" "k_out toy_writer = []"
  by (simp_all add: aead_ok_def toy_aead_def toy_rnd_def toy_writer_def)

lemma toy_cipher: "NewCipher toy_aead k = None"
  by (simp add: toy_aead_def)

lemma toy_run: "fst (encrypt_pieces toy_aead toy_rnd toy_crypter [''ab'', ''c''] toy_writer) = Inr ()"
proof (cases "encrypt_pieces toy_aead toy_rnd toy_crypter [''ab'', ''c''] toy_writer")
  case (Pair r t)
  have w: "wp (encrypt_pieces toy_aead toy_rnd toy_crypter [''ab'', ''c'']) (\<lambda>_ _. True) (\<lambda>_ _. False) toy_writer"
    by (rule wp_conseq [OF wp_encrypt_pieces [where rnd = toy_rnd, OF toy_ok(2) toy_cipher]])
      (simp_all add: toy_writer_def)
  with Pair show ?thesis by (cases r) (auto dest: wpD_err)
qed

theorem gcm_roundtrip_witness:
  "\<exists>r. gcm_Decrypt toy_aead toy_crypter
      (k_out (snd (encrypt_pieces toy_aead toy_rnd toy_crypter [''ab'', ''c''] toy_writer)), EEOF) = Inr r \<and>
    gcm_drain toy_aead 511 r = (concat [''ab'', ''c''], EEOF)"
  by (rule gcm_roundtrip [where rnd = toy_rnd and g = toy_writer, OF toy_ok(1,2) _ toy_ok(3)])
    (use toy_run in \<open>auto intro: prod_eqI\<close>)

theorem gcm_format_witness:
  "\<exists>fs. k_out (snd (encrypt_pieces toy_aead toy_rnd toy_crypter [''ab'', ''c''] toy_writer)) =
      headerPrefix @ replicate saltSize (CHR ''s'') @
      frames toy_aead (IDKey toy_aead (Password toy_crypter) (replicate saltSize (CHR ''s''))) fs \<and>
    concat (map snd fs) = concat [''ab'', ''c''] \<and> distinct (map fst fs) \<and>
    (\<forall>c \<in> set (butlast (map snd fs)). length c = chunkSize) \<and>
    (\<forall>c \<in> set (map snd fs). 0 < length c \<and> length c \<le> chunkSize)"
  by (rule gcm_format [where rnd = toy_rnd and g = toy_writer, OF toy_ok(2) toy_cipher toy_ok(3)])
    (use toy_run in \<open>auto intro: prod_eqI\<close>)

theorem gcm_order_unchecked_witness:
  "\<exists>r. gcm_Decrypt toy_aead toy_crypter (headerPrefix @ replicate saltSize (CHR ''s'') @
      frames toy_aead (IDKey toy_aead (Password toy_crypter) (replicate saltSize (CHR ''s'')))
        [(nonce_of 7, replicate chunkSize (CHR ''b'')), (nonce_of 7, ''a'')], EEOF) = Inr r \<and>
    gcm_drain toy_aead 511 r =
      (concat (map snd [(nonce_of 7, replicate chunkSize (CHR ''b'')), (nonce_of 7, ''a'')]), EEOF)"
  by (rule gcm_order_unchecked [OF toy_ok(1)]) (simp_all add: good_frames_def chunkSize_def)


end
