(* ===== verification/Pipe.thy ===== *)
theory Pipe
  imports AesGcmSpec
begin

section \<open>The transforming pipe (internal/opt/shared/streamcrypt/pipe)\<close>

text \<open>
  Compression and encryption of a stream and back.  The writing side is a goroutine that feeds an
  \<open>io.Pipe\<close>; the reader of the pipe sees what was written and then the error it was closed with, or a
  normal end.  The model is for a reader that reads to the end, so no write into the pipe fails.
\<close>

record cryptenv =
  ce_aead :: aead
  ce_rnd :: "nat \<Rightarrow> gerr + bytes"
  ce_buf :: nat

definition new_pipe :: gcmChunkedWriter where
  "new_pipe = \<lparr>k_out = [], k_tick = 0, k_fault = (\<lambda>_. None), gw_key = [], gw_buf = [], gw_chunkNum = 0\<rparr>"

text \<open>The writer below the compressor: the encrypting writer, or the pipe itself.\<close>

definition inner_Write :: "cryptenv \<Rightarrow> ChunkedGCMCrypter option \<Rightarrow> bytes \<Rightarrow> (gcmChunkedWriter, unit) m" where
  "inner_Write E crypter p =
     (case crypter of None \<Rightarrow> sink_Write p | Some c \<Rightarrow> gcm_Write (ce_aead E) p)"

definition pipe_body :: "cryptenv \<Rightarrow> io_reader \<Rightarrow> Compressor option \<Rightarrow> ChunkedGCMCrypter option \<Rightarrow> (gcmChunkedWriter, unit) m" where
  "pipe_body E source compressor crypter =
     thenE (case crypter of None \<Rightarrow> retE () | Some c \<Rightarrow> gcm_Encrypt (ce_aead E) (ce_rnd E) c)
    (thenE (case compressor of
              None \<Rightarrow> wrapE ''copy'' (io_Copy (inner_Write E crypter) source)
            | Some z \<Rightarrow>
                (case c_new z of
                   Some e \<Rightarrow> throwE e
                 | None \<Rightarrow>
                     (case source of (d, e) \<Rightarrow>
                        thenE (wrapE ''copy'' (thenE (inner_Write E crypter (c_emit z d))
                                 (if e = EEOF then retE () else throwE e)))
                          (bindE (tryE (inner_Write E crypter (c_rest z d))) (\<lambda>_. retE ())))))
      (case crypter of None \<Rightarrow> retE ()
       | Some c \<Rightarrow> bindE (tryE (gcm_Close (ce_aead E))) (\<lambda>_. retE ())))"

definition CompressAndEncryptOptional :: "cryptenv \<Rightarrow> io_reader \<Rightarrow> Compressor option \<Rightarrow> ChunkedGCMCrypter option \<Rightarrow> io_reader" where
  "CompressAndEncryptOptional E source compressor crypter =
     (case pipe_body E source compressor crypter new_pipe of
        (Inl e, t) \<Rightarrow> (k_out t, e)
      | (Inr _, t) \<Rightarrow> (k_out t, EEOF))"

definition DecryptAndDecompressOptional :: "cryptenv \<Rightarrow> io_reader \<Rightarrow> ChunkedGCMCrypter option \<Rightarrow> Decompressor option \<Rightarrow> gerr + io_reader" where
  "DecryptAndDecompressOptional E reader crypter decompressor =
     (case (case crypter of
              None \<Rightarrow> Inr reader
            | Some c \<Rightarrow>
                (case gcm_Decrypt (ce_aead E) c reader of
                   Inl e \<Rightarrow> Inl e
                 | Inr g \<Rightarrow> Inr (gcm_drain (ce_aead E) (ce_buf E) g))) of
        Inl e \<Rightarrow> Inl e
      | Inr reader' \<Rightarrow>
          (case decompressor of None \<Rightarrow> Inr reader' | Some z \<Rightarrow> d_Decompress z reader'))"

subsection \<open>Round trip\<close>

definition env_ok :: "cryptenv \<Rightarrow> bool" where
  "env_ok E \<longleftrightarrow> aead_ok (ce_aead E) \<and> (\<exists>salt. ce_rnd E saltSize = Inr salt \<and> length salt = saltSize)"

definition codec_ok :: "Compressor option \<Rightarrow> Decompressor option \<Rightarrow> bool" where
  "codec_ok z u \<longleftrightarrow> (case (z, u) of
       (None, None) \<Rightarrow> True
     | (Some c, Some d) \<Rightarrow> c_new c = None \<and> (\<forall>x. d_Decompress d (c_emit c x @ c_rest c x, EEOF) = Inr (x, EEOF))
     | _ \<Rightarrow> False)"

text \<open>What the reader of the pipe sees: the plain or compressed bytes, or their encryption.\<close>

definition payload :: "Compressor option \<Rightarrow> bytes \<Rightarrow> bytes" where
  "payload z d = (case z of None \<Rightarrow> d | Some c \<Rightarrow> c_emit c d @ c_rest c d)"

definition stored_as :: "cryptenv \<Rightarrow> bytes \<Rightarrow> ChunkedGCMCrypter option \<Rightarrow> bytes \<Rightarrow> gcmChunkedWriter \<Rightarrow> bool" where
  "stored_as E salt crypter d g =
     (case crypter of
        None \<Rightarrow> k_out g = d
      | Some c \<Rightarrow> gw_done (ce_aead E) (headerPrefix @ salt) (IDKey (ce_aead E) (Password c) salt) d g)"

definition pipe_inv :: "cryptenv \<Rightarrow> bytes \<Rightarrow> ChunkedGCMCrypter option \<Rightarrow> bytes \<Rightarrow> gcmChunkedWriter \<Rightarrow> bool" where
  "pipe_inv E salt crypter d g =
     (case crypter of
        None \<Rightarrow> k_out g = d \<and> k_fault g = (\<lambda>_. None)
      | Some c \<Rightarrow> gw_inv (ce_aead E) (headerPrefix @ salt) (IDKey (ce_aead E) (Password c) salt) (\<lambda>_. None) d g)"

lemma copyBufSize_pos [simp]: "0 < copyBufSize" by (simp add: copyBufSize_def)

lemma wp_inner_Write:
  assumes "pipe_inv E salt crypter d g"
  shows "wp (inner_Write E crypter p) (\<lambda>_. pipe_inv E salt crypter (d @ p)) (\<lambda>_ _. False) g"
proof (cases crypter)
  case None
  with assms show ?thesis by (simp add: pipe_inv_def inner_Write_def)
next
  case (Some c)
  with assms show ?thesis
    by (auto simp: pipe_inv_def inner_Write_def elim: wp_conseq [OF wp_gcm_Write])
qed

lemma wp_inner_all:
  "pipe_inv E salt crypter d g \<Longrightarrow>
   wp (write_all (inner_Write E crypter) ps) (\<lambda>_. pipe_inv E salt crypter (d @ concat ps)) (\<lambda>_ _. False) g"
proof (induction ps arbitrary: d g)
  case (Cons p ps)
  show ?case by (auto intro!: wp_conseq [OF wp_inner_Write [OF Cons.prems]] dest: Cons.IH)
qed simp

lemma wp_pipe_start:
  assumes "env_ok E" and "ce_rnd E saltSize = Inr salt"
  shows "wp (case crypter of None \<Rightarrow> retE () | Some c \<Rightarrow> gcm_Encrypt (ce_aead E) (ce_rnd E) c)
    (\<lambda>_. pipe_inv E salt crypter []) (\<lambda>_ _. False) new_pipe"
proof -
  have "NewCipher (ce_aead E) (IDKey (ce_aead E) p s) = None" for p s
    using assms(1) by (simp add: env_ok_def aead_ok_def)
  then show ?thesis
    by (cases crypter) (auto simp: pipe_inv_def new_pipe_def gcm_Encrypt_def GenerateRandomNBytes_def assms(2)
        GeneratePBEKey_def Let_def gw_inv_def counted_def intro!: exI [of _ "[]"])
qed

lemma wp_pipe_end:
  assumes "pipe_inv E salt crypter d g"
  shows "wp (case crypter of None \<Rightarrow> retE () | Some c \<Rightarrow> bindE (tryE (gcm_Close (ce_aead E))) (\<lambda>_. retE ()))
    (\<lambda>_. stored_as E salt crypter d) (\<lambda>_ _. False) g"
  using assms by (cases crypter) (auto simp: pipe_inv_def stored_as_def elim!: wp_conseq [OF wp_gcm_Close])

lemma wp_pipe_body:
  assumes "env_ok E" and "ce_rnd E saltSize = Inr salt" and "\<forall>z. compressor = Some z \<longrightarrow> c_new z = None"
  shows "wp (pipe_body E (d, e) compressor crypter)
    (\<lambda>_ t. e = EEOF \<and> stored_as E salt crypter (payload compressor d) t)
    (\<lambda>x t. e \<noteq> EEOF \<and> x = wrap_err ''copy'' e) new_pipe"
proof -
  have mid: "wp (case compressor of
        None \<Rightarrow> wrapE ''copy'' (io_Copy (inner_Write E crypter) (d, e))
      | Some z \<Rightarrow> (case c_new z of Some e \<Rightarrow> throwE e
         | None \<Rightarrow> thenE (wrapE ''copy'' (thenE (inner_Write E crypter (c_emit z d))
                     (if e = EEOF then retE () else throwE e)))
              (bindE (tryE (inner_Write E crypter (c_rest z d))) (\<lambda>_. retE ()))))
     (\<lambda>_ t. e = EEOF \<and> pipe_inv E salt crypter (payload compressor d) t)
     (\<lambda>x t. e \<noteq> EEOF \<and> x = wrap_err ''copy'' e) g" if "pipe_inv E salt crypter [] g" for g
  proof (cases compressor)
    case None
    then show ?thesis
      by (auto simp: io_Copy_def payload_def concat_pieces intro!: wp_conseq [OF wp_inner_all [OF that]])
  next
    case (Some z)
    with assms(3) show ?thesis
      by (auto simp: payload_def intro!: wp_conseq [OF wp_inner_Write [OF that]] elim!: wp_conseq [OF wp_inner_Write])
  qed
  show ?thesis
    unfolding pipe_body_def wp_thenE prod.case
    by (rule wp_conseq [OF wp_pipe_start [OF assms(1,2)]], rule wp_conseq [OF mid], assumption)
      (auto elim: wp_conseq [OF wp_pipe_end])
qed

subsection \<open>Properties\<close>

lemma CompressAndEncrypt_ok:
  assumes "env_ok E" and "ce_rnd E saltSize = Inr salt" and "\<forall>z. compressor = Some z \<longrightarrow> c_new z = None"
  shows "\<exists>t. CompressAndEncryptOptional E (d, EEOF) compressor crypter = (k_out t, EEOF) \<and>
    stored_as E salt crypter (payload compressor d) t"
  using wp_pipe_body [OF assms, of d EEOF crypter]
  by (auto simp: CompressAndEncryptOptional_def wp_def split: prod.splits sum.splits)

lemma Decrypt_stored:
  assumes "env_ok E" and "ce_rnd E saltSize = Inr salt" and "codec_ok z u"
    and "stored_as E salt crypter (payload z d) t"
  shows "DecryptAndDecompressOptional E (k_out t, EEOF) crypter u = Inr (d, EEOF)"
proof -
  have ok: "aead_ok (ce_aead E)" "length salt = saltSize"
    using assms(1,2) by (auto simp: env_ok_def)
  have "(case u of None \<Rightarrow> Inr (payload z d, EEOF) | Some x \<Rightarrow> d_Decompress x (payload z d, EEOF)) = Inr (d, EEOF)"
    using assms(3) by (auto simp: codec_ok_def payload_def split: option.splits)
  moreover have "\<exists>r. gcm_Decrypt (ce_aead E) c (k_out t, EEOF) = Inr r \<and>
      gcm_drain (ce_aead E) (ce_buf E) r = (payload z d, EEOF)" if "crypter = Some c" for c
    using assms(4) that by (intro gw_done_read [OF ok]) (simp add: stored_as_def)
  ultimately show ?thesis
    using assms(4) by (cases crypter) (auto simp: DecryptAndDecompressOptional_def stored_as_def)
qed

text \<open>What the writing side of the pipe makes of a stream, with or without compression and with or without
  encryption, the reading side turns back into the same stream, complete and with a normal end.\<close>

theorem pipe_roundtrip:
  assumes "env_ok E" and "codec_ok z u"
  shows "DecryptAndDecompressOptional E (CompressAndEncryptOptional E (d, EEOF) z crypter) crypter u = Inr (d, EEOF)"
proof -
  obtain salt where s: "ce_rnd E saltSize = Inr salt" using assms(1) by (auto simp: env_ok_def)
  have "\<forall>x. z = Some x \<longrightarrow> c_new x = None" using assms(2) by (auto simp: codec_ok_def split: option.splits)
  from CompressAndEncrypt_ok [OF assms(1) s this, of d crypter] Decrypt_stored [OF assms(1) s assms(2)]
  show ?thesis by auto
qed

text \<open>A source that fails is never taken for a complete one: the transformed stream ends with the error of
  the source, wrapped, and not with a normal end.\<close>

theorem pipe_error:
  assumes "env_ok E" and "codec_ok z u" and "e \<noteq> EEOF"
  shows "snd (CompressAndEncryptOptional E (d, e) z crypter) = wrap_err ''copy'' e \<and> wrap_err ''copy'' e \<noteq> EEOF"
proof -
  obtain salt where s: "ce_rnd E saltSize = Inr salt" using assms(1) by (auto simp: env_ok_def)
  have "\<forall>x. z = Some x \<longrightarrow> c_new x = None" using assms(2) by (auto simp: codec_ok_def split: option.splits)
  from wp_pipe_body [OF assms(1) s this, of d e crypter] assms(3) show ?thesis
    by (auto simp: CompressAndEncryptOptional_def wp_def wrap_err_def split: prod.splits sum.splits)
qed

definition toy_env :: cryptenv where
  "toy_env = \<lparr>ce_aead = toy_aead, ce_rnd = toy_rnd, ce_buf = 511\<rparr>"

text \<open>Stand-ins for the compressors: one byte in front, one behind.\<close>

definition toy_complib :: complib where
  "toy_complib = \<lparr>gzip_emit = (\<lambda>d. CHR ''g'' # d), gzip_rest = (\<lambda>d. ''G''),
     gzip_NewReader = (\<lambda>(d, e). Inr (butlast (tl d), e)), zstd_NewWriter = None,
     zstd_emit = (\<lambda>d. CHR ''z'' # d), zstd_rest = (\<lambda>d. ''Z''), zstd_NewReader = (\<lambda>(d, e). Inr (butlast (tl d), e))\<rparr>"

lemma toy_env_ok: "env_ok toy_env" "complib_ok toy_complib"
  by (simp_all add: env_ok_def toy_env_def toy_ok complib_ok_def toy_complib_def)

lemma codec_ok_lib:
  "complib_ok L \<Longrightarrow> codec_ok (Some (GzipCompressor L)) (Some (GzipDecompressor L))"
  "complib_ok L \<Longrightarrow> codec_ok (Some (ZstdCompressor L)) (Some (ZstdDecompressor L))"
  "codec_ok None None"
  by (simp_all add: complib_ok_def codec_ok_def GzipCompressor_def GzipDecompressor_def
      ZstdCompressor_def ZstdDecompressor_def)

theorem pipe_roundtrip_witness:
  "DecryptAndDecompressOptional toy_env
     (CompressAndEncryptOptional toy_env (''wal'', EEOF) (Some (GzipCompressor toy_complib)) (Some toy_crypter))
     (Some toy_crypter) (Some (GzipDecompressor toy_complib)) = Inr (''wal'', EEOF)"
  by (rule pipe_roundtrip [OF toy_env_ok(1) codec_ok_lib(1) [OF toy_env_ok(2)]])

theorem pipe_error_witness:
  "snd (CompressAndEncryptOptional toy_env (''wa'', EOS 5) (Some (ZstdCompressor toy_complib)) (Some toy_crypter)) =
     wrap_err ''copy'' (EOS 5) \<and> wrap_err ''copy'' (EOS 5) \<noteq> EEOF"
  by (rule pipe_error [OF toy_env_ok(1) codec_ok_lib(2) [OF toy_env_ok(2)]]) simp

end
