(* ===== verification/Storage.thy ===== *)
theory Storage
  imports Pipe
begin

section \<open>The storage interface (internal/opt/shared/storecrypt/storage.go)\<close>

text \<open>
  The operations every backend has, as a record of computations over the backend's state, and the
  contract its clients rely on as a locale: a backend is a table of files, keyed by their paths, and an
  operation that returns without an error has had its effect on the table; one that fails has changed at
  most the path it was given.  \<open>good\<close> says which paths the contract is about.
\<close>

record FileInfo =
  fi_Path :: string
  fi_ModTime :: int
  fi_Size :: int

record 's Storage =
  st_Put :: "string \<Rightarrow> io_reader \<Rightarrow> ('s, unit) m"
  st_Get :: "string \<Rightarrow> ('s, io_reader) m"
  st_List :: "string \<Rightarrow> ('s, FileInfo list) m"
  st_Delete :: "string \<Rightarrow> ('s, unit) m"
  st_DeleteDir :: "string \<Rightarrow> ('s, unit) m"
  st_Exists :: "string \<Rightarrow> ('s, bool) m"
  st_ListTopLevelDirs :: "string \<Rightarrow> ('s, string list) m"
  st_Rename :: "string \<Rightarrow> string \<Rightarrow> ('s, unit) m"

text \<open>A storage over one part of a pair of states, as a storage over the pair.\<close>

definition lift_storage :: "(('a, unit) m \<Rightarrow> ('s, unit) m) \<Rightarrow> (('a, io_reader) m \<Rightarrow> ('s, io_reader) m) \<Rightarrow>
    (('a, FileInfo list) m \<Rightarrow> ('s, FileInfo list) m) \<Rightarrow> (('a, bool) m \<Rightarrow> ('s, bool) m) \<Rightarrow>
    (('a, string list) m \<Rightarrow> ('s, string list) m) \<Rightarrow> 'a Storage \<Rightarrow> 's Storage" where
  "lift_storage l1 l2 l3 l4 l5 B = \<lparr>st_Put = (\<lambda>p r. l1 (st_Put B p r)), st_Get = (\<lambda>p. l2 (st_Get B p)),
     st_List = (\<lambda>p. l3 (st_List B p)), st_Delete = (\<lambda>p. l1 (st_Delete B p)), st_DeleteDir = (\<lambda>p. l1 (st_DeleteDir B p)),
     st_Exists = (\<lambda>p. l4 (st_Exists B p)), st_ListTopLevelDirs = (\<lambda>p. l5 (st_ListTopLevelDirs B p)),
     st_Rename = (\<lambda>p q. l1 (st_Rename B p q))\<rparr>"

definition storage_fst :: "'a Storage \<Rightarrow> ('a \<times> 'b) Storage" where
  "storage_fst = lift_storage on_fst on_fst on_fst on_fst on_fst"

definition storage_snd :: "'b Storage \<Rightarrow> ('a \<times> 'b) Storage" where
  "storage_snd = lift_storage on_snd on_snd on_snd on_snd on_snd"

text \<open>
  The errors of a backend: \<open>not_exist\<close> is \<open>errors.Is(err, fs.ErrNotExist)\<close>.
\<close>

definition not_exist :: "gerr \<Rightarrow> bool" where
  "not_exist e = errors_Is e ENotExist"

locale storage_backend =
  fixes B :: "'s Storage"
    and inv :: "'s \<Rightarrow> bool"
    and files :: "'s \<Rightarrow> string \<Rightarrow> bytes option"
    and good :: "string \<Rightarrow> bool"
  assumes exists_law: "inv s \<Longrightarrow> good p \<Longrightarrow>
      wp (st_Exists B p) (\<lambda>b t. inv t \<and> files t = files s \<and> b = (files s p \<noteq> None))
        (\<lambda>e t. inv t \<and> files t = files s \<and> \<not> not_exist e) s"
    and put_law: "inv s \<Longrightarrow> good p \<Longrightarrow>
      wp (st_Put B p r) (\<lambda>_ t. inv t \<and> snd r = EEOF \<and> files t = (files s)(p \<mapsto> fst r))
        (\<lambda>e t. inv t \<and> (\<forall>q. q \<noteq> p \<longrightarrow> good q \<longrightarrow> files t q = files s q)) s"
    and get_law: "inv s \<Longrightarrow> good p \<Longrightarrow>
      wp (st_Get B p) (\<lambda>r t. inv t \<and> files t = files s \<and> (snd r = EEOF \<longrightarrow> files s p = Some (fst r)))
        (\<lambda>e t. inv t \<and> files t = files s) s"
    and delete_law: "inv s \<Longrightarrow> good p \<Longrightarrow>
      wp (st_Delete B p) (\<lambda>_ t. inv t \<and> files t = (files s)(p := None))
        (\<lambda>e t. inv t \<and> files t = files s \<and> (not_exist e \<longrightarrow> files s p = None)) s"
    and rename_law: "inv s \<Longrightarrow> good p \<Longrightarrow> good q \<Longrightarrow> p \<noteq> q \<Longrightarrow> files s p \<noteq> None \<Longrightarrow>
      wp (st_Rename B p q) (\<lambda>_ t. inv t \<and> files t = (files s)(p := None, q := files s p))
        (\<lambda>e t. inv t \<and> files t = files s) s"

end
