(* ===== verification/MemStorage.thy ===== *)
theory MemStorage
  imports Storage "HOL-Library.AList"
begin

section \<open>The in-memory backend (internal/opt/shared/storecrypt/mem.go)\<close>

text \<open>
  The map of files is an association list with the iteration order Go leaves open; the context the
  operations check is a flag of the state, and \<open>time.Now()\<close> a field of it.
\<close>

record InMemoryStorage =
  Files :: "(string \<times> bytes) list"
  ctxDone :: bool
  nowTime :: int

definition NewInMemoryStorage :: "int \<Rightarrow> InMemoryStorage" where
  "NewInMemoryStorage now = \<lparr>Files = [], ctxDone = False, nowTime = now\<rparr>"

definition storagePrefix :: "string \<Rightarrow> string" where
  "storagePrefix path =
     (let path = trim_suffix path ''/'' in if path = '''' then '''' else path @ ''/'')"

definition mem_Put :: "string \<Rightarrow> io_reader \<Rightarrow> (InMemoryStorage, unit) m" where
  "mem_Put path r =
     bindE (liftE (io_ReadAll r)) (\<lambda>data. modE (\<lambda>s. s\<lparr>Files := AList.update path data (Files s)\<rparr>))"

definition mem_Get :: "string \<Rightarrow> (InMemoryStorage, io_reader) m" where
  "mem_Get path = bindE (getE (\<lambda>s. map_of (Files s) path)) (\<lambda>r.
     case r of None \<Rightarrow> throwE ENotExist | Some data \<Rightarrow> retE (data, EEOF))"

definition mem_List :: "string \<Rightarrow> (InMemoryStorage, FileInfo list) m" where
  "mem_List path =
     (let prefix = storagePrefix path in
      getE (\<lambda>s. map (\<lambda>(name, data). \<lparr>fi_Path = name, fi_ModTime = nowTime s, fi_Size = int (length data)\<rparr>)
         (filter (\<lambda>(name, data). has_prefix name prefix) (Files s))))"

definition mem_Delete :: "string \<Rightarrow> (InMemoryStorage, unit) m" where
  "mem_Delete path = bindE (getE (\<lambda>s. map_of (Files s) path)) (\<lambda>r.
     case r of None \<Rightarrow> throwE ENotExist | Some _ \<Rightarrow> modE (\<lambda>s. s\<lparr>Files := AList.delete path (Files s)\<rparr>))"

text \<open>\<open>DeleteDir\<close> looks at the context before every key.\<close>

fun mem_DeleteDir_loop :: "string \<Rightarrow> string list \<Rightarrow> (InMemoryStorage, unit) m" where
  "mem_DeleteDir_loop path [] = retE ()"
| "mem_DeleteDir_loop path (key # keys) =
     bindE (getE ctxDone) (\<lambda>c.
       if c then throwE ECanceled
       else
         thenE (whenE (has_prefix key (storagePrefix path) \<or> key = path)
                  (modE (\<lambda>s. s\<lparr>Files := AList.delete key (Files s)\<rparr>)))
           (mem_DeleteDir_loop path keys))"

definition mem_DeleteDir :: "string \<Rightarrow> (InMemoryStorage, unit) m" where
  "mem_DeleteDir path = bindE (getE (\<lambda>s. map fst (Files s))) (mem_DeleteDir_loop path)"

definition mem_Exists :: "string \<Rightarrow> (InMemoryStorage, bool) m" where
  "mem_Exists path = getE (\<lambda>s. map_of (Files s) path \<noteq> None)"

definition top_dir :: "string \<Rightarrow> string \<Rightarrow> string option" where
  "top_dir pfx filePath =
     (if has_prefix filePath pfx then
        (let relativePath = trim_prefix filePath pfx;
             dirname = takeWhile (\<lambda>c. c \<noteq> CHR ''/'') relativePath
         in if CHR ''/'' \<in> set relativePath \<and> dirname \<noteq> '''' then Some dirname else None)
      else None)"

definition mem_ListTopLevelDirs :: "string \<Rightarrow> (InMemoryStorage, string list) m" where
  "mem_ListTopLevelDirs pfx =
     bindE (getE (\<lambda>s. (ctxDone s, map fst (Files s)))) (\<lambda>(c, names).
       if c \<and> names \<noteq> [] then throwE ECanceled
       else retE (remdups (List.map_filter (top_dir (storagePrefix pfx)) names)))"

definition mem_Rename :: "string \<Rightarrow> string \<Rightarrow> (InMemoryStorage, unit) m" where
  "mem_Rename oldRemotePath newRemotePath =
     (if oldRemotePath = newRemotePath then retE ()
      else
        bindE (getE (\<lambda>s. (ctxDone s, map_of (Files s) oldRemotePath))) (\<lambda>(c, r).
          if c then throwE ECanceled
          else case r of
              None \<Rightarrow> throwE (EMsg ''file not found'')
            | Some data \<Rightarrow>
                modE (\<lambda>s. s\<lparr>Files := AList.delete oldRemotePath (AList.update newRemotePath data (Files s))\<rparr>)))"

definition mem_storage :: "InMemoryStorage Storage" where
  "mem_storage = \<lparr>st_Put = mem_Put, st_Get = mem_Get, st_List = mem_List, st_Delete = mem_Delete,
     st_DeleteDir = mem_DeleteDir, st_Exists = mem_Exists, st_ListTopLevelDirs = mem_ListTopLevelDirs,
     st_Rename = mem_Rename\<rparr>"

definition mem_files :: "InMemoryStorage \<Rightarrow> string \<Rightarrow> bytes option" where
  "mem_files s = map_of (Files s)"

text \<open>The backend keeps the contract, for every path.\<close>

interpretation mem: storage_backend mem_storage "\<lambda>_. True" mem_files "\<lambda>_. True"
proof unfold_locales
  fix s :: InMemoryStorage and p r q
  show "wp (st_Exists mem_storage p) (\<lambda>b t. True \<and> mem_files t = mem_files s \<and> b = (mem_files s p \<noteq> None))
      (\<lambda>e t. True \<and> mem_files t = mem_files s \<and> \<not> not_exist e) s"
    by (simp add: mem_storage_def mem_Exists_def mem_files_def)
  show "wp (st_Put mem_storage p r) (\<lambda>_ t. True \<and> snd r = EEOF \<and> mem_files t = (mem_files s)(p \<mapsto> fst r))
      (\<lambda>e t. True \<and> (\<forall>q. q \<noteq> p \<longrightarrow> True \<longrightarrow> mem_files t q = mem_files s q)) s"
    by (simp add: mem_storage_def mem_Put_def mem_files_def io_ReadAll_def update_conv' split: prod.split)
  show "wp (st_Get mem_storage p) (\<lambda>r t. True \<and> mem_files t = mem_files s \<and>
        (snd r = EEOF \<longrightarrow> mem_files s p = Some (fst r))) (\<lambda>e t. True \<and> mem_files t = mem_files s) s"
    by (simp add: mem_storage_def mem_Get_def mem_files_def split: option.split)
  show "wp (st_Delete mem_storage p) (\<lambda>_ t. True \<and> mem_files t = (mem_files s)(p := None))
      (\<lambda>e t. True \<and> mem_files t = mem_files s \<and> (not_exist e \<longrightarrow> mem_files s p = None)) s"
    by (simp add: mem_storage_def mem_Delete_def mem_files_def delete_conv' split: option.split)
  show "wp (st_Rename mem_storage p q)
      (\<lambda>_ t. True \<and> mem_files t = (mem_files s)(p := None, q := mem_files s p))
      (\<lambda>e t. True \<and> mem_files t = mem_files s) s" if "p \<noteq> q"
    using that
    by (auto simp: mem_storage_def mem_Rename_def mem_files_def delete_conv' update_conv' fun_eq_iff split: option.split)
qed

end
