(* ===== verification/Variadic.thy ===== *)
theory Variadic
  imports MemStorage
begin

section \<open>The storage that compresses and encrypts (internal/opt/shared/storecrypt/dynstor.go)\<close>

text \<open>
  Objects are written under one configured extension and read back under whichever known extension
  exists.  The backend is a record of operations over an arbitrary state; \<open>filepath.ToSlash\<close> is the
  identity.
\<close>

subsection \<open>Names and transforms\<close>

record Algorithms =
  Gzip :: "(Compressor \<times> Decompressor) option"
  Zstd :: "(Compressor \<times> Decompressor) option"
  AES :: "ChunkedGCMCrypter option"

record 's VariadicStorage =
  Backend :: "'s Storage"
  alg :: Algorithms
  writeExt :: string

record transforms =
  tr_compressor :: "Compressor option"
  tr_decompressor :: "Decompressor option"
  tr_crypter :: "ChunkedGCMCrypter option"

definition isSupportedWriteExt :: "Algorithms \<Rightarrow> string \<Rightarrow> bool" where
  "isSupportedWriteExt a ext =
     (if ext = '''' then True
      else if ext = ''.gz'' then Gzip a \<noteq> None
      else if ext = ''.zst'' then Zstd a \<noteq> None
      else if ext = ''.gz.aes'' then Gzip a \<noteq> None \<and> AES a \<noteq> None
      else if ext = ''.zst.aes'' then Zstd a \<noteq> None \<and> AES a \<noteq> None
      else if ext = ''.aes'' then AES a \<noteq> None
      else False)"

definition NewVariadicStorage :: "'s Storage \<Rightarrow> Algorithms \<Rightarrow> string \<Rightarrow> gerr + 's VariadicStorage" where
  "NewVariadicStorage backend a ext =
     (if \<not> isSupportedWriteExt a ext then Inl (EMsg ''writeExt not supported by provided algorithms'')
      else Inr \<lparr>Backend = backend, alg = a, writeExt = ext\<rparr>)"

definition supportedExts :: "Algorithms \<Rightarrow> string list" where
  "supportedExts a =
     (if Gzip a \<noteq> None \<and> AES a \<noteq> None then [''.gz.aes''] else []) @
     (if Zstd a \<noteq> None \<and> AES a \<noteq> None then [''.zst.aes''] else []) @
     (if Gzip a \<noteq> None then [''.gz''] else []) @
     (if Zstd a \<noteq> None then [''.zst''] else []) @
     (if AES a \<noteq> None then [''.aes''] else []) @ ['''']"

definition transformsFromName :: "Algorithms \<Rightarrow> string \<Rightarrow> transforms" where
  "transformsFromName a name =
     (let aes = (AES a \<noteq> None \<and> has_suffix name ''.aes'');
          crypter = (if aes then AES a else None);
          name = (if aes then trim_suffix name ''.aes'' else name)
      in if Gzip a \<noteq> None \<and> has_suffix name ''.gz'' then
           \<lparr>tr_compressor = map_option fst (Gzip a), tr_decompressor = map_option snd (Gzip a), tr_crypter = crypter\<rparr>
         else if Zstd a \<noteq> None \<and> has_suffix name ''.zst'' then
           \<lparr>tr_compressor = map_option fst (Zstd a), tr_decompressor = map_option snd (Zstd a), tr_crypter = crypter\<rparr>
         else \<lparr>tr_compressor = None, tr_decompressor = None, tr_crypter = crypter\<rparr>)"

definition encodePath :: "'s VariadicStorage \<Rightarrow> string \<Rightarrow> string" where
  "encodePath vs base = base @ writeExt vs"

fun strip_first :: "string list \<Rightarrow> string \<Rightarrow> string" where
  "strip_first [] encoded = encoded"
| "strip_first (ext # exts) encoded =
     (if ext \<noteq> '''' \<and> has_suffix encoded ext then trim_suffix encoded ext else strip_first exts encoded)"

definition decodePath :: "Algorithms \<Rightarrow> string \<Rightarrow> string" where
  "decodePath a encoded = strip_first (supportedExts a) encoded"

subsection \<open>Operations\<close>

fun find_first :: "'s Storage \<Rightarrow> string \<Rightarrow> string list \<Rightarrow> ('s, string) m" where
  "find_first B base [] = throwE ENotExist"
| "find_first B base (ext # exts) =
     bindE (st_Exists B (base @ ext)) (\<lambda>ok. if ok then retE (base @ ext) else find_first B base exts)"

definition findExistingName :: "'s VariadicStorage \<Rightarrow> string \<Rightarrow> ('s, string) m" where
  "findExistingName vs base = find_first (Backend vs) base (supportedExts (alg vs))"

definition var_Put :: "cryptenv \<Rightarrow> 's VariadicStorage \<Rightarrow> string \<Rightarrow> io_reader \<Rightarrow> ('s, unit) m" where
  "var_Put E vs path r =
     (let stored = encodePath vs path; t = transformsFromName (alg vs) stored in
      st_Put (Backend vs) stored (CompressAndEncryptOptional E r (tr_compressor t) (tr_crypter t)))"

definition has_known_ext :: "Algorithms \<Rightarrow> string \<Rightarrow> bool" where
  "has_known_ext a path = (\<exists>ext \<in> set (supportedExts a). ext \<noteq> '''' \<and> has_suffix path ext)"

definition open_stored :: "cryptenv \<Rightarrow> 's VariadicStorage \<Rightarrow> string \<Rightarrow> ('s, io_reader) m" where
  "open_stored E vs stored =
     bindE (st_Get (Backend vs) stored) (\<lambda>rc.
       let t = transformsFromName (alg vs) stored in
       liftE (DecryptAndDecompressOptional E rc (tr_crypter t) (tr_decompressor t)))"

definition var_Get :: "cryptenv \<Rightarrow> 's VariadicStorage \<Rightarrow> string \<Rightarrow> ('s, io_reader) m" where
  "var_Get E vs path =
     (if has_known_ext (alg vs) path then open_stored E vs path
      else bindE (findExistingName vs path) (open_stored E vs))"

definition var_List :: "'s VariadicStorage \<Rightarrow> string \<Rightarrow> ('s, FileInfo list) m" where
  "var_List vs pre =
     bindE (st_List (Backend vs) pre) (\<lambda>files.
       retE (map (\<lambda>f. f\<lparr>fi_Path := decodePath (alg vs) (fi_Path f)\<rparr>) files))"

definition var_ListInfoRaw :: "'s VariadicStorage \<Rightarrow> string \<Rightarrow> ('s, FileInfo list) m" where
  "var_ListInfoRaw vs pre = st_List (Backend vs) pre"

text \<open>The loops of \<open>Delete\<close> and \<open>Rename\<close> go on after an error and return the last one.\<close>

fun delete_loop :: "'s Storage \<Rightarrow> string \<Rightarrow> gerr option \<Rightarrow> string list \<Rightarrow> ('s, unit) m" where
  "delete_loop B path lastErr [] = (case lastErr of None \<Rightarrow> retE () | Some e \<Rightarrow> throwE e)"
| "delete_loop B path lastErr (ext # exts) =
     bindE (tryE (st_Delete B (path @ ext))) (\<lambda>r.
       delete_loop B path (case r of Inl e \<Rightarrow> if not_exist e then lastErr else Some e | Inr _ \<Rightarrow> lastErr) exts)"

definition var_Delete :: "'s VariadicStorage \<Rightarrow> string \<Rightarrow> ('s, unit) m" where
  "var_Delete vs path = delete_loop (Backend vs) path None (supportedExts (alg vs))"

definition var_DeleteDir :: "'s VariadicStorage \<Rightarrow> string \<Rightarrow> ('s, unit) m" where
  "var_DeleteDir vs path = st_DeleteDir (Backend vs) path"

definition var_Exists :: "'s VariadicStorage \<Rightarrow> string \<Rightarrow> ('s, bool) m" where
  "var_Exists vs path =
     bindE (tryE (findExistingName vs path)) (\<lambda>r.
       case r of
         Inl e \<Rightarrow> if not_exist e then retE False else throwE e
       | Inr _ \<Rightarrow> retE True)"

definition var_ListTopLevelDirs :: "'s VariadicStorage \<Rightarrow> string \<Rightarrow> ('s, string list) m" where
  "var_ListTopLevelDirs vs pre = st_ListTopLevelDirs (Backend vs) pre"

fun rename_loop :: "'s Storage \<Rightarrow> string \<Rightarrow> string \<Rightarrow> gerr option \<Rightarrow> string list \<Rightarrow> ('s, unit) m" where
  "rename_loop B oldBase newBase lastErr [] = (case lastErr of None \<Rightarrow> retE () | Some e \<Rightarrow> throwE e)"
| "rename_loop B oldBase newBase lastErr (ext # exts) =
     bindE (tryE (st_Exists B (oldBase @ ext))) (\<lambda>r.
       case r of
         Inl e \<Rightarrow> rename_loop B oldBase newBase (Some e) exts
       | Inr ok \<Rightarrow>
           if \<not> ok then rename_loop B oldBase newBase lastErr exts
           else
             bindE (tryE (st_Rename B (oldBase @ ext) (newBase @ ext))) (\<lambda>r'.
               rename_loop B oldBase newBase (case r' of Inl e \<Rightarrow> Some e | Inr _ \<Rightarrow> lastErr) exts))"

definition var_Rename :: "'s VariadicStorage \<Rightarrow> string \<Rightarrow> string \<Rightarrow> ('s, unit) m" where
  "var_Rename vs oldRemotePath newRemotePath =
     (let oldBase = decodePath (alg vs) oldRemotePath; newBase = decodePath (alg vs) newRemotePath in
      if oldBase = newBase then retE ()
      else rename_loop (Backend vs) oldBase newBase None (supportedExts (alg vs)))"

definition var_storage :: "cryptenv \<Rightarrow> 's VariadicStorage \<Rightarrow> 's Storage" where
  "var_storage E vs = \<lparr>st_Put = var_Put E vs, st_Get = var_Get E vs, st_List = var_List vs, st_Delete = var_Delete vs,
     st_DeleteDir = var_DeleteDir vs, st_Exists = var_Exists vs, st_ListTopLevelDirs = var_ListTopLevelDirs vs,
     st_Rename = var_Rename vs\<rparr>"

end
