(* ===== verification/VariadicSpec.thy ===== *)
theory VariadicSpec
  imports Variadic
begin

section \<open>Correctness of the compressing and encrypting storage\<close>

text \<open>
  Lemmas over any backend that keeps the contract, inside the locale; the properties are their
  instances for the in-memory backend.  \<open>first_ext\<close> is the variant a read finds.
\<close>

definition first_ext :: "string list \<Rightarrow> (string \<Rightarrow> bytes option) \<Rightarrow> string \<Rightarrow> string option" where
  "first_ext exts f p = List.find (\<lambda>e. f (p @ e) \<noteq> None) exts"

definition drop_variants :: "string list \<Rightarrow> string \<Rightarrow> (string \<Rightarrow> bytes option) \<Rightarrow> string \<Rightarrow> bytes option" where
  "drop_variants exts p f = (\<lambda>q. if \<exists>e \<in> set exts. q = p @ e then None else f q)"

definition move_variant :: "string \<Rightarrow> string \<Rightarrow> string \<Rightarrow> (string \<Rightarrow> bytes option) \<Rightarrow> string \<Rightarrow> bytes option" where
  "move_variant old new e f =
     (if f (old @ e) = None then f else f(old @ e := None, new @ e := f (old @ e)))"

definition alg_ok :: "Algorithms \<Rightarrow> bool" where
  "alg_ok a \<longleftrightarrow> (\<forall>z u. Gzip a = Some (z, u) \<or> Zstd a = Some (z, u) \<longrightarrow> codec_ok (Some z) (Some u))"

lemma transforms_ok: "alg_ok a \<Longrightarrow> codec_ok (tr_compressor (transformsFromName a n)) (tr_decompressor (transformsFromName a n))"
proof -
  have "codec_ok (map_option fst c) (map_option snd c)" if "\<forall>z u. c = Some (z, u) \<longrightarrow> codec_ok (Some z) (Some u)" for c
    using that by (cases c) (auto simp: codec_ok_def)
  moreover assume "alg_ok a"
  ultimately show ?thesis by (simp add: transformsFromName_def Let_def alg_ok_def codec_ok_lib(3))
qed

lemma writeExt_supported: "isSupportedWriteExt a ext \<Longrightarrow> ext \<in> set (supportedExts a)"
  by (auto simp: isSupportedWriteExt_def supportedExts_def split: if_splits)

lemma distinct_supportedExts: "distinct (supportedExts a)"
  by (auto simp: supportedExts_def)

lemma find_prefix:
  "x \<in> set xs \<Longrightarrow> P x \<Longrightarrow> \<forall>y \<in> set (takeWhile (\<lambda>y. y \<noteq> x) xs). \<not> P y \<Longrightarrow> List.find P xs = Some x"
proof (induction xs)
  case (Cons y xs)
  then show ?case by (cases "y = x") auto
qed simp

context storage_backend
begin

lemma find_first_wp:
  "inv s \<Longrightarrow> \<forall>e \<in> set exts. good (p @ e) \<Longrightarrow>
   wp (find_first B p exts)
     (\<lambda>n t. inv t \<and> files t = files s \<and> (\<exists>e. first_ext exts (files s) p = Some e \<and> n = p @ e))
     (\<lambda>x t. inv t \<and> files t = files s \<and> (not_exist x \<longrightarrow> first_ext exts (files s) p = None)) s"
proof (induction exts arbitrary: s)
  case Nil
  then show ?case by (simp add: first_ext_def)
next
  case (Cons e exts)
  have "wp (find_first B p exts)
     (\<lambda>n t. inv t \<and> files t = files s \<and> (\<exists>e. first_ext exts (files s) p = Some e \<and> n = p @ e))
     (\<lambda>x t. inv t \<and> files t = files s \<and> (not_exist x \<longrightarrow> first_ext exts (files s) p = None)) t"
    if "inv t" "files t = files s" for t
    using Cons.IH [OF that(1)] Cons.prems(2) that(2) by simp
  then show ?case
    using Cons.prems by (auto simp: first_ext_def intro!: wp_conseq [OF exists_law] elim: wp_conseq)
qed

lemma delete_loop_wp:
  "inv s \<Longrightarrow> \<forall>e \<in> set exts. good (p @ e) \<Longrightarrow>
   wp (delete_loop B p le exts)
     (\<lambda>_ t. inv t \<and> le = None \<and> files t = drop_variants exts p (files s)) (\<lambda>_ t. inv t) s"
proof (induction exts arbitrary: s le)
  case Nil
  then show ?case by (simp add: drop_variants_def split: option.split)
next
  case (Cons e exts)
  have step: "wp (delete_loop B p le' exts)
     (\<lambda>_ t. inv t \<and> le = None \<and> files t = drop_variants (e # exts) p (files s)) (\<lambda>_ t. inv t) t"
    if "inv t" "files t = (files s)(p @ e := None)" "le' = None \<longrightarrow> le = None" for t le'
  proof (rule wp_conseq [OF Cons.IH [OF that(1)]])
    show "\<forall>e \<in> set exts. good (p @ e)" using Cons.prems(2) by simp
    fix t' assume "inv t' \<and> le' = None \<and> files t' = drop_variants exts p (files t)"
    then show "inv t' \<and> le = None \<and> files t' = drop_variants (e # exts) p (files s)"
      using that(2,3) by (auto simp: drop_variants_def fun_eq_iff)
  qed
  have fail: "wp (delete_loop B p (Some x) exts)
     (\<lambda>_ t. inv t \<and> le = None \<and> files t = drop_variants (e # exts) p (files s)) (\<lambda>_ t. inv t) t"
    if "inv t" for t x
    using Cons.prems(2) by (auto intro!: wp_conseq [OF Cons.IH [OF that]])
  have g: "good (p @ e)" using Cons.prems(2) by simp
  have keep: "wp (delete_loop B p le exts)
     (\<lambda>_ t. inv t \<and> le = None \<and> files t = drop_variants (e # exts) p (files s)) (\<lambda>_ t. inv t) t"
    if "inv t" "files t = files s" "files s (p @ e) = None" for t
    using step [OF that(1), of le] that(2,3) by (simp add: fun_upd_idem)
  show ?case
    by (simp, rule wp_conseq [OF delete_law [OF Cons.prems(1) g]]) (auto intro: step fail keep)
qed

lemma rename_loop_wp:
  "inv s \<Longrightarrow> \<forall>e \<in> set exts. good (old @ e) \<and> good (new @ e) \<Longrightarrow> old \<noteq> new \<Longrightarrow>
   wp (rename_loop B old new le exts)
     (\<lambda>_ t. inv t \<and> le = None \<and> files t = fold (move_variant old new) exts (files s)) (\<lambda>_ t. inv t) s"
proof (induction exts arbitrary: s le)
  case Nil
  then show ?case by (simp split: option.split)
next
  case (Cons e exts)
  have g: "\<forall>e \<in> set exts. good (old @ e) \<and> good (new @ e)" using Cons.prems(2) by simp
  have step: "wp (rename_loop B old new le exts)
     (\<lambda>_ t. inv t \<and> le = None \<and> files t = fold (move_variant old new) exts (move_variant old new e (files s))) (\<lambda>_ t. inv t) t"
    if "inv t" "files t = move_variant old new e (files s)" for t
    using Cons.IH [OF that(1) g Cons.prems(3)] that(2) by simp
  have fail: "wp (rename_loop B old new (Some x) exts)
     (\<lambda>_ t. inv t \<and> le = None \<and> files t = fold (move_variant old new) exts (move_variant old new e (files s))) (\<lambda>_ t. inv t) t"
    if "inv t" for t x
    by (rule wp_conseq [OF Cons.IH [OF that g Cons.prems(3)]]) simp_all
  have ge: "good (old @ e)" "good (new @ e)" "old @ e \<noteq> new @ e" using Cons.prems(2,3) by simp_all
  have none: "files t = move_variant old new e (files s)" if "files t = files s" "files s (old @ e) = None" for t
    using that by (simp add: move_variant_def)
  have some: "files t = move_variant old new e (files s)"
    if "files t = (files u)(old @ e := None, new @ e := files u (old @ e))" "files u = files s" "files u (old @ e) \<noteq> None" for t u
    using that by (auto simp: move_variant_def)
  have ren: "wp (bindE (tryE (st_Rename B (old @ e) (new @ e))) (\<lambda>r'.
        rename_loop B old new (case r' of Inl x \<Rightarrow> Some x | Inr _ \<Rightarrow> le) exts))
     (\<lambda>_ t. inv t \<and> le = None \<and> files t = fold (move_variant old new) exts (move_variant old new e (files s))) (\<lambda>_ t. inv t) u"
    if "inv u" "files u = files s" "files s (old @ e) \<noteq> None" for u
  proof -
    have n: "files u (old @ e) \<noteq> None" using that(2,3) by simp
    show ?thesis
      by (simp only: wp_bindE wp_tryE, rule wp_conseq [OF rename_law [OF that(1) ge n]])
        (use that(2) n in \<open>auto intro!: step fail elim!: some\<close>)
  qed
  show ?case
    by (simp only: rename_loop.simps wp_bindE wp_tryE, rule wp_conseq [OF exists_law [OF Cons.prems(1) ge(1)]])
      (auto intro!: step fail none ren simp del: wp_bindE wp_tryE)
qed

lemma var_Exists_wp:
  assumes "inv s" and "\<forall>e \<in> set (supportedExts (alg vs)). good (p @ e)" and "Backend vs = B"
  shows "wp (var_Exists vs p) (\<lambda>b t. inv t \<and> files t = files s \<and>
     b = (\<exists>e \<in> set (supportedExts (alg vs)). files s (p @ e) \<noteq> None)) (\<lambda>_ t. inv t \<and> files t = files s) s"
proof -
  have f: "(first_ext xs f p = None) = (\<not> (\<exists>e \<in> set xs. f (p @ e) \<noteq> None))" for xs f
    by (auto simp: first_ext_def find_None_iff)
  have s: "first_ext xs f p = Some e \<Longrightarrow> \<exists>e \<in> set xs. \<exists>d. f (p @ e) = Some d" for xs f e
    by (auto simp: first_ext_def find_Some_iff)
  show ?thesis
    unfolding var_Exists_def findExistingName_def
    by (simp add: assms(3), rule wp_conseq [OF find_first_wp [OF assms(1,2)]])
      (use f in \<open>auto dest: s\<close>)
qed

end

text \<open>A backend on which reading what is there does not fail.\<close>

locale storage_reliable = storage_backend +
  assumes get_total: "inv s \<Longrightarrow> good p \<Longrightarrow> files s p = Some d \<Longrightarrow> wp (st_Get B p) (\<lambda>r _. r = (d, EEOF)) (\<lambda>_ _. False) s"
    and exists_total: "inv s \<Longrightarrow> good p \<Longrightarrow> wp (st_Exists B p) (\<lambda>_ _. True) (\<lambda>_ _. False) s"

context storage_reliable
begin

lemma find_first_total:
  "inv s \<Longrightarrow> \<forall>e \<in> set exts. good (p @ e) \<Longrightarrow> first_ext exts (files s) p = Some e \<Longrightarrow>
   wp (find_first B p exts) (\<lambda>n t. inv t \<and> files t = files s \<and> n = p @ e) (\<lambda>_ _. False) s"
proof (induction exts arbitrary: s)
  case Nil
  then show ?case by (simp add: first_ext_def)
next
  case (Cons x exts)
  have "wp (find_first B p exts) (\<lambda>n t. inv t \<and> files t = files s \<and> n = p @ e) (\<lambda>_ _. False) t"
    if "inv t" "files t = files s" "files s (p @ x) = None" for t
    using Cons.IH [OF that(1)] Cons.prems(2,3) that(2,3) by (simp add: first_ext_def)
  moreover have "good (p @ x)" using Cons.prems(2) by simp
  ultimately show ?case
    using Cons.prems
    by (auto simp: first_ext_def split: if_splits
        intro!: wp_conseq [OF wp_conj [OF exists_law [OF Cons.prems(1)] exists_total [OF Cons.prems(1)]]])
qed

lemma var_Get_wp:
  assumes "inv s" and "\<forall>e \<in> set (supportedExts (alg vs)). good (p @ e)" and "Backend vs = B"
    and "\<not> has_known_ext (alg vs) p" and "first_ext (supportedExts (alg vs)) (files s) p = Some e"
    and "files s (p @ e) = Some d"
  shows "wp (var_Get E vs p)
    (\<lambda>r t. DecryptAndDecompressOptional E (d, EEOF) (tr_crypter (transformsFromName (alg vs) (p @ e)))
        (tr_decompressor (transformsFromName (alg vs) (p @ e))) = Inr r)
    (\<lambda>x t. DecryptAndDecompressOptional E (d, EEOF) (tr_crypter (transformsFromName (alg vs) (p @ e)))
        (tr_decompressor (transformsFromName (alg vs) (p @ e))) = Inl x) s"
proof -
  have "e \<in> set (supportedExts (alg vs))" using assms(5) by (auto simp: first_ext_def find_Some_iff)
  with assms(2) have g: "good (p @ e)" by blast
  have "wp (open_stored E vs (p @ e))
      (\<lambda>r t. DecryptAndDecompressOptional E (d, EEOF) (tr_crypter (transformsFromName (alg vs) (p @ e)))
          (tr_decompressor (transformsFromName (alg vs) (p @ e))) = Inr r)
      (\<lambda>x t. DecryptAndDecompressOptional E (d, EEOF) (tr_crypter (transformsFromName (alg vs) (p @ e)))
          (tr_decompressor (transformsFromName (alg vs) (p @ e))) = Inl x) t"
    if "inv t" "files t = files s" for t
  proof -
    have "files t (p @ e) = Some d" using that(2) assms(6) by simp
    from get_total [OF that(1) g this] assms(3) show ?thesis
      by (auto simp: open_stored_def Let_def elim!: wp_conseq split: sum.split)
  qed
  with assms(4) show ?thesis
    unfolding var_Get_def findExistingName_def
    by (simp add: assms(3)) (rule wp_conseq [OF find_first_total [OF assms(1,2,5)]], auto)
qed

end

subsection \<open>Properties\<close>

interpretation memr: storage_reliable mem_storage "\<lambda>_. True" mem_files "\<lambda>_. True"
proof unfold_locales
  fix s :: InMemoryStorage and p d
  show "mem_files s p = Some d \<Longrightarrow> wp (st_Get mem_storage p) (\<lambda>r _. r = (d, EEOF)) (\<lambda>_ _. False) s"
    by (simp add: mem_storage_def mem_Get_def mem_files_def)
  show "wp (st_Exists mem_storage p) (\<lambda>_ _. True) (\<lambda>_ _. False) s"
    by (simp add: mem_storage_def mem_Exists_def)
qed

lemma mem_var_Put:
  assumes "Backend vs = mem_storage" and "var_Put E vs path (d, EEOF) s = (Inr (), t)" and "env_ok E" and "alg_ok (alg vs)"
  shows "\<exists>raw. mem_files t = (mem_files s)(path @ writeExt vs \<mapsto> raw) \<and>
    DecryptAndDecompressOptional E (raw, EEOF) (tr_crypter (transformsFromName (alg vs) (path @ writeExt vs)))
      (tr_decompressor (transformsFromName (alg vs) (path @ writeExt vs))) = Inr (d, EEOF)"
proof -
  let ?tr = "transformsFromName (alg vs) (path @ writeExt vs)"
  let ?raw = "CompressAndEncryptOptional E (d, EEOF) (tr_compressor ?tr) (tr_crypter ?tr)"
  have "st_Put mem_storage (path @ writeExt vs) ?raw s = (Inr (), t)"
    using assms(1,2) by (simp add: var_Put_def Let_def encodePath_def)
  from wpD_ok [OF mem.put_law this]
  have "snd ?raw = EEOF" "mem_files t = (mem_files s)(path @ writeExt vs \<mapsto> fst ?raw)" by simp_all
  moreover from this have "?raw = (fst ?raw, EEOF)" by (metis prod.collapse)
  ultimately show ?thesis
    using pipe_roundtrip [OF assms(3) transforms_ok [OF assms(4)], of d "path @ writeExt vs" "tr_crypter ?tr"]
    by (intro exI [of _ "fst ?raw"]) simp
qed

lemma mem_var_Get:
  assumes "Backend vs = mem_storage" and "\<not> has_known_ext (alg vs) path"
    and "first_ext (supportedExts (alg vs)) (mem_files t) path = Some e" and "mem_files t (path @ e) = Some raw"
    and "DecryptAndDecompressOptional E (raw, EEOF) (tr_crypter (transformsFromName (alg vs) (path @ e)))
      (tr_decompressor (transformsFromName (alg vs) (path @ e))) = Inr r"
  shows "fst (var_Get E vs path t) = Inr r"
proof -
  have "wp (var_Get E vs path) (\<lambda>x u. Inr r = (Inr x :: gerr + io_reader)) (\<lambda>x u. Inr r = (Inl x :: gerr + io_reader)) t"
    using memr.var_Get_wp [OF _ _ assms(1-4), of E] unfolding assms(5) by simp
  then show ?thesis by (cases "var_Get E vs path t") (auto simp: wp_def split: sum.splits)
qed

text \<open>An object that was put is read back: under any supported write extension, if the put of a complete
  stream succeeds, the path is not itself spelled with a known extension, and no variant of higher
  priority was there before, then \<open>Get\<close> returns exactly the stream that was put.\<close>

theorem variadic_put_get:
  assumes "env_ok E" and "alg_ok (alg vs)" and "isSupportedWriteExt (alg vs) (writeExt vs)"
    and "Backend vs = mem_storage" and "\<not> has_known_ext (alg vs) path"
    and "\<forall>e \<in> set (takeWhile (\<lambda>e. e \<noteq> writeExt vs) (supportedExts (alg vs))). mem_files s (path @ e) = None"
    and "var_Put E vs path (d, EEOF) s = (Inr (), t)"
  shows "fst (var_Get E vs path t) = Inr (d, EEOF)"
proof -
  obtain raw where raw: "mem_files t = (mem_files s)(path @ writeExt vs \<mapsto> raw)"
    "DecryptAndDecompressOptional E (raw, EEOF) (tr_crypter (transformsFromName (alg vs) (path @ writeExt vs)))
      (tr_decompressor (transformsFromName (alg vs) (path @ writeExt vs))) = Inr (d, EEOF)"
    using mem_var_Put [OF assms(4,7,1,2)] by blast
  have "first_ext (supportedExts (alg vs)) (mem_files t) path = Some (writeExt vs)"
    unfolding first_ext_def
    by (rule find_prefix) (use assms(6) raw(1) writeExt_supported [OF assms(3)] in \<open>auto dest: set_takeWhileD\<close>)
  then show ?thesis by (rule mem_var_Get [OF assms(4,5) _ _ raw(2)]) (simp add: raw(1))
qed

text \<open>C39: A variant of higher priority hides a later write: when an object was stored under an extension that is
  looked up first and is then written again under another one, by a process configured with other
  compression or encryption, \<open>Get\<close> still returns the old contents.\<close>

theorem variadic_stale_read:
  assumes "env_ok E" and "alg_ok (alg old)" and "alg new = alg old"
    and "isSupportedWriteExt (alg old) (writeExt old)"
    and "Backend old = mem_storage" and "Backend new = mem_storage" and "\<not> has_known_ext (alg old) path"
    and "writeExt new \<notin> insert (writeExt old) (set (takeWhile (\<lambda>e. e \<noteq> writeExt old) (supportedExts (alg old))))"
    and "\<forall>e \<in> set (takeWhile (\<lambda>e. e \<noteq> writeExt old) (supportedExts (alg old))). mem_files s (path @ e) = None"
    and "var_Put E old path (d1, EEOF) s = (Inr (), t)" and "var_Put E new path (d2, EEOF) t = (Inr (), u)"
  shows "fst (var_Get E new path u) = Inr (d1, EEOF)"
proof -
  obtain raw where raw: "mem_files t = (mem_files s)(path @ writeExt old \<mapsto> raw)"
    "DecryptAndDecompressOptional E (raw, EEOF) (tr_crypter (transformsFromName (alg old) (path @ writeExt old)))
      (tr_decompressor (transformsFromName (alg old) (path @ writeExt old))) = Inr (d1, EEOF)"
    using mem_var_Put [OF assms(5,10,1,2)] by blast
  obtain raw' where raw': "mem_files u = (mem_files t)(path @ writeExt new \<mapsto> raw')"
    using mem_var_Put [OF assms(6,11,1)] assms(2,3) by auto
  have f: "mem_files u (path @ writeExt old) = Some raw"
    using raw(1) raw' assms(8) by auto
  have n: "mem_files u (path @ e) = None" if "e \<in> set (takeWhile (\<lambda>e. e \<noteq> writeExt old) (supportedExts (alg old)))" for e
    using that raw(1) raw' assms(8,9) by (auto dest: set_takeWhileD)
  have "first_ext (supportedExts (alg new)) (mem_files u) path = Some (writeExt old)"
    unfolding first_ext_def assms(3)
    by (rule find_prefix) (use n f writeExt_supported [OF assms(4)] in auto)
  from mem_var_Get [OF assms(6) _ this f] raw(2) assms(3,7) show ?thesis by simp
qed

text \<open>\<open>Delete\<close> of a logical name removes every variant of it and nothing else; afterwards \<open>Exists\<close> is false.\<close>

theorem variadic_delete:
  assumes "Backend vs = mem_storage" and "var_Delete vs path s = (Inr (), t)"
  shows "mem_files t = drop_variants (supportedExts (alg vs)) path (mem_files s) \<and>
    fst (var_Exists vs path t) = Inr False"
proof -
  have f: "mem_files t = drop_variants (supportedExts (alg vs)) path (mem_files s)"
    using assms wpD_ok [OF mem.delete_loop_wp, of "supportedExts (alg vs)" path None s "()" t]
    by (simp add: var_Delete_def)
  have "wp (var_Exists vs path) (\<lambda>b u. b = False) (\<lambda>_ _. False) t"
  proof -
    have n: "\<forall>e \<in> set (supportedExts (alg vs)). mem_files t (path @ e) = None"
      by (auto simp: f drop_variants_def)
    have "wp (find_first mem_storage path exts) (\<lambda>_ _. False) (\<lambda>e u. e = ENotExist) t"
      if "\<forall>e \<in> set exts. mem_files t (path @ e) = None" for exts
      using that by (induction exts) (simp_all add: mem_storage_def mem_Exists_def mem_files_def)
    from this [OF n] show ?thesis
      unfolding var_Exists_def findExistingName_def
      by (auto simp: assms(1) not_exist_def elim!: wp_conseq)
  qed
  then show ?thesis by (cases "var_Exists vs path t") (auto simp: f wp_def split: sum.splits)
qed

text \<open>\<open>Rename\<close> moves every variant that exists under the old name to the same variant of the new name, and
  changes nothing else.\<close>

theorem variadic_rename:
  assumes "Backend vs = mem_storage" and "var_Rename vs old new s = (Inr (), t)"
    and "decodePath (alg vs) old \<noteq> decodePath (alg vs) new"
  shows "mem_files t = fold (move_variant (decodePath (alg vs) old) (decodePath (alg vs) new))
      (supportedExts (alg vs)) (mem_files s)"
  using assms wpD_ok [OF mem.rename_loop_wp, of "supportedExts (alg vs)" "decodePath (alg vs) old"
      "decodePath (alg vs) new" None s "()" t]
  by (simp add: var_Rename_def Let_def)

subsection \<open>Concrete runs\<close>

definition toy_alg :: Algorithms where
  "toy_alg = \<lparr>Gzip = Some (GzipCompressor toy_complib, GzipDecompressor toy_complib), Zstd = None, AES = Some toy_crypter\<rparr>"

definition toy_var :: "string \<Rightarrow> InMemoryStorage VariadicStorage" where
  "toy_var ext = \<lparr>Backend = mem_storage, alg = toy_alg, writeExt = ext\<rparr>"

definition toy_put :: "string \<Rightarrow> string \<Rightarrow> InMemoryStorage \<Rightarrow> InMemoryStorage" where
  "toy_put ext d s = snd (var_Put toy_env (toy_var ext) ''seg'' (d, EEOF) s)"

lemma toy_alg_ok: "alg_ok toy_alg" "supportedExts toy_alg = [''.gz.aes'', ''.gz'', ''.aes'', '''']"
  using codec_ok_lib(1) [OF toy_env_ok(2)]
  by (simp_all add: alg_ok_def toy_alg_def supportedExts_def)

lemma toy_put_ok: "var_Put toy_env (toy_var ext) ''seg'' (d, EEOF) s = (Inr (), toy_put ext d s)"
proof -
  have "\<forall>z. tr_compressor (transformsFromName toy_alg n) = Some z \<longrightarrow> c_new z = None" for n
    using transforms_ok [OF toy_alg_ok(1), of n] by (auto simp: codec_ok_def split: option.splits)
  moreover have "ce_rnd toy_env saltSize = Inr (replicate saltSize (CHR ''s''))"
    by (simp add: toy_env_def toy_ok)
  ultimately have "\<exists>raw. CompressAndEncryptOptional toy_env (d, EEOF) (tr_compressor (transformsFromName toy_alg (''seg'' @ ext)))
      (tr_crypter (transformsFromName toy_alg (''seg'' @ ext))) = (raw, EEOF)"
    using CompressAndEncrypt_ok [OF toy_env_ok(1)] by blast
  then show ?thesis
    by (auto simp: toy_put_def var_Put_def toy_var_def encodePath_def mem_storage_def mem_Put_def io_ReadAll_def exec_simps)
qed

lemma toy_path: "\<not> has_known_ext toy_alg ''seg''"
  by (simp add: has_known_ext_def toy_alg_ok has_suffix_def)

lemma toy_empty: "mem_files (NewInMemoryStorage 0) p = None"
  by (simp add: mem_files_def NewInMemoryStorage_def)

theorem variadic_put_get_witness:
  "fst (var_Get toy_env (toy_var ''.aes'') ''seg'' (toy_put ''.aes'' ''wal'' (NewInMemoryStorage 0))) = Inr (''wal'', EEOF)"
  by (rule variadic_put_get [OF toy_env_ok(1) _ _ _ _ _ toy_put_ok])
    (simp_all add: toy_var_def toy_alg_ok toy_path toy_empty, simp add: toy_alg_def isSupportedWriteExt_def)

theorem variadic_stale_read_witness:
  "fst (var_Get toy_env (toy_var ''.aes'') ''seg'' (toy_put ''.aes'' ''new'' (toy_put ''.gz'' ''old'' (NewInMemoryStorage 0)))) =
     Inr (''old'', EEOF)"
  by (rule variadic_stale_read [OF toy_env_ok(1) _ _ _ _ _ _ _ _ toy_put_ok toy_put_ok])
    (simp_all add: toy_var_def toy_alg_ok toy_path toy_empty, simp add: toy_alg_def isSupportedWriteExt_def)

definition toy_mem :: InMemoryStorage where
  "toy_mem = \<lparr>Files = [(''seg.gz'', ''x''), (''seg'', ''y''), (''other'', ''z'')], ctxDone = False, nowTime = 0\<rparr>"

theorem variadic_delete_witness:
  "mem_files (snd (var_Delete (toy_var ''.gz'') ''seg'' toy_mem)) =
     drop_variants (supportedExts (alg (toy_var ''.gz''))) ''seg'' (mem_files toy_mem) \<and>
   fst (var_Exists (toy_var ''.gz'') ''seg'' (snd (var_Delete (toy_var ''.gz'') ''seg'' toy_mem))) = Inr False"
proof (rule variadic_delete)
  have "fst (var_Delete (toy_var ''.gz'') ''seg'' toy_mem) = Inr ()"
    by (simp add: var_Delete_def toy_var_def toy_alg_ok toy_mem_def mem_storage_def mem_Delete_def exec_simps not_exist_def)
  then show "var_Delete (toy_var ''.gz'') ''seg'' toy_mem = (Inr (), snd (var_Delete (toy_var ''.gz'') ''seg'' toy_mem))"
    by (metis prod.collapse)
qed (simp add: toy_var_def)

theorem variadic_rename_witness:
  "mem_files (snd (var_Rename (toy_var ''.gz'') ''seg'' ''new'' toy_mem)) =
     fold (move_variant (decodePath (alg (toy_var ''.gz'')) ''seg'') (decodePath (alg (toy_var ''.gz'')) ''new''))
       (supportedExts (alg (toy_var ''.gz''))) (mem_files toy_mem)"
proof (rule variadic_rename)
  have d: "decodePath toy_alg ''seg'' = ''seg''" "decodePath toy_alg ''new'' = ''new''"
    by (simp_all add: decodePath_def toy_alg_ok has_suffix_def)
  have "fst (var_Rename (toy_var ''.gz'') ''seg'' ''new'' toy_mem) = Inr ()"
    by (simp add: var_Rename_def toy_var_def d)
      (simp add: toy_alg_ok toy_mem_def mem_storage_def mem_Exists_def mem_Rename_def exec_simps)
  then show "var_Rename (toy_var ''.gz'') ''seg'' ''new'' toy_mem =
      (Inr (), snd (var_Rename (toy_var ''.gz'') ''seg'' ''new'' toy_mem))"
    by (metis prod.collapse)
  show "decodePath (alg (toy_var ''.gz'')) ''seg'' \<noteq> decodePath (alg (toy_var ''.gz'')) ''new''"
    by (simp add: toy_var_def d)
qed (simp add: toy_var_def)

end
