(* ===== verification/GoConv.thy ===== *)
theory GoConv
  imports GoLib
begin

section \<open>Checked integer conversions (internal/core/conv/safeconv.go)\<close>

text \<open>
  Go's \<open>int64\<close> and \<open>int32\<close> are words read with \<open>sint\<close>; a conversion that Go writes as a cast is
  \<open>ucast\<close> or the identity on the bits.
\<close>

definition ParseUint32 :: "string \<Rightarrow> gerr + u32" where
  "ParseUint32 s = (case ParseUint s 10 32 of Inl e \<Rightarrow> Inl e | Inr n \<Rightarrow> Inr (word_of_nat n))"

definition ToUint64 :: "64 word \<Rightarrow> u64" where
  "ToUint64 i = (if sint i < 0 then 0 else i)"

definition ToUint32 :: "32 word \<Rightarrow> u32" where
  "ToUint32 i = (if sint i < 0 then 0 else i)"

definition Uint64ToInt64 :: "u64 \<Rightarrow> gerr + 64 word" where
  "Uint64ToInt64 u = (if 0x7FFFFFFFFFFFFFFF < u
     then Inl (EMsg ''cannot convert uint64 to int64: overflows'') else Inr u)"

definition Uint64ToUint32 :: "u64 \<Rightarrow> gerr + u32" where
  "Uint64ToUint32 u = (if 0xFFFFFFFF < u
     then Inl (EMsg ''cannot convert uint64 to uint32: overflows'') else Inr (ucast u))"

definition Uint32ToInt32 :: "u32 \<Rightarrow> gerr + 32 word" where
  "Uint32ToInt32 u = (if 0x7FFFFFFF < u
     then Inl (EMsg ''cannot convert uint32 to int32: overflows'') else Inr u)"

text \<open>Go's \<open>int64(n)\<close> of an unbounded length, and back.\<close>

definition int64 :: "int \<Rightarrow> 64 word" where [go_defs]:
  "int64 n = word_of_int n"

text \<open>Each conversion either refuses the value or keeps it: no silent change of the number.\<close>

lemma uint_eq_sint:
  fixes i :: "'a::len word"
  assumes "0 \<le> sint i"
  shows "uint i = sint i"
proof -
  have "sint i < 2 ^ LENGTH('a)"
    using sint_lt [of i] by (smt (verit) diff_le_self one_le_numeral power_increasing)
  with assms show ?thesis by (simp add: uint_sint take_bit_int_eq_self)
qed

lemma uint_ToUint64: "uint (ToUint64 i) = max 0 (sint i)"
  using uint_eq_sint [of i] by (simp add: ToUint64_def)

lemma uint_ToUint32: "uint (ToUint32 i) = max 0 (sint i)"
  using uint_eq_sint [of i] by (simp add: ToUint32_def)

lemma sint_eq_uint_small:
  fixes u :: "'a::len word"
  assumes "uint u < 2 ^ (LENGTH('a) - 1)"
  shows "sint u = uint u"
proof -
  have "- (2 ^ (LENGTH('a) - 1)) \<le> uint u" by (rule order_trans [OF _ uint_ge_0]) simp
  with assms show ?thesis by (simp add: sint_uint signed_take_bit_int_eq_self)
qed

lemma Uint64ToInt64_ok: "Uint64ToInt64 u = Inr i \<Longrightarrow> i = u \<and> sint i = uint u"
  by (auto simp: Uint64ToInt64_def word_less_def split: if_splits intro!: sint_eq_uint_small)

lemma Uint32ToInt32_ok: "Uint32ToInt32 u = Inr i \<Longrightarrow> i = u \<and> sint i = uint u"
  by (auto simp: Uint32ToInt32_def word_less_def split: if_splits intro!: sint_eq_uint_small)

lemma Uint64ToUint32_ok: "Uint64ToUint32 u = Inr v \<Longrightarrow> uint v = uint u"
  by (auto simp: Uint64ToUint32_def word_less_def take_bit_int_eq_self unsigned_ucast_eq split: if_splits)

lemma Uint64ToUint32_of_nat:
  "n < 2 ^ 32 \<Longrightarrow> Uint64ToUint32 (word_of_nat n) = Inr (word_of_nat n)"
  by (auto simp: Uint64ToUint32_def word_less_nat_alt word_unat_eq_iff unsigned_ucast_eq unat_of_nat
      take_bit_nat_eq_self)

lemma ToUint64_of_nat: "n < 2 ^ 63 \<Longrightarrow> ToUint64 (word_of_nat n) = word_of_nat n"
  using sint_eq_uint_small [of "word_of_nat n :: 64 word"]
  by (simp add: ToUint64_def uint_nat unat_of_nat take_bit_nat_eq_self nat_less_iff)

end
