(* ===== verification/XLogInternal.thy ===== *)
theory XLogInternal
  imports GoConv
begin

section \<open>WAL segments and their names (internal/core/xlog/xlog\_internal.go)\<close>

text \<open>
  Segment arithmetic on 64-bit positions and the 24-digit names of WAL segments.  The divisions
  panic on a zero divisor, as they do in Go; the lemmas give each function's value for a segment
  size that is a power of two, and the round trip and the order of the names.
\<close>

definition WalSegMinSize :: u64 where [go_defs]: "WalSegMinSize = 1 * 1024 * 1024"
definition WalSegMaxSize :: u64 where [go_defs]: "WalSegMaxSize = 1 * 1024 * 1024 * 1024"
definition XLogFileNameLen :: nat where [go_defs]: "XLogFileNameLen = 24"
definition PartialSuffix :: string where [go_defs]: "PartialSuffix = ''.partial''"

definition go_div :: "u64 \<Rightarrow> u64 \<Rightarrow> gerr + u64" where [go_defs]:
  "go_div a b = (if b = 0 then Inl (EPanic ''integer divide by zero'') else Inr (a div b))"

definition go_mod :: "u64 \<Rightarrow> u64 \<Rightarrow> gerr + u64" where [go_defs]:
  "go_mod a b = (if b = 0 then Inl (EPanic ''integer divide by zero'') else Inr (a mod b))"

definition IsPowerOf2 :: "u64 \<Rightarrow> bool" where
  "IsPowerOf2 x = (0 < x \<and> x AND (x - 1) = 0)"

definition IsValidWalSegSize :: "u64 \<Rightarrow> bool" where
  "IsValidWalSegSize sz = (IsPowerOf2 sz \<and> WalSegMinSize \<le> sz \<and> sz \<le> WalSegMaxSize)"

definition XLByteToSeg :: "u64 \<Rightarrow> u64 \<Rightarrow> gerr + u64" where
  "XLByteToSeg xlrp walSegSize = go_div xlrp walSegSize"

definition XLogSegmentOffset :: "lsn \<Rightarrow> u64 \<Rightarrow> u64" where
  "XLogSegmentOffset xlogptr walSegSize = xlogptr AND (walSegSize - 1)"

definition XLogSegmentsPerXLogId :: "u64 \<Rightarrow> gerr + u64" where
  "XLogSegmentsPerXLogId walSegSize = go_div 0x100000000 walSegSize"

definition XLogSegNoToRecPtr :: "u64 \<Rightarrow> u64 \<Rightarrow> lsn" where
  "XLogSegNoToRecPtr segno walSegSize = segno * walSegSize"

definition XLogFileName :: "u32 \<Rightarrow> u64 \<Rightarrow> u64 \<Rightarrow> gerr + string" where
  "XLogFileName tli logSegNo walSegSize =
     (case XLogSegmentsPerXLogId walSegSize of
        Inl e \<Rightarrow> Inl e
      | Inr n \<Rightarrow>
          (case (go_div logSegNo n, go_mod logSegNo n) of
             (Inr hi, Inr lo) \<Rightarrow> Inr (fmt_X 8 (unat tli) @ fmt_X 8 (unat hi) @ fmt_X 8 (unat lo))
           | (Inl e, _) \<Rightarrow> Inl e
           | (_, Inl e) \<Rightarrow> Inl e))"

definition hexSet :: "char \<Rightarrow> bool" where [go_defs]:
  "hexSet c = (c \<in> set ''0123456789ABCDEF'')"

fun strspnMap :: "string \<Rightarrow> (char \<Rightarrow> bool) \<Rightarrow> nat" where
  "strspnMap [] valid = 0"
| "strspnMap (c # s) valid = (if \<not> valid c then 0 else Suc (strspnMap s valid))"

definition IsXLogFileName :: "string \<Rightarrow> bool" where
  "IsXLogFileName fname = (length fname = XLogFileNameLen \<and> strspnMap fname hexSet = XLogFileNameLen)"

definition IsPartialXLogFileName :: "string \<Rightarrow> bool" where
  "IsPartialXLogFileName fname =
     (let expectedLen = XLogFileNameLen + length PartialSuffix
      in length fname = expectedLen \<and>
         strspnMap (take XLogFileNameLen fname) hexSet = XLogFileNameLen \<and>
         drop XLogFileNameLen fname = PartialSuffix)"

definition XLogFromFileName :: "string \<Rightarrow> u64 \<Rightarrow> gerr + u32 \<times> u64" where
  "XLogFromFileName fname walSegSize =
     (if length fname < 24 then Inl (EMsg ''WAL filename too short'')
      else
        let tliHex = take 8 fname;
            logHex = take 8 (drop 8 fname);
            segHex = take 8 (drop 16 fname)
        in case ParseUint tliHex 16 32 of
             Inl e \<Rightarrow> Inl (wrap_err ''invalid TLI'' e)
           | Inr tli64 \<Rightarrow>
             (case Uint64ToUint32 (word_of_nat tli64) of
                Inl e \<Rightarrow> Inl e
              | Inr tli32 \<Rightarrow>
                (case ParseUint logHex 16 32 of
                   Inl e \<Rightarrow> Inl (wrap_err ''invalid log ID'' e)
                 | Inr log \<Rightarrow>
                   (case ParseUint segHex 16 32 of
                      Inl e \<Rightarrow> Inl (wrap_err ''invalid segment ID'' e)
                    | Inr seg \<Rightarrow>
                      (case XLogSegmentsPerXLogId walSegSize of
                         Inl e \<Rightarrow> Inl e
                       | Inr segmentsPerXlogID \<Rightarrow>
                           Inr (tli32, word_of_nat log * segmentsPerXlogID + word_of_nat seg))))))"

subsection \<open>Powers of two\<close>

lemma nat_and_pred:
  fixes n :: nat
  assumes "0 < n" and "n AND (n - 1) = 0"
  shows "\<exists>k. n = 2 ^ k"
  using assms
proof (induction n rule: less_induct)
  case (less n)
  show ?case
  proof (cases "even n")
    case True
    then obtain m where m: "n = 2 * m" by blast
    with less.prems have m0: "0 < m" by simp
    then have "n - 1 = 2 * (m - 1) + 1" using m by simp
    then have "n AND (n - 1) = 2 * (m AND (m - 1))"
      using m by (simp add: and_rec [of "2 * m"])
    with less.prems have "m AND (m - 1) = 0" by simp
    with less.IH [of m] m m0 obtain k where "m = 2 ^ k" by auto
    with m have "n = 2 ^ Suc k" by simp
    then show ?thesis by blast
  next
    case False
    then obtain m where m: "n = 2 * m + 1" by (metis oddE)
    then have "n AND (n - 1) = 2 * m"
      by (simp add: and_rec [of "Suc (2 * m)"])
    with less.prems m have "n = 2 ^ 0" by simp
    then show ?thesis by blast
  qed
qed

lemma pow2_and_pred: "(2 ^ k :: nat) AND (2 ^ k - 1) = 0"
  using take_bit_eq_mask [of k "2 ^ k :: nat"] by (simp add: mask_eq_exp_minus_1 take_bit_eq_mod)

lemma unat_minus_one: "(x :: 'a::len word) \<noteq> 0 \<Longrightarrow> unat (x - 1) = unat x - 1"
  by (simp add: Word.unat_minus_one)

lemma IsPowerOf2_iff: "IsPowerOf2 x \<longleftrightarrow> (\<exists>k<64. unat x = 2 ^ k)"
proof
  assume "IsPowerOf2 x"
  then have x: "x \<noteq> 0" "x AND (x - 1) = 0" by (auto simp: IsPowerOf2_def)
  then have "unat x AND (unat x - 1) = 0"
    by (metis unat_minus_one unsigned_and_eq unsigned_0)
  with x obtain k where k: "unat x = 2 ^ k"
    using nat_and_pred [of "unat x"] by (auto simp: unat_gt_0)
  have "(2::nat) ^ k < 2 ^ 64"
    using k unsigned_less [of x, where ?'a = nat] by simp
  then have "k < 64" by (simp only: power_strict_increasing_iff)
  with k show "\<exists>k<64. unat x = 2 ^ k" by blast
next
  assume "\<exists>k<64. unat x = 2 ^ k"
  then obtain k where k: "unat x = 2 ^ k" by blast
  then have x: "x \<noteq> 0" by auto
  then have "unat (x AND (x - 1)) = 0"
    using pow2_and_pred [of k] by (simp add: unsigned_and_eq unat_minus_one k)
  with x show "IsPowerOf2 x" by (auto simp: IsPowerOf2_def word_gt_0 unat_eq_0)
qed


lemma unat_pow2:
  assumes "k < 64"
  shows "unat (2 ^ k :: u64) = 2 ^ k"
proof -
  have "(2 :: nat) ^ k < 2 ^ 64" using assms by (intro power_strict_increasing) auto
  then have "unat (of_nat (2 ^ k) :: u64) = 2 ^ k" by (simp only: unat_of_nat) (simp add: take_bit_nat_eq_self)
  then show ?thesis by simp
qed

lemma IsPowerOf2D: "IsPowerOf2 x \<Longrightarrow> \<exists>k<64. x = 2 ^ k"
  by (metis IsPowerOf2_iff unat_pow2 word_unat_eq_iff)

lemma XLogSegmentOffset_mod:
  assumes "IsPowerOf2 w"
  shows "XLogSegmentOffset p w = p mod w"
proof -
  obtain k where k: "k < 64" "w = 2 ^ k" using IsPowerOf2D [OF assms] by blast
  then show ?thesis
    by (simp add: XLogSegmentOffset_def take_bit_eq_mod take_bit_eq_mask mask_eq_exp_minus_1
        flip: take_bit_eq_mod)
qed

lemma unat_XLogSegmentOffset:
  "IsPowerOf2 w \<Longrightarrow> unat (XLogSegmentOffset p w) = unat p mod unat w"
  by (simp add: XLogSegmentOffset_mod unat_mod)

lemma div_mult_mod_word: "p div w * w + p mod w = (p :: u64)"
  by (rule word_mod_div_equality)

lemma IsPowerOf2_pos: "IsPowerOf2 w \<Longrightarrow> 0 < unat w"
  by (auto simp: IsPowerOf2_def word_gt_0 unat_gt_0)

lemma IsPowerOf2_neq0: "IsPowerOf2 w \<Longrightarrow> w \<noteq> 0"
  by (auto simp: IsPowerOf2_def)

lemma unat_le_pow2:
  "k < 64 \<Longrightarrow> w \<le> 2 ^ k \<longleftrightarrow> unat w \<le> 2 ^ k" for w :: u64
  by (simp add: word_le_nat_alt unat_pow2)

text \<open>The number of segments per \<open>xlogid\<close>, a power of two at most \<open>2 ^ 32\<close>.\<close>

definition segs :: "u64 \<Rightarrow> nat" where [go_defs]:
  "segs w = 2 ^ 32 div unat w"

lemma XLogSegmentsPerXLogId_ok:
  assumes "IsPowerOf2 w" and "w \<le> 0x100000000"
  shows "\<exists>n. XLogSegmentsPerXLogId w = Inr n \<and> unat n = segs w \<and> 0 < segs w \<and> segs w \<le> 2 ^ 32"
proof -
  have u: "unat (0x100000000 :: u64) = 2 ^ 32" by simp
  have w: "unat w \<le> 2 ^ 32" using assms(2) by (simp add: word_le_nat_alt)
  have "unat (0x100000000 div w) = segs w" by (simp add: segs_def unat_div)
  moreover have "0 < segs w"
    using w IsPowerOf2_pos [OF assms(1)] by (simp add: segs_def div_greater_zero_iff)
  moreover have "segs w \<le> 2 ^ 32" by (simp add: segs_def)
  ultimately show ?thesis
    using IsPowerOf2_neq0 [OF assms(1)] by (simp add: XLogSegmentsPerXLogId_def go_div_def)
qed

text \<open>The canonical name, over the naturals.\<close>

definition wal_name :: "u32 \<Rightarrow> nat \<Rightarrow> u64 \<Rightarrow> string" where
  "wal_name tli n w = fmt_X 8 (unat tli) @ fmt_X 8 (n div segs w) @ fmt_X 8 (n mod segs w)"

lemma XLogFileName_ok:
  assumes "IsPowerOf2 w" and "w \<le> 0x100000000"
  shows "XLogFileName tli n w = Inr (wal_name tli (unat n) w)"
proof -
  obtain k where k: "XLogSegmentsPerXLogId w = Inr k" "unat k = segs w" "0 < segs w"
    using XLogSegmentsPerXLogId_ok [OF assms] by blast
  then have "k \<noteq> 0" by auto
  with k show ?thesis
    by (simp add: XLogFileName_def wal_name_def go_div_def go_mod_def unat_div unat_mod)
qed

lemma XLByteToSeg_ok: "IsPowerOf2 w \<Longrightarrow> XLByteToSeg p w = Inr (p div w)"
  by (simp add: XLByteToSeg_def go_div_def IsPowerOf2_neq0)

lemma IsValidWalSegSizeD:
  assumes "IsValidWalSegSize w"
  shows "IsPowerOf2 w" and "w \<le> 0x100000000"
  using assms by (auto simp: IsValidWalSegSize_def WalSegMaxSize_def word_le_nat_alt)


subsection \<open>Names: length, alphabet, parsing, order\<close>

definition seg_ok :: "nat \<Rightarrow> u64 \<Rightarrow> bool" where
  "seg_ok n w = (IsPowerOf2 w \<and> w \<le> 0x100000000 \<and> n < 2 ^ 32 * segs w)"

lemma seg_okD:
  assumes "seg_ok n w"
  shows "n div segs w < 16 ^ 8" and "n mod segs w < 16 ^ 8" and "0 < segs w"
proof -
  from assms have s: "0 < segs w" "segs w \<le> 2 ^ 32" "n < 2 ^ 32 * segs w"
    using XLogSegmentsPerXLogId_ok by (auto simp: seg_ok_def)
  from s show "n div segs w < 16 ^ 8" by (simp add: less_mult_imp_div_less mult.commute)
  from s have "n mod segs w < segs w" by simp
  with s(2) show "n mod segs w < 16 ^ 8" by simp
  show "0 < segs w" by (rule s(1))
qed

lemma unat_u32_less: "unat (t :: u32) < 16 ^ 8"
  using unsigned_less [of t, where ?'a = nat] by simp

lemma wal_name_hexw:
  "seg_ok n w \<Longrightarrow>
     wal_name tli n w = hexw 8 (unat tli) @ hexw 8 (n div segs w) @ hexw 8 (n mod segs w)"
  using seg_okD [of n w] unat_u32_less [of tli] by (simp add: wal_name_def fmt_X_hexw)

lemma length_wal_name: "seg_ok n w \<Longrightarrow> length (wal_name tli n w) = 24"
  by (simp add: wal_name_hexw)

lemma hexSet_hex_digit: "d < 16 \<Longrightarrow> hexSet (hex_digit d)"
proof -
  assume "d < 16"
  then have "d \<in> set [0..<16]" by simp
  moreover have "\<forall>d \<in> set [0..<16]. hexSet (hex_digit d)" by code_simp
  ultimately show ?thesis by blast
qed

lemma hexSet_wal_name: "seg_ok n w \<Longrightarrow> \<forall>c \<in> set (wal_name tli n w). hexSet c"
  by (auto simp: wal_name_hexw hexSet_hex_digit dest!: hexw_digits)

lemma strspnMap_all: "strspnMap s v = length s \<longleftrightarrow> (\<forall>c \<in> set s. v c)"
proof (induction s)
  case Nil
  then show ?case by simp
next
  case (Cons c s)
  then show ?case by auto
qed

lemma plain_hex:
  assumes "length s = 24" and "\<forall>c \<in> set s. hexSet c" and "CHR ''/'' \<notin> set t"
  shows "plain_name (s @ t)"
proof -
  have "\<not> hexSet (CHR ''/'')" by code_simp
  with assms(2) have "CHR ''/'' \<notin> set s" by blast
  then show ?thesis using assms by (auto simp: plain_name_def append_eq_Cons_conv)
qed

lemma plain_wal_name:
  "seg_ok n w \<Longrightarrow> plain_name (wal_name tli n w)"
  "seg_ok n w \<Longrightarrow> plain_name (wal_name tli n w @ PartialSuffix)"
  using plain_hex [of "wal_name tli n w" "[]"] plain_hex [of "wal_name tli n w" PartialSuffix]
  by (simp_all add: length_wal_name hexSet_wal_name PartialSuffix_def)

lemma IsXLogFileName_wal_name: "seg_ok n w \<Longrightarrow> IsXLogFileName (wal_name tli n w)"
  using hexSet_wal_name [of n w tli]
  by (simp add: IsXLogFileName_def XLogFileNameLen_def length_wal_name flip: strspnMap_all)

lemma IsPartialXLogFileName_iff:
  "IsPartialXLogFileName f \<longleftrightarrow> (\<exists>b. IsXLogFileName b \<and> f = b @ PartialSuffix)"
proof
  assume a: "IsPartialXLogFileName f"
  then have "IsXLogFileName (take 24 f) \<and> f = take 24 f @ PartialSuffix"
    unfolding IsPartialXLogFileName_def Let_def XLogFileNameLen_def IsXLogFileName_def
    by (metis add_leD1 append_take_drop_id length_take min_absorb2 le_add1)
  then show "\<exists>b. IsXLogFileName b \<and> f = b @ PartialSuffix" by blast
next
  assume "\<exists>b. IsXLogFileName b \<and> f = b @ PartialSuffix"
  then show "IsPartialXLogFileName f"
    by (auto simp: IsPartialXLogFileName_def IsXLogFileName_def XLogFileNameLen_def)
qed

lemma segs_mult:
  assumes "IsPowerOf2 w" and "w \<le> 0x100000000"
  shows "unat w * segs w = 2 ^ 32"
proof -
  obtain k where k: "k < 64" "unat w = 2 ^ k" using IsPowerOf2_iff assms(1) by blast
  have w: "unat w \<le> 2 ^ 32" using assms(2) by (simp add: word_le_nat_alt)
  have "k \<le> 32"
  proof (rule ccontr)
    assume "\<not> k \<le> 32"
    then have "(2::nat) ^ 32 < 2 ^ k" by (intro power_strict_increasing) auto
    with w k show False by simp
  qed
  then have "(2::nat) ^ 32 = 2 ^ k * 2 ^ (32 - k)" by (simp only: flip: power_add) simp
  then have "(2::nat) ^ 32 div 2 ^ k = 2 ^ (32 - k)" by (metis nonzero_mult_div_cancel_left power_not_zero zero_neq_numeral)
  with \<open>2 ^ 32 = 2 ^ k * 2 ^ (32 - k)\<close> show ?thesis
    by (simp only: segs_def k)
qed

lemma seg_of_pos_ok:
  assumes "IsPowerOf2 w" and "w \<le> 0x100000000"
  shows "seg_ok (unat (p :: lsn) div unat w) w"
proof -
  have e: "2 ^ 32 * segs w * unat w = (2::nat) ^ 64"
    using segs_mult [OF assms] by (simp add: mult.commute mult.left_commute)
  have "unat p < 2 ^ 64" using unsigned_less [of p, where ?'a = nat] by simp
  then have "unat p div unat w < 2 ^ 32 * segs w"
    using e by (simp only: less_mult_imp_div_less)
  then show ?thesis using assms by (simp add: seg_ok_def)
qed

lemma seg_ok_bound:
  assumes "seg_ok q w"
  shows "Suc q * unat w \<le> 2 ^ 64"
proof -
  from assms have w: "IsPowerOf2 w" "w \<le> 0x100000000" "Suc q \<le> 2 ^ 32 * segs w"
    by (simp_all add: seg_ok_def)
  from w(3) have "Suc q * unat w \<le> 2 ^ 32 * segs w * unat w" by (rule mult_le_mono1)
  also have "\<dots> = 2 ^ 32 * (unat w * segs w)" by simp
  also have "\<dots> = 2 ^ 64" using segs_mult [OF w(1,2)] by simp
  finally show ?thesis .
qed

lemma XLogFromFileName_hexw:
  assumes "a < 16 ^ 8" "b < 16 ^ 8" "c < 16 ^ 8" and "XLogSegmentsPerXLogId w = Inr k"
  shows "XLogFromFileName (hexw 8 a @ hexw 8 b @ hexw 8 c @ sfx) w =
    Inr (word_of_nat a, word_of_nat b * k + word_of_nat c)"
proof -
  let ?f = "hexw 8 a @ hexw 8 b @ hexw 8 c @ sfx"
  have t: "Uint64ToUint32 (word_of_nat a) = Inr (word_of_nat a)"
    using assms(1) by (intro Uint64ToUint32_of_nat) simp
  have p: "ParseUint (hexw 8 a) 16 32 = Inr a" "ParseUint (hexw 8 b) 16 32 = Inr b"
    "ParseUint (hexw 8 c) 16 32 = Inr c"
    using assms by (simp_all only: ParseUint_hexw)
  have tk: "take 8 ?f = hexw 8 a" "take 8 (drop 8 ?f) = hexw 8 b"
    "take 8 (drop 16 ?f) = hexw 8 c" "\<not> length ?f < 24"
    by simp_all
  show ?thesis
    unfolding XLogFromFileName_def Let_def
    by (simp only: tk p t assms(4) if_False sum.case)
qed

text \<open>Parsing a name, complete or with any suffix, gives back the timeline and the segment.\<close>

lemma XLogFromFileName_wal_name:
  assumes "seg_ok n w"
  shows "XLogFromFileName (wal_name tli n w @ sfx) w = Inr (tli, word_of_nat n)"
proof -
  obtain k where k: "XLogSegmentsPerXLogId w = Inr k" "unat k = segs w"
    using XLogSegmentsPerXLogId_ok assms by (auto simp: seg_ok_def)
  have kw: "k = word_of_nat (segs w)" by (simp flip: k(2))
  have "word_of_nat (n div segs w) * k + word_of_nat (n mod segs w) =
      word_of_nat (n div segs w * segs w + n mod segs w)"
    by (simp only: kw of_nat_mult of_nat_add)
  then have e: "word_of_nat (n div segs w) * k + word_of_nat (n mod segs w) = word_of_nat n"
    by simp
  have "wal_name tli n w @ sfx =
      hexw 8 (unat tli) @ hexw 8 (n div segs w) @ hexw 8 (n mod segs w) @ sfx"
    using wal_name_hexw [OF assms] by simp
  then show ?thesis
    using XLogFromFileName_hexw [OF unat_u32_less seg_okD(1,2) [OF assms] k(1), of tli sfx] e
    by simp
qed

lemma wal_name_less_iff:
  assumes "seg_ok n w" and "seg_ok m w"
  shows "wal_name t n w < wal_name u m w \<longleftrightarrow> t < u \<or> t = u \<and> n < m"
proof -
  let ?s = "segs w"
  have s: "0 < ?s" using seg_okD(3) [OF assms(1)] .
  have nm: "n < m \<longleftrightarrow> n div ?s < m div ?s \<or> n div ?s = m div ?s \<and> n mod ?s < m mod ?s"
    by (rule div_mod_lex [OF s])
  have tu: "t < u \<longleftrightarrow> unat t < unat u" "t = u \<longleftrightarrow> unat t = unat u"
    by (simp_all add: word_less_nat_alt word_unat_eq_iff)
  show ?thesis
    unfolding nm tu using seg_okD [OF assms(1)] seg_okD [OF assms(2)] unat_u32_less
    by (simp add: wal_name_hexw assms lex_append_eq_len hexw_less hexw_inj)
qed

lemma wal_name_inj:
  assumes "seg_ok n w" and "seg_ok m w"
  shows "wal_name t n w = wal_name u m w \<longleftrightarrow> t = u \<and> n = m"
proof -
  have "wal_name t n w = wal_name u m w \<longleftrightarrow>
      \<not> wal_name t n w < wal_name u m w \<and> \<not> wal_name u m w < wal_name t n w"
    by auto
  also have "\<dots> \<longleftrightarrow> t = u \<and> n = m"
    unfolding wal_name_less_iff [OF assms] wal_name_less_iff [OF assms(2,1)] by auto
  finally show ?thesis .
qed


text \<open>Every string of \<open>k\<close> digits of the set is the \<open>k\<close>-digit form of a number.\<close>

lemma hexSet_cases: "hexSet c \<Longrightarrow> \<exists>d<16. c = hex_digit d"
proof -
  assume "hexSet c"
  then have "c \<in> set ''0123456789ABCDEF''" by (simp add: hexSet_def)
  moreover have "set ''0123456789ABCDEF'' = hex_digit ` set [0..<16]" by code_simp
  ultimately have "c \<in> hex_digit ` set [0..<16]" by (simp only:)
  then obtain d where "d \<in> set [0..<16]" "c = hex_digit d" by blast
  then show ?thesis by auto
qed

lemma hexSet_hexw:
  "\<forall>c \<in> set s. hexSet c \<Longrightarrow> \<exists>n<16 ^ length s. s = hexw (length s) n"
proof (induction s rule: rev_induct)
  case Nil
  then show ?case by simp
next
  case (snoc c s)
  then obtain n where n: "n < 16 ^ length s" "s = hexw (length s) n" by auto
  obtain d where d: "d < 16" "c = hex_digit d" using snoc.prems hexSet_cases [of c] by auto
  have "s @ [c] = hexw (length (s @ [c])) (16 * n + d)"
    using n(2) d by simp
  moreover have "16 * n + d < 16 ^ length (s @ [c])" using n(1) d(1) by simp
  ultimately show ?case by blast
qed

lemma IsXLogFileName_split:
  assumes "IsXLogFileName f"
  obtains a b c where "a < 16 ^ 8" "b < 16 ^ 8" "c < 16 ^ 8"
    "f = hexw 8 a @ hexw 8 b @ hexw 8 c"
proof -
  from assms have l: "length f = 24" and h: "\<forall>c \<in> set f. hexSet c"
    by (simp_all add: IsXLogFileName_def XLogFileNameLen_def flip: strspnMap_all)
  let ?a = "take 8 f" and ?b = "take 8 (drop 8 f)" and ?c = "drop 16 f"
  have f: "f = ?a @ ?b @ ?c"
    by (metis append_take_drop_id drop_drop numeral_Bit0)
  have len: "length ?a = 8" "length ?b = 8" "length ?c = 8" using l by simp_all
  have hs: "\<forall>c \<in> set ?a. hexSet c" "\<forall>c \<in> set ?b. hexSet c" "\<forall>c \<in> set ?c. hexSet c"
    using h by (meson in_set_takeD in_set_dropD)+
  obtain a where a: "a < 16 ^ 8" "?a = hexw 8 a"
    using hexSet_hexw [OF hs(1)] unfolding len by blast
  obtain b where b: "b < 16 ^ 8" "?b = hexw 8 b"
    using hexSet_hexw [OF hs(2)] unfolding len by blast
  obtain c where c: "c < 16 ^ 8" "?c = hexw 8 c"
    using hexSet_hexw [OF hs(3)] unfolding len by blast
  show thesis
    by (rule that [OF a(1) b(1) c(1)]) (subst f, simp only: a(2) b(2) c(2))
qed


subsection \<open>Properties\<close>

text \<open>The segment sizes \<open>IsValidWalSegSize\<close> accepts are exactly the powers of two from
  1 MiB to 1 GiB.\<close>

theorem valid_seg_size_iff: "IsValidWalSegSize sz \<longleftrightarrow> (\<exists>k. 20 \<le> k \<and> k \<le> 30 \<and> sz = 2 ^ k)"
proof
  assume v: "IsValidWalSegSize sz"
  then obtain k where k: "k < 64" "sz = 2 ^ k"
    using IsPowerOf2D by (auto simp: IsValidWalSegSize_def)
  have "(2::nat) ^ 20 \<le> 2 ^ k" "(2::nat) ^ k \<le> 2 ^ 30"
    using v k by (simp_all add: IsValidWalSegSize_def WalSegMinSize_def WalSegMaxSize_def
        word_le_nat_alt unat_pow2)
  then have "20 \<le> k" "k \<le> 30" by (simp_all only: power_increasing_iff one_less_numeral_iff semiring_norm)
  with k(2) show "\<exists>k. 20 \<le> k \<and> k \<le> 30 \<and> sz = 2 ^ k" by blast
next
  assume "\<exists>k. 20 \<le> k \<and> k \<le> 30 \<and> sz = 2 ^ k"
  then obtain k where k: "20 \<le> k" "k \<le> 30" "sz = 2 ^ k" by blast
  then have u: "unat sz = 2 ^ k" by (simp add: unat_pow2)
  then have "IsPowerOf2 sz" unfolding IsPowerOf2_iff using k(2) by (intro exI [of _ k]) simp
  moreover have "(2::nat) ^ 20 \<le> 2 ^ k" "(2::nat) ^ k \<le> 2 ^ 30"
    using k(1,2) by (simp_all only: power_increasing_iff one_less_numeral_iff semiring_norm)
  ultimately show "IsValidWalSegSize sz"
    by (simp add: IsValidWalSegSize_def WalSegMinSize_def WalSegMaxSize_def word_le_nat_alt u)
qed

text \<open>C17: For every position, timeline and valid segment size, the segment number, the name of the
  segment and the name of its partial file are defined, are recognised as such, parse back to the
  same timeline and segment, and segment start plus offset is the position.\<close>

theorem wal_name_roundtrip:
  assumes "IsValidWalSegSize w"
  shows "\<exists>n f. XLByteToSeg p w = Inr n \<and> XLogFileName tli n w = Inr f \<and>
    IsXLogFileName f \<and> IsPartialXLogFileName (f @ PartialSuffix) \<and>
    XLogFromFileName f w = Inr (tli, n) \<and>
    XLogFromFileName (f @ PartialSuffix) w = Inr (tli, n) \<and>
    XLogSegNoToRecPtr n w + XLogSegmentOffset p w = p"
proof -
  note w = IsValidWalSegSizeD [OF assms]
  note ok = seg_of_pos_ok [OF w, of p]
  have u: "unat (p div w) = unat p div unat w" by (simp add: unat_div)
  let ?f = "wal_name tli (unat p div unat w) w"
  have "XLogFileName tli (p div w) w = Inr ?f"
    using XLogFileName_ok [OF w] u by simp
  moreover have "XLogFromFileName (?f @ sfx) w = Inr (tli, p div w)" for sfx
    using XLogFromFileName_wal_name [OF ok] by (simp flip: u)
  from this [of "[]"] this [of PartialSuffix]
  have "XLogFromFileName ?f w = Inr (tli, p div w)"
    "XLogFromFileName (?f @ PartialSuffix) w = Inr (tli, p div w)" by simp_all
  ultimately show ?thesis
    using XLByteToSeg_ok [OF w(1), of p] IsXLogFileName_wal_name [OF ok, of tli]
    by (intro exI [of _ "p div w"] exI [of _ ?f])
      (auto simp: IsPartialXLogFileName_iff XLogSegNoToRecPtr_def XLogSegmentOffset_mod [OF w(1)] div_mult_mod_word)
qed

theorem wal_name_roundtrip_witness:
  "IsValidWalSegSize 0x1000000 \<and> (\<exists>n f. XLByteToSeg 0x1702A0000 0x1000000 = Inr n \<and>
    XLogFileName 3 n 0x1000000 = Inr f \<and>
    IsXLogFileName f \<and> IsPartialXLogFileName (f @ PartialSuffix) \<and>
    XLogFromFileName f 0x1000000 = Inr (3, n) \<and>
    XLogFromFileName (f @ PartialSuffix) 0x1000000 = Inr (3, n) \<and>
    XLogSegNoToRecPtr n 0x1000000 + XLogSegmentOffset 0x1702A0000 0x1000000 = 0x1702A0000)"
proof -
  have "IsValidWalSegSize 0x1000000" by code_simp
  with wal_name_roundtrip [OF this] show ?thesis by blast
qed

text \<open>The lexicographic order of segment names, in which the directory is read and old
  segments are chosen for deletion, is the order by timeline and then by position.\<close>

theorem wal_name_order:
  assumes "IsValidWalSegSize w"
    and "XLByteToSeg p w = Inr n" and "XLogFileName t n w = Inr f"
    and "XLByteToSeg q w = Inr m" and "XLogFileName u m w = Inr g"
  shows "(f < g \<longleftrightarrow> t < u \<or> t = u \<and> n < m) \<and> (f = g \<longleftrightarrow> t = u \<and> n = m)"
proof -
  note w = IsValidWalSegSizeD [OF assms(1)]
  have nm: "n = p div w" "m = q div w" using assms(2,4) XLByteToSeg_ok [OF w(1)] by simp_all
  have f: "f = wal_name t (unat p div unat w) w" "g = wal_name u (unat q div unat w) w"
    using assms(3,5) XLogFileName_ok [OF w] by (simp_all add: nm unat_div)
  note ok = seg_of_pos_ok [OF w, of p] seg_of_pos_ok [OF w, of q]
  have "f < g \<longleftrightarrow> t < u \<or> t = u \<and> n < m"
    unfolding f wal_name_less_iff [OF ok] nm by (simp add: word_less_nat_alt unat_div)
  moreover have "f = g \<longleftrightarrow> t = u \<and> n = m"
    unfolding f wal_name_inj [OF ok] nm by (simp add: word_unat_eq_iff unat_div)
  ultimately show ?thesis by blast
qed

theorem wal_name_order_witness:
  "(''000000010000000000000001'' < ''000000010000000100000000'' \<longleftrightarrow>
     (1::u32) < 1 \<or> (1::u32) = 1 \<and> (1::u64) < 0x100) \<and>
   (''000000010000000000000001'' = ''000000010000000100000000'' \<longleftrightarrow> (1::u32) = 1 \<and> (1::u64) = 0x100)"
  by (rule wal_name_order [where w = "0x1000000" and p = "0x1000000" and q = "0x100000000"]; code_simp)

text \<open>Parsing a 24-digit name never fails, and formatting the result gives the same name
  exactly when its last eight digits are below the number of segments per xlogid: the check by
  alphabet and length alone also admits names no position has.\<close>

theorem parse_recognised:
  assumes "IsXLogFileName f" and "IsValidWalSegSize w"
  shows "\<exists>t n c. XLogFromFileName f w = Inr (t, n) \<and> ParseUint (drop 16 f) 16 32 = Inr c \<and>
    (c < segs w \<longrightarrow> XLogFileName t n w = Inr f)"
proof -
  note w = IsValidWalSegSizeD [OF assms(2)]
  obtain a b c where abc: "a < 16 ^ 8" "b < 16 ^ 8" "c < 16 ^ 8"
    "f = hexw 8 a @ hexw 8 b @ hexw 8 c"
    using IsXLogFileName_split [OF assms(1)] .
  obtain k where k: "XLogSegmentsPerXLogId w = Inr k" "unat k = segs w" "0 < segs w" "segs w \<le> 2 ^ 32"
    using XLogSegmentsPerXLogId_ok [OF w] by blast
  have p: "XLogFromFileName f w = Inr (word_of_nat a, word_of_nat b * k + word_of_nat c)"
    using XLogFromFileName_hexw [OF abc(1-3) k(1), of "[]"] abc(4) by simp
  have c: "ParseUint (drop 16 f) 16 32 = Inr c"
    using abc(4) ParseUint_hexw [OF abc(3)] by simp
  have "XLogFileName (word_of_nat a) (word_of_nat b * k + word_of_nat c) w = Inr f" if "c < segs w"
  proof -
    have kw: "k = word_of_nat (segs w)" by (simp flip: k(2))
    have "b * segs w + c < 2 ^ 32 * segs w"
    proof -
      have "(b + 1) * segs w \<le> 2 ^ 32 * segs w" using abc(2) by (intro mult_le_mono1) simp
      then show ?thesis using that by (simp only: add_mult_distrib)
    qed
    also have "\<dots> \<le> 2 ^ 32 * 2 ^ 32" using k(4) by (rule mult_le_mono2)
    finally have "b * segs w + c < 2 ^ 64" by simp
    then have "unat (word_of_nat b * k + word_of_nat c) = b * segs w + c"
      unfolding kw of_nat_mult [symmetric] of_nat_add [symmetric]
      by (simp only: unat_of_nat) (simp add: take_bit_nat_eq_self)
    moreover have "(b * segs w + c) div segs w = b" "(b * segs w + c) mod segs w = c"
      using that by simp_all
    moreover have "unat (word_of_nat a :: u32) = a"
      using abc(1) by (simp add: unat_of_nat take_bit_nat_eq_self)
    ultimately show ?thesis
      using abc by (simp add: XLogFileName_ok [OF w] wal_name_def fmt_X_hexw)
  qed
  with p c show ?thesis by blast
qed

theorem parse_recognised_witness:
  "\<exists>t n c. XLogFromFileName ''0000000200000001000000FE'' 0x1000000 = Inr (t, n) \<and>
    ParseUint (drop 16 ''0000000200000001000000FE'') 16 32 = Inr c \<and>
    (c < segs 0x1000000 \<longrightarrow> XLogFileName t n 0x1000000 = Inr ''0000000200000001000000FE'')"
  by (rule parse_recognised; code_simp)

end
