(* ===== verification/World.thy ===== *)
theory World
  imports XLogInternal "HOL-Library.AList"
begin

section \<open>The operating system the program runs on, and internal/core/fsync\<close>

text \<open>
  Files are inodes reached through a directory.  Each has a volatile side, which the program
  reads and writes, and a durable side, which is what remains after a power loss: \<open>fsync\<close> of a
  file makes its contents durable, \<open>fsync\<close> of a directory makes its entries durable, and nothing
  else does.  Every system call can fail: \<open>w_fault\<close> says which ones (a write that fails may have
  stored a prefix), so a theorem about all worlds is a theorem about all failures.
\<close>

subsection \<open>State\<close>

record inode =
  i_data :: bytes
  i_sync :: bytes

record world =
  w_dir :: "(string \<times> nat) list"
  w_ddir :: "(string \<times> nat) list"
  w_dirs :: "string list"
  w_ino :: "nat \<Rightarrow> inode"
  w_fd :: "nat \<Rightarrow> nat option"
  w_next :: nat
  w_tick :: nat
  w_fault :: "nat \<Rightarrow> nat option"
  w_clock :: "nat \<Rightarrow> int"

definition lookup :: "'a world_scheme \<Rightarrow> string \<Rightarrow> nat option" where [go_defs]:
  "lookup w p = map_of (w_dir w) p"

definition dlookup :: "'a world_scheme \<Rightarrow> string \<Rightarrow> nat option" where [go_defs]:
  "dlookup w p = map_of (w_ddir w) p"

text \<open>What is left after a power loss: the durable entries with the durable contents.\<close>

definition crash :: "world \<Rightarrow> world" where
  "crash w = w\<lparr>w_dir := w_ddir w, w_fd := (\<lambda>_. None),
     w_ino := (\<lambda>i. (w_ino w i)\<lparr>i_data := i_sync (w_ino w i)\<rparr>)\<rparr>"

subsection \<open>System calls\<close>

definition syscall :: "('a world_scheme, nat option) m" where
  "syscall s = (Inr (w_fault s (w_tick s)), s\<lparr>w_tick := Suc (w_tick s)\<rparr>)"

definition fresh :: "('a world_scheme, nat) m" where
  "fresh s = (Inr (w_next s), s\<lparr>w_next := Suc (w_next s)\<rparr>)"

text \<open>\<open>failing k f\<close>: a system call that fails with \<open>EOS\<close> or does \<open>f\<close>.\<close>

definition failing :: "('a world_scheme, 'b) m \<Rightarrow> ('a world_scheme, 'b) m" where
  "failing f = bindE syscall (\<lambda>r. case r of Some k \<Rightarrow> throwE (EOS k) | None \<Rightarrow> f)"

definition EBADF :: gerr where [go_defs]: "EBADF = EOS 9"
definition EISDIR :: gerr where [go_defs]: "EISDIR = EOS 21"
definition ENOTEMPTY :: gerr where [go_defs]: "ENOTEMPTY = EOS 39"
definition EOVERFLOW :: gerr where [go_defs]: "EOVERFLOW = EOS 75"

text \<open>\<open>time.Now()\<close>, in nanoseconds.\<close>

definition time_Now :: "('a world_scheme, int) m" where
  "time_Now s = (Inr (w_clock s (w_tick s)), s\<lparr>w_tick := Suc (w_tick s)\<rparr>)"

text \<open>\<open>os.Stat\<close>: whether it is a regular file, and its size.\<close>

definition os_Stat :: "string \<Rightarrow> ('a world_scheme, bool \<times> 64 word) m" where
  "os_Stat p = failing (\<lambda>s.
     if p \<in> set (w_dirs s) then (Inr (False, 4096), s)
     else case lookup s p of
         None \<Rightarrow> (Inl ENotExist, s)
       | Some i \<Rightarrow> if 2 ^ 63 \<le> length (i_data (w_ino s i)) then (Inl EOVERFLOW, s)
                   else (Inr (True, word_of_nat (length (i_data (w_ino s i)))), s))"

definition set_data :: "nat \<Rightarrow> bytes \<Rightarrow> ('a world_scheme, unit) m" where
  "set_data i d = modE (\<lambda>s. s\<lparr>w_ino := (w_ino s)(i := (w_ino s i)\<lparr>i_data := d\<rparr>)\<rparr>)"

definition new_fd :: "nat \<Rightarrow> ('a world_scheme, nat) m" where
  "new_fd i = bindE fresh (\<lambda>f. thenE (modE (\<lambda>s. s\<lparr>w_fd := (w_fd s)(f := Some i)\<rparr>)) (retE f))"

text \<open>\<open>os.OpenFile\<close> of an existing file, without and with \<open>O_CREATE|O_TRUNC\<close>.\<close>

definition os_OpenFile :: "string \<Rightarrow> ('a world_scheme, nat) m" where
  "os_OpenFile p = failing (bindE (getE (\<lambda>s. (p \<in> set (w_dirs s), lookup s p))) (\<lambda>(d, r).
     if d then throwE EISDIR
     else case r of None \<Rightarrow> throwE ENotExist | Some i \<Rightarrow> new_fd i))"

definition os_Create :: "string \<Rightarrow> ('a world_scheme, nat) m" where
  "os_Create p = failing (bindE (getE (\<lambda>s. (p \<in> set (w_dirs s), lookup s p))) (\<lambda>(d, r).
     if d then throwE EISDIR
     else case r of
         Some i \<Rightarrow> thenE (set_data i []) (new_fd i)
       | None \<Rightarrow> bindE fresh (\<lambda>i.
           thenE (modE (\<lambda>s. s\<lparr>w_dir := AList.update p i (w_dir s),
                               w_ino := (w_ino s)(i := \<lparr>i_data = [], i_sync = []\<rparr>)\<rparr>))
             (new_fd i))))"

definition zero_byte :: char where [go_defs]: "zero_byte = CHR 0x00"

definition write_at :: "bytes \<Rightarrow> nat \<Rightarrow> bytes \<Rightarrow> bytes" where [go_defs]:
  "write_at d off xs =
     take off (d @ replicate (off - length d) zero_byte) @ xs @ drop (off + length xs) d"

definition truncate_to :: "nat \<Rightarrow> bytes \<Rightarrow> bytes" where [go_defs]:
  "truncate_to n d = take n d @ replicate (n - length d) zero_byte"

definition fd_ino :: "nat \<Rightarrow> ('a world_scheme, nat) m" where
  "fd_ino f = bindE (getE (\<lambda>s. w_fd s f)) (\<lambda>r.
     case r of None \<Rightarrow> throwE EBADF | Some i \<Rightarrow> retE i)"

text \<open>\<open>(*os.File).WriteAt\<close>: all the bytes and no error, or an error after a prefix.\<close>

definition f_WriteAt :: "nat \<Rightarrow> bytes \<Rightarrow> nat \<Rightarrow> ('a world_scheme, nat) m" where
  "f_WriteAt f xs off =
     bindE (fd_ino f) (\<lambda>i.
     bindE (getE (\<lambda>s. i_data (w_ino s i))) (\<lambda>d.
     bindE syscall (\<lambda>r.
       case r of
         None \<Rightarrow> thenE (set_data i (write_at d off xs)) (retE (length xs))
       | Some k \<Rightarrow> thenE (set_data i (write_at d off (take k xs))) (throwE (EOS k)))))"

definition f_Truncate :: "nat \<Rightarrow> nat \<Rightarrow> ('a world_scheme, unit) m" where
  "f_Truncate f n =
     bindE (fd_ino f) (\<lambda>i.
     bindE (getE (\<lambda>s. i_data (w_ino s i))) (\<lambda>d.
     failing (set_data i (truncate_to n d))))"

definition f_Close :: "nat \<Rightarrow> ('a world_scheme, unit) m" where
  "f_Close f =
     thenE (bindE (fd_ino f) (\<lambda>_. modE (\<lambda>s. s\<lparr>w_fd := (w_fd s)(f := None)\<rparr>)))
       (failing (retE ()))"

definition os_Remove :: "string \<Rightarrow> ('a world_scheme, unit) m" where
  "os_Remove p = failing (bindE (getE (\<lambda>s. lookup s p)) (\<lambda>r.
     case r of None \<Rightarrow> throwE ENotExist
     | Some i \<Rightarrow> modE (\<lambda>s. s\<lparr>w_dir := AList.delete p (w_dir s)\<rparr>)))"

definition os_Rename :: "string \<Rightarrow> string \<Rightarrow> ('a world_scheme, unit) m" where
  "os_Rename p q = failing (bindE (getE (\<lambda>s. (q \<in> set (w_dirs s), lookup s p))) (\<lambda>(d, r).
     if d then throwE EISDIR
     else case r of None \<Rightarrow> throwE ENotExist
     | Some i \<Rightarrow> if p = q then retE ()
                 else modE (\<lambda>s. s\<lparr>w_dir := AList.update q i (AList.delete p (w_dir s))\<rparr>)))"

text \<open>\<open>os.MkdirAll\<close>: the directory and those above it; a file in the way is an error.\<close>

definition path_prefixes :: "string \<Rightarrow> string list" where
  "path_prefixes d = map (\<lambda>k. path_of (rooted d) (take k (path_elems d))) [1..<Suc (length (path_elems d))]"

definition ENOTDIR :: gerr where [go_defs]: "ENOTDIR = EOS 20"

definition os_MkdirAll :: "string \<Rightarrow> ('a world_scheme, unit) m" where
  "os_MkdirAll d = failing (bindE (getE (\<lambda>s. \<exists>p \<in> set (path_prefixes d). lookup s p \<noteq> None)) (\<lambda>b.
     if d = '''' then throwE ENotExist
     else if b then throwE ENOTDIR
     else modE (\<lambda>s. s\<lparr>w_dirs := fold List.insert (path_prefixes d) (w_dirs s)\<rparr>)))"

definition os_ReadFile :: "string \<Rightarrow> ('a world_scheme, bytes) m" where
  "os_ReadFile p = failing (bindE (getE (\<lambda>s. (lookup s p, w_ino s))) (\<lambda>(r, ino).
     case r of None \<Rightarrow> throwE ENotExist | Some i \<Rightarrow> retE (i_data (ino i))))"

subsection \<open>Package fsync (port\_unix.go)\<close>

definition syscall_Fsync :: "nat \<Rightarrow> ('a world_scheme, unit) m" where
  "syscall_Fsync i = failing (modE (\<lambda>s.
     s\<lparr>w_ino := (w_ino s)(i := (w_ino s i)\<lparr>i_sync := i_data (w_ino s i)\<rparr>)\<rparr>))"

definition Fsync :: "nat \<Rightarrow> ('a world_scheme, unit) m" where
  "Fsync f = bindE (fd_ino f) syscall_Fsync"

definition FsyncFname :: "string \<Rightarrow> ('a world_scheme, unit) m" where
  "FsyncFname path =
     bindE (os_OpenFile path) (\<lambda>f.
     bindE (tryE (Fsync f)) (\<lambda>r.
       case r of
         Inl e \<Rightarrow> thenE (tryE (f_Close f)) (throwE e)
       | Inr _ \<Rightarrow> f_Close f))"

text \<open>Opening a directory and \<open>fsync\<close> of its descriptor: its entries become durable.\<close>

definition os_OpenDir :: "string \<Rightarrow> ('a world_scheme, unit) m" where
  "os_OpenDir d = failing (bindE (getE (\<lambda>s. filepath_Clean d \<in> set (w_dirs s))) (\<lambda>b.
     if b then retE () else throwE ENotExist))"

definition entries_in :: "string \<Rightarrow> (string \<times> nat) list \<Rightarrow> (string \<times> nat) list" where
  "entries_in d al = filter (\<lambda>(p, i). filepath_Dir p = filepath_Clean d) al"

definition entries_out :: "string \<Rightarrow> (string \<times> nat) list \<Rightarrow> (string \<times> nat) list" where
  "entries_out d al = filter (\<lambda>(p, i). filepath_Dir p \<noteq> filepath_Clean d) al"

definition sync_dir :: "string \<Rightarrow> ('a world_scheme, unit) m" where
  "sync_dir d = failing (modE (\<lambda>s.
     s\<lparr>w_ddir := entries_in d (w_dir s) @ entries_out d (w_ddir s)\<rparr>))"

definition FsyncDir :: "string \<Rightarrow> ('a world_scheme, unit) m" where
  "FsyncDir dirPath =
     thenE (wrapE ''cannot open dir'' (os_OpenDir dirPath))
    (bindE (tryE (sync_dir dirPath)) (\<lambda>r.
       case r of
         Inl e \<Rightarrow> thenE (tryE (failing (retE ()))) (throwE (wrap_err ''cannot fsync dir'' e))
       | Inr _ \<Rightarrow> failing (retE ())))"

definition FsyncFnameAndDir :: "string \<Rightarrow> ('a world_scheme, unit) m" where
  "FsyncFnameAndDir fname = thenE (FsyncFname fname) (FsyncDir (filepath_Dir fname))"


subsection \<open>State transformers and the relation up to clock and descriptors\<close>

text \<open>
  The specifications below say what a call did to the files as a transformer of the state; the
  clock of system calls, the descriptors it opened and closed again and the counter of fresh
  numbers are abstracted by \<open>env_le\<close>.
\<close>

definition put_data :: "nat \<Rightarrow> bytes \<Rightarrow> 'a world_scheme \<Rightarrow> 'a world_scheme" where
  "put_data i d s = s\<lparr>w_ino := (w_ino s)(i := (w_ino s i)\<lparr>i_data := d\<rparr>)\<rparr>"

definition sync_ino :: "nat \<Rightarrow> 'a world_scheme \<Rightarrow> 'a world_scheme" where
  "sync_ino i s = s\<lparr>w_ino := (w_ino s)(i := (w_ino s i)\<lparr>i_sync := i_data (w_ino s i)\<rparr>)\<rparr>"

definition sync_entries :: "string \<Rightarrow> 'a world_scheme \<Rightarrow> 'a world_scheme" where
  "sync_entries d s = s\<lparr>w_ddir := entries_in d (w_dir s) @ entries_out d (w_ddir s)\<rparr>"

definition mv :: "string \<Rightarrow> string \<Rightarrow> nat \<Rightarrow> 'a world_scheme \<Rightarrow> 'a world_scheme" where
  "mv p q i s = (if p = q then s else s\<lparr>w_dir := AList.update q i (AList.delete p (w_dir s))\<rparr>)"

definition env_le :: "'a world_scheme \<Rightarrow> 'a world_scheme \<Rightarrow> bool" where
  "env_le s t = (w_dir t = w_dir s \<and> w_ddir t = w_ddir s \<and> w_dirs t = w_dirs s \<and> w_ino t = w_ino s \<and>
     w_next s \<le> w_next t \<and> (\<forall>f<w_next s. w_fd t f = w_fd s f) \<and>
     w_fault t = w_fault s \<and> w_clock t = w_clock s \<and> world.more t = world.more s)"

lemma env_le_refl [simp]: "env_le s s"
  by (simp add: env_le_def)

lemma env_le_trans: "env_le s t \<Longrightarrow> env_le t u \<Longrightarrow> env_le s u"
  by (auto simp: env_le_def)

lemma env_le_tick [simp]: "env_le s (t\<lparr>w_tick := n\<rparr>) = env_le s t"
  by (simp add: env_le_def)

lemma env_le_cong:
  assumes "env_le s t"
  shows "env_le (put_data i d s) (put_data i d t)" "env_le (sync_ino i s) (sync_ino i t)"
    "env_le (sync_entries e s) (sync_entries e t)" "env_le (mv p q i s) (mv p q i t)"
  using assms by (auto simp: env_le_def put_data_def sync_ino_def sync_entries_def mv_def)

lemma lookup_simps [simp]:
  "lookup (put_data i d s) = lookup s" "lookup (sync_ino i s) = lookup s"
  "lookup (sync_entries e s) = lookup s"
  "dlookup (put_data i d s) = dlookup s" "dlookup (sync_ino i s) = dlookup s"
  "dlookup (mv p q i s) = dlookup s"
  by (auto simp: lookup_def dlookup_def put_data_def sync_ino_def sync_entries_def mv_def fun_eq_iff)

lemma lookup_mv:
  "lookup (mv p q i s) = (if p = q then lookup s else (lookup s)(p := None, q \<mapsto> i))"
  by (auto simp: lookup_def mv_def fun_eq_iff update_conv' delete_conv')

lemma map_of_filter_key:
  "map_of (filter (\<lambda>(p, i). P p) al) p = (if P p then map_of al p else None)"
  by (induction al) auto

lemma dlookup_sync_entries:
  "dlookup (sync_entries d s) p =
     (if filepath_Dir p = filepath_Clean d then lookup s p else dlookup s p)"
  by (simp add: dlookup_def lookup_def sync_entries_def entries_in_def entries_out_def map_add_def
      map_of_filter_key split: option.split)

lemma ino_simps [simp]:
  "w_ino (put_data i d s) = (w_ino s)(i := (w_ino s i)\<lparr>i_data := d\<rparr>)"
  "w_ino (sync_ino i s) = (w_ino s)(i := (w_ino s i)\<lparr>i_sync := i_data (w_ino s i)\<rparr>)"
  "w_ino (sync_entries e s) = w_ino s"
  "w_ino (mv p q j s) = w_ino s"
  by (simp_all add: put_data_def sync_ino_def sync_entries_def mv_def)

lemma next_simps [simp]:
  "w_next (put_data i d s) = w_next s" "w_next (sync_ino i s) = w_next s"
  "w_next (sync_entries e s) = w_next s" "w_next (mv p q j s) = w_next s"
  by (simp_all add: put_data_def sync_ino_def sync_entries_def mv_def)

lemma fd_simps [simp]:
  "w_fd (put_data i d s) = w_fd s" "w_fd (sync_ino i s) = w_fd s"
  "w_fd (sync_entries e s) = w_fd s" "w_fd (mv p q j s) = w_fd s"
  by (simp_all add: put_data_def sync_ino_def sync_entries_def mv_def)

lemma more_simps [simp]:
  "world.more (put_data i d s) = world.more s" "world.more (sync_ino i s) = world.more s"
  "world.more (sync_entries e s) = world.more s" "world.more (mv p q j s) = world.more s"
  by (simp_all add: put_data_def sync_ino_def sync_entries_def mv_def)

lemma env_leD:
  assumes "env_le s t"
  shows "lookup t = lookup s" "dlookup t = dlookup s" "w_ino t = w_ino s" "world.more t = world.more s"
    "w_next s \<le> w_next t" "f < w_next s \<Longrightarrow> w_fd t f = w_fd s f" "w_dirs t = w_dirs s"
  using assms by (auto simp: env_le_def lookup_def dlookup_def fun_eq_iff)

text \<open>What a path holds.\<close>

definition file_content :: "'a world_scheme \<Rightarrow> string \<Rightarrow> bytes option" where
  "file_content w p = map_option (\<lambda>i. i_data (w_ino w i)) (lookup w p)"

lemma content_tick [simp]: "file_content (w\<lparr>w_tick := n\<rparr>) = file_content w"
  by (simp add: file_content_def lookup_def fun_eq_iff)

lemma content_env: "env_le s t \<Longrightarrow> file_content t = file_content s"
  by (simp add: file_content_def env_leD fun_eq_iff)

subsection \<open>Specifications of the calls\<close>

lemma wp_syscall [simp]:
  "wp syscall Q R = (\<lambda>s. Q (w_fault s (w_tick s)) (s\<lparr>w_tick := Suc (w_tick s)\<rparr>))"
  by (simp add: wp_def syscall_def fun_eq_iff)

lemma wp_fresh [simp]: "wp fresh Q R = (\<lambda>s. Q (w_next s) (s\<lparr>w_next := Suc (w_next s)\<rparr>))"
  by (simp add: wp_def fresh_def fun_eq_iff)

lemma wp_time_Now [simp]:
  "wp time_Now Q R = (\<lambda>s. Q (w_clock s (w_tick s)) (s\<lparr>w_tick := Suc (w_tick s)\<rparr>))"
  by (simp add: wp_def time_Now_def fun_eq_iff)

lemma wp_failing [simp]:
  "wp (failing f) Q R = (\<lambda>s.
     case w_fault s (w_tick s) of
        Some k \<Rightarrow> R (EOS k) (s\<lparr>w_tick := Suc (w_tick s)\<rparr>)
      | None \<Rightarrow> wp f Q R (s\<lparr>w_tick := Suc (w_tick s)\<rparr>))"
  by (simp add: failing_def fun_eq_iff split: option.split)

lemma wp_failingI:
  assumes "\<And>k n. R (EOS k) (s\<lparr>w_tick := n\<rparr>)" and "\<And>n. wp f Q R (s\<lparr>w_tick := n\<rparr>)"
  shows "wp (failing f) Q R s"
  using assms by (simp split: option.split)

lemma wp_fd_ino [simp]:
  "wp (fd_ino f) Q R = (\<lambda>s. case w_fd s f of None \<Rightarrow> R EBADF s | Some i \<Rightarrow> Q i s)"
  by (simp add: fd_ino_def fun_eq_iff split: option.split)

lemma lookup_tick [simp]:
  "lookup (s\<lparr>w_tick := n\<rparr>) = lookup s" "lookup (s\<lparr>w_next := n\<rparr>) = lookup s"
  "lookup (s\<lparr>w_fd := f\<rparr>) = lookup s" "lookup (s\<lparr>w_ino := io\<rparr>) = lookup s"
  "dlookup (s\<lparr>w_tick := n\<rparr>) = dlookup s" "dlookup (s\<lparr>w_next := n\<rparr>) = dlookup s"
  "dlookup (s\<lparr>w_fd := f\<rparr>) = dlookup s" "dlookup (s\<lparr>w_ino := io\<rparr>) = dlookup s"
  by (simp_all add: lookup_def dlookup_def fun_eq_iff)


lemma EOS_not_abort [simp]: "\<not> is_abort (EOS k)" "\<not> is_abort ENotExist"
  "\<not> is_abort (EMsg m)" "\<not> is_abort EBADF" "\<not> is_abort EISDIR" "\<not> is_abort EOVERFLOW"
  by (simp_all add: EBADF_def EISDIR_def EOVERFLOW_def)

lemma is_abort_wrap [simp]: "is_abort (wrap_err m e) = is_abort e"
  by (cases e) (simp_all add: wrap_err_def)

definition close_fd :: "nat \<Rightarrow> 'a world_scheme \<Rightarrow> 'a world_scheme" where
  "close_fd f s = s\<lparr>w_fd := (w_fd s)(f := None)\<rparr>"

lemma close_fd_simps [simp]:
  "lookup (close_fd f s) = lookup s" "dlookup (close_fd f s) = dlookup s"
  "w_ino (close_fd f s) = w_ino s" "w_next (close_fd f s) = w_next s"
  "world.more (close_fd f s) = world.more s" "w_fd (close_fd f s) = (w_fd s)(f := None)"
  "w_dirs (close_fd f s) = w_dirs s"
  by (simp_all add: close_fd_def)

lemma wp_Fsync:
  assumes "w_fd s f = Some i"
    and "\<And>t. env_le (sync_ino i s) t \<Longrightarrow> Q () t"
    and "\<And>e t. \<not> is_abort e \<Longrightarrow> env_le s t \<Longrightarrow> R e t"
  shows "wp (Fsync f) Q R s"
  using assms by (auto simp: Fsync_def syscall_Fsync_def sync_ino_def env_le_def split: option.split)

lemma wp_f_Close:
  assumes "w_fd s f = Some i"
    and "\<And>t. env_le (close_fd f s) t \<Longrightarrow> Q () t"
    and "\<And>e t. \<not> is_abort e \<Longrightarrow> env_le (close_fd f s) t \<Longrightarrow> R e t"
  shows "wp (f_Close f) Q R s"
  using assms by (auto simp: f_Close_def close_fd_def split: option.split)

lemma wp_os_OpenFile:
  assumes "\<And>i f t. lookup s p = Some i \<Longrightarrow> env_le s t \<Longrightarrow> w_fd t f = Some i \<Longrightarrow> w_next s \<le> f \<Longrightarrow>
      f < w_next t \<Longrightarrow> Q f t"
    and "\<And>e t. \<not> is_abort e \<Longrightarrow> env_le s t \<Longrightarrow> R e t"
  shows "wp (os_OpenFile p) Q R s"
  using assms by (auto simp: os_OpenFile_def new_fd_def env_le_def split: option.split prod.split)

lemma env_le_close_new:
  assumes "env_le s t" and "w_next s \<le> f" and "f < w_next t"
  shows "env_le s (close_fd f t)"
  using assms by (auto simp: env_le_def close_fd_def)

lemma wp_FsyncFname:
  assumes "\<And>i t. lookup s p = Some i \<Longrightarrow> env_le (sync_ino i s) t \<Longrightarrow> Q () t"
    and "\<And>e t. \<not> is_abort e \<Longrightarrow> env_le s t \<Longrightarrow> R e t"
    and "\<And>e i t. \<not> is_abort e \<Longrightarrow> lookup s p = Some i \<Longrightarrow> env_le (sync_ino i s) t \<Longrightarrow> R e t"
  shows "wp (FsyncFname p) Q R s"
  unfolding FsyncFname_def wp_bindE
proof (rule wp_os_OpenFile)
  fix i f t
  assume o: "lookup s p = Some i" "env_le s t" "w_fd t f = Some i" "w_next s \<le> f" "f < w_next t"
  have c: "env_le s u" if "env_le (close_fd f v) u" "env_le t v" for u v
    using that o(2,4,5) env_le_close_new env_le_trans by (metis env_leD(5) le_trans less_le_trans)
  have c': "env_le (sync_ino i s) u" if "env_le (close_fd f v) u" "env_le (sync_ino i t) v" for u v
    using that o(2,4,5) env_le_cong(2) [OF o(2), of i] env_le_close_new env_le_trans
    by (metis env_leD(5) le_trans less_le_trans next_simps(2))
  have fv: "w_fd v f = Some i" if "env_le t v" for v
    using that o(3,5) by (simp add: env_leD(6))
  have fv': "w_fd v f = Some i" if "env_le (sync_ino i t) v" for v
    using that o(3,5) by (simp add: env_leD(6))
  show "wp (tryE (Fsync f)) (\<lambda>x. wp (case x of Inl e \<Rightarrow> thenE (tryE (f_Close f)) (throwE e)
      | Inr _ \<Rightarrow> f_Close f) Q R) R t"
    unfolding wp_tryE
  proof (rule wp_Fsync [OF o(3)])
    fix u
    assume u: "env_le (sync_ino i t) u"
    show "wp (case Inr () of Inl e \<Rightarrow> thenE (tryE (f_Close f)) (throwE e) | Inr _ \<Rightarrow> f_Close f) Q R u"
      using assms(1,3) o(1) c' [OF _ u] by (auto intro!: wp_f_Close [OF fv' [OF u]])
  next
    fix e u
    assume u: "\<not> is_abort e" "env_le t u"
    show "if is_abort e then R e u
       else wp (case Inl e of Inl e \<Rightarrow> thenE (tryE (f_Close f)) (throwE e) | Inr _ \<Rightarrow> f_Close f) Q R u"
      using assms(2) u(1) c [OF _ u(2)] by (auto intro!: wp_f_Close [OF fv [OF u(2)]])
  qed
qed (rule assms(2))

lemma wp_FsyncDir:
  assumes "\<And>t. env_le (sync_entries d s) t \<Longrightarrow> Q () t"
    and "\<And>e t. \<not> is_abort e \<Longrightarrow> env_le s t \<Longrightarrow> R e t"
    and "\<And>e t. \<not> is_abort e \<Longrightarrow> env_le (sync_entries d s) t \<Longrightarrow> R e t"
  shows "wp (FsyncDir d) Q R s"
  using assms
  by (auto simp: FsyncDir_def os_OpenDir_def sync_dir_def sync_entries_def env_le_def split: option.split)

lemma wp_os_Rename:
  assumes "\<And>i t. lookup s p = Some i \<Longrightarrow> env_le (mv p q i s) t \<Longrightarrow> Q () t"
    and "\<And>e t. \<not> is_abort e \<Longrightarrow> env_le s t \<Longrightarrow> R e t"
  shows "wp (os_Rename p q) Q R s"
  using assms by (auto simp: os_Rename_def mv_def env_le_def split: option.split prod.split)

lemma wp_f_WriteAt:
  assumes "w_fd s f = Some i"
    and "\<And>t. env_le (put_data i (write_at (i_data (w_ino s i)) off xs) s) t \<Longrightarrow> Q (length xs) t"
    and "\<And>k e t. \<not> is_abort e \<Longrightarrow> env_le (put_data i (write_at (i_data (w_ino s i)) off (take k xs)) s) t \<Longrightarrow>
      R e t"
  shows "wp (f_WriteAt f xs off) Q R s"
  using assms
  by (auto simp: f_WriteAt_def set_data_def put_data_def env_le_def split: option.split)

lemma wp_os_Stat:
  assumes "\<And>i t. lookup s p = Some i \<Longrightarrow> env_le s t \<Longrightarrow> length (i_data (w_ino s i)) < 2 ^ 63 \<Longrightarrow>
      Q (True, word_of_nat (length (i_data (w_ino s i)))) t"
    and "\<And>sz t. env_le s t \<Longrightarrow> Q (False, sz) t"
    and "\<And>e t. \<not> is_abort e \<Longrightarrow> env_le s t \<Longrightarrow> R e t"
  shows "wp (os_Stat p) Q R s"
  unfolding os_Stat_def
  by (rule wp_failingI) (use assms in \<open>auto simp: wp_def not_le split: option.split\<close>)

lemma wp_f_Truncate:
  assumes "w_fd s f = Some i"
    and "\<And>t. env_le (put_data i (truncate_to n (i_data (w_ino s i))) s) t \<Longrightarrow> Q () t"
    and "\<And>e t. \<not> is_abort e \<Longrightarrow> env_le s t \<Longrightarrow> R e t"
  shows "wp (f_Truncate f n) Q R s"
  using assms
  by (auto simp: f_Truncate_def set_data_def put_data_def env_le_def split: option.split)

text \<open>\<open>add_file p i\<close>: a new empty file.\<close>

definition add_file :: "string \<Rightarrow> nat \<Rightarrow> 'a world_scheme \<Rightarrow> 'a world_scheme" where
  "add_file p i s = s\<lparr>w_dir := AList.update p i (w_dir s), w_next := Suc i,
     w_ino := (w_ino s)(i := \<lparr>i_data = [], i_sync = []\<rparr>)\<rparr>"

lemma add_file_simps [simp]:
  "lookup (add_file p i s) = (lookup s)(p \<mapsto> i)" "dlookup (add_file p i s) = dlookup s"
  "w_ino (add_file p i s) = (w_ino s)(i := \<lparr>i_data = [], i_sync = []\<rparr>)"
  "world.more (add_file p i s) = world.more s" "w_fd (add_file p i s) = w_fd s"
  "w_next (add_file p i s) = Suc i" "w_dirs (add_file p i s) = w_dirs s"
  by (auto simp: add_file_def lookup_def dlookup_def update_conv' fun_eq_iff)

lemma wp_os_Create:
  assumes "\<And>i f t. lookup s p = Some i \<Longrightarrow> env_le (put_data i [] s) t \<Longrightarrow> w_fd t f = Some i \<Longrightarrow>
      w_next s \<le> f \<Longrightarrow> f < w_next t \<Longrightarrow> Q f t"
    and "\<And>f t. lookup s p = None \<Longrightarrow> env_le (add_file p (w_next s) s) t \<Longrightarrow> w_fd t f = Some (w_next s) \<Longrightarrow>
      Suc (w_next s) \<le> f \<Longrightarrow> f < w_next t \<Longrightarrow> Q f t"
    and "\<And>e t. \<not> is_abort e \<Longrightarrow> env_le s t \<Longrightarrow> R e t"
  shows "wp (os_Create p) Q R s"
  using assms
  by (auto simp: os_Create_def new_fd_def set_data_def put_data_def add_file_def env_le_def lookup_def
      split: option.split prod.split)

definition rm :: "string \<Rightarrow> 'a world_scheme \<Rightarrow> 'a world_scheme" where
  "rm p s = s\<lparr>w_dir := AList.delete p (w_dir s)\<rparr>"

lemma rm_simps [simp]:
  "lookup (rm p s) = (lookup s)(p := None)" "dlookup (rm p s) = dlookup s" "w_ino (rm p s) = w_ino s"
  "world.more (rm p s) = world.more s" "w_fd (rm p s) = w_fd s" "w_next (rm p s) = w_next s"
  by (auto simp: rm_def lookup_def dlookup_def delete_conv' fun_eq_iff)

lemma wp_os_Remove:
  assumes "\<And>i t. lookup s p = Some i \<Longrightarrow> env_le (rm p s) t \<Longrightarrow> Q () t"
    and "\<And>e t. \<not> is_abort e \<Longrightarrow> env_le s t \<Longrightarrow> R e t"
  shows "wp (os_Remove p) Q R s"
  using assms by (auto simp: os_Remove_def rm_def env_le_def split: option.split)

lemma env_le_cong2:
  assumes "env_le s t"
  shows "env_le (rm p s) (rm p t)" "env_le (close_fd f s) (close_fd f t)"
  using assms by (auto simp: env_le_def rm_def close_fd_def)

end
