(* ===== verification/FileTree.thy ===== *)
theory FileTree
  imports World "HOL-Library.List_Lexorder" "HOL-Library.Multiset"
begin

section \<open>Directories of the file system and sorting\<close>

text \<open>
  The parts of the standard library that read directories (\<open>os.ReadDir\<close>, \<open>filepath.WalkDir\<close>) over
  the world's table of paths, and \<open>sort.Slice\<close>.  A directory is walked in the order of the elements
  of its paths; every directory that is read can fail.
\<close>

subsection \<open>Sorting by a comparison\<close>

text \<open>
  \<open>sort.Slice\<close> and \<open>slices.SortFunc\<close>: insertion by the given comparison.  For a comparison that
  leaves elements unordered, Go promises no particular order among them; this is one of the orders
  it may return.
\<close>

fun insert_Slice :: "('a \<Rightarrow> 'a \<Rightarrow> bool) \<Rightarrow> 'a \<Rightarrow> 'a list \<Rightarrow> 'a list" where
  "insert_Slice lt x [] = [x]"
| "insert_Slice lt x (y # ys) = (if lt y x then y # insert_Slice lt x ys else x # y # ys)"

definition sort_Slice :: "('a \<Rightarrow> 'a \<Rightarrow> bool) \<Rightarrow> 'a list \<Rightarrow> 'a list" where
  "sort_Slice lt xs = foldr (insert_Slice lt) xs []"

lemma mset_insert_Slice [simp]: "mset (insert_Slice lt x ys) = add_mset x (mset ys)"
  by (induction ys) auto

lemma mset_sort_Slice [simp]: "mset (sort_Slice lt xs) = mset xs"
  by (induction xs) (simp_all add: sort_Slice_def)

lemma set_sort_Slice [simp]: "set (sort_Slice lt xs) = set xs"
  using mset_eq_setD [OF mset_sort_Slice] .

lemma length_sort_Slice [simp]: "length (sort_Slice lt xs) = length xs"
  using mset_eq_length [OF mset_sort_Slice] .

lemma distinct_sort_Slice [simp]: "distinct (sort_Slice lt xs) = distinct xs"
  by (metis mset_sort_Slice mset_eq_imp_distinct_iff)

lemma sort_Slice_Nil: "sort_Slice lt xs = [] \<longleftrightarrow> xs = []"
  by (metis length_0_conv length_sort_Slice)

lemma sorted_insert_Slice:
  assumes "\<And>a b c. lt a b \<Longrightarrow> \<not> lt c b \<Longrightarrow> lt a c" and "\<And>a b. lt a b \<Longrightarrow> \<not> lt b a"
    and "sorted_wrt (\<lambda>a b. \<not> lt b a) ys"
  shows "sorted_wrt (\<lambda>a b. \<not> lt b a) (insert_Slice lt x ys)"
  using assms(3)
proof (induction ys)
  case (Cons y ys)
  have s: "set (insert_Slice lt x ys) = insert x (set ys)"
    by (metis mset_insert_Slice set_mset_mset set_mset_add_mset_insert)
  show ?case
  proof (cases "lt y x")
    case True
    then show ?thesis using Cons assms(2) by (auto simp: s)
  next
    case False
    have "\<not> lt z x" if z: "z \<in> set ys" for z
    proof
      assume "lt z x"
      with assms(1) [of z x y] False have "lt z y" by blast
      with Cons.prems z show False by simp
    qed
    with False Cons.prems show ?thesis by simp
  qed
qed simp

text \<open>For a strict weak order the result is sorted.\<close>

lemma sorted_sort_Slice:
  assumes "\<And>a b c. lt a b \<Longrightarrow> \<not> lt c b \<Longrightarrow> lt a c" and "\<And>a b. lt a b \<Longrightarrow> \<not> lt b a"
  shows "sorted_wrt (\<lambda>a b. \<not> lt b a) (sort_Slice lt xs)"
proof (induction xs)
  case Nil
  then show ?case by (simp add: sort_Slice_def)
next
  case (Cons x xs)
  have "sort_Slice lt (x # xs) = insert_Slice lt x (sort_Slice lt xs)" by (simp add: sort_Slice_def)
  moreover have "sorted_wrt (\<lambda>a b. \<not> lt b a) (insert_Slice lt x (sort_Slice lt xs))"
    using assms Cons.IH by (rule sorted_insert_Slice)
  ultimately show ?case by simp
qed

subsection \<open>Reading directories\<close>

text \<open>The entries of a directory, as \<open>os.ReadDir\<close> returns them: names in order, with \<open>IsDir\<close>.\<close>

definition children :: "string \<Rightarrow> string list \<Rightarrow> string list" where
  "children d ps = sort (remdups (map filepath_Base
     (filter (\<lambda>p. filepath_Dir p = filepath_Clean d \<and> p \<noteq> filepath_Clean d) ps)))"

definition os_ReadDir :: "string \<Rightarrow> ('a world_scheme, (string \<times> bool) list) m" where
  "os_ReadDir d = failing (bindE (getE (\<lambda>s. (w_dirs s, map fst (w_dir s)))) (\<lambda>(ds, fs).
     if filepath_Clean d \<notin> set ds then throwE ENotExist
     else retE (map (\<lambda>n. (n, dir_child d n \<in> set ds)) (children d (ds @ fs)))))"

text \<open>The paths below a directory, itself included, in the order of the walk.\<close>

definition in_tree :: "string \<Rightarrow> string \<Rightarrow> bool" where
  "in_tree d p = (rooted p = rooted d \<and> take (length (path_elems d)) (path_elems p) = path_elems d)"

definition tree_paths :: "string \<Rightarrow> 'a world_scheme \<Rightarrow> string list" where
  "tree_paths root s = sort_key path_elems (remdups (filter (in_tree root) (w_dirs s @ map fst (w_dir s))))"

text \<open>
  \<open>filepath.WalkDir\<close> with a callback that threads its result: the callback is given the path, and
  whether it is a directory or the error of reading it; an error of the callback ends the walk, and
  the contents of a directory that cannot be read are left out.
\<close>

fun walk_each :: "(string \<Rightarrow> gerr + bool \<Rightarrow> 'r \<Rightarrow> ('a world_scheme, 'r) m) \<Rightarrow> 'r \<Rightarrow> string list \<Rightarrow> ('a world_scheme, 'r) m" where
  "walk_each fn acc [] = retE acc"
| "walk_each fn acc (p # ps) =
     bindE (getE (\<lambda>s. p \<in> set (w_dirs s))) (\<lambda>d.
     bindE (fn p (Inr d) acc) (\<lambda>acc'.
     bindE (if d then tryE (failing (retE ())) else retE (Inr ())) (\<lambda>r.
       case r of
         Inl e \<Rightarrow> bindE (fn p (Inl e) acc') (\<lambda>acc''. walk_each fn acc'' (filter (\<lambda>q. \<not> in_tree p q) ps))
       | Inr _ \<Rightarrow> walk_each fn acc' ps)))"

definition filepath_WalkDir :: "string \<Rightarrow> (string \<Rightarrow> gerr + bool \<Rightarrow> 'r \<Rightarrow> ('a world_scheme, 'r) m) \<Rightarrow> 'r \<Rightarrow> ('a world_scheme, 'r) m" where
  "filepath_WalkDir root fn acc =
     bindE (tryE (failing (bindE (getE (\<lambda>s. filepath_Clean root \<in> set (w_dirs s) \<or> lookup s (filepath_Clean root) \<noteq> None)) (\<lambda>b.
        if b then retE () else throwE ENotExist)))) (\<lambda>r.
       case r of
         Inl e \<Rightarrow> fn root (Inl e) acc
       | Inr _ \<Rightarrow> bindE (getE (tree_paths root)) (walk_each fn acc))"

lemma wp_walk_Cons:
  assumes "wp (fn p (Inr (p \<in> set (w_dirs s))) acc) (\<lambda>a t.
      (\<forall>n. wp (walk_each fn a ps) Q R (t\<lparr>w_tick := n\<rparr>)) \<and>
      (\<forall>k n. wp (fn p (Inl (EOS k)) a)
         (\<lambda>b. wp (walk_each fn b (filter (\<lambda>q. \<not> in_tree p q) ps)) Q R) R (t\<lparr>w_tick := n\<rparr>))) R s"
  shows "wp (walk_each fn acc (p # ps)) Q R s"
proof -
  have r: "wp (walk_each fn a ps) Q R t" if "\<forall>n. wp (walk_each fn a ps) Q R (t\<lparr>w_tick := n\<rparr>)" for a t
    using that [rule_format, of "w_tick t"] by simp
  show ?thesis
    unfolding walk_each.simps
    by (cases "p \<in> set (w_dirs s)")
      (use assms in \<open>auto elim!: wp_conseq intro: r split: option.split\<close>)
qed

end
