(* ===== verification/Retain.thy ===== *)
theory Retain
  imports FileTree
begin

section \<open>What the retention keeps (internal/opt/supervisors/backupsv/retain.go)\<close>

text \<open>
  The choice of the anchor backup, the backups older than it, and the WAL file names that the cleaner
  compares with a boundary.  A \<open>time.Time\<close> is its number of nanoseconds, a \<open>time.Duration\<close> is the
  64-bit integer it is in Go.
\<close>

record recoveryWindowBackup =
  rb_name :: string
  rb_path :: string
  rb_startedAt :: int
  rb_beginWAL :: string

text \<open>The zero \<open>time.Time\<close>, 1 January of the year 1, counted from 1970.\<close>

definition zero_time :: int where
  "zero_time = - 62135596800 * 1000000000"

text \<open>The loop over the sorted backups: the last index that does not start after the window.\<close>

fun anchor_loop :: "int \<Rightarrow> int \<Rightarrow> recoveryWindowBackup list \<Rightarrow> int \<Rightarrow> int" where
  "anchor_loop windowStart i [] anchorIdx = anchorIdx"
| "anchor_loop windowStart i (b # bs) anchorIdx =
     anchor_loop windowStart (i + 1) bs (if rb_startedAt b > windowStart then anchorIdx else i)"

definition anchor_index :: "int \<Rightarrow> int \<Rightarrow> recoveryWindowBackup list \<Rightarrow> int" where
  "anchor_index windowStart minimumBackups srt =
     (let anchorIdx = anchor_loop windowStart 0 srt (- 1);
          anchorIdx = (if anchorIdx = - 1 then 0 else anchorIdx);
          keptCount = int (length srt) - anchorIdx
      in if keptCount < minimumBackups
         then (let anchorIdx = int (length srt) - minimumBackups in if anchorIdx < 0 then 0 else anchorIdx)
         else anchorIdx)"

definition chooseRecoveryWindowAnchor ::
    "int \<Rightarrow> recoveryWindowBackup list \<Rightarrow> 64 word \<Rightarrow> int \<Rightarrow> int \<Rightarrow> recoveryWindowBackup option" where
  "chooseRecoveryWindowAnchor clock backups recoveryWindow minimumBackups now =
     (let now = (if now = zero_time then clock else now) in
      if backups = [] then None
      else
        let minimumBackups = (if minimumBackups \<le> 0 then 1 else minimumBackups);
            srt = sort_Slice (\<lambda>a b. rb_startedAt a < rb_startedAt b) backups;
            windowStart = now + sint (- recoveryWindow)
        in Some (srt ! nat (anchor_index windowStart minimumBackups srt)))"

definition backupsOlderThanAnchor :: "recoveryWindowBackup list \<Rightarrow> recoveryWindowBackup option \<Rightarrow> string list" where
  "backupsOlderThanAnchor backups anchor =
     (case anchor of
        None \<Rightarrow> []
      | Some a \<Rightarrow> sort (map rb_name (filter (\<lambda>b. rb_startedAt b < rb_startedAt a) backups)))"

definition strip_once :: "string \<Rightarrow> string" where
  "strip_once base = trim_suffix (trim_suffix (trim_suffix (trim_suffix base ''.gz'') ''.zst'') ''.lz4'') ''.aes''"

lemma length_trim_suffix: "length (trim_suffix s p) \<le> length s"
  by (simp add: trim_suffix_def)

lemma trim_suffix_shorter: "p \<noteq> '''' \<Longrightarrow> trim_suffix s p \<noteq> s \<Longrightarrow> length (trim_suffix s p) < length s"
  by (auto simp: trim_suffix_def has_suffix_def split: if_splits)

lemma strip_once_shorter: "strip_once s \<noteq> s \<Longrightarrow> length (strip_once s) < length s"
  unfolding strip_once_def
  by (smt (verit, best) le_less_trans length_trim_suffix less_le_trans list.distinct(1) trim_suffix_shorter)

function strip_known :: "string \<Rightarrow> string" where
  "strip_known base = (let old = base; base = strip_once base in if old = base then base else strip_known base)"
  by auto
termination by (relation "measure length") (auto simp: Let_def intro: strip_once_shorter)

declare strip_known.simps [simp del]

definition wal_char :: "char \<Rightarrow> bool" where [go_defs]:
  "wal_char ch \<longleftrightarrow> (CHR ''0'' \<le> ch \<and> ch \<le> CHR ''9'') \<or> (CHR ''A'' \<le> ch \<and> ch \<le> CHR ''F'') \<or> (CHR ''a'' \<le> ch \<and> ch \<le> CHR ''f'')"

definition normalizeWALFilename :: "string \<Rightarrow> string \<times> bool \<times> bool" where
  "normalizeWALFilename path =
     (let base = strip_known (filepath_Base path) in
      if has_suffix base ''.history'' then (base, True, True)
      else if length base \<noteq> 24 then ('''', False, False)
      else if \<not> list_all wal_char base then ('''', False, False)
      else (to_upper base, False, True))"

definition walBefore :: "string \<Rightarrow> string \<Rightarrow> bool" where
  "walBefore name boundary =
     (let name = to_upper (trim_space name); boundary = to_upper (trim_space boundary)
      in name \<noteq> '''' \<and> boundary \<noteq> '''' \<and> name < boundary)"

definition isRootStoragePath :: "string \<Rightarrow> bool" where
  "isRootStoragePath path =
     (let clean = trim_prefix (trim_space path) ''./'' in clean \<noteq> '''' \<and> \<not> str_contains clean ''/'')"

subsection \<open>The anchor\<close>

text \<open>On a sorted list the loop finds the last backup at or before the window start.\<close>

lemma anchor_loop_filter:
  assumes "sorted_wrt (\<lambda>a b. rb_startedAt a \<le> rb_startedAt b) bs" and "k = i - 1 \<or> (\<forall>b \<in> set bs. ws < rb_startedAt b)"
  shows "anchor_loop ws i bs k = k + int (length (filter (\<lambda>b. rb_startedAt b \<le> ws) bs))"
  using assms
proof (induction bs arbitrary: i k)
  case (Cons b bs)
  show ?case
  proof (cases "ws < rb_startedAt b")
    case True
    with Cons.prems(1) have "\<forall>x \<in> set (b # bs). ws < rb_startedAt x" by auto
    then show ?thesis using Cons.IH [of k "i + 1"] Cons.prems(1) True by (auto simp: filter_empty_conv)
  next
    case False
    with Cons.prems(2) have "k = i - 1" by auto
    then show ?thesis using Cons.IH [of i "i + 1"] Cons.prems(1) False by simp
  qed
qed simp

definition in_window_count :: "int \<Rightarrow> recoveryWindowBackup list \<Rightarrow> nat" where
  "in_window_count ws bs = length (filter (\<lambda>b. rb_startedAt b \<le> ws) bs)"

lemma anchor_index_eq:
  assumes "sorted_wrt (\<lambda>a b. rb_startedAt a \<le> rb_startedAt b) bs" and "bs \<noteq> []" and "1 \<le> m"
  shows "anchor_index ws m bs = max 0 (min (int (in_window_count ws bs) - 1) (int (length bs) - m))"
proof -
  have l: "anchor_loop ws 0 bs (- 1) = int (in_window_count ws bs) - 1"
    using anchor_loop_filter [OF assms(1), of "- 1" 0 ws] by (simp add: in_window_count_def)
  show ?thesis using assms(3) unfolding anchor_index_def l Let_def by auto
qed

lemma sorted_nth_count:
  assumes "sorted_wrt (\<lambda>a b. rb_startedAt a \<le> rb_startedAt b) bs" and "k < length bs"
  shows "rb_startedAt (bs ! k) \<le> ws \<longleftrightarrow> k < in_window_count ws bs"
  using assms
proof (induction bs arbitrary: k)
  case (Cons b bs)
  show ?case
  proof (cases "rb_startedAt b \<le> ws")
    case True
    then show ?thesis using Cons by (cases k) (auto simp: in_window_count_def)
  next
    case False
    with Cons.prems(1) have "\<forall>x \<in> set (b # bs). \<not> rb_startedAt x \<le> ws" by fastforce
    then show ?thesis using Cons.prems(2) by (cases k) (auto simp: in_window_count_def filter_empty_conv)
  qed
qed simp

lemma sort_started:
  "sorted_wrt (\<lambda>a b. rb_startedAt a \<le> rb_startedAt b) (sort_Slice (\<lambda>a b. rb_startedAt a < rb_startedAt b) bs)"
  using sorted_sort_Slice [of "\<lambda>a b. rb_startedAt a < rb_startedAt b" bs] by (simp add: not_less)

lemma in_window_count_le: "in_window_count ws bs \<le> length bs"
  by (simp add: in_window_count_def)

lemma in_window_count_sort: "in_window_count ws (sort_Slice lt bs) = in_window_count ws bs"
  unfolding in_window_count_def by (metis mset_filter mset_sort_Slice size_mset)

lemma count_not_before:
  assumes "sorted_wrt (\<lambda>a b. rb_startedAt a \<le> rb_startedAt b) bs" and "k < length bs"
  shows "length bs - k \<le> length (filter (\<lambda>b. \<not> rb_startedAt b < rb_startedAt (bs ! k)) bs)"
proof -
  have "\<forall>b \<in> set (drop k bs). \<not> rb_startedAt b < rb_startedAt (bs ! k)"
    using assms by (auto simp: in_set_conv_nth sorted_wrt_iff_nth_less not_less)
      (metis add.commute add_0_right less_diff_conv linorder_not_less nat_less_le order_refl less_add_same_cancel1 not_gr_zero)
  then have "filter (\<lambda>b. \<not> rb_startedAt b < rb_startedAt (bs ! k)) (drop k bs) = drop k bs"
    by (simp add: filter_id_conv)
  then have "length bs - k = length (filter (\<lambda>b. \<not> rb_startedAt b < rb_startedAt (bs ! k)) (drop k bs))"
    by simp
  also have "\<dots> \<le> length (filter (\<lambda>b. \<not> rb_startedAt b < rb_startedAt (bs ! k)) (take k bs @ drop k bs))"
    by (simp only: filter_append length_append)
  finally show ?thesis by simp
qed

lemma filter_count_sort: "length (filter P (sort_Slice lt bs)) = length (filter P bs)"
  by (metis mset_filter mset_sort_Slice size_mset)

text \<open>What the chosen anchor guarantees.\<close>

definition anchor_ok :: "recoveryWindowBackup list \<Rightarrow> int \<Rightarrow> int \<Rightarrow> recoveryWindowBackup \<Rightarrow> bool" where
  "anchor_ok backups ws m a \<longleftrightarrow>
     a \<in> set backups \<and>
     (rb_startedAt a \<le> ws \<or> (\<forall>b \<in> set backups. rb_startedAt a \<le> rb_startedAt b)) \<and>
     min m (int (length backups)) \<le> int (length (filter (\<lambda>b. \<not> rb_startedAt b < rb_startedAt a) backups)) \<and>
     ((\<forall>b \<in> set backups. rb_startedAt b \<le> ws \<longrightarrow> rb_startedAt b \<le> rb_startedAt a) \<or>
      int (length (filter (\<lambda>b. rb_startedAt a < rb_startedAt b) backups)) < m)"

lemma count_after:
  assumes "sorted_wrt (\<lambda>a b. rb_startedAt a \<le> rb_startedAt b) bs" and "k < length bs"
  shows "length (filter (\<lambda>b. rb_startedAt (bs ! k) < rb_startedAt b) bs) < length bs - k"
proof -
  have "\<forall>b \<in> set (take (Suc k) bs). \<not> rb_startedAt (bs ! k) < rb_startedAt b"
    using assms by (auto simp: in_set_conv_nth sorted_wrt_iff_nth_less not_less less_Suc_eq)
  then have "filter (\<lambda>b. rb_startedAt (bs ! k) < rb_startedAt b) (take (Suc k) bs) = []"
    by (simp add: filter_empty_conv)
  then have "filter (\<lambda>b. rb_startedAt (bs ! k) < rb_startedAt b) bs = filter (\<lambda>b. rb_startedAt (bs ! k) < rb_startedAt b) (drop (Suc k) bs)"
    by (metis append_Nil append_take_drop_id filter_append)
  then have "length (filter (\<lambda>b. rb_startedAt (bs ! k) < rb_startedAt b) bs) \<le> length bs - Suc k"
    by (metis length_drop length_filter_le)
  with assms(2) show ?thesis by simp
qed

lemma anchor_index_ok:
  assumes s: "sorted_wrt (\<lambda>a b. rb_startedAt a \<le> rb_startedAt b) bs" and ne: "bs \<noteq> []" and m: "1 \<le> m"
  shows "anchor_ok bs ws m (bs ! nat (anchor_index ws m bs))"
proof -
  define k where "k = nat (anchor_index ws m bs)"
  have ai: "anchor_index ws m bs = max 0 (min (int (in_window_count ws bs) - 1) (int (length bs) - m))"
    by (rule anchor_index_eq [OF assms])
  have len: "0 < length bs" using ne by simp
  have k: "k < length bs" and kw: "k < in_window_count ws bs \<or> k = 0"
    and km: "int k \<le> int (length bs) - m \<or> k = 0"
    and kt: "k = in_window_count ws bs - 1 \<or> int (length bs) - m \<le> int k"
    using m len in_window_count_le [of ws bs] unfolding k_def ai by linarith+
  have "bs ! k \<in> set bs" using k by simp
  moreover have "rb_startedAt (bs ! k) \<le> ws \<or> (\<forall>b \<in> set bs. rb_startedAt (bs ! k) \<le> rb_startedAt b)"
  proof (cases "k = 0")
    case True
    then show ?thesis using s len by (auto simp: in_set_conv_nth sorted_wrt_iff_nth_less) (metis gr0I order_refl)
  next
    case False
    then show ?thesis using kw sorted_nth_count [OF s k, of ws] by simp
  qed
  moreover have "min m (int (length bs)) \<le> int (length (filter (\<lambda>b. \<not> rb_startedAt b < rb_startedAt (bs ! k)) bs))"
    using count_not_before [OF s k] km by auto
  moreover have "(\<forall>b \<in> set bs. rb_startedAt b \<le> ws \<longrightarrow> rb_startedAt b \<le> rb_startedAt (bs ! k)) \<or>
      int (length (filter (\<lambda>b. rb_startedAt (bs ! k) < rb_startedAt b) bs)) < m"
  proof (cases "int (length bs) - m \<le> int k")
    case True
    with count_after [OF s k] k show ?thesis by (intro disjI2) linarith
  next
    case False
    with kt have kw': "k = in_window_count ws bs - 1" by simp
    have "rb_startedAt (bs ! j) \<le> rb_startedAt (bs ! k)" if "j < length bs" "rb_startedAt (bs ! j) \<le> ws" for j
    proof -
      from that sorted_nth_count [OF s that(1), of ws] kw' have "j \<le> k" by simp
      with s k show ?thesis by (cases "j = k") (auto simp: sorted_wrt_iff_nth_less)
    qed
    then show ?thesis by (auto simp: in_set_conv_nth)
  qed
  ultimately show ?thesis by (simp add: anchor_ok_def k_def)
qed

lemma anchor_ok_sort: "anchor_ok (sort_Slice lt bs) ws m a = anchor_ok bs ws m a"
  by (simp add: anchor_ok_def filter_count_sort)

lemma anchor_ok_chosen:
  "case chooseRecoveryWindowAnchor clock backups recoveryWindow minimumBackups now of
     None \<Rightarrow> backups = []
   | Some a \<Rightarrow> anchor_ok backups ((if now = zero_time then clock else now) + sint (- recoveryWindow))
       (max 1 minimumBackups) a"
proof (cases "backups = []")
  case False
  let ?m = "max 1 minimumBackups" and ?ws = "(if now = zero_time then clock else now) + sint (- recoveryWindow)"
  let ?s = "sort_Slice (\<lambda>a b. rb_startedAt a < rb_startedAt b) backups"
  have m: "(if minimumBackups \<le> 0 then 1 else minimumBackups) = ?m" by simp
  have "chooseRecoveryWindowAnchor clock backups recoveryWindow minimumBackups now = Some (?s ! nat (anchor_index ?ws ?m ?s))"
    using False unfolding chooseRecoveryWindowAnchor_def Let_def m by simp
  moreover have "anchor_ok ?s ?ws ?m (?s ! nat (anchor_index ?ws ?m ?s))"
    using False by (intro anchor_index_ok sort_started) (auto simp: sort_Slice_Nil)
  ultimately show ?thesis by (simp add: anchor_ok_sort)
qed (simp add: chooseRecoveryWindowAnchor_def)

text \<open>C15: The recovery window is kept. From a non-empty list of backups the retention chooses an anchor of the list that started at or before the start of the window, or the oldest backup when none did; at least the configured minimum number of backups (at least one, at most all) is not older than it; and it is no older than that needs: no backup at or before the window start is newer, unless keeping fewer would go below the minimum. Without backups there is no anchor.\<close>
theorem anchor_keeps_window:
  "case chooseRecoveryWindowAnchor clock backups recoveryWindow minimumBackups now of
     None \<Rightarrow> backups = []
   | Some a \<Rightarrow> anchor_ok backups ((if now = zero_time then clock else now) + sint (- recoveryWindow))
       (max 1 minimumBackups) a"
  by (rule anchor_ok_chosen)

text \<open>The plan never deletes the anchor or anything newer. The names to delete are, in order, those of the backups that started before the anchor, so with distinct names neither the anchor nor a backup that started at its time or later is among them.\<close>
theorem older_spares_anchor:
  assumes "distinct (map rb_name backups)" and "b \<in> set backups" and "\<not> rb_startedAt b < rb_startedAt a"
  shows "rb_name b \<notin> set (backupsOlderThanAnchor backups (Some a)) \<and> sorted (backupsOlderThanAnchor backups (Some a))"
  using assms by (auto simp: backupsOlderThanAnchor_def distinct_map inj_on_def)

definition demo_backups :: "recoveryWindowBackup list" where
  "demo_backups = [\<lparr>rb_name = ''b2'', rb_path = ''b2'', rb_startedAt = 200, rb_beginWAL = ''000000010000000000000007''\<rparr>,
     \<lparr>rb_name = ''b1'', rb_path = ''b1'', rb_startedAt = 100, rb_beginWAL = ''000000010000000000000003''\<rparr>,
     \<lparr>rb_name = ''b3'', rb_path = ''b3'', rb_startedAt = 300, rb_beginWAL = ''000000010000000000000009''\<rparr>]"

theorem older_spares_anchor_witness:
  "rb_name (demo_backups ! 2) \<notin> set (backupsOlderThanAnchor demo_backups (Some (demo_backups ! 0))) \<and>
   sorted (backupsOlderThanAnchor demo_backups (Some (demo_backups ! 0)))"
  by (rule older_spares_anchor) (simp_all add: demo_backups_def)

lemma demo_anchor: "chooseRecoveryWindowAnchor 0 demo_backups 40 1 250 = Some (demo_backups ! 0)"
  and "chooseRecoveryWindowAnchor 0 demo_backups 40 3 250 = Some (demo_backups ! 1)"
  by (code_simp, code_simp)

subsection \<open>Names with suffixes\<close>

text \<open>
  The loop removes suffixes in rounds; the result is the one of removing them one at a time, so a name
  and the same name with one more suffix are normalized to the same.
\<close>

function peel :: "string \<Rightarrow> string" where
  "peel s = (if has_suffix s ''.gz'' then peel (trim_suffix s ''.gz'')
     else if has_suffix s ''.zst'' then peel (trim_suffix s ''.zst'')
     else if has_suffix s ''.lz4'' then peel (trim_suffix s ''.lz4'')
     else if has_suffix s ''.aes'' then peel (trim_suffix s ''.aes'')
     else s)"
  by auto
termination by (relation "measure length") (auto simp: trim_suffix_def has_suffix_def)

declare peel.simps [simp del]

lemma peel_trim: "ext \<in> {''.gz'', ''.zst'', ''.lz4'', ''.aes''} \<Longrightarrow> peel (trim_suffix s ext) = peel s"
proof (cases "has_suffix s ext")
  case True
  assume ext: "ext \<in> {''.gz'', ''.zst'', ''.lz4'', ''.aes''}"
  from True obtain u where u: "s = u @ ext" by (auto simp: has_suffix_iff)
  have no: "\<not> has_suffix (u @ a) b" if "last a \<noteq> last b" "a \<noteq> []" "b \<noteq> []" for a b :: string
    using that by (auto simp: has_suffix_iff) (metis last_appendR)
  from ext have "peel (u @ ext) = peel u"
    by (subst peel.simps) (auto simp: no simp del: append.simps)
  with u show ?thesis by simp
qed (simp add: trim_suffix_def)

lemma peel_append: "ext \<in> {''.gz'', ''.zst'', ''.lz4'', ''.aes''} \<Longrightarrow> peel (s @ ext) = peel s"
  using peel_trim [of ext "s @ ext"] by simp

lemma strip_once_fix: "strip_once s = s \<Longrightarrow> peel s = s"
proof -
  assume s: "strip_once s = s"
  have t: "trim_suffix s ext = s" if "length s \<le> length (trim_suffix s ext)" for ext
    using that by (auto simp: trim_suffix_def has_suffix_def split: if_splits)
  let ?a = "trim_suffix s ''.gz''" let ?b = "trim_suffix ?a ''.zst''" let ?c = "trim_suffix ?b ''.lz4''"
  have l: "length (strip_once s) \<le> length ?c" "length ?c \<le> length ?b" "length ?b \<le> length ?a" "length ?a \<le> length s"
    unfolding strip_once_def by (rule length_trim_suffix)+
  have a: "?a = s" using l s by (intro t) simp
  have b: "trim_suffix s ''.zst'' = s" using l s by (intro t) (simp add: a)
  have c: "trim_suffix s ''.lz4'' = s" using l s by (intro t) (simp add: a b)
  have d: "trim_suffix s ''.aes'' = s" using s by (simp add: strip_once_def a b c)
  have n: "\<not> has_suffix s ext" if "trim_suffix s ext = s" "ext \<noteq> ''''" for ext
    using that by (auto simp: trim_suffix_def has_suffix_iff)
  show "peel s = s" using n [OF a] n [OF b] n [OF c] n [OF d] by (subst peel.simps) simp
qed

lemma strip_known_peel: "strip_known s = peel s"
proof (induction s rule: strip_known.induct)
  case (1 s)
  have "peel (strip_once s) = peel s" by (simp add: strip_once_def peel_trim)
  with 1 strip_once_fix [of s] show ?case by (subst strip_known.simps) (auto simp: Let_def)
qed

definition known_ext :: "string \<Rightarrow> bool" where
  "known_ext ext \<longleftrightarrow> ext \<in> {'''', ''.gz'', ''.zst'', ''.lz4'', ''.aes'', ''.gz.aes'', ''.zst.aes''}"

lemma strip_known_append: "known_ext ext \<Longrightarrow> strip_known (s @ ext) = strip_known s"
  using peel_append [of "''.aes''" "s @ ''.gz''"] peel_append [of "''.aes''" "s @ ''.zst''"]
  by (auto simp: known_ext_def strip_known_peel peel_append)

lemma split_on_append_plain:
  "c \<notin> set e \<Longrightarrow> split_on c (s @ e) = butlast (split_on c s) @ [last (split_on c s) @ e]"
proof (induction s)
  case Nil
  then show ?case by (simp add: split_on_plain)
next
  case (Cons d s)
  then show ?case by (cases "split_on c s") (auto simp: neq_Nil_conv split: list.splits)
qed

lemma filepath_Base_append:
  assumes "s \<noteq> []" and "last s \<noteq> CHR ''/''" and "CHR ''/'' \<notin> set ext"
  shows "filepath_Base (s @ ext) = filepath_Base s @ ext"
proof -
  have t: "trim_right_char (CHR ''/'') u = u" if "u \<noteq> []" "last u \<noteq> CHR ''/''" for u
    using that by (cases u rule: rev_cases) (auto simp: trim_right_char_def)
  have l: "last (s @ ext) \<noteq> CHR ''/''" using assms(2,3) by (metis append_Nil2 last_appendR last_in_set)
  have "last (split_on (CHR ''/'') (s @ ext)) = last (split_on (CHR ''/'') s) @ ext"
    by (simp add: split_on_append_plain [OF assms(3)])
  with assms t [of s] t [OF _ l] show ?thesis by (simp add: filepath_Base_def)
qed

lemma str_contains_char: "str_contains s [c] \<longleftrightarrow> c \<in> set s"
  by (induction s) (auto simp: has_prefix_def)

lemma trim_space_slash: "CHR ''/'' \<in> set (trim_space s) \<longleftrightarrow> CHR ''/'' \<in> set s"
proof -
  have b: "\<not> is_blank (CHR ''/'')" by code_simp
  have d: "CHR ''/'' \<in> set (dropWhile is_blank u) \<longleftrightarrow> CHR ''/'' \<in> set u" for u
    using b by (induction u) auto
  show ?thesis by (simp add: trim_space_def d)
qed

text \<open>A path at the root of the storage is a plain name, possibly with blanks and a leading \<open>./\<close>.\<close>

lemma root_path_last: "isRootStoragePath p \<Longrightarrow> p \<noteq> [] \<and> last p \<noteq> CHR ''/''"
proof -
  assume r: "isRootStoragePath p"
  define t where "t = trim_space p"
  have p: "p \<noteq> []"
    using r by (auto simp: isRootStoragePath_def trim_space_def trim_prefix_def has_prefix_def)
  moreover have "last p \<noteq> CHR ''/''"
  proof
    assume l: "last p = CHR ''/''"
    with p obtain q where q: "p = q @ ''/''" by (metis append_butlast_last_id)
    have d: "dropWhile is_blank (q @ ''/'') = dropWhile is_blank q @ ''/''"
      by (induction q) (auto simp: is_blank_def)
    then have t: "t = dropWhile is_blank q @ ''/''"
      unfolding t_def trim_space_def q d by (simp add: is_blank_def)
    show False
    proof (cases "has_prefix t ''./''")
      case True
      then obtain v where v: "t = ''./'' @ v" by (auto simp: has_prefix_iff)
      then have "trim_prefix t ''./'' = v" by (simp only: trim_prefix_append)
      with r have v': "v \<noteq> []" "CHR ''/'' \<notin> set v"
        unfolding isRootStoragePath_def t_def [symmetric] Let_def by (simp_all add: str_contains_char)
      have "last t = CHR ''/''" by (simp add: t)
      moreover have "last t = last v" using v'(1) by (simp add: v)
      ultimately show False using v' by (metis last_in_set)
    next
      case False
      with r t show False
        unfolding isRootStoragePath_def t_def [symmetric] by (simp add: trim_prefix_def str_contains_char)
    qed
  qed
  ultimately show ?thesis by simp
qed

lemma known_ext_no_slash: "known_ext ext \<Longrightarrow> CHR ''/'' \<notin> set ext"
  by (auto simp: known_ext_def)

lemma normalize_append:
  assumes "isRootStoragePath p" and "known_ext ext"
  shows "normalizeWALFilename (p @ ext) = normalizeWALFilename p"
  using root_path_last [OF assms(1)] assms(2)
  by (simp add: normalizeWALFilename_def filepath_Base_append known_ext_no_slash strip_known_append)

text \<open>A file of the WAL archive, under any extension, is recognised as its segment.\<close>

lemma hex_digit_facts: "d < 16 \<Longrightarrow> wal_char (hex_digit d) \<and> upper_char (hex_digit d) = hex_digit d \<and>
    hex_digit d \<noteq> CHR ''.'' \<and> hex_digit d \<noteq> CHR ''/'' \<and> \<not> is_blank (hex_digit d)"
proof -
  assume "d < 16"
  then have "d \<in> set [0..<16]" by simp
  moreover have "\<forall>d \<in> set [0..<16]. wal_char (hex_digit d) \<and> upper_char (hex_digit d) = hex_digit d \<and>
      hex_digit d \<noteq> CHR ''.'' \<and> hex_digit d \<noteq> CHR ''/'' \<and> \<not> is_blank (hex_digit d)" by code_simp
  ultimately show ?thesis by blast
qed

lemma hexSet_facts:
  assumes "hexSet c"
  shows "wal_char c \<and> upper_char c = c \<and> c \<noteq> CHR ''.'' \<and> c \<noteq> CHR ''/'' \<and> \<not> is_blank c"
proof -
  from hexSet_cases [OF assms] obtain d where "d < 16" "c = hex_digit d" by blast
  with hex_digit_facts show ?thesis by simp
qed

lemma to_upper_hexSet: "\<forall>c \<in> set s. hexSet c \<Longrightarrow> to_upper s = s"
  unfolding to_upper_def by (rule map_idI) (use hexSet_facts in blast)

lemma no_dot_suffix: "\<forall>c \<in> set s. hexSet c \<Longrightarrow> CHR ''.'' \<in> set ext \<Longrightarrow> \<not> has_suffix s ext"
proof
  assume h: "\<forall>c \<in> set s. hexSet c" and d: "CHR ''.'' \<in> set ext" and "has_suffix s ext"
  then obtain u where "s = u @ ext" by (auto simp: has_suffix_iff)
  with d have "CHR ''.'' \<in> set s" by simp
  with h have "hexSet (CHR ''.'')" by blast
  then show False using hexSet_facts by blast
qed

lemma strip_known_wal_name:
  assumes "\<forall>c \<in> set s. hexSet c"
  shows "strip_known s = s"
proof -
  have "\<not> has_suffix s ext" if "CHR ''.'' \<in> set ext" for ext
    by (rule no_dot_suffix [OF assms that])
  then show ?thesis by (subst strip_known_peel, subst peel.simps) simp
qed

lemma trim_space_hexSet: "\<forall>c \<in> set s. hexSet c \<Longrightarrow> trim_space s = s"
proof -
  assume h: "\<forall>c \<in> set s. hexSet c"
  have d: "dropWhile is_blank u = u" if "\<forall>c \<in> set u. hexSet c" for u
    using that hexSet_facts by (cases u) auto
  from h show ?thesis using d [of s] d [of "rev s"] by (simp add: trim_space_def)
qed

lemma normalize_wal_name:
  assumes "seg_ok n w" and "known_ext ext"
  shows "normalizeWALFilename (wal_name tli n w @ ext) = (wal_name tli n w, False, True)"
proof -
  let ?n = "wal_name tli n w"
  have h: "\<forall>c \<in> set ?n. hexSet c" and l: "length ?n = 24"
    using assms(1) by (simp_all add: hexSet_wal_name length_wal_name)
  have p: "plain_name ?n" using plain_wal_name(1) [OF assms(1)] .
  have ne: "?n \<noteq> []" "last ?n \<noteq> CHR ''/''"
    using l h hexSet_facts by force (metis h hexSet_facts l last_in_set length_0_conv zero_neq_numeral)
  have b: "filepath_Base (?n @ ext) = ?n @ ext"
    using filepath_Base_append [OF ne known_ext_no_slash [OF assms(2)]] filepath_Base_child(2) [OF p] by simp
  have s: "strip_known (?n @ ext) = ?n"
    using strip_known_append [OF assms(2), of ?n] strip_known_wal_name [OF h] by simp
  have "\<not> has_suffix ?n ''.history''" by (rule no_dot_suffix [OF h]) simp
  then show ?thesis
    using h l by (simp add: normalizeWALFilename_def b s to_upper_hexSet list_all_iff hexSet_facts)
qed

lemma walBefore_wal_names:
  assumes "seg_ok n w" and "seg_ok k w"
  shows "walBefore (wal_name tli n w) (wal_name u k w) \<longleftrightarrow> wal_name tli n w < wal_name u k w"
  using hexSet_wal_name [OF assms(1), of tli] hexSet_wal_name [OF assms(2), of u]
    length_wal_name [OF assms(1), of tli] length_wal_name [OF assms(2), of u]
  by (auto simp: walBefore_def trim_space_hexSet to_upper_hexSet Let_def)

end
