(* ===== verification/Retention.thy ===== *)
theory Retention
  imports VariadicSpec Retain
begin

section \<open>Retention of backups and WAL (internal/opt/supervisors/backupsv)\<close>

text \<open>
  The files wal_cleaner.go, backup_store.go, recovery_window_retention.go and retention.go, over arbitrary
  backends: the state is the state of the two storages.  The context, the clock, the JSON decoder of the
  manifest and \<open>pglogrepl.ParseLSN\<close> are fields of the configuration record.  A Go map is the list of its
  keys; the order of the list is the order in which the loop visits them, so a statement about every list
  is one about every order.  Log messages and metrics are left out.
\<close>

subsection \<open>The manifest (internal/opt/basebackup/backupdto)\<close>

record Tablespace =
  ts_OID :: "32 word"
  ts_Location :: string

record ManifestFile =
  mf_Path :: string
  mf_Size :: "64 word"
  mf_LastModified :: string
  mf_ChecksumAlgorithm :: string
  mf_Checksum :: string

record ManifestWALRange =
  wr_Timeline :: "32 word"
  wr_StartLSN :: string
  wr_EndLSN :: string

record BackupManifest =
  bm_Version :: int
  bm_Files :: "ManifestFile list"
  bm_WALRanges :: "ManifestWALRange list"
  bm_ManifestChecksum :: string

record Result =
  rs_StartLSN :: lsn
  rs_StopLSN :: lsn
  rs_TimelineID :: "32 word"
  rs_Tablespaces :: "Tablespace list"
  rs_BytesTotal :: "64 word"
  rs_StartedAt :: int
  rs_FinishedAt :: int
  rs_Manifest :: "BackupManifest option"

subsection \<open>Configuration\<close>

record BackupRetentionConfig =
  rc_Enable :: bool
  rc_Type :: string
  rc_KeepDurationParsed :: "64 word"
  rc_KeepLast :: "int option"

record 's retention =
  rt_BasebackupStor :: "'s Storage"
  rt_WalStor :: "'s VariadicStorage"
  rt_Cfg :: "BackupRetentionConfig option"
  rt_WalSegSz :: u64
  rt_ctx :: "('s, unit) m"
  rt_now :: "('s, int) m"
  rt_decode :: "io_reader \<Rightarrow> gerr + Result"
  rt_ParseLSN :: "string \<Rightarrow> gerr + lsn"

definition RetentionTypeRecoveryWindow :: string where
  "RetentionTypeRecoveryWindow = ''recovery_window''"

subsection \<open>WAL cleaner\<close>

fun delete_wals :: "'s retention \<Rightarrow> string \<Rightarrow> FileInfo list \<Rightarrow> ('s, unit) m" where
  "delete_wals rt keepFromWAL [] = retE ()"
| "delete_wals rt keepFromWAL (wal # wals) =
     (if \<not> isRootStoragePath (fi_Path wal) then delete_wals rt keepFromWAL wals
      else case normalizeWALFilename (fi_Path wal) of (name, history, ok) \<Rightarrow>
        if \<not> ok then delete_wals rt keepFromWAL wals
        else if history then delete_wals rt keepFromWAL wals
        else if \<not> walBefore name keepFromWAL then delete_wals rt keepFromWAL wals
        else thenE (rt_ctx rt)
            (thenE (wrapE ''delete WAL'' (var_Delete (rt_WalStor rt) (fi_Path wal)))
              (delete_wals rt keepFromWAL wals)))"

definition DeleteBefore :: "'s retention \<Rightarrow> string \<Rightarrow> ('s, unit) m" where
  "DeleteBefore rt keepFromWAL =
     (if keepFromWAL = '''' then throwE (EMsg ''keepFromWAL is empty'')
      else bindE (wrapE ''list WAL archive'' (var_ListInfoRaw (rt_WalStor rt) '''')) (delete_wals rt keepFromWAL))"

subsection \<open>Backup store\<close>

definition backupBaseName :: "string \<Rightarrow> string" where
  "backupBaseName path = filepath_Base path"

definition ListBackupDirs :: "'s retention \<Rightarrow> ('s, string list) m" where
  "ListBackupDirs rt = st_ListTopLevelDirs (rt_BasebackupStor rt) ''''"

definition ReadManifest :: "'s retention \<Rightarrow> string \<Rightarrow> ('s, Result) m" where
  "ReadManifest rt backupID =
     (let manifestFilename = backupBaseName backupID @ ''.json'';
          manifestPath = filepath_Join [backupBaseName backupID, manifestFilename]
      in bindE (st_Get (rt_BasebackupStor rt) manifestPath) (\<lambda>r. liftE (rt_decode rt r)))"

fun delete_dirs :: "'s retention \<Rightarrow> string set \<Rightarrow> string list \<Rightarrow> ('s, unit) m" where
  "delete_dirs rt deleteSet [] = retE ()"
| "delete_dirs rt deleteSet (backupPath # dirs) =
     (let backupID = backupBaseName backupPath in
      if backupID \<notin> deleteSet then delete_dirs rt deleteSet dirs
      else thenE (tryE (ReadManifest rt backupID))
        (thenE (wrapE ''delete backup'' (st_DeleteDir (rt_BasebackupStor rt) backupPath))
          (delete_dirs rt deleteSet dirs)))"

definition DeleteBackups :: "'s retention \<Rightarrow> string list \<Rightarrow> ('s, unit) m" where
  "DeleteBackups rt backupsToDelete =
     (if backupsToDelete = [] then retE ()
      else bindE (st_ListTopLevelDirs (rt_BasebackupStor rt) '''')
        (delete_dirs rt (set (map backupBaseName backupsToDelete))))"

subsection \<open>Recovery window\<close>

text \<open>The first range of the manifest with a readable, non-zero start decides the position and the timeline.\<close>

fun first_range :: "(string \<Rightarrow> gerr + lsn) \<Rightarrow> ManifestWALRange list \<Rightarrow> 32 word \<times> lsn \<Rightarrow> 32 word \<times> lsn" where
  "first_range parse [] (timelineID, startLSN) = (timelineID, startLSN)"
| "first_range parse (walRange # ranges) (timelineID, startLSN) =
     (if wr_StartLSN walRange = '''' then first_range parse ranges (timelineID, startLSN)
      else case parse (wr_StartLSN walRange) of
          Inl e \<Rightarrow> first_range parse ranges (timelineID, startLSN)
        | Inr l \<Rightarrow>
            if l = 0 then first_range parse ranges (timelineID, startLSN)
            else (if wr_Timeline walRange \<noteq> 0 then wr_Timeline walRange else timelineID, l))"

definition backupBeginWAL :: "'s retention \<Rightarrow> Result \<Rightarrow> gerr + string" where
  "backupBeginWAL rt info =
     (if rt_WalSegSz rt = 0 then Inr ''''
      else
        let (timelineID, startLSN) =
          (case rs_Manifest info of
             None \<Rightarrow> (rs_TimelineID info, rs_StartLSN info)
           | Some mf \<Rightarrow> first_range (rt_ParseLSN rt) (bm_WALRanges mf) (rs_TimelineID info, rs_StartLSN info))
        in if timelineID = 0 \<or> startLSN = 0 then Inr ''''
           else case XLByteToSeg startLSN (rt_WalSegSz rt) of
               Inl e \<Rightarrow> Inl e
             | Inr segNo \<Rightarrow> XLogFileName (ToUint32 timelineID) segNo (rt_WalSegSz rt))"

fun load_loop :: "'s retention \<Rightarrow> recoveryWindowBackup list \<Rightarrow> string list \<Rightarrow> ('s, recoveryWindowBackup list) m" where
  "load_loop rt successful [] = retE successful"
| "load_loop rt successful (backupPath # dirs) =
     (let backupID = backupBaseName backupPath in
      bindE (tryE (ReadManifest rt backupID)) (\<lambda>r.
        case r of
          Inl e \<Rightarrow> load_loop rt successful dirs
        | Inr info \<Rightarrow>
            if rs_StartedAt info = zero_time then load_loop rt successful dirs
            else bindE (liftE (backupBeginWAL rt info)) (\<lambda>beginWAL.
              if beginWAL = '''' then load_loop rt successful dirs
              else load_loop rt (successful @ [\<lparr>rb_name = backupID, rb_path = backupPath,
                       rb_startedAt = rs_StartedAt info, rb_beginWAL = beginWAL\<rparr>]) dirs)))"

definition loadSuccessfulBackups :: "'s retention \<Rightarrow> ('s, recoveryWindowBackup list) m" where
  "loadSuccessfulBackups rt = bindE (ListBackupDirs rt) (load_loop rt [])"

definition retention_plan :: "'s retention \<Rightarrow> BackupRetentionConfig \<Rightarrow> recoveryWindowBackup list \<Rightarrow> int \<Rightarrow>
    recoveryWindowBackup option" where
  "retention_plan rt cfg successful now =
     (let minimumBackups = (case rc_KeepLast cfg of Some n \<Rightarrow> n | None \<Rightarrow> 1)
      in chooseRecoveryWindowAnchor now successful (rc_KeepDurationParsed cfg) minimumBackups now)"

definition purge :: "'s retention \<Rightarrow> recoveryWindowBackup list \<Rightarrow> recoveryWindowBackup option \<Rightarrow> ('s, unit) m" where
  "purge rt successful anchor =
     (case anchor of
        None \<Rightarrow> retE ()
      | Some a \<Rightarrow>
          let backupsToDelete = backupsOlderThanAnchor successful anchor in
          thenE (whenE (backupsToDelete \<noteq> []) (wrapE ''purge old backups'' (DeleteBackups rt backupsToDelete)))
            (wrapE ''purge old WALs'' (DeleteBefore rt (rb_beginWAL a))))"

definition recoveryWindow_RunBeforeBackup :: "'s retention \<Rightarrow> BackupRetentionConfig \<Rightarrow> ('s, unit) m" where
  "recoveryWindow_RunBeforeBackup rt cfg =
     bindE (loadSuccessfulBackups rt) (\<lambda>successful.
       if successful = [] then retE ()
       else bindE (rt_now rt) (\<lambda>now. purge rt successful (retention_plan rt cfg successful now)))"

subsection \<open>The service\<close>

definition NoopRetention_RunBeforeBackup :: "'s retention \<Rightarrow> ('s, unit) m" where
  "NoopRetention_RunBeforeBackup rt = rt_ctx rt"

definition ConfiguredRetention_RunBeforeBackup :: "'s retention \<Rightarrow> BackupRetentionConfig \<Rightarrow> ('s, unit) m" where
  "ConfiguredRetention_RunBeforeBackup rt cfg =
     thenE (rt_ctx rt)
       (if \<not> rc_Enable cfg then retE ()
        else if rc_Type cfg = RetentionTypeRecoveryWindow then recoveryWindow_RunBeforeBackup rt cfg
        else throwE (EMsg ''unsupported backup retention type''))"

definition RunBeforeBackup :: "'s retention \<Rightarrow> ('s, unit) m" where
  "RunBeforeBackup rt =
     (case rt_Cfg rt of
        None \<Rightarrow> NoopRetention_RunBeforeBackup rt
      | Some cfg \<Rightarrow> if rc_Enable cfg then ConfiguredRetention_RunBeforeBackup rt cfg
                    else NoopRetention_RunBeforeBackup rt)"

subsection \<open>What the cleaner deletes\<close>

text \<open>A stored file the cleaner may delete: a variant of a root file named as a segment before the boundary.\<close>

definition expendable :: "string \<Rightarrow> string \<Rightarrow> bool" where
  "expendable keepFromWAL q \<longleftrightarrow>
     (\<exists>p ext n. q = p @ ext \<and> known_ext ext \<and> isRootStoragePath p \<and>
        normalizeWALFilename p = (n, False, True) \<and> walBefore n keepFromWAL)"

text \<open>From \<open>f\<close> to \<open>g\<close> only files of \<open>D\<close> are gone.\<close>

definition lost_only :: "(string \<Rightarrow> bool) \<Rightarrow> (string \<Rightarrow> bytes option) \<Rightarrow> (string \<Rightarrow> bytes option) \<Rightarrow> bool" where
  "lost_only D f g \<longleftrightarrow> (\<forall>q. g q = f q \<or> D q \<and> g q = None)"

lemma lost_only_refl [simp]: "lost_only D f f"
  by (simp add: lost_only_def)

lemma lost_only_trans: "lost_only D f g \<Longrightarrow> lost_only D g h \<Longrightarrow> lost_only D f h"
  by (auto simp: lost_only_def) metis+

lemma lost_only_mono: "lost_only D f g \<Longrightarrow> (\<And>q. D q \<Longrightarrow> D' q) \<Longrightarrow> lost_only D' f g"
  unfolding lost_only_def by blast

lemma supportedExts_known: "ext \<in> set (supportedExts a) \<Longrightarrow> known_ext ext"
  by (auto simp: supportedExts_def known_ext_def split: if_splits)

text \<open>The archive as the cleaner needs it: a backend whose listing changes nothing and misses no file.\<close>

locale wal_archive = storage_backend +
  assumes list_law: "inv s \<Longrightarrow>
      wp (st_List B '''') (\<lambda>fs t. inv t \<and> files t = files s \<and> (\<forall>q. files s q \<noteq> None \<longrightarrow> q \<in> fi_Path ` set fs))
        (\<lambda>e t. inv t \<and> files t = files s) s"
    and all_good: "good p"

context wal_archive
begin

lemma delete_loop_lost:
  "inv s \<Longrightarrow> wp (delete_loop B p le exts)
     (\<lambda>_ t. inv t \<and> lost_only (\<lambda>q. \<exists>e \<in> set exts. q = p @ e) (files s) (files t))
     (\<lambda>_ t. inv t \<and> lost_only (\<lambda>q. \<exists>e \<in> set exts. q = p @ e) (files s) (files t)) s"
proof (induction exts arbitrary: s le)
  case Nil
  then show ?case by (simp split: option.split)
next
  case (Cons e exts)
  define D where "D = (\<lambda>q. \<exists>d \<in> set (e # exts). q = p @ d)"
  have step: "wp (delete_loop B p le' exts) (\<lambda>_ t. inv t \<and> lost_only D (files s) (files t))
      (\<lambda>_ t. inv t \<and> lost_only D (files s) (files t)) t"
    if t: "inv t" "lost_only D (files s) (files t)" for t le'
  proof -
    have m: "lost_only D (files s) (files u)" if "lost_only (\<lambda>q. \<exists>d \<in> set exts. q = p @ d) (files t) (files u)" for u
    proof (rule lost_only_trans [OF t(2)])
      show "lost_only D (files t) (files u)" by (rule lost_only_mono [OF that]) (auto simp: D_def)
    qed
    show ?thesis by (rule wp_conseq [OF Cons.IH [OF t(1)]]) (use m in blast)+
  qed
  have del: "lost_only D (files s) ((files s)(p @ e := None))"
    by (auto simp: lost_only_def D_def)
  have "wp (delete_loop B p le (e # exts)) (\<lambda>_ t. inv t \<and> lost_only D (files s) (files t))
      (\<lambda>_ t. inv t \<and> lost_only D (files s) (files t)) s"
    by (simp, rule wp_conseq [OF delete_law [OF Cons.prems all_good]]) (auto intro!: step simp: del)
  then show ?case by (simp only: D_def)
qed

lemma delete_wals_wp:
  assumes ctx: "\<And>s. inv s \<Longrightarrow> wp (rt_ctx rt) (\<lambda>_ t. inv t \<and> files t = files s) (\<lambda>_ t. inv t \<and> files t = files s) s"
    and B: "Backend (rt_WalStor rt) = B" and s: "inv s"
  shows "wp (delete_wals rt keep wals)
     (\<lambda>_ t. inv t \<and> lost_only (expendable keep) (files s) (files t) \<and>
        (\<forall>w \<in> set wals. isRootStoragePath (fi_Path w) \<longrightarrow>
           (\<forall>n. normalizeWALFilename (fi_Path w) = (n, False, True) \<longrightarrow> walBefore n keep \<longrightarrow> files t (fi_Path w) = None)))
     (\<lambda>_ t. inv t \<and> lost_only (expendable keep) (files s) (files t)) s"
  using s
proof (induction wals arbitrary: s)
  case (Cons w wals)
  let ?p = "fi_Path w"
  obtain n h ok where nf: "normalizeWALFilename ?p = (n, h, ok)" by (metis prod_cases3)
  show ?case
  proof (cases "isRootStoragePath ?p \<and> ok \<and> \<not> h \<and> walBefore n keep")
    case False
    then show ?thesis using Cons.IH [OF Cons.prems] nf by (auto elim!: wp_conseq)
  next
    case True
    then have nf': "normalizeWALFilename ?p = (n, False, True)" using nf by simp
    have ex: "expendable keep (?p @ e)" if "e \<in> set (supportedExts a)" for e a
      using that True nf' supportedExts_known unfolding expendable_def by blast
    have rest: "wp (delete_wals rt keep wals)
       (\<lambda>_ v. inv v \<and> lost_only (expendable keep) (files s) (files v) \<and> files v ?p = None \<and>
          (\<forall>w \<in> set wals. isRootStoragePath (fi_Path w) \<longrightarrow>
           (\<forall>n. normalizeWALFilename (fi_Path w) = (n, False, True) \<longrightarrow> walBefore n keep \<longrightarrow> files v (fi_Path w) = None)))
       (\<lambda>_ v. inv v \<and> lost_only (expendable keep) (files s) (files v)) u"
      if u: "inv u" "lost_only (expendable keep) (files s) (files u)" "files u ?p = None" for u
    proof (rule wp_conseq [OF Cons.IH [OF u(1)]])
      fix e v assume "inv v \<and> lost_only (expendable keep) (files u) (files v)"
      then show "inv v \<and> lost_only (expendable keep) (files s) (files v)"
        using lost_only_trans [OF u(2)] by blast
    next
      fix x v assume v: "inv v \<and> lost_only (expendable keep) (files u) (files v) \<and>
          (\<forall>w \<in> set wals. isRootStoragePath (fi_Path w) \<longrightarrow>
           (\<forall>n. normalizeWALFilename (fi_Path w) = (n, False, True) \<longrightarrow> walBefore n keep \<longrightarrow> files v (fi_Path w) = None))"
      then have "files v ?p = None" using u(3) unfolding lost_only_def by metis
      with v lost_only_trans [OF u(2)] show "inv v \<and> lost_only (expendable keep) (files s) (files v) \<and> files v ?p = None \<and>
          (\<forall>w \<in> set wals. isRootStoragePath (fi_Path w) \<longrightarrow>
           (\<forall>n. normalizeWALFilename (fi_Path w) = (n, False, True) \<longrightarrow> walBefore n keep \<longrightarrow> files v (fi_Path w) = None))"
        by blast
    qed
    have del: "wp (var_Delete (rt_WalStor rt) ?p)
       (\<lambda>_ u. inv u \<and> lost_only (expendable keep) (files s) (files u) \<and> files u ?p = None)
       (\<lambda>_ u. inv u \<and> lost_only (expendable keep) (files s) (files u)) t"
      if t: "inv t" "files t = files s" for t
    proof -
      let ?exts = "supportedExts (alg (rt_WalStor rt))"
      have a: "wp (delete_loop B ?p None ?exts)
          (\<lambda>_ u. inv u \<and> (None :: gerr option) = None \<and> files u = drop_variants ?exts ?p (files t)) (\<lambda>_ u. inv u) t"
        by (rule delete_loop_wp [OF t(1)]) (simp add: all_good)
      have "?p = ?p @ ''''" "'''' \<in> set ?exts" by (simp_all add: supportedExts_def)
      then have none: "drop_variants ?exts ?p f ?p = None" for f
        unfolding drop_variants_def by (metis (full_types))
      show ?thesis
        unfolding var_Delete_def B
        by (rule wp_conseq [OF wp_conj [OF a delete_loop_lost [OF t(1)]]])
          (auto simp: none t(2) intro: lost_only_mono ex)
    qed
    show ?thesis
      using True
      by (simp add: nf, intro wp_conseq [OF ctx [OF Cons.prems]])
        (auto simp: nf intro!: wp_conseq [OF del] wp_conseq [OF rest])
  qed
qed simp

lemma DeleteBefore_wp:
  assumes ctx: "\<And>s. inv s \<Longrightarrow> wp (rt_ctx rt) (\<lambda>_ t. inv t \<and> files t = files s) (\<lambda>_ t. inv t \<and> files t = files s) s"
    and B: "Backend (rt_WalStor rt) = B" and s: "inv s"
  shows "wp (DeleteBefore rt keep)
     (\<lambda>_ t. inv t \<and> lost_only (expendable keep) (files s) (files t) \<and>
        (\<forall>q. files s q \<noteq> None \<longrightarrow> isRootStoragePath q \<longrightarrow>
           (\<forall>n. normalizeWALFilename q = (n, False, True) \<longrightarrow> walBefore n keep \<longrightarrow> files t q = None)))
     (\<lambda>_ t. inv t \<and> lost_only (expendable keep) (files s) (files t)) s"
proof (cases "keep = ''''")
  case True
  then show ?thesis using s by (simp add: DeleteBefore_def)
next
  case False
  then show ?thesis
    unfolding DeleteBefore_def var_ListInfoRaw_def B
    by (simp, intro wp_conseq [OF list_law [OF s]])
      (auto intro!: wp_conseq [OF delete_wals_wp [OF ctx B]])
qed

end

interpretation mem_archive: wal_archive mem_storage "\<lambda>_. True" mem_files "\<lambda>_. True"
proof unfold_locales
  fix s :: InMemoryStorage
  show "wp (st_List mem_storage '''') (\<lambda>fs t. True \<and> mem_files t = mem_files s \<and>
      (\<forall>q. mem_files s q \<noteq> None \<longrightarrow> q \<in> fi_Path ` set fs)) (\<lambda>e t. True \<and> mem_files t = mem_files s) s"
    by (auto simp: mem_storage_def mem_List_def mem_files_def storagePrefix_def Let_def has_prefix_def
        trim_suffix_def has_suffix_def case_prod_beta image_image dest!: map_of_SomeD intro: rev_image_eqI)
qed simp

subsection \<open>Properties\<close>

text \<open>What the cleaner may see of a context: it may be cancelled at any time, it does not touch the storage.\<close>

abbreviation ctx_pure :: "('s, unit) m \<Rightarrow> bool" where
  "ctx_pure \<equiv> keeps (\<lambda>s. s)"

lemma ctx_pure_wp: "ctx_pure f \<Longrightarrow> Q s \<Longrightarrow> wp f (\<lambda>_ t. Q t) (\<lambda>_ t. Q t) s"
  by (rule wpI) (auto dest: keepsD)

lemma mem_DeleteBefore:
  assumes "Backend (rt_WalStor rt) = mem_storage" and "ctx_pure (rt_ctx rt)"
  shows "wp (DeleteBefore rt keep)
     (\<lambda>_ t. True \<and> lost_only (expendable keep) (mem_files s) (mem_files t) \<and>
        (\<forall>q. mem_files s q \<noteq> None \<longrightarrow> isRootStoragePath q \<longrightarrow>
           (\<forall>n. normalizeWALFilename q = (n, False, True) \<longrightarrow> walBefore n keep \<longrightarrow> mem_files t q = None)))
     (\<lambda>_ t. True \<and> lost_only (expendable keep) (mem_files s) (mem_files t)) s"
  using assms by (intro mem_archive.DeleteBefore_wp) (auto intro: ctx_pure_wp [where Q = "\<lambda>t. mem_files t = mem_files s" for s])

text \<open>A segment file is expendable only when its segment comes before the boundary.\<close>

lemma expendable_wal_name:
  assumes "seg_ok n w" and "seg_ok k w" and "known_ext ext"
    and "expendable (wal_name u k w) (wal_name tli n w @ ext)"
  shows "wal_name tli n w < wal_name u k w"
proof -
  from assms(4) obtain p e m where p: "wal_name tli n w @ ext = p @ e" "known_ext e" "isRootStoragePath p"
      "normalizeWALFilename p = (m, False, True)" "walBefore m (wal_name u k w)"
    unfolding expendable_def by blast
  then have "m = wal_name tli n w"
    using normalize_append [OF p(3,2)] normalize_wal_name [OF assms(1,3), of tli] by simp
  with p(5) walBefore_wal_names [OF assms(1,2)] show ?thesis by simp
qed

lemma needed_not_expendable:
  assumes "IsValidWalSegSize w" and "XLByteToSeg p w = Inr m" and "XLogFileName u m w = Inr boundary"
    and "XLByteToSeg q w = Inr n" and "XLogFileName tli n w = Inr name" and "u < tli \<or> u = tli \<and> p \<le> q"
  shows "\<exists>k. seg_ok k w \<and> name = wal_name tli k w" and "known_ext ext \<Longrightarrow> \<not> expendable boundary (name @ ext)"
proof -
  note w = IsValidWalSegSizeD [OF assms(1)]
  have mn: "m = p div w" "n = q div w" using assms(2,4) XLByteToSeg_ok [OF w(1)] by simp_all
  have nm: "boundary = wal_name u (unat p div unat w) w" "name = wal_name tli (unat q div unat w) w"
    using assms(3,5) XLogFileName_ok [OF w] by (simp_all add: mn unat_div)
  note ok = seg_of_pos_ok [OF w, of p] seg_of_pos_ok [OF w, of q]
  show "\<exists>k. seg_ok k w \<and> name = wal_name tli k w" using ok(2) nm(2) by blast
  assume e: "known_ext ext"
  have "\<not> name < boundary"
    unfolding nm wal_name_less_iff [OF ok(2,1)] using assms(6) by (auto simp: word_less_nat_alt word_le_nat_alt div_le_mono not_less)
  then show "\<not> expendable boundary (name @ ext)"
    using expendable_wal_name [OF ok(2,1) e] unfolding nm by blast
qed

text \<open>C10: No needed WAL is deleted. Cleaning before the segment of position p on timeline u, also when the cleaning fails or is cancelled half-way, keeps every file of the archive, compressed and encrypted or not, of the segment of any position q at or after p on the same timeline, and of any position on a later one.\<close>
theorem cleaner_keeps_needed_wal:
  assumes "Backend (rt_WalStor rt) = mem_storage" and "ctx_pure (rt_ctx rt)"
    and "IsValidWalSegSize w" and "XLByteToSeg p w = Inr m" and "XLogFileName u m w = Inr boundary"
    and "XLByteToSeg q w = Inr n" and "XLogFileName tli n w = Inr name"
    and "u < tli \<or> u = tli \<and> p \<le> q" and "known_ext ext"
  shows "mem_files (snd (DeleteBefore rt boundary s)) (name @ ext) = mem_files s (name @ ext)"
proof -
  have "\<not> expendable boundary (name @ ext)" by (rule needed_not_expendable(2) [OF assms(3-9)])
  moreover have "lost_only (expendable boundary) (mem_files s) (mem_files (snd (DeleteBefore rt boundary s)))"
    using mem_DeleteBefore [OF assms(1,2), of boundary s] by (auto simp: wp_def split: prod.splits sum.splits)
  ultimately show ?thesis by (auto simp: lost_only_def)
qed

text \<open>The cleaner deletes what it should. When it succeeds, no file at the root of the archive named as a segment before the boundary is left, under whatever extension it was stored; and nothing but such files (and their variants) is gone, no history file, no partial segment, nothing in a directory below.\<close>
theorem cleaner_deletes_old_wal:
  assumes "Backend (rt_WalStor rt) = mem_storage" and "ctx_pure (rt_ctx rt)"
    and "DeleteBefore rt keep s = (Inr (), t)"
  shows "(\<forall>q n. mem_files s q \<noteq> None \<and> isRootStoragePath q \<and> normalizeWALFilename q = (n, False, True) \<and> walBefore n keep
            \<longrightarrow> mem_files t q = None) \<and>
         (\<forall>q. mem_files t q \<noteq> mem_files s q \<longrightarrow> mem_files t q = None \<and> expendable keep q)"
  using wpD_ok [OF mem_DeleteBefore [OF assms(1,2)] assms(3)] by (auto simp: lost_only_def)

text \<open>An archive with one old and one needed segment, and the cleaner run on it.\<close>

definition demo_clean :: "InMemoryStorage retention" where
  "demo_clean = \<lparr>rt_BasebackupStor = mem_storage,
     rt_WalStor = \<lparr>Backend = mem_storage, alg = \<lparr>Gzip = None, Zstd = None, AES = None\<rparr>, writeExt = ''''\<rparr>,
     rt_Cfg = None, rt_WalSegSz = 0x1000000, rt_ctx = retE (), rt_now = retE 0, rt_decode = (\<lambda>r. Inl EEOF),
     rt_ParseLSN = (\<lambda>s. Inr 0)\<rparr>"

definition demo_archive :: InMemoryStorage where
  "demo_archive = \<lparr>Files = [(''000000010000000000000001'', ''a''), (''000000010000000000000002'', ''b'')],
     ctxDone = False, nowTime = 0\<rparr>"

theorem cleaner_keeps_needed_wal_witness:
  "mem_files (snd (DeleteBefore demo_clean ''000000010000000000000002'' demo_archive)) ''000000010000000000000002'' =
     mem_files demo_archive ''000000010000000000000002''"
proof -
  have v: "IsValidWalSegSize 0x1000000" "XLByteToSeg 0x2000000 0x1000000 = Inr 2"
    "XLogFileName 1 2 0x1000000 = Inr ''000000010000000000000002''" by (code_simp, code_simp, code_simp)
  have r: "Backend (rt_WalStor demo_clean) = mem_storage" "ctx_pure (rt_ctx demo_clean)"
    by (simp_all add: demo_clean_def keeps_basic)
  from cleaner_keeps_needed_wal [OF r v v(2,3), of "''''"] show ?thesis by (simp add: known_ext_def)
qed

theorem cleaner_deletes_old_wal_witness:
  "\<exists>t. DeleteBefore demo_clean ''000000010000000000000002'' demo_archive = (Inr (), t) \<and>
    (\<forall>q n. mem_files demo_archive q \<noteq> None \<and> isRootStoragePath q \<and> normalizeWALFilename q = (n, False, True) \<and>
        walBefore n ''000000010000000000000002'' \<longrightarrow> mem_files t q = None) \<and>
    (\<forall>q. mem_files t q \<noteq> mem_files demo_archive q \<longrightarrow> mem_files t q = None \<and> expendable ''000000010000000000000002'' q)"
proof -
  have "DeleteBefore demo_clean ''000000010000000000000002'' demo_archive =
      (Inr (), \<lparr>Files = [(''000000010000000000000002'', ''b'')], ctxDone = False, nowTime = 0\<rparr>)"
    by code_simp
  moreover have "ctx_pure (rt_ctx demo_clean)" "Backend (rt_WalStor demo_clean) = mem_storage"
    by (simp_all add: demo_clean_def keeps_basic)
  ultimately show ?thesis using cleaner_deletes_old_wal by blast
qed

end
