(* ===== verification/Config.thy ===== *)
theory Config
  imports Retention
begin

section \<open>The configuration (config/config.go)\<close>

subsection \<open>Durations and placeholders (package time, package os)\<close>

text \<open>
  \<open>time.ParseDuration\<close>, in nanoseconds.  The product of a fraction with its unit is computed in floating
  point; it is the parameter \<open>frac\<close> (the fraction's digits, the unit, the power of ten).
\<close>

definition is_digit :: "char \<Rightarrow> bool" where [go_defs]:
  "is_digit c = (48 \<le> (of_char c :: nat) \<and> (of_char c :: nat) \<le> 57)"

fun leadingInt :: "nat \<Rightarrow> string \<Rightarrow> (nat \<times> string) option" where
  "leadingInt x [] = Some (x, [])"
| "leadingInt x (c # s) =
     (if \<not> is_digit c then Some (x, c # s)
      else if x > 2 ^ 63 div 10 then None
      else let x = x * 10 + (of_char c - 48) in if x > 2 ^ 63 then None else leadingInt x s)"

fun leadingFraction :: "nat \<Rightarrow> nat \<Rightarrow> bool \<Rightarrow> string \<Rightarrow> nat \<times> nat \<times> string" where
  "leadingFraction x scale over [] = (x, scale, [])"
| "leadingFraction x scale over (c # s) =
     (if \<not> is_digit c then (x, scale, c # s)
      else if over then leadingFraction x scale over s
      else if x > (2 ^ 63 - 1) div 10 then leadingFraction x scale True s
      else let y = x * 10 + (of_char c - 48) in
           if y > 2 ^ 63 then leadingFraction x scale True s else leadingFraction y (scale * 10) over s)"

definition duration_unit :: "string \<Rightarrow> nat option" where
  "duration_unit u =
     (if u = ''ns'' then Some 1
      else if u = ''us'' \<or> u = [CHR 0xC2, CHR 0xB5, CHR ''s''] \<or> u = [CHR 0xCE, CHR 0xBC, CHR ''s''] then Some 1000
      else if u = ''ms'' then Some 1000000
      else if u = ''s'' then Some 1000000000
      else if u = ''m'' then Some 60000000000
      else if u = ''h'' then Some 3600000000000
      else None)"

text \<open>One number with its unit: its nanoseconds and the rest.\<close>

definition duration_part :: "(nat \<Rightarrow> nat \<Rightarrow> nat \<Rightarrow> nat) \<Rightarrow> string \<Rightarrow> (nat \<times> string) option" where
  "duration_part frac s =
     (if s = [] \<or> \<not> (hd s = CHR ''.'' \<or> is_digit (hd s)) then None
      else case leadingInt 0 s of
          None \<Rightarrow> None
        | Some (v, s1) \<Rightarrow>
            let pre = (length s1 \<noteq> length s);
                dot = (s1 \<noteq> [] \<and> hd s1 = CHR ''.'');
                (f, scale, s2) = (if dot then leadingFraction 0 1 False (tl s1) else (0, 1, s1));
                post = (dot \<and> length s2 \<noteq> length (tl s1));
                u = takeWhile (\<lambda>c. \<not> (c = CHR ''.'' \<or> is_digit c)) s2;
                rest = dropWhile (\<lambda>c. \<not> (c = CHR ''.'' \<or> is_digit c)) s2
            in if \<not> pre \<and> \<not> post then None
               else case duration_unit u of
                   None \<Rightarrow> None
                 | Some unt \<Rightarrow>
                     if v > 2 ^ 63 div unt then None
                     else let w = v * unt + (if f > 0 then frac f unt scale else 0)
                          in if w > 2 ^ 63 then None else Some (w, rest))"

lemma leadingInt_length: "leadingInt x s = Some (y, t) \<Longrightarrow> length t \<le> length s"
  by (induction x s rule: leadingInt.induct) (auto simp: Let_def split: if_splits)

lemma leadingFraction_length: "leadingFraction x sc b s = (y, z, t) \<Longrightarrow> length t \<le> length s"
proof (induction s arbitrary: x sc b)
  case (Cons c s)
  then have "t = c # s \<or> (\<exists>x' sc' b'. leadingFraction x' sc' b' s = (y, z, t))"
    by (auto simp: Let_def split: if_splits)
  with Cons.IH show ?case by force
qed simp

lemma duration_part_length:
  assumes "duration_part frac s = Some (w, t)"
  shows "length t < length s"
proof -
  obtain v s1 where v: "leadingInt 0 s = Some (v, s1)" using assms by (auto simp: duration_part_def split: if_splits option.splits)
  have l1: "length s1 \<le> length s" using leadingInt_length [OF v] .
  define dot where "dot = (s1 \<noteq> [] \<and> hd s1 = CHR ''.'')"
  obtain f sc s2 where f: "(if dot then leadingFraction 0 1 False (tl s1) else (0, 1, s1)) = (f, sc, s2)" by (metis prod_cases3)
  have l2: "length s2 \<le> length s1" using f leadingFraction_length [of 0 1 False "tl s1" f sc s2] by (auto split: if_splits)
  let ?p = "\<lambda>c. \<not> (c = CHR ''.'' \<or> is_digit c)"
  have "duration_unit (takeWhile ?p s2) \<noteq> None" and t: "t = dropWhile ?p s2"
    using assms v f by (auto simp: duration_part_def Let_def dot_def split: if_splits option.splits prod.splits)
  then have "takeWhile ?p s2 \<noteq> []" by (auto simp: duration_unit_def split: if_splits)
  then have "length (dropWhile ?p s2) < length s2"
    using takeWhile_dropWhile_id [of ?p s2] by (metis length_append length_greater_0_conv less_add_same_cancel2)
  with l1 l2 t show ?thesis by simp
qed

function duration_parts :: "(nat \<Rightarrow> nat \<Rightarrow> nat \<Rightarrow> nat) \<Rightarrow> nat \<Rightarrow> string \<Rightarrow> nat option" where
  "duration_parts frac d s =
     (if s = [] then Some d
      else case duration_part frac s of
          None \<Rightarrow> None
        | Some (w, rest) \<Rightarrow> if d + w > 2 ^ 63 then None else duration_parts frac (d + w) rest)"
  by pat_completeness auto
termination by (relation "measure (\<lambda>(frac, d, s). length s)") (auto simp: duration_part_length)

declare duration_parts.simps [simp del]

definition ParseDuration :: "(nat \<Rightarrow> nat \<Rightarrow> nat \<Rightarrow> nat) \<Rightarrow> string \<Rightarrow> gerr + int" where
  "ParseDuration frac s =
     (let neg = (s \<noteq> [] \<and> hd s = CHR ''-'');
          s = (if s \<noteq> [] \<and> (hd s = CHR ''-'' \<or> hd s = CHR ''+'') then tl s else s)
      in if s = ''0'' then Inr 0
         else if s = [] then Inl (EMsg ''time: invalid duration'')
         else case duration_parts frac 0 s of
             None \<Rightarrow> Inl (EMsg ''time: invalid duration'')
           | Some d \<Rightarrow>
               if neg then Inr (- int d)
               else if d > 2 ^ 63 - 1 then Inl (EMsg ''time: invalid duration'') else Inr (int d))"

lemma ParseDuration_max: "ParseDuration frac s = Inr d \<Longrightarrow> d < 2 ^ 63"
  by (auto simp: ParseDuration_def Let_def split: if_splits option.splits)

text \<open>\<open>os.Expand\<close>: a name after a dollar sign and the number of bytes it takes.\<close>

definition isShellSpecialVar :: "char \<Rightarrow> bool" where [go_defs]:
  "isShellSpecialVar c = (c \<in> set ''*#$@!?-'' \<or> is_digit c)"

definition isAlphaNum :: "char \<Rightarrow> bool" where [go_defs]:
  "isAlphaNum c = (c = CHR ''_'' \<or> is_digit c \<or> lower_char c \<noteq> c \<or> upper_char c \<noteq> c)"

definition getShellName :: "string \<Rightarrow> string \<times> nat" where [go_defs]:
  "getShellName s =
     (if hd s = CHR ''{'' then
        (if 2 < length s \<and> isShellSpecialVar (s ! 1) \<and> s ! 2 = CHR ''}'' then ([s ! 1], 3)
         else let name = takeWhile (\<lambda>c. c \<noteq> CHR ''}'') (tl s) in
              if length name = length (tl s) then ('''', 1)
              else if name = '''' then ('''', 2) else (name, length name + 2))
      else if isShellSpecialVar (hd s) then ([hd s], 1)
      else let name = takeWhile isAlphaNum s in (name, length name))"

function os_Expand :: "(string \<Rightarrow> string) \<Rightarrow> string \<Rightarrow> string" where
  "os_Expand mapping [] = []"
| "os_Expand mapping (c # cs) =
     (if c = CHR ''$'' \<and> cs \<noteq> [] then
        (case getShellName cs of (name, w) \<Rightarrow>
           (if name = '''' then (if w > 0 then '''' else [c]) else mapping name) @ os_Expand mapping (drop w cs))
      else c # os_Expand mapping cs)"
  by pat_completeness auto
termination by (relation "measure (\<lambda>(mapping, s). length s)") auto

definition expandEnvsWithPrefix :: "(string \<Rightarrow> string) \<Rightarrow> string \<Rightarrow> string \<Rightarrow> string" where
  "expandEnvsWithPrefix getenv input pfx =
     os_Expand (\<lambda>key. if has_prefix key pfx then getenv key else ''${'' @ key @ ''}'') input"

definition expand :: "(string \<Rightarrow> string) \<Rightarrow> bytes \<Rightarrow> bytes" where
  "expand getenv d = expandEnvsWithPrefix getenv d ''PGRWL_''"

subsection \<open>The configuration\<close>

definition ModeReceive :: string where "ModeReceive = ''receive''"
definition ModeServe :: string where "ModeServe = ''serve''"
definition ModeBackupCMD :: string where "ModeBackupCMD = ''backup-cmd''"
definition ModeRestoreCMD :: string where "ModeRestoreCMD = ''restore''"
definition StorageNameS3 :: string where "StorageNameS3 = ''s3''"
definition StorageNameSFTP :: string where "StorageNameSFTP = ''sftp''"
definition StorageNameLocalFS :: string where "StorageNameLocalFS = ''local''"
definition LocalFSStorageSubpath :: string where "LocalFSStorageSubpath = ''wal-archive''"
definition BaseBackupSubpath :: string where "BaseBackupSubpath = ''backups''"
definition RepoEncryptorAes256Gcm :: string where "RepoEncryptorAes256Gcm = ''aes-256-gcm''"
definition RepoCompressorGzip :: string where "RepoCompressorGzip = ''gzip''"
definition RepoCompressorZstd :: string where "RepoCompressorZstd = ''zstd''"

definition modes :: "string list" where
  "modes = [ModeBackupCMD, ModeRestoreCMD, ModeReceive, ModeServe]"

text \<open>Sections of one field (metrics, compression, pprof, backup) are that field.\<close>

record MainConfig =
  mn_ListenPort :: int
  mn_Directory :: string

record UploadConfig =
  up_SyncInterval :: string
  up_SyncIntervalParsed :: int
  up_MaxConcurrency :: int

record ReceiveConfig =
  rv_Slot :: string
  rv_NoLoop :: bool
  rv_Uploader :: UploadConfig

record RetentionConfig =
  rt_Enable :: bool
  rt_Type :: string
  rt_Value :: string
  rt_KeepDurationParsed :: int
  rt_KeepLast :: "int option"

record LogConfig =
  lg_Level :: string
  lg_Format :: string
  lg_AddSource :: bool

record EncryptionConfig =
  en_Algo :: string
  en_Pass :: string

record SFTPConfig =
  sf_Host :: string
  sf_Port :: int
  sf_User :: string
  sf_Pass :: string
  sf_PKeyPath :: string
  sf_PKeyPass :: string
  sf_BaseDir :: string

record S3Config =
  s3_URL :: string
  s3_AccessKeyID :: string
  s3_SecretAccessKey :: string
  s3_Bucket :: string
  s3_Region :: string
  s3_UsePathStyle :: bool
  s3_DisableSSL :: bool

record StorageConfig =
  sg_Name :: string
  sg_CompressionAlgo :: string
  sg_Encryption :: EncryptionConfig
  sg_SFTP :: SFTPConfig
  sg_S3 :: S3Config

record Config =
  cf_Main :: MainConfig
  cf_Receiver :: ReceiveConfig
  cf_MetricsEnable :: bool
  cf_Log :: LogConfig
  cf_Storage :: StorageConfig
  cf_PprofEnable :: bool
  cf_BackupCron :: string
  cf_Retention :: RetentionConfig

definition IsLocalStor :: "Config \<Rightarrow> bool" where
  "IsLocalStor c = (equal_fold (sg_Name (cf_Storage c)) StorageNameLocalFS \<or> trim_space (sg_Name (cf_Storage c)) = '''')"

definition IsExternalStor :: "Config \<Rightarrow> bool" where
  "IsExternalStor c = (\<not> IsLocalStor c)"

text \<open>The copy that is logged.\<close>

definition redact :: "string \<Rightarrow> string" where
  "redact s = (if s \<noteq> '''' then ''[REDACTED]'' else s)"

definition redacted :: "Config \<Rightarrow> Config" where
  "redacted c =
     (let st = cf_Storage c in
      c\<lparr>cf_Storage := st\<lparr>sg_Encryption := (sg_Encryption st)\<lparr>en_Pass := redact (en_Pass (sg_Encryption st))\<rparr>,
          sg_SFTP := (sg_SFTP st)\<lparr>sf_Pass := redact (sf_Pass (sg_SFTP st)), sf_PKeyPass := redact (sf_PKeyPass (sg_SFTP st))\<rparr>,
          sg_S3 := (sg_S3 st)\<lparr>s3_SecretAccessKey := redact (s3_SecretAccessKey (sg_S3 st))\<rparr>\<rparr>\<rparr>)"

definition zero_Config :: Config where
  "zero_Config = \<lparr>cf_Main = \<lparr>mn_ListenPort = 0, mn_Directory = ''''\<rparr>,
     cf_Receiver = \<lparr>rv_Slot = '''', rv_NoLoop = False, rv_Uploader = \<lparr>up_SyncInterval = '''', up_SyncIntervalParsed = 0, up_MaxConcurrency = 0\<rparr>\<rparr>,
     cf_MetricsEnable = False, cf_Log = \<lparr>lg_Level = '''', lg_Format = '''', lg_AddSource = False\<rparr>,
     cf_Storage = \<lparr>sg_Name = '''', sg_CompressionAlgo = '''', sg_Encryption = \<lparr>en_Algo = '''', en_Pass = ''''\<rparr>,
       sg_SFTP = \<lparr>sf_Host = '''', sf_Port = 0, sf_User = '''', sf_Pass = '''', sf_PKeyPath = '''', sf_PKeyPass = '''', sf_BaseDir = ''''\<rparr>,
       sg_S3 = \<lparr>s3_URL = '''', s3_AccessKeyID = '''', s3_SecretAccessKey = '''', s3_Bucket = '''', s3_Region = '''',
         s3_UsePathStyle = False, s3_DisableSSL = False\<rparr>\<rparr>,
     cf_PprofEnable = False, cf_BackupCron = '''',
     cf_Retention = \<lparr>rt_Enable = False, rt_Type = '''', rt_Value = '''', rt_KeepDurationParsed = 0, rt_KeepLast = None\<rparr>\<rparr>"

definition RedactedCopy :: "Config option \<Rightarrow> Config" where
  "RedactedCopy config = (case config of None \<Rightarrow> zero_Config | Some c \<Rightarrow> redacted c)"

subsection \<open>Validation\<close>

text \<open>Every check adds its complaints, of which the fixed part of the text is kept; some write a parsed value into
  the configuration.\<close>

type_synonym check = "Config \<times> string list \<Rightarrow> Config \<times> string list"

definition complain :: "bool \<Rightarrow> string \<Rightarrow> string list \<Rightarrow> string list" where
  "complain b msg errs = (if b then errs @ [msg] else errs)"

fun in_modes :: "string \<Rightarrow> string list \<Rightarrow> bool" where
  "in_modes mode [] = False"
| "in_modes mode (m # ms) = (if equal_fold m mode then True else in_modes mode ms)"

definition checkMode :: "string \<Rightarrow> string list \<Rightarrow> string list" where
  "checkMode mode errs = complain (\<not> in_modes mode modes) ''invalid mode'' errs"

definition checkMainConfig :: "Config \<Rightarrow> string list \<Rightarrow> string list" where
  "checkMainConfig c errs =
     complain (trim_space (mn_Directory (cf_Main c)) = '''') ''main.directory is required''
       (complain (mn_ListenPort (cf_Main c) = 0) ''main.listen_port is required'' errs)"

definition checkReceiverConfig :: "(nat \<Rightarrow> nat \<Rightarrow> nat \<Rightarrow> nat) \<Rightarrow> string \<Rightarrow> check" where
  "checkReceiverConfig frac mode = (\<lambda>(c, errs).
     if mode = ModeReceive then
       let errs = complain (trim_space (rv_Slot (cf_Receiver c)) = '''') ''receiver.slot is required in receive mode'' errs
       in if IsExternalStor c \<or> sg_CompressionAlgo (cf_Storage c) \<noteq> '''' \<or> en_Algo (sg_Encryption (cf_Storage c)) \<noteq> '''' then
            let rv = cf_Receiver c;
                (c, errs) =
                  (case ParseDuration frac (up_SyncInterval (rv_Uploader rv)) of
                     Inl e \<Rightarrow> (c, errs @ [''receiver.uploader.sync_interval cannot parse''])
                   | Inr duration \<Rightarrow>
                       (c\<lparr>cf_Receiver := rv\<lparr>rv_Uploader := (rv_Uploader rv)\<lparr>up_SyncIntervalParsed := duration\<rparr>\<rparr>\<rparr>, errs))
            in (c, complain (up_MaxConcurrency (rv_Uploader (cf_Receiver c)) \<le> 0)
                     ''receiver.uploader.max_concurrency must be > 0 if uploader is configured'' errs)
          else (c, errs)
     else (c, errs))"

definition checkStorageModifiersConfig :: "Config \<Rightarrow> string list \<Rightarrow> string list" where
  "checkStorageModifiersConfig c errs =
     (let com = sg_CompressionAlgo (cf_Storage c); enc = sg_Encryption (cf_Storage c);
          errs = complain (com \<noteq> '''' \<and> com \<noteq> RepoCompressorGzip \<and> com \<noteq> RepoCompressorZstd) ''unsupported compression algo'' errs
      in if en_Algo enc \<noteq> '''' then
           complain (en_Pass enc = '''') ''storage.encryption.pass is required if encryption is enabled''
             (complain (en_Algo enc \<noteq> RepoEncryptorAes256Gcm) ''unsupported encryption algo'' errs)
         else errs)"

definition checkBackupConfig :: "Config \<Rightarrow> string list \<Rightarrow> string list" where
  "checkBackupConfig c errs = complain (trim_space (cf_BackupCron c) = '''') ''backup.cron is required'' errs"

definition checkS3 :: "S3Config \<Rightarrow> string list \<Rightarrow> string list" where
  "checkS3 s3 errs =
     complain (s3_Region s3 = '''') ''storage.s3.region is required for s3 storage''
       (complain (s3_Bucket s3 = '''') ''storage.s3.bucket is required for s3 storage''
         (complain (s3_SecretAccessKey s3 = '''') ''storage.s3.secret_access_key is required for s3 storage''
           (complain (s3_AccessKeyID s3 = '''') ''storage.s3.access_key_id is required for s3 storage''
             (complain (s3_URL s3 = '''') ''storage.s3.url is required for s3 storage'' errs))))"

definition checkSFTP :: "SFTPConfig \<Rightarrow> string list \<Rightarrow> string list" where
  "checkSFTP sf errs =
     complain (sf_BaseDir sf = '''') ''storage.sftp.base_dir is required for sftp storage''
       (complain (sf_Pass sf = '''' \<and> sf_PKeyPath sf = '''') ''either storage.sftp.pass or storage.sftp.pkey_path must be provided for sftp storage''
         (complain (sf_User sf = '''') ''storage.sftp.user is required for sftp storage''
           (complain (sf_Port sf = 0) ''storage.sftp.port is required for sftp storage''
             (complain (sf_Host sf = '''') ''storage.sftp.host is required for sftp storage'' errs))))"

definition checkStorageConfig :: "Config \<Rightarrow> string list \<Rightarrow> string list" where
  "checkStorageConfig c errs =
     (let name = sg_Name (cf_Storage c) in
      if name = '''' \<or> name = StorageNameLocalFS then errs
      else if name = StorageNameS3 then checkS3 (sg_S3 (cf_Storage c)) errs
      else if name = StorageNameSFTP then checkSFTP (sg_SFTP (cf_Storage c)) errs
      else errs @ [''unknown storage.name''])"

definition checkRetentionConfig :: "(nat \<Rightarrow> nat \<Rightarrow> nat \<Rightarrow> nat) \<Rightarrow> check" where
  "checkRetentionConfig frac = (\<lambda>(c, errs).
     if \<not> rt_Enable (cf_Retention c) then (c, errs)
     else
       let rt = cf_Retention c;
           rt = (if rt_Type rt = '''' then rt\<lparr>rt_Type := RetentionTypeRecoveryWindow\<rparr> else rt)
       in if rt_Type rt \<noteq> RetentionTypeRecoveryWindow then
            (c\<lparr>cf_Retention := rt\<rparr>, errs @ [''backup.retention.type: only recovery_window is supported now''])
          else
            let (rt, errs) =
                  (case ParseDuration frac (rt_Value rt) of
                     Inl e \<Rightarrow> (rt, errs @ [''backup.retention.value cannot parse recovery window duration''])
                   | Inr recoveryWindow \<Rightarrow>
                       if recoveryWindow \<le> 0 then (rt, errs @ [''backup.retention.value cannot parse recovery window duration''])
                       else (rt\<lparr>rt_KeepDurationParsed := recoveryWindow\<rparr>, errs))
            in (c\<lparr>cf_Retention := rt\<rparr>,
                complain (case rt_KeepLast rt of Some k \<Rightarrow> k \<le> 0 | None \<Rightarrow> False)
                  ''backup.retention.keep_last must be greater than zero'' errs))"

definition checkLogConfig :: "Config \<Rightarrow> string list \<Rightarrow> string list" where
  "checkLogConfig c errs =
     (let lg = cf_Log c in
      complain (lg_Format lg \<noteq> '''' \<and> lg_Format lg \<noteq> ''text'' \<and> lg_Format lg \<noteq> ''pretty'' \<and> lg_Format lg \<noteq> ''json'')
        ''log.format must be text or json''
        (complain (lg_Level lg \<noteq> '''' \<and> to_lower (lg_Level lg) \<notin> set [''trace'', ''debug'', ''info'', ''warn'', ''error''])
          ''log.level must be one of: trace/debug/info/warn/error'' errs))"

definition validate :: "(nat \<Rightarrow> nat \<Rightarrow> nat \<Rightarrow> nat) \<Rightarrow> Config \<Rightarrow> string \<Rightarrow> gerr option \<times> Config" where
  "validate frac c mode =
     (if trim_space mode = '''' then (Some (EMsg ''config.validate: mode is required''), c)
      else
        let errs = checkMainConfig c (checkMode mode []);
            (c, errs) = checkRetentionConfig frac (checkReceiverConfig frac mode (c, errs));
            errs = checkBackupConfig c (checkStorageModifiersConfig c (checkStorageConfig c (checkLogConfig c errs)))
        in (if errs \<noteq> [] then Some (EMsg (''invalid config: '' @ join_with ''; '' errs)) else None, c))"

subsection \<open>Loading, once\<close>

record cfg_globals =
  g_once :: bool
  g_cfgErr :: "gerr option"
  g_config :: "Config option"
  g_Verbose :: bool

record cfg_env =
  ce_ReadFile :: "string \<Rightarrow> gerr + bytes"
  ce_Getenv :: "string \<Rightarrow> string"
  ce_json :: "bytes \<Rightarrow> gerr + Config"
  ce_yaml :: "bytes \<Rightarrow> gerr + Config"
  ce_process :: "gerr option \<times> Config"
  ce_frac :: "nat \<Rightarrow> nat \<Rightarrow> nat \<Rightarrow> nat"

definition mustLoadCfg :: "cfg_env \<Rightarrow> string \<Rightarrow> gerr + Config" where
  "mustLoadCfg ce path =
     (case ce_ReadFile ce path of
        Inl e \<Rightarrow> Inl e
      | Inr configData \<Rightarrow>
          let ext = filepath_Ext path in
          if ext = ''.json'' then ce_json ce (expand (ce_Getenv ce) configData)
          else if ext = ''.yml'' \<or> ext = ''.yaml'' then ce_yaml ce (expand (ce_Getenv ce) configData)
          else Inl (EMsg ''unexpected config-file extension''))"

definition Cfg :: "cfg_globals \<Rightarrow> gerr + Config" where
  "Cfg g = (case g_config g of None \<Rightarrow> Inl (EMsg ''config was not loaded in main'') | Some c \<Rightarrow> Inr c)"

definition cfg_result :: "cfg_globals \<Rightarrow> (gerr + Config option) \<times> cfg_globals" where
  "cfg_result g = ((case g_cfgErr g of Some e \<Rightarrow> Inl e | None \<Rightarrow> Inr (g_config g)), g)"

definition FromFile :: "cfg_env \<Rightarrow> string \<Rightarrow> string \<Rightarrow> cfg_globals \<Rightarrow> (gerr + Config option) \<times> cfg_globals" where
  "FromFile ce path mode g = cfg_result
     (if g_once g then g
      else
        let g = g\<lparr>g_once := True\<rparr> in
        case mustLoadCfg ce path of
          Inl e \<Rightarrow> g\<lparr>g_cfgErr := Some e\<rparr>
        | Inr cfg \<Rightarrow>
            (case validate (ce_frac ce) cfg mode of
               (Some e, cfg) \<Rightarrow> g\<lparr>g_cfgErr := Some e\<rparr>
             | (None, cfg) \<Rightarrow> g\<lparr>g_cfgErr := None, g_Verbose := equal_fold (lg_Level (cf_Log cfg)) ''trace'', g_config := Some cfg\<rparr>))"

definition FromEnvs :: "cfg_env \<Rightarrow> string \<Rightarrow> cfg_globals \<Rightarrow> (gerr + Config option) \<times> cfg_globals" where
  "FromEnvs ce mode g = cfg_result
     (if g_once g then g
      else
        let g = g\<lparr>g_once := True\<rparr> in
        case ce_process ce of
          (Some e, cfg) \<Rightarrow> g\<lparr>g_config := Some cfg, g_cfgErr := Some e\<rparr>
        | (None, cfg) \<Rightarrow>
            (case validate (ce_frac ce) cfg mode of
               (Some e, cfg) \<Rightarrow> g\<lparr>g_config := Some cfg, g_cfgErr := Some e\<rparr>
             | (None, cfg) \<Rightarrow> g\<lparr>g_config := Some cfg, g_cfgErr := None, g_Verbose := equal_fold (lg_Level (cf_Log cfg)) ''trace''\<rparr>))"

end
