(* ===== verification/S3.thy ===== *)
theory S3
  imports Storage GoConv "HOL-Library.Signed_Division"
begin

section \<open>The S3 backend (internal/opt/shared/storecrypt: s3.go, s3util.go, s3multipart.go)\<close>

text \<open>
  The client of the AWS library is a record of computations.  A paginator is the pages it delivers and the
  error it ends with, if any.  Whether a reader is a file, of what size, and whether seeking to its start
  works, is a function of the reader (\<open>s3_asFile\<close>); a file is handed over at its start.
\<close>

subsection \<open>Sizes and keys (s3util.go)\<close>

definition MinS3PartSize :: "64 word" where "MinS3PartSize = 5 * 1024 * 1024"
definition MaxS3PartSize :: "64 word" where "MaxS3PartSize = 5 * 1024 * 1024 * 1024"
definition DefaultS3PartSize :: "64 word" where "DefaultS3PartSize = 16 * 1024 * 1024"
definition DefaultS3Conc :: int where "DefaultS3Conc = 2"
definition MaxS3Conc :: int where "MaxS3Conc = 16"
definition MaxS3UploadParts :: "64 word" where "MaxS3UploadParts = 10000"
definition MultipartDefaultPartSizeBytes :: "64 word" where "MultipartDefaultPartSizeBytes = 256 * 1024 * 1024"

definition normalizeS3PartSize :: "64 word \<Rightarrow> 64 word" where
  "normalizeS3PartSize partSize =
     (if partSize \<le>s 0 then DefaultS3PartSize
      else if partSize <s MinS3PartSize then MinS3PartSize
      else if MaxS3PartSize <s partSize then MaxS3PartSize
      else partSize)"

definition normalizeConcurrency :: "int \<Rightarrow> int" where
  "normalizeConcurrency c = (if c \<le> 0 then DefaultS3Conc else if c > MaxS3Conc then MaxS3Conc else c)"

definition cleanS3Prefix :: "string \<Rightarrow> string" where
  "cleanS3Prefix pfx =
     (let pfx = trim_char (CHR ''/'') pfx
      in if pfx = '''' \<or> pfx = ''.'' then '''' else filepath_Clean pfx)"

definition joinS3Key :: "string \<Rightarrow> string \<Rightarrow> string" where
  "joinS3Key pfx name =
     (let name = trim_prefix name ''/'' in
      if name = '''' \<or> name = ''.'' then pfx
      else if pfx = '''' then (let clean = filepath_Clean name in if clean = ''.'' then '''' else clean)
      else filepath_Join [pfx, name])"

definition endsWithSlash :: "string \<Rightarrow> bool" where
  "endsWithSlash s = (s \<noteq> '''' \<and> last s = CHR ''/'')"

definition s3DirPrefix :: "string \<Rightarrow> string" where
  "s3DirPrefix key = (if key = '''' then '''' else if \<not> endsWithSlash key then key @ ''/'' else key)"

text \<open>Go's division of \<open>int64\<close> truncates; \<open>%\<close> has the sign of the dividend.\<close>

definition quot64 :: "64 word \<Rightarrow> 64 word \<Rightarrow> 64 word" where
  "quot64 a b = word_of_int (sint a sdiv sint b)"

definition rem64 :: "64 word \<Rightarrow> 64 word \<Rightarrow> 64 word" where
  "rem64 a b = word_of_int (sint a smod sint b)"

definition chooseUploadPartSize :: "64 word \<Rightarrow> 64 word" where
  "chooseUploadPartSize sz =
     (if sz \<le>s 0 then DefaultS3PartSize
      else
        let partSize = quot64 (sz + MaxS3UploadParts - 1) MaxS3UploadParts;
            partSize = (if partSize <s MinS3PartSize then MinS3PartSize else partSize);
            mib = 1024 * 1024;
            rm = rem64 partSize mib;
            partSize = (if rm \<noteq> 0 then partSize + (mib - rm) else partSize)
        in normalizeS3PartSize partSize)"

subsection \<open>The client\<close>

record s3_object =
  o_Key :: string
  o_LastModified :: int
  o_Size :: int

record s3_page =
  pg_Contents :: "s3_object list"
  pg_CommonPrefixes :: "string option list"

type_synonym s3_version = "string \<times> string"

record s3_version_page =
  pg_Versions :: "s3_version list"
  pg_DeleteMarkers :: "s3_version list"

datatype s3_error = S3NotFound | S3Other gerr

record 's s3_client =
  c_UploadObject :: "string \<Rightarrow> string \<Rightarrow> 64 word \<Rightarrow> int \<Rightarrow> io_reader \<Rightarrow> ('s, unit) m"
  c_CreateMultipartUpload :: "string \<Rightarrow> string \<Rightarrow> ('s, string) m"
  c_UploadPart :: "string \<Rightarrow> string \<Rightarrow> string \<Rightarrow> 32 word \<Rightarrow> bytes \<Rightarrow> ('s, string) m"
  c_CompleteMultipartUpload :: "string \<Rightarrow> string \<Rightarrow> string \<Rightarrow> (string \<times> 32 word) list \<Rightarrow> ('s, unit) m"
  c_AbortMultipartUpload :: "string \<Rightarrow> string \<Rightarrow> string \<Rightarrow> ('s, unit) m"
  c_PutObject :: "string \<Rightarrow> string \<Rightarrow> bytes \<Rightarrow> ('s, unit) m"
  c_GetObject :: "string \<Rightarrow> string \<Rightarrow> ('s, io_reader) m"
  c_ListObjectsV2 :: "string \<Rightarrow> string option \<Rightarrow> string \<Rightarrow> ('s, s3_page list \<times> gerr option) m"
  c_ListObjectVersions :: "string \<Rightarrow> string \<Rightarrow> ('s, s3_version_page list \<times> gerr option) m"
  c_DeleteObject :: "string \<Rightarrow> string \<Rightarrow> ('s, unit) m"
  c_DeleteObjects :: "string \<Rightarrow> s3_version list \<Rightarrow> ('s, unit) m"
  c_HeadObject :: "string \<Rightarrow> string \<Rightarrow> ('s, s3_error option) m"
  c_CopyObject :: "string \<Rightarrow> string \<Rightarrow> string \<Rightarrow> ('s, unit) m"

record S3Options =
  so_PartSizeBytes :: "64 word"
  so_Concurrency :: int

record 's s3Storage =
  s3_client :: "'s s3_client"
  s3_bucket :: string
  s3_prefix :: string
  s3_streamPartSize :: "64 word"
  s3_concurrency :: int
  s3_asFile :: "io_reader \<Rightarrow> ((gerr + 64 word) \<times> gerr option) option"

definition NewS3StorageWithOptions ::
    "'s s3_client \<Rightarrow> (io_reader \<Rightarrow> ((gerr + 64 word) \<times> gerr option) option) \<Rightarrow> string \<Rightarrow> string \<Rightarrow> S3Options \<Rightarrow> 's s3Storage" where
  "NewS3StorageWithOptions client asFile bucket pfx opts =
     (let sps = so_PartSizeBytes opts;
          sps = (if sps \<le>s 0 then MultipartDefaultPartSizeBytes else sps)
      in \<lparr>s3_client = client, s3_bucket = bucket, s3_prefix = cleanS3Prefix pfx,
          s3_streamPartSize = normalizeS3PartSize sps,
          s3_concurrency = normalizeConcurrency (so_Concurrency opts), s3_asFile = asFile\<rparr>)"

definition NewS3Storage ::
    "'s s3_client \<Rightarrow> (io_reader \<Rightarrow> ((gerr + 64 word) \<times> gerr option) option) \<Rightarrow> string \<Rightarrow> string \<Rightarrow> 's s3Storage" where
  "NewS3Storage client asFile bucket pfx =
     NewS3StorageWithOptions client asFile bucket pfx \<lparr>so_PartSizeBytes = 0, so_Concurrency = 0\<rparr>"

definition s3_fullPath :: "'s s3Storage \<Rightarrow> string \<Rightarrow> string" where
  "s3_fullPath s name = joinS3Key (s3_prefix s) name"

definition relativeKey :: "'s s3Storage \<Rightarrow> string \<Rightarrow> string" where
  "relativeKey s key =
     (let key = trim_prefix key ''/'' in
      if s3_prefix s = '''' then key
      else if key = s3_prefix s then ''''
      else let pfx = s3_prefix s @ ''/'' in if has_prefix key pfx then trim_prefix key pfx else key)"

subsection \<open>Multipart uploads (s3multipart.go)\<close>

definition abortMultipartUpload :: "'s s3Storage \<Rightarrow> string \<Rightarrow> string \<Rightarrow> ('s, unit) m" where
  "abortMultipartUpload s key uploadID =
     thenE (tryE (c_AbortMultipartUpload (s3_client s) (s3_bucket s) key uploadID)) (retE ())"

definition abortOnError :: "'s s3Storage \<Rightarrow> string \<Rightarrow> string \<Rightarrow> gerr \<Rightarrow> ('s, 'a) m" where
  "abortOnError s key uploadID cause = thenE (abortMultipartUpload s key uploadID) (throwE cause)"

definition upload_part :: "'s s3Storage \<Rightarrow> string \<Rightarrow> string \<Rightarrow> 32 word \<Rightarrow> (string \<times> 32 word) list \<Rightarrow> bytes \<Rightarrow>
    ('s, 32 word \<times> (string \<times> 32 word) list) m" where
  "upload_part s key uploadID partNumber completed d =
     (if MaxS3UploadParts <s scast partNumber then abortOnError s key uploadID (EMsg ''multipart upload exceeded parts'')
      else bindE (tryE (c_UploadPart (s3_client s) (s3_bucket s) key uploadID partNumber d)) (\<lambda>r.
        case r of
          Inl e \<Rightarrow> abortOnError s key uploadID (EWrap ''upload part'' e)
        | Inr etag \<Rightarrow> retE (partNumber + 1, completed @ [(etag, partNumber)])))"

text \<open>What the loop makes of the error of \<open>io.ReadFull\<close>: a full part, the last partial part, no more data, or a failure.\<close>

definition is_end :: "gerr option \<Rightarrow> bool" where
  "is_end err = (case err of None \<Rightarrow> False | Some e \<Rightarrow> errors_Is e EUnexpectedEOF \<or> errors_Is e EEOF)"

definition part_data :: "gerr option \<Rightarrow> bytes \<Rightarrow> bytes" where
  "part_data err d = (case err of None \<Rightarrow> d | Some e \<Rightarrow> if errors_Is e EUnexpectedEOF then d else [])"

lemma part_size_pos: "0 < unat (normalizeS3PartSize ps)"
  by (auto simp: normalizeS3PartSize_def DefaultS3PartSize_def MinS3PartSize_def MaxS3PartSize_def unat_gt_0)

function parts_loop :: "'s s3Storage \<Rightarrow> string \<Rightarrow> string \<Rightarrow> 64 word \<Rightarrow> 32 word \<Rightarrow> (string \<times> 32 word) list \<Rightarrow> io_reader \<Rightarrow>
    ('s, (string \<times> 32 word) list) m" where
  "parts_loop s key uploadID partSize partNumber completed r =
     (case io_ReadFull (unat (normalizeS3PartSize partSize)) r of ((d, err), r') \<Rightarrow>
        if err \<noteq> None \<and> \<not> is_end err then abortOnError s key uploadID (EWrap ''read source'' (the err))
        else
          bindE (if part_data err d \<noteq> [] then upload_part s key uploadID partNumber completed (part_data err d)
                 else retE (partNumber, completed)) (\<lambda>(partNumber, completed).
            if is_end err then retE completed
            else parts_loop s key uploadID partSize partNumber completed r'))"
  by pat_completeness auto
termination
proof (relation "measure (\<lambda>(s, key, uploadID, partSize, partNumber, completed, r). length (fst r))", goal_cases)
  case (2 s key uploadID partSize partNumber completed r p r' d err x y)
  then show ?case
    using part_size_pos [of partSize] by (cases r) (auto simp: io_ReadFull_def is_end_def split: if_splits)
qed simp

declare parts_loop.simps [simp del]

definition putMultipartStream :: "'s s3Storage \<Rightarrow> string \<Rightarrow> io_reader \<Rightarrow> 64 word \<Rightarrow> ('s, unit) m" where
  "putMultipartStream s key r partSize =
     bindE (wrapE ''create multipart upload'' (c_CreateMultipartUpload (s3_client s) (s3_bucket s) key)) (\<lambda>uploadID.
     bindE (parts_loop s key uploadID partSize 1 [] r) (\<lambda>completedParts.
       if completedParts = [] then
         thenE (abortMultipartUpload s key uploadID)
           (wrapE ''put empty object'' (c_PutObject (s3_client s) (s3_bucket s) key []))
       else
         bindE (tryE (c_CompleteMultipartUpload (s3_client s) (s3_bucket s) key uploadID completedParts)) (\<lambda>r.
           case r of
             Inl e \<Rightarrow> abortOnError s key uploadID (EWrap ''complete multipart upload'' e)
           | Inr _ \<Rightarrow> retE ())))"

subsection \<open>The operations (s3.go)\<close>

definition s3_Put :: "'s s3Storage \<Rightarrow> string \<Rightarrow> io_reader \<Rightarrow> ('s, unit) m" where
  "s3_Put s remotePath r =
     (let full = s3_fullPath s remotePath in
      case s3_asFile s r of
        Some (Inr sz, seekErr) \<Rightarrow>
          (case seekErr of
             Some e \<Rightarrow> throwE (EWrap ''seek file'' e)
           | None \<Rightarrow> wrapE ''s3 upload''
               (c_UploadObject (s3_client s) (s3_bucket s) full (normalizeS3PartSize (chooseUploadPartSize sz))
                  (normalizeConcurrency (s3_concurrency s)) r))
      | _ \<Rightarrow> putMultipartStream s full r (s3_streamPartSize s))"

definition s3_Get :: "'s s3Storage \<Rightarrow> string \<Rightarrow> ('s, io_reader) m" where
  "s3_Get s remotePath =
     wrapE ''failed to read object from S3'' (c_GetObject (s3_client s) (s3_bucket s) (s3_fullPath s remotePath))"

definition s3_List :: "'s s3Storage \<Rightarrow> string \<Rightarrow> ('s, FileInfo list) m" where
  "s3_List s remotePath =
     bindE (c_ListObjectsV2 (s3_client s) (s3_bucket s) None (s3DirPrefix (s3_fullPath s remotePath))) (\<lambda>(pages, err).
       case err of
         Some e \<Rightarrow> throwE (EWrap ''failed to get page'' e)
       | None \<Rightarrow> retE (map (\<lambda>obj. \<lparr>fi_Path = relativeKey s (o_Key obj), fi_ModTime = o_LastModified obj, fi_Size = o_Size obj\<rparr>)
           (concat (map pg_Contents pages))))"

definition s3_Delete :: "'s s3Storage \<Rightarrow> string \<Rightarrow> ('s, unit) m" where
  "s3_Delete s remotePath = c_DeleteObject (s3_client s) (s3_bucket s) (s3_fullPath s remotePath)"

function delete_batches :: "'s s3Storage \<Rightarrow> s3_version list \<Rightarrow> ('s, unit) m" where
  "delete_batches s vs =
     (if vs = [] then retE ()
      else thenE (wrapE ''delete versions'' (c_DeleteObjects (s3_client s) (s3_bucket s) (take 1000 vs)))
        (delete_batches s (drop 1000 vs)))"
  by pat_completeness auto
termination by (relation "measure (\<lambda>(s, vs). length vs)") auto

declare delete_batches.simps [simp del]

definition deleteAllVersions :: "'s s3Storage \<Rightarrow> string \<Rightarrow> ('s, unit) m" where
  "deleteAllVersions s remotePath =
     (let pfx = s3_fullPath s remotePath;
          pfx = (if pfx \<noteq> '''' \<and> \<not> endsWithSlash pfx then pfx @ ''/'' else pfx)
      in bindE (c_ListObjectVersions (s3_client s) (s3_bucket s) pfx) (\<lambda>(pages, err).
           case err of
             Some e \<Rightarrow> throwE (EWrap ''list object versions'' e)
           | None \<Rightarrow> delete_batches s (concat (map (\<lambda>page. pg_Versions page @ pg_DeleteMarkers page) pages))))"

definition s3_DeleteDir :: "'s s3Storage \<Rightarrow> string \<Rightarrow> ('s, unit) m" where
  "s3_DeleteDir s remotePath = thenE (deleteAllVersions s remotePath) (s3_Delete s remotePath)"

definition s3_Exists :: "'s s3Storage \<Rightarrow> string \<Rightarrow> ('s, bool) m" where
  "s3_Exists s remotePath =
     bindE (c_HeadObject (s3_client s) (s3_bucket s) (s3_fullPath s remotePath)) (\<lambda>err.
       case err of
         None \<Rightarrow> retE True
       | Some S3NotFound \<Rightarrow> retE False
       | Some (S3Other e) \<Rightarrow> throwE e)"

definition s3_ListTopLevelDirs :: "'s s3Storage \<Rightarrow> string \<Rightarrow> ('s, string list) m" where
  "s3_ListTopLevelDirs s pfx =
     (let remotePath = s3_fullPath s pfx;
          remotePath = (if \<not> endsWithSlash remotePath then remotePath @ ''/'' else remotePath)
      in bindE (c_ListObjectsV2 (s3_client s) (s3_bucket s) (Some ''/'') remotePath) (\<lambda>(pages, err).
           case err of
             Some e \<Rightarrow> throwE (EWrap ''failed to list objects in bucket'' e)
           | None \<Rightarrow> retE (remdups (map (\<lambda>p. relativeKey s (trim_suffix p ''/''))
               (List.map_filter id (concat (map pg_CommonPrefixes pages)))))))"

definition s3_Rename :: "'s s3Storage \<Rightarrow> string \<Rightarrow> string \<Rightarrow> ('s, unit) m" where
  "s3_Rename s oldRemotePath newRemotePath =
     (let srcKey = s3_fullPath s oldRemotePath;
          dstKey = s3_fullPath s newRemotePath
      in if srcKey = dstKey then retE ()
         else
           thenE (wrapE ''copy object'' (c_CopyObject (s3_client s) (s3_bucket s) (s3_bucket s @ ''/'' @ srcKey) dstKey))
             (wrapE ''delete source after copy'' (c_DeleteObject (s3_client s) (s3_bucket s) srcKey)))"

definition s3_storage :: "'s s3Storage \<Rightarrow> 's Storage" where
  "s3_storage s = \<lparr>st_Put = s3_Put s, st_Get = s3_Get s, st_List = s3_List s, st_Delete = s3_Delete s,
     st_DeleteDir = s3_DeleteDir s, st_Exists = s3_Exists s, st_ListTopLevelDirs = s3_ListTopLevelDirs s,
     st_Rename = s3_Rename s\<rparr>"

end
