(* ===== verification/LocalFS.thy ===== *)
theory LocalFS
  imports Storage FileTree
begin

section \<open>The local backend (internal/opt/shared/storecrypt/localfs.go)\<close>

text \<open>
  A backend in a directory of the file system.  The modification times of files are a parameter, since
  the world does not keep them.  \<open>os.Remove\<close>, \<open>os.RemoveAll\<close> and \<open>os.Rename\<close> are given here for paths
  that may also be directories.
\<close>

subsection \<open>The file system\<close>

text \<open>A file that is open for reading: its contents and a normal end, or an error after a prefix.\<close>

definition os_Open :: "string \<Rightarrow> ('a world_scheme, io_reader) m" where
  "os_Open p = failing (bindE (getE (\<lambda>s. (p \<in> set (w_dirs s), lookup s p, w_ino s))) (\<lambda>(d, r, ino).
     if d then retE ([], EISDIR)
     else case r of
         None \<Rightarrow> throwE ENotExist
       | Some i \<Rightarrow> bindE syscall (\<lambda>k. retE (case k of None \<Rightarrow> (i_data (ino i), EEOF)
                                             | Some n \<Rightarrow> (take n (i_data (ino i)), EOS n)))))"

fun copy_pieces :: "nat \<Rightarrow> nat \<Rightarrow> bytes list \<Rightarrow> ('a world_scheme, unit) m" where
  "copy_pieces f off [] = retE ()"
| "copy_pieces f off (p # ps) = thenE (bindE (f_WriteAt f p off) (\<lambda>n. retE ())) (copy_pieces f (off + length p) ps)"

text \<open>\<open>io.Copy(f, r)\<close> into a file just created.\<close>

definition copy_file :: "nat \<Rightarrow> io_reader \<Rightarrow> ('a world_scheme, unit) m" where
  "copy_file f = (\<lambda>(d, e).
     thenE (copy_pieces f 0 (pieces copyBufSize d)) (if e = EEOF then retE () else throwE e))"

definition dir_entries :: "string \<Rightarrow> 'a world_scheme \<Rightarrow> string list" where
  "dir_entries p s = filter (\<lambda>q. filepath_Dir q = p \<and> q \<noteq> p) (w_dirs s @ map fst (w_dir s))"

definition os_RemoveAny :: "string \<Rightarrow> ('a world_scheme, unit) m" where
  "os_RemoveAny p =
     bindE (getE (\<lambda>s. (p \<in> set (w_dirs s), dir_entries p s))) (\<lambda>(d, es).
       if \<not> d then os_Remove p
       else failing (if es \<noteq> [] then throwE ENOTEMPTY
                     else modE (\<lambda>s. s\<lparr>w_dirs := removeAll p (w_dirs s)\<rparr>)))"

text \<open>\<open>os.RemoveAll\<close>: the contents before the directories; the first error is returned, after removing what can
  be removed.\<close>

fun remove_each :: "gerr option \<Rightarrow> string list \<Rightarrow> ('a world_scheme, unit) m" where
  "remove_each err [] = (case err of None \<Rightarrow> retE () | Some e \<Rightarrow> throwE e)"
| "remove_each err (p # ps) =
     bindE (tryE (os_RemoveAny p)) (\<lambda>r.
       remove_each (case r of Inl e \<Rightarrow> if err = None \<and> e \<noteq> ENotExist then Some e else err | Inr _ \<Rightarrow> err) ps)"

definition os_RemoveAll :: "string \<Rightarrow> ('a world_scheme, unit) m" where
  "os_RemoveAll p = bindE (getE (tree_paths p)) (\<lambda>ps. remove_each None (rev ps))"

definition move_path :: "string \<Rightarrow> string \<Rightarrow> string \<Rightarrow> string" where
  "move_path p q x = (if in_tree p x then path_of (rooted q) (path_elems q @ drop (length (path_elems p)) (path_elems x)) else x)"

definition os_RenameAny :: "string \<Rightarrow> string \<Rightarrow> ('a world_scheme, unit) m" where
  "os_RenameAny p q =
     bindE (getE (\<lambda>s. (p \<in> set (w_dirs s), q \<in> set (w_dirs s), lookup s q, dir_entries q s))) (\<lambda>(dp, dq, fq, es).
       if \<not> dp then os_Rename p q
       else failing (if fq \<noteq> None \<or> in_tree p q then throwE (EMsg ''cannot rename directory'')
                     else if dq \<and> es \<noteq> [] then throwE ENOTEMPTY
                     else modE (\<lambda>s. s\<lparr>w_dirs := map (move_path p q) (removeAll q (w_dirs s)),
                                      w_dir := map (\<lambda>(x, i). (move_path p q x, i)) (w_dir s)\<rparr>)))"

text \<open>\<open>filepath.Rel\<close>.\<close>

fun common_prefix :: "string list \<Rightarrow> string list \<Rightarrow> nat" where
  "common_prefix (a # as) (b # bs) = (if a = b then Suc (common_prefix as bs) else 0)"
| "common_prefix _ _ = 0"

definition filepath_Rel :: "string \<Rightarrow> string \<Rightarrow> gerr + string" where
  "filepath_Rel base targ =
     (let b = path_elems base; t = path_elems targ; n = common_prefix b t; b' = drop n b; t' = drop n t in
      if rooted base \<noteq> rooted targ \<or> (b' \<noteq> [] \<and> hd b' = ''..'') then Inl (EMsg ''Rel: cannot make relative'')
      else let ws = replicate (length b') ''..'' @ t' in Inr (if ws = [] then ''.'' else join_with ''/'' ws))"

subsection \<open>The backend\<close>

record LocalStorageOpts =
  lo_BaseDir :: string
  lo_FsyncOnWrite :: bool

record localStorage =
  baseDir :: string
  fsyncOnWrite :: bool

definition NewLocal :: "LocalStorageOpts \<Rightarrow> ('a world_scheme, localStorage) m" where
  "NewLocal opts =
     (let bd = trim_suffix (lo_BaseDir opts) ''/'' in
      thenE (os_MkdirAll bd) (retE \<lparr>baseDir = bd, fsyncOnWrite = lo_FsyncOnWrite opts\<rparr>))"

definition fullPath :: "localStorage \<Rightarrow> string \<Rightarrow> string" where
  "fullPath l path = filepath_Join [baseDir l, filepath_Clean path]"

text \<open>After the file is created: copy, sync when asked to, close; on an error close without looking.\<close>

definition finish_file :: "localStorage \<Rightarrow> nat \<Rightarrow> ('a world_scheme, unit) m" where
  "finish_file l f =
     bindE (if fsyncOnWrite l then tryE (Fsync f) else retE (Inr ())) (\<lambda>y.
       case y of
         Inl e \<Rightarrow> thenE (tryE (f_Close f)) (throwE e)
       | Inr _ \<Rightarrow> f_Close f)"

definition fill_file :: "localStorage \<Rightarrow> io_reader \<Rightarrow> nat \<Rightarrow> ('a world_scheme, unit) m" where
  "fill_file l r f =
     bindE (tryE (copy_file f r)) (\<lambda>c.
       case c of
         Inl e \<Rightarrow> thenE (tryE (f_Close f)) (throwE e)
       | Inr _ \<Rightarrow> finish_file l f)"

definition local_Put :: "localStorage \<Rightarrow> string \<Rightarrow> io_reader \<Rightarrow> ('a world_scheme, unit) m" where
  "local_Put l remotePath r =
     (let full = fullPath l remotePath in
      thenE (os_MkdirAll (filepath_Dir full)) (bindE (os_Create full) (fill_file l r)))"

definition local_Get :: "localStorage \<Rightarrow> string \<Rightarrow> ('a world_scheme, io_reader) m" where
  "local_Get l remotePath = os_Open (fullPath l remotePath)"

definition list_entry :: "localStorage \<Rightarrow> (string \<Rightarrow> int) \<Rightarrow> string \<Rightarrow> gerr + bool \<Rightarrow> FileInfo list \<Rightarrow> ('a world_scheme, FileInfo list) m" where
  "list_entry l modTime path d result =
     (case d of
        Inl e \<Rightarrow> throwE (wrap_err ''error accessing path'' e)
      | Inr True \<Rightarrow> retE result
      | Inr False \<Rightarrow>
          bindE (liftE (filepath_Rel (baseDir l) path)) (\<lambda>rel.
          bindE (os_Stat path) (\<lambda>(regular, sz).
            retE (result @ [\<lparr>fi_Path = rel, fi_ModTime = modTime path, fi_Size = sint sz\<rparr>]))))"

definition local_List :: "localStorage \<Rightarrow> (string \<Rightarrow> int) \<Rightarrow> string \<Rightarrow> ('a world_scheme, FileInfo list) m" where
  "local_List l modTime remotePath = filepath_WalkDir (fullPath l remotePath) (list_entry l modTime) []"

definition local_Delete :: "localStorage \<Rightarrow> string \<Rightarrow> ('a world_scheme, unit) m" where
  "local_Delete l remotePath = os_RemoveAny (fullPath l remotePath)"

definition local_DeleteDir :: "localStorage \<Rightarrow> string \<Rightarrow> ('a world_scheme, unit) m" where
  "local_DeleteDir l remotePath = os_RemoveAll (fullPath l remotePath)"

definition local_Exists :: "localStorage \<Rightarrow> string \<Rightarrow> ('a world_scheme, bool) m" where
  "local_Exists l remotePath =
     bindE (tryE (os_Stat (fullPath l remotePath))) (\<lambda>r.
       case r of
         Inl e \<Rightarrow> if errors_Is e ENotExist then retE False else throwE e
       | Inr (regular, sz) \<Rightarrow> retE regular)"

fun rel_dirs :: "localStorage \<Rightarrow> string \<Rightarrow> (string \<times> bool) list \<Rightarrow> gerr + string list" where
  "rel_dirs l full [] = Inr []"
| "rel_dirs l full ((name, isDir) # es) =
     (if isDir then
        (case filepath_Rel (baseDir l) (filepath_Join [full, name]) of
           Inl e \<Rightarrow> Inl e
         | Inr rel \<Rightarrow> (case rel_dirs l full es of Inl e \<Rightarrow> Inl e | Inr rs \<Rightarrow> Inr (List.insert rel rs)))
      else rel_dirs l full es)"

definition local_ListTopLevelDirs :: "localStorage \<Rightarrow> string \<Rightarrow> ('a world_scheme, string list) m" where
  "local_ListTopLevelDirs l pre =
     (let full = fullPath l pre in
      bindE (tryE (os_ReadDir full)) (\<lambda>r.
        case r of
          Inl e \<Rightarrow> if errors_Is e ENotExist then retE [] else throwE e
        | Inr entries \<Rightarrow> liftE (rel_dirs l full entries)))"

definition local_Rename :: "localStorage \<Rightarrow> string \<Rightarrow> string \<Rightarrow> ('a world_scheme, unit) m" where
  "local_Rename l oldRemotePath newRemotePath =
     (let oldFull = fullPath l oldRemotePath; newFull = fullPath l newRemotePath in
      if oldFull = newFull then retE ()
      else thenE (os_MkdirAll (filepath_Dir newFull)) (os_RenameAny oldFull newFull))"

definition local_storage :: "localStorage \<Rightarrow> (string \<Rightarrow> int) \<Rightarrow> 'a world_scheme Storage" where
  "local_storage l modTime = \<lparr>st_Put = local_Put l, st_Get = local_Get l, st_List = local_List l modTime,
     st_Delete = local_Delete l, st_DeleteDir = local_DeleteDir l, st_Exists = local_Exists l,
     st_ListTopLevelDirs = local_ListTopLevelDirs l, st_Rename = local_Rename l\<rparr>"

end
