(* ===== verification/SFTP.thy ===== *)
theory SFTP
  imports LocalFS
begin

section \<open>The SFTP backend (internal/opt/shared/storecrypt/sftp.go)\<close>

text \<open>
  The client of the SFTP library is a record of computations; a walk is the list of its steps, each a path
  with an error or what \<open>Stat\<close> says of it, if anything.
\<close>

record sftp_info =
  fi_Regular :: bool
  fi_Dir :: bool
  fi_Mod :: int
  fi_Len :: int

type_synonym walk_step = "string \<times> (gerr + sftp_info option)"

record 's sftp_client =
  x_MkdirAll :: "string \<Rightarrow> ('s, unit) m"
  x_Create :: "string \<Rightarrow> ('s, nat) m"
  x_Write :: "nat \<Rightarrow> bytes \<Rightarrow> ('s, unit) m"
  x_Close :: "nat \<Rightarrow> ('s, unit) m"
  x_Open :: "string \<Rightarrow> ('s, io_reader) m"
  x_Walk :: "string \<Rightarrow> ('s, walk_step list) m"
  x_Remove :: "string \<Rightarrow> ('s, unit) m"
  x_RemoveAll :: "string \<Rightarrow> ('s, unit) m"
  x_Stat :: "string \<Rightarrow> ('s, sftp_info) m"
  x_ReadDir :: "string \<Rightarrow> ('s, (string \<times> bool) list) m"
  x_Rename :: "string \<Rightarrow> string \<Rightarrow> ('s, unit) m"

record 's sftpStorage =
  sftp_client :: "'s sftp_client"
  sftp_baseDir :: string

definition NewSFTPStorage :: "'s sftp_client \<Rightarrow> string \<Rightarrow> 's sftpStorage" where
  "NewSFTPStorage client remoteDir = \<lparr>sftp_client = client, sftp_baseDir = trim_suffix remoteDir ''/''\<rparr>"

definition sftp_fullPath :: "'s sftpStorage \<Rightarrow> string \<Rightarrow> string" where
  "sftp_fullPath s p = filepath_Join [sftp_baseDir s, filepath_Clean p]"

text \<open>The file is closed on every path, by the deferred call, whose error is not looked at.\<close>

definition sftp_Put :: "'s sftpStorage \<Rightarrow> string \<Rightarrow> io_reader \<Rightarrow> ('s, unit) m" where
  "sftp_Put s remotePath r =
     (let c = sftp_client s; full = sftp_fullPath s remotePath in
      thenE (wrapE ''mkdir'' (x_MkdirAll c (filepath_Dir full)))
        (bindE (wrapE ''sftp create'' (x_Create c full)) (\<lambda>f.
         bindE (tryE (thenE (write_all (x_Write c f) (pieces copyBufSize (fst r)))
                        (if snd r = EEOF then retE () else throwE (snd r)))) (\<lambda>y.
         thenE (tryE (x_Close c f)) (liftE y)))))"

definition sftp_Get :: "'s sftpStorage \<Rightarrow> string \<Rightarrow> ('s, io_reader) m" where
  "sftp_Get s remotePath = wrapE ''sftp open'' (x_Open (sftp_client s) (sftp_fullPath s remotePath))"

text \<open>One step of the walk: the end of the listing (\<open>Inl\<close>, an error or nothing found), or the files so far.\<close>

definition list_step :: "'s sftpStorage \<Rightarrow> string \<Rightarrow> FileInfo list \<Rightarrow> walk_step \<Rightarrow> (gerr option) + FileInfo list" where
  "list_step s full result = (\<lambda>(p, st).
     case st of
       Inl err \<Rightarrow>
         if err = ENotExist \<or> str_contains (gerr_text err) ''file does not exist'' then Inl None
         else Inl (Some (EWrap ''error walking directory'' err))
     | Inr None \<Rightarrow> Inr result
     | Inr (Some i) \<Rightarrow>
         if fi_Dir i then Inr result
         else if p \<noteq> full then
           (case filepath_Rel (sftp_baseDir s) p of
              Inl e \<Rightarrow> Inl (Some e)
            | Inr rel \<Rightarrow> Inr (result @ [\<lparr>fi_Path = rel, fi_ModTime = fi_Mod i, fi_Size = fi_Len i\<rparr>]))
         else Inr result)"

fun list_walk :: "'s sftpStorage \<Rightarrow> string \<Rightarrow> FileInfo list \<Rightarrow> walk_step list \<Rightarrow> gerr + FileInfo list" where
  "list_walk s full result [] = Inr result"
| "list_walk s full result (w # ws) =
     (case list_step s full result w of
        Inl None \<Rightarrow> Inr []
      | Inl (Some e) \<Rightarrow> Inl e
      | Inr result' \<Rightarrow> list_walk s full result' ws)"

definition sftp_List :: "'s sftpStorage \<Rightarrow> string \<Rightarrow> ('s, FileInfo list) m" where
  "sftp_List s remotePath =
     (let full = sftp_fullPath s remotePath in
      bindE (x_Walk (sftp_client s) full) (\<lambda>steps. liftE (list_walk s full [] steps)))"

definition sftp_Delete :: "'s sftpStorage \<Rightarrow> string \<Rightarrow> ('s, unit) m" where
  "sftp_Delete s remotePath = x_Remove (sftp_client s) (sftp_fullPath s remotePath)"

definition sftp_DeleteDir :: "'s sftpStorage \<Rightarrow> string \<Rightarrow> ('s, unit) m" where
  "sftp_DeleteDir s remotePath = x_RemoveAll (sftp_client s) (sftp_fullPath s remotePath)"

definition sftp_Exists :: "'s sftpStorage \<Rightarrow> string \<Rightarrow> ('s, bool) m" where
  "sftp_Exists s remotePath =
     bindE (tryE (x_Stat (sftp_client s) (sftp_fullPath s remotePath))) (\<lambda>r.
       case r of
         Inl e \<Rightarrow> if e = ENotExist then retE False else throwE e
       | Inr i \<Rightarrow> retE (fi_Regular i))"

fun sftp_rel_dirs :: "'s sftpStorage \<Rightarrow> string \<Rightarrow> (string \<times> bool) list \<Rightarrow> string list \<Rightarrow> gerr + string list" where
  "sftp_rel_dirs s full [] result = Inr result"
| "sftp_rel_dirs s full ((name, isDir) # es) result =
     (if isDir then
        (case filepath_Rel (sftp_baseDir s) (filepath_Join [full, name]) of
           Inl e \<Rightarrow> Inl e
         | Inr rel \<Rightarrow> sftp_rel_dirs s full es (List.insert rel result))
      else sftp_rel_dirs s full es result)"

definition sftp_ListTopLevelDirs :: "'s sftpStorage \<Rightarrow> string \<Rightarrow> ('s, string list) m" where
  "sftp_ListTopLevelDirs s pfx =
     (let full = sftp_fullPath s pfx in
      bindE (x_ReadDir (sftp_client s) full) (\<lambda>entries. liftE (sftp_rel_dirs s full entries [])))"

definition sftp_Rename :: "'s sftpStorage \<Rightarrow> string \<Rightarrow> string \<Rightarrow> ('s, unit) m" where
  "sftp_Rename s oldRemotePath newRemotePath =
     (let c = sftp_client s; oldFull = sftp_fullPath s oldRemotePath; newFull = sftp_fullPath s newRemotePath
      in if oldFull = newFull then retE ()
         else
           thenE (wrapE ''mkdir dest dir'' (x_MkdirAll c (filepath_Dir newFull)))
             (wrapE ''sftp rename'' (x_Rename c oldFull newFull)))"

definition sftp_storage :: "'s sftpStorage \<Rightarrow> 's Storage" where
  "sftp_storage s = \<lparr>st_Put = sftp_Put s, st_Get = sftp_Get s, st_List = sftp_List s, st_Delete = sftp_Delete s,
     st_DeleteDir = sftp_DeleteDir s, st_Exists = sftp_Exists s, st_ListTopLevelDirs = sftp_ListTopLevelDirs s,
     st_Rename = sftp_Rename s\<rparr>"

end
