(* ===== verification/Upload.thy ===== *)
theory Upload
  imports MemStorage LocalFS
begin

section \<open>Archiving received WAL (internal/opt/supervisors/receivesv: upload.go, supervisor.go)\<close>

text \<open>
  The uploader reads the receive directory, skips the segment that is being written, and lets a number of
  workers put every other file into the storage and remove it.  The state is the local file system and the
  state of the storage.  A worker's job is cut at its calls (open, put, close, remove), so that the calls
  of several workers can interleave in every way; \<open>uploadOneFile\<close> is the job run without interruption.
  Log messages and metrics are left out.
\<close>

subsection \<open>Choosing the files\<close>

record 'st uploader =
  up_ReceiveDirectory :: string
  up_MaxConcurrency :: int
  up_stor :: "'st Storage"
  up_CurrentOpenWALFileName :: "nat \<Rightarrow> string"

type_synonym 'st disks = "world \<times> 'st"

text \<open>\<open>fsx.FileExists\<close>.\<close>

definition FileExists :: "string \<Rightarrow> ('a world_scheme, bool) m" where
  "FileExists path = bindE (tryE (os_Stat path)) (\<lambda>r.
     case r of Inl e \<Rightarrow> retE False | Inr (regular, sz) \<Rightarrow> retE regular)"

text \<open>The receiver may open the next segment at any time: its file name is a function of the moment.\<close>

fun filterFilesToUpload :: "'st uploader \<Rightarrow> (string \<times> bool) list \<Rightarrow> (world, string list) m" where
  "filterFilesToUpload u [] = retE []"
| "filterFilesToUpload u ((name, isDir) # files) =
     (if isDir then filterFilesToUpload u files
      else if filepath_Base name = ''.manifest.json'' then filterFilesToUpload u files
      else bindE (getE (\<lambda>s. up_CurrentOpenWALFileName u (w_tick s))) (\<lambda>cur.
        if filepath_Base name = filepath_Base cur then filterFilesToUpload u files
        else
          let walFilePath = filepath_Join [up_ReceiveDirectory u, name] in
          bindE (FileExists walFilePath) (\<lambda>ok.
          bindE (filterFilesToUpload u files) (\<lambda>r. retE (if ok then walFilePath # r else r)))))"

subsection \<open>One file\<close>

definition uploadOneFile :: "'st uploader \<Rightarrow> string \<Rightarrow> ('st disks, unit) m" where
  "uploadOneFile u walFilePath =
     bindE (on_fst (os_Open walFilePath)) (\<lambda>file.
     bindE (tryE (on_snd (st_Put (up_stor u) (filepath_Base walFilePath) file))) (\<lambda>r.
       case r of
         Inl e \<Rightarrow> thenE (tryE (on_fst (failing (retE ())))) (throwE e)
       | Inr _ \<Rightarrow> thenE (on_fst (failing (retE ()))) (on_fst (os_Remove walFilePath))))"

text \<open>The same, one call at a time: where a worker is in its job, and its next call.\<close>

datatype stage =
    Opening string
  | Putting string io_reader
  | Abandoning string gerr
  | Closing string
  | Removing string

datatype outcome = Continue stage | Finished "gerr option"

primrec stage_path :: "stage \<Rightarrow> string" where
  "stage_path (Opening p) = p"
| "stage_path (Putting p r) = p"
| "stage_path (Abandoning p e) = p"
| "stage_path (Closing p) = p"
| "stage_path (Removing p) = p"

definition after :: "('s, 'a) m \<Rightarrow> ('a \<Rightarrow> outcome) \<Rightarrow> (gerr \<Rightarrow> outcome) \<Rightarrow> ('s, outcome) m" where
  "after f ok err = bindE (tryE f) (\<lambda>r. retE (case r of Inl e \<Rightarrow> err e | Inr x \<Rightarrow> ok x))"

primrec upload_step :: "'st uploader \<Rightarrow> stage \<Rightarrow> ('st disks, outcome) m" where
  "upload_step u (Opening p) = after (on_fst (os_Open p)) (\<lambda>r. Continue (Putting p r)) (\<lambda>e. Finished (Some e))"
| "upload_step u (Putting p r) =
     after (on_snd (st_Put (up_stor u) (filepath_Base p) r)) (\<lambda>_. Continue (Closing p)) (\<lambda>e. Continue (Abandoning p e))"
| "upload_step u (Abandoning p e) = after (on_fst (failing (retE ()))) (\<lambda>_. Finished (Some e)) (\<lambda>_. Finished (Some e))"
| "upload_step u (Closing p) = after (on_fst (failing (retE ()))) (\<lambda>_. Continue (Removing p)) (\<lambda>e. Finished (Some e))"
| "upload_step u (Removing p) = after (on_fst (os_Remove p)) (\<lambda>_. Finished None) (\<lambda>e. Finished (Some e))"

fun stage_rank :: "stage \<Rightarrow> nat" where
  "stage_rank (Opening p) = 4"
| "stage_rank (Putting p r) = 3"
| "stage_rank (Abandoning p e) = 1"
| "stage_rank (Closing p) = 2"
| "stage_rank (Removing p) = 1"

subsection \<open>The workers\<close>

datatype worker = Idle | Busy stage | Exited

record 'st pool =
  pl_state :: "'st disks"
  pl_queue :: "string list"
  pl_workers :: "worker list"
  pl_errs :: "gerr list"
  pl_crash :: "gerr option"

definition uploadFiles_start :: "'st uploader \<Rightarrow> string list \<Rightarrow> 'st disks \<Rightarrow> 'st pool" where
  "uploadFiles_start u files s =
     (let workerCount = (if up_MaxConcurrency u \<le> 0 then 1 else up_MaxConcurrency u)
      in \<lparr>pl_state = s, pl_queue = files, pl_workers = replicate (nat workerCount) Idle, pl_errs = [], pl_crash = None\<rparr>)"

text \<open>
  Worker \<open>i\<close> makes its next move: it takes a file from the channel, or leaves when the channel is empty or,
  having taken a file, when the context is done; or it goes on with its job, and at its end reports the error.
\<close>

definition pool_exec :: "'st uploader \<Rightarrow> nat \<Rightarrow> bool \<Rightarrow> 'st pool \<Rightarrow> 'st pool" where
  "pool_exec u i cancelled P =
     (case pl_workers P ! i of
        Exited \<Rightarrow> P
      | Idle \<Rightarrow>
          (case pl_queue P of
             [] \<Rightarrow> P\<lparr>pl_workers := (pl_workers P)[i := Exited]\<rparr>
           | p # ps \<Rightarrow> if cancelled then P\<lparr>pl_queue := ps, pl_workers := (pl_workers P)[i := Exited]\<rparr>
                       else P\<lparr>pl_queue := ps, pl_workers := (pl_workers P)[i := Busy (Opening p)]\<rparr>)
      | Busy st \<Rightarrow>
          (case upload_step u st (pl_state P) of
             (Inl e, s) \<Rightarrow> P\<lparr>pl_state := s, pl_crash := Some e\<rparr>
           | (Inr (Continue st'), s) \<Rightarrow> P\<lparr>pl_state := s, pl_workers := (pl_workers P)[i := Busy st']\<rparr>
           | (Inr (Finished None), s) \<Rightarrow> P\<lparr>pl_state := s, pl_workers := (pl_workers P)[i := Idle]\<rparr>
           | (Inr (Finished (Some e)), s) \<Rightarrow>
               P\<lparr>pl_state := s, pl_workers := (pl_workers P)[i := Idle], pl_errs := pl_errs P @ [e]\<rparr>))"

definition pool_live :: "'st pool \<Rightarrow> nat \<Rightarrow> bool" where
  "pool_live P i \<longleftrightarrow> pl_crash P = None \<and> i < length (pl_workers P) \<and> pl_workers P ! i \<noteq> Exited"

definition pool_done :: "'st pool \<Rightarrow> bool" where
  "pool_done P \<longleftrightarrow> (\<forall>w \<in> set (pl_workers P). w = Exited)"

text \<open>The error \<open>uploadFiles\<close> returns: the last one of the error channel.\<close>

definition uploadFiles_result :: "'st pool \<Rightarrow> gerr + unit" where
  "uploadFiles_result P =
     (case pl_crash P of
        Some e \<Rightarrow> Inl e
      | None \<Rightarrow> if pl_errs P = [] then Inr () else Inl (last (pl_errs P)))"

text \<open>A schedule says which worker moves next and whether the context is done by then; \<open>None\<close> when it is too short.\<close>

fun run_pool :: "'st uploader \<Rightarrow> (nat \<times> bool) list \<Rightarrow> 'st pool \<Rightarrow> 'st pool option" where
  "run_pool u sched P =
     (if pl_crash P \<noteq> None \<or> pool_done P then Some P
      else case sched of [] \<Rightarrow> None
      | (i, c) # sched' \<Rightarrow> if pool_live P i then run_pool u sched' (pool_exec u i c P) else run_pool u sched' P)"

declare run_pool.simps [simp del]

definition uploadFiles :: "'st uploader \<Rightarrow> (nat \<times> bool) list \<Rightarrow> string list \<Rightarrow> 'st disks \<Rightarrow> ((gerr + unit) \<times> 'st disks) option" where
  "uploadFiles u sched files s =
     map_option (\<lambda>P. (uploadFiles_result P, pl_state P)) (run_pool u sched (uploadFiles_start u files s))"

definition performUploads :: "'st uploader \<Rightarrow> (nat \<times> bool) list \<Rightarrow> 'st disks \<Rightarrow> ((gerr + unit) \<times> 'st disks) option" where
  "performUploads u sched s =
     (case on_fst (bindE (os_ReadDir (up_ReceiveDirectory u)) (filterFilesToUpload u)) s of
        (Inl e, t) \<Rightarrow> Some (Inl e, t)
      | (Inr files, t) \<Rightarrow> if files = [] then Some (Inr (), t) else uploadFiles u sched files t)"

subsection \<open>The supervisor\<close>

datatype upload_log = UploadsStopped gerr | UploadsFailed gerr

definition runUploadJob :: "'st uploader \<Rightarrow> (nat \<times> bool) list \<Rightarrow> 'st disks \<Rightarrow> (upload_log option \<times> 'st disks) option" where
  "runUploadJob u sched s =
     map_option (\<lambda>(r, t). (case r of
         Inr _ \<Rightarrow> None
       | Inl e \<Rightarrow> Some (if errors_Is e ECanceled then UploadsStopped e else UploadsFailed e), t)) (performUploads u sched s)"

definition defaultUploadInterval :: "64 word" where
  "defaultUploadInterval = 5 * 60 * 1000000000"

definition upload_interval :: "64 word \<Rightarrow> 64 word" where
  "upload_interval syncIntervalParsed = (if sint syncIntervalParsed \<le> 0 then defaultUploadInterval else syncIntervalParsed)"

text \<open>What the loop of \<open>Run\<close> waits for: the end of the context, or a tick, with the schedule of its job.\<close>

datatype wakeup = CtxDone gerr | Tick "(nat \<times> bool) list"

fun archive_Run :: "'st uploader \<Rightarrow> wakeup list \<Rightarrow> 'st disks \<Rightarrow> (gerr \<times> 'st disks) option" where
  "archive_Run u [] s = None"
| "archive_Run u (CtxDone e # ws) s = Some (e, s)"
| "archive_Run u (Tick sched # ws) s =
     (case runUploadJob u sched s of None \<Rightarrow> None | Some (lg, t) \<Rightarrow> archive_Run u ws t)"

subsection \<open>Jobs end\<close>

lemma upload_step_cases:
  "upload_step u st s = (Inr (Continue st'), t) \<Longrightarrow> stage_path st' = stage_path st \<and> stage_rank st' < stage_rank st"
  by (cases st) (auto simp: after_def bindE_def tryE_def retE_def split: prod.splits sum.splits if_splits)

function run_stage :: "'st uploader \<Rightarrow> stage \<Rightarrow> ('st disks, unit) m" where
  "run_stage u st s =
     (case upload_step u st s of
        (Inl e, t) \<Rightarrow> (Inl e, t)
      | (Inr (Continue st'), t) \<Rightarrow> run_stage u st' t
      | (Inr (Finished None), t) \<Rightarrow> (Inr (), t)
      | (Inr (Finished (Some e)), t) \<Rightarrow> (Inl e, t))"
  by auto
termination
  by (relation "measure (\<lambda>(u, st, s). stage_rank st)") (auto dest!: upload_step_cases [OF sym])

declare run_stage.simps [simp del]

text \<open>The interruptible job is the code's job. Running the calls of an upload one after another, as a worker that is never interrupted does, is uploadOneFile: the same result, the same error, the same state, on every path.\<close>
theorem run_stage_uploadOneFile: "run_stage u (Opening p) s = uploadOneFile u p s"
proof -
  have nxt: "run_stage u st s = (case upload_step u st s of
        (Inl e, t) \<Rightarrow> (Inl e, t)
      | (Inr (Continue st'), t) \<Rightarrow> run_stage u st' t
      | (Inr (Finished None), t) \<Rightarrow> (Inr (), t)
      | (Inr (Finished (Some e)), t) \<Rightarrow> (Inl e, t))" for st s
    by (rule run_stage.simps)
  have rem: "run_stage u (Removing p) s = on_fst (os_Remove p) s" for s
    by (subst nxt) (simp add: after_def exec_simps split: prod.splits sum.splits)
  have clo: "run_stage u (Closing p) s = thenE (on_fst (failing (retE ()))) (on_fst (os_Remove p)) s" for s
    by (subst nxt) (simp add: rem after_def exec_simps split: prod.splits sum.splits)
  have abn: "run_stage u (Abandoning p e) s = thenE (tryE (on_fst (failing (retE ())))) (throwE e) s" for s e
    by (subst nxt) (simp add: after_def exec_simps split: prod.splits sum.splits)
  have put: "run_stage u (Putting p r) s = bindE (tryE (on_snd (st_Put (up_stor u) (filepath_Base p) r))) (\<lambda>r.
       case r of
         Inl e \<Rightarrow> thenE (tryE (on_fst (failing (retE ())))) (throwE e)
       | Inr _ \<Rightarrow> thenE (on_fst (failing (retE ()))) (on_fst (os_Remove p))) s" for s r
    by (subst nxt) (simp add: clo abn after_def exec_simps split: prod.splits sum.splits)
  show ?thesis
    by (subst nxt) (simp add: put uploadOneFile_def after_def exec_simps split: prod.splits sum.splits)
qed

subsection \<open>The pool stops\<close>

fun worker_rank :: "worker \<Rightarrow> nat" where
  "worker_rank Exited = 0"
| "worker_rank Idle = 1"
| "worker_rank (Busy st) = Suc (stage_rank st)"

definition pool_rank :: "'st pool \<Rightarrow> nat" where
  "pool_rank P = 5 * length (pl_queue P) + sum_list (map worker_rank (pl_workers P))"

lemma sum_list_update:
  "i < length xs \<Longrightarrow> sum_list (map f (xs[i := x])) + f (xs ! i) = sum_list (map f xs) + (f x :: nat)"
  by (induction xs arbitrary: i) (auto split: nat.split)

lemma stage_rank_pos: "0 < stage_rank st"
  by (cases st) auto

lemma pool_exec_rank:
  assumes "pool_live P i" and "pl_crash (pool_exec u i c P) = None"
  shows "pool_rank (pool_exec u i c P) < pool_rank P"
proof -
  have i: "i < length (pl_workers P)" "pl_workers P ! i \<noteq> Exited" using assms(1) by (auto simp: pool_live_def)
  note upd = sum_list_update [OF i(1), of worker_rank]
  show ?thesis
  proof (cases "pl_workers P ! i")
    case Idle
    show ?thesis
    proof (cases "pl_queue P")
      case Nil
      then show ?thesis using Idle upd [of Exited] by (simp add: pool_exec_def pool_rank_def)
    next
      case (Cons p ps)
      then show ?thesis using Idle upd [of Exited] upd [of "Busy (Opening p)"] by (simp add: pool_exec_def pool_rank_def)
    qed
  next
    case (Busy st)
    obtain r t where r: "upload_step u st (pl_state P) = (r, t)" by (rule prod.exhaust)
    show ?thesis
    proof (cases r)
      case (Inl e)
      with r Busy assms(2) show ?thesis by (simp add: pool_exec_def)
    next
      case (Inr o')
      show ?thesis
      proof (cases o')
        case (Continue st')
        with upload_step_cases r Inr have "stage_rank st' < stage_rank st" by blast
        with r Busy Inr Continue upd [of "Busy st'"] show ?thesis by (simp add: pool_exec_def pool_rank_def)
      next
        case (Finished e)
        with r Busy Inr upd [of Idle] stage_rank_pos [of st] show ?thesis
          by (cases e) (simp_all add: pool_exec_def pool_rank_def)
      qed
    qed
  qed (use i in simp)
qed

lemma pool_start_rank:
  "pool_rank (uploadFiles_start u files s) = 5 * length files + nat (max 1 (up_MaxConcurrency u))"
  by (simp add: pool_rank_def uploadFiles_start_def sum_list_replicate max_def Let_def)

lemma pool_exec_workers: "length (pl_workers (pool_exec u i c P)) = length (pl_workers P)"
  by (simp add: pool_exec_def split: worker.split list.split prod.split sum.split outcome.split option.split)

definition pool_over :: "'st pool \<Rightarrow> bool" where
  "pool_over P \<longleftrightarrow> pl_crash P \<noteq> None \<or> pool_done P"

lemma run_pool_over: "pool_over P \<Longrightarrow> run_pool u sched P = Some P"
  by (subst run_pool.simps) (auto simp: pool_over_def)

lemma run_pool_step:
  "\<not> pool_over P \<Longrightarrow> run_pool u ((i, c) # sched) P =
     (if pool_live P i then run_pool u sched (pool_exec u i c P) else run_pool u sched P)"
  by (subst run_pool.simps) (auto simp: pool_over_def)

lemma pool_not_over: "\<not> pool_over P \<Longrightarrow> \<exists>i < length (pl_workers P). pool_live P i"
  by (auto simp: pool_over_def pool_done_def pool_live_def in_set_conv_nth)

lemma run_pool_prefix:
  "\<exists>Q. run_pool u (xs @ rest) P = run_pool u rest Q \<and> length (pl_workers Q) = length (pl_workers P) \<and>
     (pool_over Q \<or> pool_rank Q < pool_rank P \<or> Q = P \<and> (\<forall>i \<in> fst ` set xs. \<not> pool_live P i))"
proof (induction xs arbitrary: P)
  case Nil
  then show ?case by auto
next
  case (Cons x xs)
  obtain i c where x: "x = (i, c)" by (cases x)
  show ?case
  proof (cases "pool_over P")
    case True
    then show ?thesis by (auto simp: run_pool_over intro!: exI [of _ P])
  next
    case over: False
    show ?thesis
    proof (cases "pool_live P i")
      case False
      with Cons.IH [of P] over show ?thesis by (auto simp: x run_pool_step)
    next
      case True
      let ?P = "pool_exec u i c P"
      obtain Q where Q: "run_pool u (xs @ rest) ?P = run_pool u rest Q" "length (pl_workers Q) = length (pl_workers ?P)"
        "pool_over Q \<or> pool_rank Q < pool_rank ?P \<or> Q = ?P \<and> (\<forall>i \<in> fst ` set xs. \<not> pool_live ?P i)"
        using Cons.IH by blast
      show ?thesis
      proof (cases "pl_crash ?P = None")
        case True
        with pool_exec_rank [OF \<open>pool_live P i\<close>] have "pool_rank ?P < pool_rank P" by blast
        with Q over \<open>pool_live P i\<close> show ?thesis
          by (intro exI [of _ Q]) (auto simp: x run_pool_step pool_exec_workers)
      next
        case False
        then have "pool_over ?P" by (simp add: pool_over_def)
        then show ?thesis using over \<open>pool_live P i\<close>
          by (intro exI [of _ ?P]) (simp add: x run_pool_step run_pool_over pool_exec_workers)
      qed
    qed
  qed
qed

lemma worker_rank_0: "worker_rank w = 0 \<longleftrightarrow> w = Exited"
  by (cases w) simp_all

lemma run_pool_rounds:
  assumes "\<forall>r \<in> set rounds. {..<length (pl_workers P)} \<subseteq> fst ` set r" and "pool_rank P \<le> length rounds"
  shows "run_pool u (concat rounds) P \<noteq> None"
  using assms
proof (induction rounds arbitrary: P)
  case Nil
  then have "\<forall>w \<in> set (pl_workers P). worker_rank w = 0" by (simp add: pool_rank_def)
  then have "pool_over P" by (simp add: pool_over_def pool_done_def worker_rank_0)
  then show ?case by (simp add: run_pool_over)
next
  case (Cons r rounds)
  obtain Q where Q: "run_pool u (r @ concat rounds) P = run_pool u (concat rounds) Q"
    "length (pl_workers Q) = length (pl_workers P)"
    "pool_over Q \<or> pool_rank Q < pool_rank P \<or> Q = P \<and> (\<forall>i \<in> fst ` set r. \<not> pool_live P i)"
    using run_pool_prefix by blast
  show ?case
  proof (cases "pool_over Q")
    case True
    with Q show ?thesis by (simp add: run_pool_over)
  next
    case False
    have "pool_rank Q < pool_rank P"
    proof (rule ccontr)
      assume "\<not> pool_rank Q < pool_rank P"
      with Q(3) False have "Q = P" "\<forall>i \<in> fst ` set r. \<not> pool_live P i" by auto
      moreover from pool_not_over False \<open>Q = P\<close> obtain i where "i < length (pl_workers P)" "pool_live P i" by blast
      ultimately show False using Cons.prems(1) by auto
    qed
    then have "run_pool u (concat rounds) Q \<noteq> None"
      using Cons.prems by (intro Cons.IH) (simp_all add: Q(2))
    with Q(1) show ?thesis by simp
  qed
qed

text \<open>C24: Every upload round ends. However the workers are scheduled, as long as in every round each of them gets a turn, and whatever the file system, the storage and the context do, uploadFiles returns after at most five rounds per file and one per worker.\<close>
theorem uploadFiles_terminates:
  assumes "\<forall>r \<in> set rounds. {..<nat (max 1 (up_MaxConcurrency u))} \<subseteq> fst ` set r"
    and "5 * length files + nat (max 1 (up_MaxConcurrency u)) \<le> length rounds"
  shows "uploadFiles u (concat rounds) files s \<noteq> None"
proof -
  have "length (pl_workers (uploadFiles_start u files s)) = nat (max 1 (up_MaxConcurrency u))"
    by (simp add: uploadFiles_start_def max_def Let_def)
  with assms run_pool_rounds [of rounds "uploadFiles_start u files s" u] show ?thesis
    by (simp add: uploadFiles_def pool_start_rank)
qed

theorem uploadFiles_terminates_witness:
  "\<forall>s. uploadFiles \<lparr>up_ReceiveDirectory = ''/w'', up_MaxConcurrency = 2, up_stor = mem_storage,
      up_CurrentOpenWALFileName = (\<lambda>_. '''')\<rparr> (concat (replicate 7 [(0, False), (1, False)])) [''/w/a''] s \<noteq> None"
  by (rule allI, rule uploadFiles_terminates) (auto simp: lessThan_Suc numeral_2_eq_2)

end
