(* ===== verification/Restore.thy ===== *)
theory Restore
  imports Upload Retention
begin

section \<open>Restoring a base backup (internal/opt/basebackup/restore, x/tarx, x/fsx, x/strx)\<close>

text \<open>
  The destination is on the local file system, extended by the symbolic links made for tablespaces; paths
  that lead through a link are not followed.  The storage has a state of its own.  The tar reader of the
  standard library is the parameter \<open>tar_entries\<close>: the entries of a stream and the error it ends with;
  the JSON decoder is a parameter.
\<close>

subsection \<open>Helpers\<close>

record restoreworld = world +
  rw_links :: "(string \<times> string) list"

definition DirExistsAndNotEmpty :: "string \<Rightarrow> ('a world_scheme, bool) m" where
  "DirExistsAndNotEmpty path =
     bindE (tryE (os_Stat path)) (\<lambda>r.
       case r of
         Inl e \<Rightarrow> if not_exist e then retE False else throwE e
       | Inr (regular, sz) \<Rightarrow>
           if regular then throwE (EMsg ''path exists but is not a directory'')
           else bindE (os_ReadDir path) (\<lambda>entries. retE (entries \<noteq> [])))"

text \<open>\<open>os.Stat\<close> follows links, so its mode never says that a path is one, and the answer is always no.\<close>

definition isSymlinkTo :: "string \<Rightarrow> string \<Rightarrow> ('a world_scheme, bool) m" where
  "isSymlinkTo oldName newName =
     bindE (tryE (os_Stat newName)) (\<lambda>r. case r of Inl e \<Rightarrow> retE False | Inr _ \<Rightarrow> retE False)"

definition EEXIST :: gerr where "EEXIST = EOS 17"

definition os_RemoveLink :: "string \<Rightarrow> ('a restoreworld_scheme, unit) m" where
  "os_RemoveLink p =
     bindE (getE (\<lambda>s. map_of (rw_links s) p)) (\<lambda>r.
       case r of
         Some _ \<Rightarrow> failing (modE (\<lambda>s. s\<lparr>rw_links := AList.delete p (rw_links s)\<rparr>))
       | None \<Rightarrow> os_RemoveAny p)"

definition os_Symlink :: "string \<Rightarrow> string \<Rightarrow> ('a restoreworld_scheme, unit) m" where
  "os_Symlink oldName newName = failing (bindE (getE (\<lambda>s.
       (map_of (rw_links s) newName, newName \<in> set (w_dirs s), lookup s newName, filepath_Dir newName \<in> set (w_dirs s)))) (\<lambda>(l, d, f, parent).
     if l \<noteq> None \<or> d \<or> f \<noteq> None then throwE EEXIST
     else if \<not> parent then throwE ENotExist
     else modE (\<lambda>s. s\<lparr>rw_links := AList.update newName oldName (rw_links s)\<rparr>)))"

definition EnsureSymlink :: "string \<Rightarrow> string \<Rightarrow> ('a restoreworld_scheme, unit) m" where
  "EnsureSymlink oldName newName =
     bindE (isSymlinkTo oldName newName) (\<lambda>b.
       if b then retE ()
       else thenE (tryE (os_RemoveLink newName)) (os_Symlink oldName newName))"

definition SortDesc :: "string list \<Rightarrow> string list" where
  "SortDesc topLevel = rev (sort (remdups topLevel))"

fun IsInList :: "string \<Rightarrow> string list \<Rightarrow> bool" where
  "IsInList i [] = False"
| "IsInList i (s # xs) = (if s = i then True else IsInList i xs)"

text \<open>The verb \<open>%d\<close>.\<close>

fun dec_digits :: "nat \<Rightarrow> string" where
  "dec_digits n = (if n < 10 then [char_of (48 + n)] else dec_digits (n div 10) @ [char_of (48 + n mod 10)])"

declare dec_digits.simps [simp del]

definition fmt_d :: "int \<Rightarrow> string" where
  "fmt_d i = (if i < 0 then ''-'' @ dec_digits (nat (- i)) else dec_digits (nat i))"

subsection \<open>Extracting archives\<close>

datatype typeflag = TypeDir | TypeReg | TypeOther

record tar_entry =
  th_Name :: string
  th_Typeflag :: typeflag
  th_body :: io_reader

definition untar_file :: "string \<Rightarrow> io_reader \<Rightarrow> ('a world_scheme, unit) m" where
  "untar_file target body =
     thenE (os_MkdirAll (filepath_Dir target))
       (bindE (os_Create target) (\<lambda>f.
        bindE (tryE (copy_file f body)) (\<lambda>c.
          case c of
            Inl e \<Rightarrow> thenE (tryE (f_Close f)) (throwE e)
          | Inr _ \<Rightarrow> thenE (tryE (f_Close f)) (retE ()))))"

fun untar_loop :: "string \<Rightarrow> tar_entry list \<Rightarrow> gerr \<Rightarrow> ('a world_scheme, unit) m" where
  "untar_loop dest [] e = (if e = EEOF then retE () else throwE e)"
| "untar_loop dest (hdr # hdrs) e =
     (let target = filepath_Join [dest, th_Name hdr] in
      thenE (case th_Typeflag hdr of
               TypeDir \<Rightarrow> os_MkdirAll target
             | TypeReg \<Rightarrow> untar_file target (th_body hdr)
             | TypeOther \<Rightarrow> retE ())
        (untar_loop dest hdrs e))"

definition Untar :: "(io_reader \<Rightarrow> tar_entry list \<times> gerr) \<Rightarrow> io_reader \<Rightarrow> string \<Rightarrow> ('a world_scheme, unit) m" where
  "Untar tar_entries r dest = (case tar_entries r of (hdrs, e) \<Rightarrow> untar_loop dest hdrs e)"

subsection \<open>What there is to restore\<close>

record RestoreInfo =
  ri_BaseTar :: string
  ri_TablespacesTars :: "string list"
  ri_ManifestFile :: string

definition add_file_info :: "string \<Rightarrow> RestoreInfo \<Rightarrow> FileInfo \<Rightarrow> RestoreInfo" where
  "add_file_info backupID r fname =
     (let tmp = trim_prefix (fi_Path fname) (backupID @ ''/'');
          isManifest = has_prefix tmp (backupID @ ''.json'');
          correctFile = (isManifest \<or> has_suffix tmp ''.tar'')
      in if \<not> correctFile then r
         else if isManifest then r\<lparr>ri_ManifestFile := fi_Path fname\<rparr>
         else if has_prefix tmp ''base.'' then r\<lparr>ri_BaseTar := fi_Path fname\<rparr>
         else r\<lparr>ri_TablespacesTars := ri_TablespacesTars r @ [fi_Path fname]\<rparr>)"

definition makeRestoreInfo :: "string \<Rightarrow> FileInfo list \<Rightarrow> RestoreInfo" where
  "makeRestoreInfo backupID backupFiles =
     foldl (add_file_info backupID) \<lparr>ri_BaseTar = '''', ri_TablespacesTars = [], ri_ManifestFile = ''''\<rparr> backupFiles"

definition readManifestFile :: "(io_reader \<Rightarrow> gerr + Result) \<Rightarrow> 'st Storage \<Rightarrow> RestoreInfo \<Rightarrow> ('st, Result) m" where
  "readManifestFile decode stor ri =
     (if ri_ManifestFile ri = '''' then throwE (EMsg ''no manifest file found for backup'')
      else bindE (wrapE ''get manifest'' (st_Get stor (ri_ManifestFile ri))) (\<lambda>mrc.
           wrapE ''decode manifest'' (liftE (decode mrc))))"

fun find_tblspc :: "string \<Rightarrow> Tablespace list \<Rightarrow> gerr + Tablespace" where
  "find_tblspc tarName [] = Inl (EMsg ''cannot find tablespace target location'')"
| "find_tblspc tarName (ts # tss) =
     (if has_prefix (filepath_Base tarName) (fmt_d (sint (ts_OID ts))) then Inr ts else find_tblspc tarName tss)"

definition getTblspcLocation :: "string \<Rightarrow> Result \<Rightarrow> gerr + Tablespace" where
  "getTblspcLocation tarName mf =
     (if rs_Tablespaces mf = [] then Inl (EMsg ''tablespaces map is empty'')
      else find_tblspc tarName (rs_Tablespaces mf))"

subsection \<open>The restore\<close>

fun check_dirs :: "Result \<Rightarrow> string list \<Rightarrow> ('a world_scheme, unit) m" where
  "check_dirs mf [] = retE ()"
| "check_dirs mf (f # fs) =
     bindE (liftE (getTblspcLocation f mf)) (\<lambda>tsInfo.
     bindE (DirExistsAndNotEmpty (ts_Location tsInfo)) (\<lambda>b.
       if b then throwE (EMsg ''refusing to restore in a non-empty dir'') else check_dirs mf fs))"

definition checkTblspcDirsEmpty :: "RestoreInfo \<Rightarrow> Result \<Rightarrow> ('a world_scheme, unit) m" where
  "checkTblspcDirsEmpty ri mf = check_dirs mf (ri_TablespacesTars ri)"

record 'st restore_env =
  re_stor :: "gerr + 'st Storage"
  re_decode :: "io_reader \<Rightarrow> gerr + Result"
  re_tar :: "io_reader \<Rightarrow> tar_entry list \<times> gerr"

type_synonym 'st rdisks = "restoreworld \<times> 'st"

fun restore_tblspcs :: "'st restore_env \<Rightarrow> 'st Storage \<Rightarrow> string \<Rightarrow> Result \<Rightarrow> string list \<Rightarrow> ('st rdisks, unit) m" where
  "restore_tblspcs re stor pgdata mf [] = retE ()"
| "restore_tblspcs re stor pgdata mf (f # fs) =
     bindE (wrapE ''get'' (on_snd (st_Get stor f))) (\<lambda>rc.
     bindE (liftE (getTblspcLocation f mf)) (\<lambda>tsInfo.
       let dest = ts_Location tsInfo;
           tsInPgdata = filepath_Join [pgdata, ''pg_tblspc'', fmt_d (sint (ts_OID tsInfo))]
       in thenE (wrapE ''untar'' (on_fst (Untar (re_tar re) rc dest)))
            (thenE (on_fst (EnsureSymlink dest tsInPgdata))
              (restore_tblspcs re stor pgdata mf fs))))"

definition restoreTblspc :: "'st restore_env \<Rightarrow> 'st Storage \<Rightarrow> string \<Rightarrow> RestoreInfo \<Rightarrow> Result \<Rightarrow> ('st rdisks, unit) m" where
  "restoreTblspc re stor pgdata ri mf = restore_tblspcs re stor pgdata mf (ri_TablespacesTars ri)"

definition choose_backup :: "string \<Rightarrow> string list \<Rightarrow> gerr + string option" where
  "choose_backup i backupsTs =
     (let ids = SortDesc backupsTs in
      if i \<noteq> '''' then (if \<not> IsInList i ids then Inl (EMsg ''no such backup'') else Inr (Some i))
      else if ids = [] then Inr None else Inr (Some (hd ids)))"

definition restore_files :: "'st restore_env \<Rightarrow> 'st Storage \<Rightarrow> string \<Rightarrow> string \<Rightarrow> ('st rdisks, unit) m" where
  "restore_files re stor backupID dest =
     bindE (on_snd (st_List stor backupID)) (\<lambda>backupFiles.
       let ri = makeRestoreInfo backupID backupFiles in
       bindE (on_snd (readManifestFile (re_decode re) stor ri)) (\<lambda>mf.
       thenE (on_fst (checkTblspcDirsEmpty ri mf))
       (bindE (wrapE ''get'' (on_snd (st_Get stor (ri_BaseTar ri)))) (\<lambda>rc.
        thenE (wrapE ''untar'' (on_fst (Untar (re_tar re) rc dest)))
          (restoreTblspc re stor dest ri mf)))))"

definition RestoreBaseBackup :: "'st restore_env \<Rightarrow> string \<Rightarrow> string \<Rightarrow> ('st rdisks, unit) m" where
  "RestoreBaseBackup re i dest =
     bindE (on_fst (DirExistsAndNotEmpty dest)) (\<lambda>b.
       if b then throwE (EMsg ''refusing to restore in a non-empty dir'')
       else thenE (on_fst (os_MkdirAll dest))
         (bindE (liftE (re_stor re)) (\<lambda>stor.
          bindE (on_snd (st_ListTopLevelDirs stor '''')) (\<lambda>backupsTs.
          bindE (liftE (choose_backup i backupsTs)) (\<lambda>r.
            case r of None \<Rightarrow> retE () | Some backupID \<Rightarrow> restore_files re stor backupID dest)))))"

end
