(* ===== verification/Setup.thy ===== *)
theory Setup
  imports Config S3 SFTP Restore
begin

section \<open>From the configuration to a storage (api/storage.go, storecrypt: s3client.go, sftpclient.go, cmd/conf.go)\<close>

text \<open>
  The clients of the remote backends are opened through the SSH, SFTP and AWS libraries, which are parameters:
  a signer, a connection and an AWS configuration are values of any types.
\<close>

subsection \<open>Opening the clients\<close>

record ('k, 'c, 's) ssh_lib =
  ParsePrivateKey :: "bytes \<Rightarrow> gerr + 'k"
  ParsePrivateKeyWithPassphrase :: "bytes \<Rightarrow> bytes \<Rightarrow> gerr + 'k"
  ssh_Dial :: "string \<Rightarrow> string \<Rightarrow> 'k \<Rightarrow> ('s, 'c) m"
  sftp_NewClient :: "'c \<Rightarrow> ('s, 's sftp_client) m"

record sftp_settings =
  xc_Host :: string
  xc_Port :: string
  xc_User :: string
  xc_PkeyPath :: string
  xc_Passphrase :: string

definition NewSFTPClient ::
    "('k, 'c, 'a world_scheme) ssh_lib \<Rightarrow> sftp_settings \<Rightarrow> ('a world_scheme, 'a world_scheme sftp_client) m" where
  "NewSFTPClient L sc =
     bindE (wrapE ''unable to read private key'' (os_ReadFile (xc_PkeyPath sc))) (\<lambda>key.
     bindE (if xc_Passphrase sc \<noteq> '''' then
              wrapE ''unable to parse private key with passphrase'' (liftE (ParsePrivateKeyWithPassphrase L key (xc_Passphrase sc)))
            else wrapE ''unable to parse private key'' (liftE (ParsePrivateKey L key))) (\<lambda>signer.
     bindE (wrapE ''unable to connect to SFTP server'' (ssh_Dial L (xc_Host sc @ '':'' @ xc_Port sc) (xc_User sc) signer)) (\<lambda>conn.
     wrapE ''unable to create SFTP sftpClient'' (sftp_NewClient L conn))))"

record s3_settings =
  ac_EndpointURL :: string
  ac_AccessKeyID :: string
  ac_SecretAccessKey :: string
  ac_Bucket :: string
  ac_Region :: string
  ac_UsePathStyle :: bool
  ac_DisableSSL :: bool
  ac_Checksum :: int

text \<open>
  The default configuration is loaded with a region, the static credentials and whether certificates are
  left unchecked; the client is made from it, with an endpoint, the path style and the checksum setting.
\<close>

record ('g, 's) aws_lib =
  LoadDefaultConfig :: "string \<Rightarrow> string \<times> string \<Rightarrow> bool \<Rightarrow> ('s, 'g) m"
  NewFromConfig :: "'g \<Rightarrow> string \<Rightarrow> bool \<Rightarrow> int \<Rightarrow> 's s3_client"

record 's S3Client =
  sc_client :: "'s s3_client"
  sc_bucket :: string

definition NewS3Client :: "('g, 's) aws_lib \<Rightarrow> s3_settings \<Rightarrow> ('s, 's S3Client) m" where
  "NewS3Client L sc =
     bindE (LoadDefaultConfig L (ac_Region sc) (ac_AccessKeyID sc, ac_SecretAccessKey sc) (ac_DisableSSL sc)) (\<lambda>cfg.
     retE \<lparr>sc_client = NewFromConfig L cfg (ac_EndpointURL sc) (ac_UsePathStyle sc) (ac_Checksum sc), sc_bucket = ac_Bucket sc\<rparr>)"

subsection \<open>SetupStorage\<close>

record SetupStorageOpts =
  ss_BaseDir :: string
  ss_SubPath :: string
  ss_S3PartSizeBytes :: "64 word"

record ('k, 'c, 'g, 's) libs =
  lb_ssh :: "('k, 'c, 's) ssh_lib"
  lb_aws :: "('g, 's) aws_lib"
  lb_comp :: complib
  lb_asFile :: "io_reader \<Rightarrow> ((gerr + 64 word) \<times> gerr option) option"

definition getWriteExt :: "Config \<Rightarrow> string" where
  "getWriteExt c =
     (let ea = en_Algo (sg_Encryption (cf_Storage c)); ca = sg_CompressionAlgo (cf_Storage c);
          enc = (if ea \<noteq> '''' \<and> ea = RepoEncryptorAes256Gcm then ''.aes'' else '''');
          com = (if ca \<noteq> '''' then
                   (if ca = RepoCompressorGzip then ''.gz'' else if ca = RepoCompressorZstd then ''.zst'' else '''')
                 else '''')
      in com @ enc)"

definition storage_algs :: "('k, 'c, 'g, 's) libs \<Rightarrow> Config \<Rightarrow> Algorithms" where
  "storage_algs L c = \<lparr>Gzip = Some (GzipCompressor (lb_comp L), GzipDecompressor (lb_comp L)),
     Zstd = Some (ZstdCompressor (lb_comp L), ZstdDecompressor (lb_comp L)),
     AES = Some (NewChunkedGCMCrypter (en_Pass (sg_Encryption (cf_Storage c))))\<rparr>"

definition sftp_settings_of :: "Config \<Rightarrow> sftp_settings" where
  "sftp_settings_of c = (let sf = sg_SFTP (cf_Storage c) in
     \<lparr>xc_Host = sf_Host sf, xc_Port = fmt_d (sf_Port sf), xc_User = sf_User sf,
      xc_PkeyPath = sf_PKeyPath sf, xc_Passphrase = sf_PKeyPass sf\<rparr>)"

definition s3_settings_of :: "Config \<Rightarrow> s3_settings" where
  "s3_settings_of c = (let s3 = sg_S3 (cf_Storage c) in
     \<lparr>ac_EndpointURL = s3_URL s3, ac_AccessKeyID = s3_AccessKeyID s3, ac_SecretAccessKey = s3_SecretAccessKey s3,
      ac_Bucket = s3_Bucket s3, ac_Region = s3_Region s3, ac_UsePathStyle = s3_UsePathStyle s3,
      ac_DisableSSL = s3_DisableSSL s3, ac_Checksum = 0\<rparr>)"

definition storage_dir :: "SetupStorageOpts \<Rightarrow> string" where
  "storage_dir opts = (if trim_space (ss_SubPath opts) \<noteq> '''' then filepath_Join [ss_BaseDir opts, ss_SubPath opts] else ss_BaseDir opts)"

definition SetupStorage ::
    "('k, 'c, 'g, 'a world_scheme) libs \<Rightarrow> (string \<Rightarrow> int) \<Rightarrow> cfg_globals \<Rightarrow> SetupStorageOpts
      \<Rightarrow> ('a world_scheme, 'a world_scheme VariadicStorage) m" where
  "SetupStorage L modTime g opts =
     bindE (liftE (Cfg g)) (\<lambda>c.
       let alg = storage_algs L c; writeExt = getWriteExt c; baseDir = storage_dir opts; st = cf_Storage c in
       if IsLocalStor c then
         (if ss_SubPath opts = '''' then throwE (EMsg ''for localfs storage subpath is required'')
          else bindE (NewLocal \<lparr>lo_BaseDir = baseDir, lo_FsyncOnWrite = True\<rparr>) (\<lambda>backend.
            liftE (NewVariadicStorage (local_storage backend modTime) alg writeExt)))
       else if equal_fold (sg_Name st) StorageNameSFTP then
         bindE (NewSFTPClient (lb_ssh L) (sftp_settings_of c)) (\<lambda>client.
           liftE (NewVariadicStorage (sftp_storage (NewSFTPStorage client (filepath_Join [sf_BaseDir (sg_SFTP st), baseDir]))) alg writeExt))
       else if equal_fold (sg_Name st) StorageNameS3 then
         bindE (NewS3Client (lb_aws L) (s3_settings_of c)) (\<lambda>client.
           liftE (NewVariadicStorage (s3_storage (NewS3StorageWithOptions (sc_client client) (lb_asFile L) (s3_Bucket (sg_S3 st)) baseDir
             \<lparr>so_PartSizeBytes = ss_S3PartSizeBytes opts, so_Concurrency = 0\<rparr>)) alg writeExt))
       else throwE (EMsg (''unknown storage name: '' @ sg_Name st)))"

subsection \<open>Loading the configuration (cmd/conf.go)\<close>

text \<open>What is printed is the rendering (\<open>json\<close>, a parameter) of the redacted copy of the loaded configuration.\<close>

definition cfg_String :: "(Config \<Rightarrow> gerr + string) \<Rightarrow> cfg_globals \<Rightarrow> string" where
  "cfg_String json g = (case json (RedactedCopy (g_config g)) of Inl e \<Rightarrow> '''' | Inr b \<Rightarrow> b)"

definition LoadConfig :: "cfg_env \<Rightarrow> (Config \<Rightarrow> gerr + string) \<Rightarrow> string \<Rightarrow> string \<Rightarrow> cfg_globals
    \<Rightarrow> (gerr + Config option) \<times> string \<times> cfg_globals" where
  "LoadConfig ce json configPath mode g =
     (case (if configPath \<noteq> '''' then FromFile ce configPath mode g else FromEnvs ce mode g) of
        (Inl e, g) \<Rightarrow> (Inl e, '''', g)
      | (Inr cfg, g) \<Rightarrow>
          (Inr cfg, ''STARTING WITH CONFIGURATION ('' @ configPath @ ''):'' @ [CHR 0x0A] @ cfg_String json g @ [CHR 0x0A, CHR 0x0A], g))"

definition CheckPgEnvsAreSet :: "(string \<Rightarrow> string) \<Rightarrow> ('a world_scheme, unit) m" where
  "CheckPgEnvsAreSet getenv =
     (let pgPassFile = getenv ''PGPASSFILE'';
          emptyEnvs = filter (\<lambda>name. getenv name = '''') [''PGHOST'', ''PGPORT'', ''PGUSER''];
          emptyEnvs = (if getenv ''PGPASSWORD'' = '''' \<and> pgPassFile = '''' then emptyEnvs @ [''PGPASSWORD or PGPASSFILE''] else emptyEnvs)
      in if emptyEnvs \<noteq> [] then
           throwE (EMsg (''[FATAL] receive: required env vars are empty: ['' @ join_with '' '' emptyEnvs @ '']''))
         else if pgPassFile \<noteq> '''' then
           bindE (tryE (os_Stat (filepath_Clean pgPassFile))) (\<lambda>r.
             if r = Inl ENotExist then throwE (EMsg (''[FATAL] PGPASSFILE does not exist: '' @ pgPassFile)) else retE ())
         else retE ())"

end
