(* ===== verification/SetupSpec.thy ===== *)
theory SetupSpec
  imports Setup
begin

section \<open>A configuration that was accepted starts\<close>

subsection \<open>What the checks establish\<close>

lemma complain_Nil [simp]: "complain b msg errs = [] \<longleftrightarrow> \<not> b \<and> errs = []"
  by (simp add: complain_def)

lemma checkReceiver_storage: "checkReceiverConfig frac mode (c, errs) = (c', errs') \<Longrightarrow> cf_Storage c' = cf_Storage c"
  by (auto simp: checkReceiverConfig_def Let_def split: if_splits sum.splits prod.splits)

lemma checkRetention_storage: "checkRetentionConfig frac (c, errs) = (c', errs') \<Longrightarrow> cf_Storage c' = cf_Storage c"
  by (auto simp: checkRetentionConfig_def Let_def split: if_splits sum.splits prod.splits)

lemma validate_ok:
  assumes "validate frac c0 mode = (None, c)"
  shows "checkStorageConfig c [] = [] \<and> checkStorageModifiersConfig c [] = [] \<and> cf_Storage c = cf_Storage c0"
proof -
  let ?e0 = "checkMainConfig c0 (checkMode mode [])"
  obtain c1 e1 where 1: "checkReceiverConfig frac mode (c0, ?e0) = (c1, e1)" by force
  obtain c2 e2 where 2: "checkRetentionConfig frac (c1, e1) = (c2, e2)" by force
  have c: "c2 = c" and e: "checkBackupConfig c (checkStorageModifiersConfig c (checkStorageConfig c (checkLogConfig c e2))) = []"
    using assms 1 2 by (auto simp: validate_def Let_def split: if_splits)
  have "checkStorageModifiersConfig c (checkStorageConfig c (checkLogConfig c e2)) = []"
    using e by (simp add: checkBackupConfig_def)
  then have m: "checkStorageModifiersConfig c [] = []" and s: "checkStorageConfig c (checkLogConfig c e2) = []"
    by (auto simp: checkStorageModifiersConfig_def Let_def split: if_splits)
  from s have "checkStorageConfig c [] = []"
    by (auto simp: checkStorageConfig_def checkS3_def checkSFTP_def Let_def split: if_splits)
  with m 1 2 c show ?thesis by (simp add: checkReceiver_storage checkRetention_storage)
qed

definition known_storage :: "Config \<Rightarrow> bool" where
  "known_storage c = (sg_Name (cf_Storage c) \<in> set ['''', StorageNameLocalFS, StorageNameS3, StorageNameSFTP])"

lemma checkStorage_known: "checkStorageConfig c [] = [] \<Longrightarrow> known_storage c"
  by (auto simp: checkStorageConfig_def known_storage_def Let_def split: if_splits)

text \<open>The extension the operator asked for.\<close>

definition asked_ext :: "Config \<Rightarrow> string" where
  "asked_ext c = (case sg_CompressionAlgo (cf_Storage c) of [] \<Rightarrow> '''' | a # as \<Rightarrow> if a # as = ''gzip'' then ''.gz'' else ''.zst'') @
     (if en_Algo (sg_Encryption (cf_Storage c)) = '''' then '''' else ''.aes'')"

lemma getWriteExt_asked: "checkStorageModifiersConfig c [] = [] \<Longrightarrow> getWriteExt c = asked_ext c"
  by (auto simp: checkStorageModifiersConfig_def getWriteExt_def asked_ext_def Let_def RepoCompressorGzip_def RepoCompressorZstd_def
      RepoEncryptorAes256Gcm_def split: if_splits list.split)

lemma isSupported_getWriteExt: "isSupportedWriteExt (storage_algs L c) (getWriteExt c)"
  by (simp add: isSupportedWriteExt_def storage_algs_def getWriteExt_def Let_def)

lemma NewVariadic_asked:
  "NewVariadicStorage b (storage_algs L c) (getWriteExt c) = Inr \<lparr>Backend = b, alg = storage_algs L c, writeExt = getWriteExt c\<rparr>"
  by (simp add: NewVariadicStorage_def isSupported_getWriteExt)

lemma wp_self: "wp f (\<lambda>x t. f s = (Inr x, t)) (\<lambda>e t. f s = (Inl e, t)) s"
  by (auto simp: wp_def split: prod.split sum.split)

lemma storage_names [simp]:
  "StorageNameLocalFS = ''local''" "StorageNameS3 = ''s3''" "StorageNameSFTP = ''sftp''"
  by (simp_all add: StorageNameLocalFS_def StorageNameS3_def StorageNameSFTP_def)

text \<open>Where a failure of \<open>SetupStorage\<close> comes from: opening the configured backend.\<close>

definition open_fails :: "('k, 'c, 'g, 'a world_scheme) libs \<Rightarrow> Config \<Rightarrow> SetupStorageOpts \<Rightarrow> gerr \<Rightarrow> 'a world_scheme \<Rightarrow> 'a world_scheme \<Rightarrow> bool" where
  "open_fails L c opts e s t =
     (if sg_Name (cf_Storage c) = ''s3'' then NewS3Client (lb_aws L) (s3_settings_of c) s = (Inl e, t)
      else if sg_Name (cf_Storage c) = ''sftp'' then NewSFTPClient (lb_ssh L) (sftp_settings_of c) s = (Inl e, t)
      else NewLocal \<lparr>lo_BaseDir = storage_dir opts, lo_FsyncOnWrite = True\<rparr> s = (Inl e, t))"

lemma SetupStorage_wp:
  assumes k: "known_storage c" and g: "g_config g = Some c" and sp: "ss_SubPath opts \<noteq> ''''"
  shows "wp (SetupStorage L mt g opts)
     (\<lambda>vs t. writeExt vs = getWriteExt c \<and> alg vs = storage_algs L c)
     (\<lambda>e t. open_fails L c opts e s t) s"
proof -
  have n: "sg_Name (cf_Storage c) = '''' \<or> sg_Name (cf_Storage c) = ''local'' \<or> sg_Name (cf_Storage c) = ''s3'' \<or> sg_Name (cf_Storage c) = ''sftp''"
    using k by (auto simp: known_storage_def)
  have loc: "IsLocalStor c \<longleftrightarrow> sg_Name (cf_Storage c) = '''' \<or> sg_Name (cf_Storage c) = ''local''"
    using n by (elim disjE) (simp_all add: IsLocalStor_def go_defs)
  have fold: "sg_Name (cf_Storage c) = ''s3'' \<Longrightarrow> \<not> equal_fold (sg_Name (cf_Storage c)) ''sftp''"
    by (simp add: go_defs)
  consider "IsLocalStor c" | "\<not> IsLocalStor c" "sg_Name (cf_Storage c) = ''s3''" | "\<not> IsLocalStor c" "sg_Name (cf_Storage c) = ''sftp''"
    using n loc by blast
  then show ?thesis
  proof cases
    case 1
    have "wp (NewLocal \<lparr>lo_BaseDir = storage_dir opts, lo_FsyncOnWrite = True\<rparr>) (\<lambda>x t. True) (\<lambda>e t. open_fails L c opts e s t) s"
      by (rule wp_conseq [OF wp_self]) (use 1 loc in \<open>auto simp: open_fails_def\<close>)
    then show ?thesis using 1 g sp
      by (simp add: SetupStorage_def Cfg_def Let_def NewVariadic_asked)
  next
    case 2
    have "wp (NewS3Client (lb_aws L) (s3_settings_of c)) (\<lambda>x t. True) (\<lambda>e t. open_fails L c opts e s t) s"
      by (rule wp_conseq [OF wp_self]) (use 2 in \<open>auto simp: open_fails_def\<close>)
    then show ?thesis using 2 g sp fold
      by (simp add: SetupStorage_def Cfg_def Let_def NewVariadic_asked) (simp add: go_defs)
  next
    case 3
    have "wp (NewSFTPClient (lb_ssh L) (sftp_settings_of c)) (\<lambda>x t. True) (\<lambda>e t. open_fails L c opts e s t) s"
      by (rule wp_conseq [OF wp_self]) (use 3 in \<open>auto simp: open_fails_def\<close>)
    then show ?thesis using 3 g sp
      by (simp add: SetupStorage_def Cfg_def Let_def NewVariadic_asked) (simp add: go_defs)
  qed
qed

subsection \<open>Loading\<close>

lemma LoadConfig_fresh:
  assumes "LoadConfig ce json path mode g0 = (Inr r, out, g)" and "\<not> g_once g0"
  shows "\<exists>c c0. r = Some c \<and> g_config g = Some c \<and> validate (ce_frac ce) c0 mode = (None, c)"
  using assms
  by (auto simp: LoadConfig_def FromFile_def FromEnvs_def cfg_result_def Let_def split: if_splits sum.splits prod.splits option.splits)

text \<open>C14: a loaded configuration does not go wrong.  When \<open>LoadConfig\<close> accepts a configuration (the first load of
  the process), setting up a storage from it never meets an unknown storage or an unsupported extension: the only
  way to fail is that the configured backend cannot be opened, with that error.  A storage that is set up writes
  with the compression and the encryption that were asked for, and when encryption was asked for, under a password
  that is not empty.\<close>

theorem loaded_config_starts:
  assumes ld: "LoadConfig ce json path mode g0 = (Inr r, out, g)" and fr: "\<not> g_once g0"
    and sp: "ss_SubPath opts \<noteq> ''''"
  shows "\<exists>c. r = Some c \<and> wp (SetupStorage L mt g opts)
     (\<lambda>vs t. writeExt vs = asked_ext c \<and>
        (en_Algo (sg_Encryption (cf_Storage c)) \<noteq> '''' \<longrightarrow>
           (\<exists>cr. AES (alg vs) = Some cr \<and> Password cr = en_Pass (sg_Encryption (cf_Storage c)) \<and> Password cr \<noteq> '''')))
     (\<lambda>e t. open_fails L c opts e s t) s"
proof -
  obtain c c0 where r: "r = Some c" and g: "g_config g = Some c" and v: "validate (ce_frac ce) c0 mode = (None, c)"
    using LoadConfig_fresh [OF ld fr] by blast
  have m: "checkStorageModifiersConfig c [] = []" using validate_ok [OF v] by simp
  have p: "en_Algo (sg_Encryption (cf_Storage c)) \<noteq> '''' \<Longrightarrow> en_Pass (sg_Encryption (cf_Storage c)) \<noteq> ''''"
    using m by (auto simp: checkStorageModifiersConfig_def Let_def split: if_splits)
  have "known_storage c" using validate_ok [OF v] checkStorage_known by blast
  from SetupStorage_wp [OF this g sp]
  have "wp (SetupStorage L mt g opts)
     (\<lambda>vs t. writeExt vs = asked_ext c \<and>
        (en_Algo (sg_Encryption (cf_Storage c)) \<noteq> '''' \<longrightarrow>
           (\<exists>cr. AES (alg vs) = Some cr \<and> Password cr = en_Pass (sg_Encryption (cf_Storage c)) \<and> Password cr \<noteq> '''')))
     (\<lambda>e t. open_fails L c opts e s t) s"
    by (rule wp_conseq) (use getWriteExt_asked [OF m] p in \<open>simp_all add: storage_algs_def NewChunkedGCMCrypter_def\<close>)
  with r show ?thesis by blast
qed

subsection \<open>What is printed\<close>

text \<open>A configuration without its secrets, and which of them are set.\<close>

definition erase_secrets :: "Config \<Rightarrow> Config" where
  "erase_secrets c =
     (let st = cf_Storage c in
      c\<lparr>cf_Storage := st\<lparr>sg_Encryption := (sg_Encryption st)\<lparr>en_Pass := ''''\<rparr>,
          sg_SFTP := (sg_SFTP st)\<lparr>sf_Pass := '''', sf_PKeyPass := ''''\<rparr>,
          sg_S3 := (sg_S3 st)\<lparr>s3_SecretAccessKey := ''''\<rparr>\<rparr>\<rparr>)"

definition secrets :: "Config \<Rightarrow> string list" where
  "secrets c = (let st = cf_Storage c in
     [en_Pass (sg_Encryption st), sf_Pass (sg_SFTP st), sf_PKeyPass (sg_SFTP st), s3_SecretAccessKey (sg_S3 st)])"

lemma redacted_public:
  assumes "erase_secrets c = erase_secrets d" and "map (\<lambda>p. p = '''') (secrets c) = map (\<lambda>p. p = '''') (secrets d)"
  shows "redacted c = redacted d"
proof -
  obtain m1 rc1 mt1 lg1 st1 pp1 bc1 rt1 where c: "c = \<lparr>cf_Main = m1, cf_Receiver = rc1, cf_MetricsEnable = mt1, cf_Log = lg1,
      cf_Storage = st1, cf_PprofEnable = pp1, cf_BackupCron = bc1, cf_Retention = rt1\<rparr>" by (cases c)
  obtain m2 rc2 mt2 lg2 st2 pp2 bc2 rt2 where d: "d = \<lparr>cf_Main = m2, cf_Receiver = rc2, cf_MetricsEnable = mt2, cf_Log = lg2,
      cf_Storage = st2, cf_PprofEnable = pp2, cf_BackupCron = bc2, cf_Retention = rt2\<rparr>" by (cases d)
  obtain n1 ca1 en1 sf1 s1 where s1: "st1 = \<lparr>sg_Name = n1, sg_CompressionAlgo = ca1, sg_Encryption = en1, sg_SFTP = sf1, sg_S3 = s1\<rparr>"
    by (cases st1)
  obtain n2 ca2 en2 sf2 s2 where s2: "st2 = \<lparr>sg_Name = n2, sg_CompressionAlgo = ca2, sg_Encryption = en2, sg_SFTP = sf2, sg_S3 = s2\<rparr>"
    by (cases st2)
  show ?thesis using assms
    by (cases en1; cases en2; cases sf1; cases sf2; cases s1; cases s2)
      (auto simp: c d s1 s2 erase_secrets_def secrets_def redacted_def redact_def Let_def split: if_splits)
qed

text \<open>C22: nothing of a secret is printed.  When two environments load configurations that differ only in the
  values of secrets that both set, \<open>LoadConfig\<close> prints the same text in both, whatever the rendering does.\<close>

theorem printed_config_hides_secrets:
  assumes c: "LoadConfig ce json path mode g0 = (Inr (Some c), out, g)"
    and d: "LoadConfig ce' json path mode g0' = (Inr (Some d), out', g')"
    and fr: "\<not> g_once g0" "\<not> g_once g0'"
    and pub: "erase_secrets c = erase_secrets d"
    and set: "map (\<lambda>p. p = '''') (secrets c) = map (\<lambda>p. p = '''') (secrets d)"
  shows "out = out'"
proof -
  have "g_config g = Some c" "g_config g' = Some d" using LoadConfig_fresh [OF c fr(1)] LoadConfig_fresh [OF d fr(2)] by auto
  then have "cfg_String json g = cfg_String json g'"
    using redacted_public [OF pub set] by (simp add: cfg_String_def RedactedCopy_def)
  with c d show ?thesis by (auto simp: LoadConfig_def split: sum.splits prod.splits)
qed

subsection \<open>A concrete environment\<close>

definition demo_cfg :: "string \<Rightarrow> Config" where
  "demo_cfg pw = zero_Config\<lparr>cf_Main := \<lparr>mn_ListenPort = 7070, mn_Directory = ''/wals''\<rparr>, cf_BackupCron := ''0 0 * * *'',
     cf_Storage := (cf_Storage zero_Config)\<lparr>sg_CompressionAlgo := ''gzip'', sg_Encryption := \<lparr>en_Algo = ''aes-256-gcm'', en_Pass = pw\<rparr>\<rparr>\<rparr>"

definition demo_ce :: "string \<Rightarrow> cfg_env" where
  "demo_ce pw = \<lparr>ce_ReadFile = (\<lambda>p. Inl ENotExist), ce_Getenv = (\<lambda>x. ''''), ce_json = (\<lambda>d. Inl (EMsg ''json'')),
     ce_yaml = (\<lambda>d. Inl (EMsg ''yaml'')), ce_process = (None, demo_cfg pw), ce_frac = (\<lambda>f u sc. 0)\<rparr>"

definition demo_g :: cfg_globals where
  "demo_g = \<lparr>g_once = False, g_cfgErr = None, g_config = None, g_Verbose = False\<rparr>"

definition demo_show :: "Config \<Rightarrow> gerr + string" where
  "demo_show c = Inr (en_Pass (sg_Encryption (cf_Storage c)))"

lemma demo_validate: "validate frac (demo_cfg ''pw'') ''serve'' = (None, demo_cfg ''pw'')"
  "validate frac (demo_cfg ''other'') ''serve'' = (None, demo_cfg ''other'')"
  by (simp_all add: validate_def demo_cfg_def zero_Config_def checkMode_def checkMainConfig_def checkReceiverConfig_def
      checkRetentionConfig_def checkLogConfig_def checkStorageConfig_def checkStorageModifiersConfig_def checkBackupConfig_def
      complain_def modes_def ModeReceive_def ModeServe_def ModeBackupCMD_def ModeRestoreCMD_def RepoCompressorGzip_def
      RepoEncryptorAes256Gcm_def go_defs)

lemma demo_load:
  assumes "pw = ''pw'' \<or> pw = ''other''"
  shows "LoadConfig (demo_ce pw) demo_show '''' ''serve'' demo_g =
     (Inr (Some (demo_cfg pw)), ''STARTING WITH CONFIGURATION ():'' @ [CHR 0x0A] @ ''[REDACTED]'' @ [CHR 0x0A, CHR 0x0A],
      \<lparr>g_once = True, g_cfgErr = None, g_config = Some (demo_cfg pw), g_Verbose = False\<rparr>)"
  using assms
  by (elim disjE)
    (simp_all add: LoadConfig_def FromEnvs_def demo_ce_def demo_validate cfg_result_def demo_g_def cfg_String_def RedactedCopy_def
      redacted_def demo_show_def, simp_all add: demo_cfg_def zero_Config_def redact_def go_defs)

lemma demo_fresh: "\<not> g_once demo_g"
  by (simp add: demo_g_def)

theorem loaded_config_starts_witness:
  "\<forall>(L :: (nat, nat, nat, world) libs) mt s. \<exists>c. Some (demo_cfg ''pw'') = Some c \<and>
     wp (SetupStorage L mt \<lparr>g_once = True, g_cfgErr = None, g_config = Some (demo_cfg ''pw''), g_Verbose = False\<rparr>
          \<lparr>ss_BaseDir = ''/wals'', ss_SubPath = ''wal-archive'', ss_S3PartSizeBytes = 16777216\<rparr>)
     (\<lambda>vs t. writeExt vs = asked_ext c \<and>
        (en_Algo (sg_Encryption (cf_Storage c)) \<noteq> '''' \<longrightarrow>
           (\<exists>cr. AES (alg vs) = Some cr \<and> Password cr = en_Pass (sg_Encryption (cf_Storage c)) \<and> Password cr \<noteq> '''')))
     (\<lambda>e t. open_fails L c \<lparr>ss_BaseDir = ''/wals'', ss_SubPath = ''wal-archive'', ss_S3PartSizeBytes = 16777216\<rparr> e s t) s"
  by (intro allI, rule loaded_config_starts [OF demo_load [of "''pw''"] demo_fresh]) simp_all

theorem printed_config_hides_secrets_witness:
  "demo_cfg ''pw'' \<noteq> demo_cfg ''other'' \<and>
   fst (snd (LoadConfig (demo_ce ''pw'') demo_show '''' ''serve'' demo_g)) =
   fst (snd (LoadConfig (demo_ce ''other'') demo_show '''' ''serve'' demo_g))"
proof
  have "en_Pass (sg_Encryption (cf_Storage (demo_cfg pw))) = pw" for pw by (simp add: demo_cfg_def)
  from this [of "''pw''"] this [of "''other''"] show "demo_cfg ''pw'' \<noteq> demo_cfg ''other''" by auto
  have l: "LoadConfig (demo_ce pw) demo_show '''' ''serve'' demo_g =
      (Inr (Some (demo_cfg pw)), fst (snd (LoadConfig (demo_ce pw) demo_show '''' ''serve'' demo_g)),
       snd (snd (LoadConfig (demo_ce pw) demo_show '''' ''serve'' demo_g)))" if "pw = ''pw'' \<or> pw = ''other''" for pw
    using demo_load [OF that] by simp
  show "fst (snd (LoadConfig (demo_ce ''pw'') demo_show '''' ''serve'' demo_g)) =
      fst (snd (LoadConfig (demo_ce ''other'') demo_show '''' ''serve'' demo_g))"
    by (rule printed_config_hides_secrets [OF l l demo_fresh demo_fresh])
      (simp_all add: erase_secrets_def secrets_def demo_cfg_def)
qed

end
