(* ===== verification/BackupRun.thy ===== *)
theory BackupRun
  imports World
begin

section \<open>Running base backups (internal/opt/supervisors/backupsv: state.go, runner.go, supervisor.go)\<close>

text \<open>
  The single backup slot, the runner that reserves it, runs the retention and the backup and releases it,
  and the supervisor's entry points.  The runner's state extends the world by the slot and by the context,
  whose error may change at any call.  The retention service and the backup itself are computations given
  to the runner, as in the code.
\<close>

subsection \<open>The slot\<close>

datatype BackupRunStatus = BackupRunIdle | BackupRunRunning | BackupRunSucceeded | BackupRunFailed

record BackupRunState =
  bs_Running :: bool
  bs_Status :: BackupRunStatus
  bs_Source :: string
  bs_StartedAt :: "int option"
  bs_FinishedAt :: "int option"
  bs_LastError :: "gerr option"

definition NewBackupState :: BackupRunState where
  "NewBackupState = \<lparr>bs_Running = False, bs_Status = BackupRunIdle, bs_Source = '''', bs_StartedAt = None,
     bs_FinishedAt = None, bs_LastError = None\<rparr>"

definition Begin :: "int \<Rightarrow> string \<Rightarrow> BackupRunState \<Rightarrow> bool \<times> BackupRunState" where
  "Begin now source s =
     (if bs_Running s then (False, s)
      else (True, \<lparr>bs_Running = True, bs_Status = BackupRunRunning, bs_Source = source, bs_StartedAt = Some now,
                   bs_FinishedAt = None, bs_LastError = None\<rparr>))"

definition Finish :: "int \<Rightarrow> BackupRunStatus \<Rightarrow> gerr option \<Rightarrow> BackupRunState \<Rightarrow> BackupRunState" where
  "Finish now status errMsg s = s\<lparr>bs_Running := False, bs_Status := status, bs_FinishedAt := Some now, bs_LastError := errMsg\<rparr>"

definition Snapshot :: "BackupRunState \<Rightarrow> BackupRunState" where
  "Snapshot s = s"

subsection \<open>The runner\<close>

record backupsv = world +
  bk_state :: BackupRunState
  bk_ctx :: "nat \<Rightarrow> gerr option"

definition ErrBackupAlreadyRunning :: gerr where
  "ErrBackupAlreadyRunning = EMsg ''basebackup is already running''"

text \<open>\<open>ctx.Err()\<close>.\<close>

definition ctx_check :: "('a backupsv_scheme, unit) m" where
  "ctx_check s = (case bk_ctx s (w_tick s) of Some e \<Rightarrow> Inl e | None \<Rightarrow> Inr (), s\<lparr>w_tick := Suc (w_tick s)\<rparr>)"

definition reserve :: "string \<Rightarrow> ('a backupsv_scheme, BackupRunState) m" where
  "reserve source =
     thenE ctx_check
    (bindE time_Now (\<lambda>now.
     bindE (getE (\<lambda>s. Begin now source (bk_state s))) (\<lambda>(ok, st).
       if \<not> ok then throwE ErrBackupAlreadyRunning
       else thenE (modE (\<lambda>s. s\<lparr>bk_state := st\<rparr>)) (getE (\<lambda>s. Snapshot (bk_state s))))))"

definition finishRun :: "BackupRunStatus \<Rightarrow> gerr option \<Rightarrow> ('a backupsv_scheme, unit) m" where
  "finishRun status e = bindE time_Now (\<lambda>now. modE (\<lambda>s. s\<lparr>bk_state := Finish now status e (bk_state s)\<rparr>))"

text \<open>\<open>recover\<close>: a panic becomes an error, an exit does not return.\<close>

definition recovered :: "gerr \<Rightarrow> gerr" where
  "recovered e = (case e of EPanic m \<Rightarrow> EMsg (''basebackup panicked: '' @ m) | _ \<Rightarrow> e)"

definition runBody :: "('a backupsv_scheme, unit) m \<Rightarrow> ('a backupsv_scheme, unit) m \<Rightarrow> ('a backupsv_scheme, unit) m" where
  "runBody retention create =
     thenE (wrapE ''retention before basebackup'' retention)
    (thenE ctx_check (wrapE ''create basebackup'' create))"

definition runReserved :: "('a backupsv_scheme, unit) m \<Rightarrow> ('a backupsv_scheme, unit) m \<Rightarrow> ('a backupsv_scheme, unit) m" where
  "runReserved retention create s =
     (case runBody retention create s of
        (Inl (EExit n), t) \<Rightarrow> (Inl (EExit n), t)
      | (Inl e, t) \<Rightarrow> thenE (finishRun BackupRunFailed (Some (recovered e))) (throwE (recovered e)) t
      | (Inr _, t) \<Rightarrow> finishRun BackupRunSucceeded None t)"

definition runner_Run :: "('a backupsv_scheme, unit) m \<Rightarrow> ('a backupsv_scheme, unit) m \<Rightarrow> string \<Rightarrow> ('a backupsv_scheme, unit) m" where
  "runner_Run retention create source = bindE (reserve source) (\<lambda>_. runReserved retention create)"

text \<open>\<open>StartAsync\<close> reserves the slot; the run itself is a separate computation, started only when that succeeded.\<close>

definition StartAsync :: "string \<Rightarrow> ('a backupsv_scheme, BackupRunState) m" where
  "StartAsync source = reserve source"

subsection \<open>The supervisor\<close>

record BackupSupervisorOpts =
  bo_Directory :: string
  bo_WalSegSz :: "64 word"
  bo_hasBasebackupStor :: bool
  bo_hasWalStor :: bool
  bo_hasCfg :: bool

definition checkOpts :: "BackupSupervisorOpts option \<Rightarrow> gerr + unit" where
  "checkOpts opts =
     (case opts of
        None \<Rightarrow> Inl (EMsg ''backup-supervisor, opts cannot be nil'')
      | Some x \<Rightarrow>
          if bo_Directory x = '''' then Inl (EMsg ''backup-supervisor, opts.Directory cannot be empty'')
          else if bo_WalSegSz x = 0 then Inl (EMsg ''backup-supervisor, opts.WalSegSz cannot be 0'')
          else if \<not> bo_hasBasebackupStor x then Inl (EMsg ''backup-supervisor, opts.BasebackupStor cannot be nil'')
          else if \<not> bo_hasWalStor x then Inl (EMsg ''backup-supervisor, opts.WalStor cannot be nil'')
          else if \<not> bo_hasCfg x then Inl (EMsg ''backup-supervisor, opts.Cfg cannot be nil'')
          else Inr ())"

definition default_source :: "string \<Rightarrow> string" where
  "default_source source = (if source = '''' then ''manual'' else source)"

definition Trigger :: "('a backupsv_scheme, unit) m \<Rightarrow> ('a backupsv_scheme, unit) m \<Rightarrow> string \<Rightarrow> ('a backupsv_scheme, unit) m" where
  "Trigger retention create source = runner_Run retention create (default_source source)"

definition TriggerAsync :: "string \<Rightarrow> ('a backupsv_scheme, BackupRunState) m" where
  "TriggerAsync source = StartAsync (default_source source)"

definition BackupStatus :: "'a backupsv_scheme \<Rightarrow> BackupRunState" where
  "BackupStatus s = Snapshot (bk_state s)"

datatype run_log = LogStopped | LogSkipped | LogFailed gerr

definition handleRunError :: "gerr \<Rightarrow> run_log" where
  "handleRunError e =
     (if errors_Is e ECanceled \<or> errors_Is e EDeadlineExceeded then LogStopped
      else if errors_Is e ErrBackupAlreadyRunning then LogSkipped
      else LogFailed e)"

text \<open>A scheduled run: its errors are logged and do not stop the scheduler.\<close>

definition cron_job :: "('a backupsv_scheme, unit) m \<Rightarrow> ('a backupsv_scheme, unit) m \<Rightarrow> ('a backupsv_scheme, run_log option) m" where
  "cron_job retention create =
     bindE (tryE (runner_Run retention create ''cron'')) (\<lambda>r.
       case r of Inl e \<Rightarrow> retE (Some (handleRunError e)) | Inr _ \<Rightarrow> retE None)"

subsection \<open>The contract of the slot\<close>

text \<open>What the runners rely on: reserving succeeds exactly when the slot is free and takes it, releasing frees it.\<close>

locale backup_slot =
  fixes reserve_slot :: "int \<Rightarrow> string \<Rightarrow> 's \<Rightarrow> bool \<times> 's"
    and release_slot :: "int \<Rightarrow> BackupRunStatus \<Rightarrow> gerr option \<Rightarrow> 's \<Rightarrow> 's"
    and busy :: "'s \<Rightarrow> bool"
  assumes begin_free: "\<not> busy s \<Longrightarrow> fst (reserve_slot now src s) \<and> busy (snd (reserve_slot now src s))"
    and begin_busy: "busy s \<Longrightarrow> reserve_slot now src s = (False, s)"
    and finish_frees: "\<not> busy (release_slot now st e s)"

text \<open>All interleavings of runners that follow the protocol: the state of the slot and the runners that hold it.\<close>

inductive slot_step :: "(int \<Rightarrow> string \<Rightarrow> 's \<Rightarrow> bool \<times> 's) \<Rightarrow> (int \<Rightarrow> BackupRunStatus \<Rightarrow> gerr option \<Rightarrow> 's \<Rightarrow> 's) \<Rightarrow>
    's \<times> nat list \<Rightarrow> 's \<times> nat list \<Rightarrow> bool" for beg fin where
  reserved: "beg now src s = (True, t) \<Longrightarrow> slot_step beg fin (s, rs) (t, r # rs)"
| refused: "beg now src s = (False, t) \<Longrightarrow> slot_step beg fin (s, rs) (t, rs)"
| released: "r \<in> set rs \<Longrightarrow> slot_step beg fin (s, rs) (fin now st e s, remove1 r rs)"

inductive_cases slot_stepE: "slot_step beg fin (s, rs) (t, rs')"

context backup_slot
begin

lemma slot_exclusive:
  assumes "(slot_step reserve_slot release_slot)\<^sup>*\<^sup>* (s, []) (t, rs)" and "\<not> busy s"
  shows "length rs \<le> 1 \<and> (busy t \<longleftrightarrow> rs \<noteq> [])"
  using assms
proof (induction "(t, rs)" arbitrary: t rs rule: rtranclp_induct)
  case (step y)
  obtain u us where y: "y = (u, us)" by (cases y)
  have i: "length us \<le> 1" "busy u \<longleftrightarrow> us \<noteq> []" using step.hyps(3) [OF y] step.prems by auto
  from step.hyps(2)[unfolded y] show ?case
  proof (rule slot_stepE)
    fix now src r assume "reserve_slot now src u = (True, t)" "rs = r # us"
    then show ?thesis using i begin_busy [of u now src] begin_free [of u now src] by (cases "busy u") auto
  next
    fix now src assume "reserve_slot now src u = (False, t)" "rs = us"
    then show ?thesis using i begin_busy [of u now src] begin_free [of u now src] by (cases "busy u") auto
  next
    fix r now st e assume "r \<in> set us" "t = release_slot now st e u" "rs = remove1 r us"
    then show ?thesis using i(1) finish_frees by (cases us) auto
  qed
qed simp

end

interpretation slot: backup_slot Begin Finish bs_Running
  by unfold_locales (auto simp: Begin_def Finish_def)

subsection \<open>Properties\<close>

text \<open>C21: The backup slot is exclusive. In every interleaving of any number of runners (cron, REST, CLI) that reserve the slot with Begin before working and release it with Finish, at most one runner holds the slot at a time, and the state says Running exactly while one does.\<close>
theorem slot_one_holder:
  assumes "(slot_step Begin Finish)\<^sup>*\<^sup>* (NewBackupState, []) (t, rs)"
  shows "length rs \<le> 1 \<and> (bs_Running t \<longleftrightarrow> rs \<noteq> [])"
  by (rule slot.slot_exclusive [OF assms]) (simp add: NewBackupState_def)

theorem slot_one_holder_witness:
  "(let t = Finish 7 BackupRunFailed (Some ECanceled) (snd (Begin 5 ''cron'' NewBackupState))
    in length ([] :: nat list) \<le> 1 \<and> (bs_Running t \<longleftrightarrow> ([] :: nat list) \<noteq> []))"
proof -
  let ?a = "snd (Begin 5 ''cron'' NewBackupState)"
  have "slot_step Begin Finish (NewBackupState, []) (?a, [3])"
    by (rule slot_step.reserved [of _ 5 "''cron''"]) (simp add: Begin_def NewBackupState_def)
  moreover have "slot_step Begin Finish (?a, [3]) (?a, [3])"
    by (rule slot_step.refused [of _ 6 "''manual''"]) (simp add: Begin_def NewBackupState_def)
  moreover have "slot_step Begin Finish (?a, [3]) (Finish 7 BackupRunFailed (Some ECanceled) ?a, [])"
    using slot_step.released [of 3 "[3]" Begin Finish ?a 7 BackupRunFailed "Some ECanceled"] by simp
  ultimately have "(slot_step Begin Finish)\<^sup>*\<^sup>* (NewBackupState, [])
      (Finish 7 BackupRunFailed (Some ECanceled) ?a, [])" by auto
  from slot_one_holder [OF this] show ?thesis by (simp only: Let_def)
qed

text \<open>A computation that does not touch the slot, as the retention and the backup.\<close>

abbreviation keeps_slot :: "('a backupsv_scheme, unit) m \<Rightarrow> bool" where
  "keeps_slot \<equiv> keeps bk_state"

lemma keeps_slot_ctx [keeps_intros]: "keeps_slot ctx_check"
  by (simp add: keeps_def ctx_check_def)

lemma keeps_slot_runBody: "keeps_slot retention \<Longrightarrow> keeps_slot create \<Longrightarrow> keeps_slot (runBody retention create)"
  unfolding runBody_def by (intro keeps_intros)

lemma finishRun_eq:
  "finishRun st e s = (Inr (), s\<lparr>w_tick := Suc (w_tick s), bk_state := Finish (w_clock s (w_tick s)) st e (bk_state s)\<rparr>)"
  by (simp add: finishRun_def bindE_def time_Now_def modE_def)

definition run_ended :: "BackupRunState \<Rightarrow> string \<Rightarrow> gerr + unit \<Rightarrow> BackupRunState \<Rightarrow> bool" where
  "run_ended b source r t =
     (case r of
        Inr _ \<Rightarrow> \<not> bs_Running t \<and> bs_Status t = BackupRunSucceeded \<and> bs_Source t = source \<and> bs_LastError t = None
      | Inl (EExit n) \<Rightarrow> True
      | Inl (EPanic m) \<Rightarrow> False
      | Inl e \<Rightarrow> t = b \<or> \<not> bs_Running t \<and> bs_Status t = BackupRunFailed \<and> bs_Source t = source \<and> bs_LastError t = Some e)"

lemma reserve_cases:
  "reserve source s =
     (case bk_ctx s (w_tick s) of
        Some e \<Rightarrow> (Inl e, s\<lparr>w_tick := Suc (w_tick s)\<rparr>)
      | None \<Rightarrow>
          let t = s\<lparr>w_tick := Suc (Suc (w_tick s))\<rparr>;
              r = Begin (w_clock s (Suc (w_tick s))) source (bk_state s)
          in if fst r then (Inr (snd r), t\<lparr>bk_state := snd r\<rparr>) else (Inl ErrBackupAlreadyRunning, t))"
  by (simp add: reserve_def thenE_def bindE_def ctx_check_def time_Now_def getE_def modE_def throwE_def
      Snapshot_def split: option.splits prod.splits)

lemma runReserved_ended:
  assumes k: "keeps_slot retention" "keeps_slot create" and run: "runReserved retention create s = (r, t)"
  shows "run_ended b (bs_Source (bk_state s)) r (bk_state t)"
proof -
  obtain q u where b: "runBody retention create s = (q, u)" by fastforce
  have u: "bk_state u = bk_state s"
    using keepsD [OF keeps_slot_runBody [OF k] b] .
  show ?thesis
  proof (cases q)
    case (Inr x)
    with run b u show ?thesis
      by (auto simp: runReserved_def finishRun_eq run_ended_def Finish_def)
  next
    case (Inl e)
    with run b u show ?thesis
      by (cases e) (auto simp: runReserved_def finishRun_eq run_ended_def Finish_def recovered_def
          thenE_def bindE_def throwE_def)
  qed
qed

text \<open>C20: A run always gives the slot back. Whatever the retention and the backup do, errors and panics included, BackupRunner.Run from a free slot ends with the slot free again and the state recording how it ended: succeeded without an error, or failed with the error the caller gets, of the source that asked. Only when reserve itself refuses is the state left as it was. A panic never leaves Run.\<close>
theorem run_releases_slot:
  assumes "keeps_slot retention" and "keeps_slot create" and "\<not> bs_Running (bk_state s)"
    and "\<forall>n m. bk_ctx s n \<noteq> Some (EPanic m)"
  shows "run_ended (bk_state s) source (fst (runner_Run retention create source s))
           (bk_state (snd (runner_Run retention create source s)))"
proof (cases "bk_ctx s (w_tick s)")
  case (Some e)
  with assms(4) show ?thesis
    by (cases e) (auto simp: runner_Run_def bindE_def reserve_cases run_ended_def)
next
  case None
  let ?r = "Begin (w_clock s (Suc (w_tick s))) source (bk_state s)"
  let ?u = "s\<lparr>w_tick := Suc (Suc (w_tick s)), bk_state := snd ?r\<rparr>"
  have f: "fst ?r" and src: "bs_Source (bk_state ?u) = source"
    using assms(3) by (simp_all add: Begin_def)
  have run: "runner_Run retention create source s = runReserved retention create ?u"
    using None f by (simp add: runner_Run_def bindE_def reserve_cases Let_def)
  obtain q t where qt: "runReserved retention create ?u = (q, t)" by fastforce
  from runReserved_ended [OF assms(1,2) qt, of "bk_state s"] show ?thesis
    unfolding run qt src by simp
qed

text \<open>A second backup is refused without any effect. While a backup runs, Run returns ErrBackupAlreadyRunning (or the error of its cancelled context); neither the retention nor the backup is started, and the state of the running backup, its source and start time included, is not touched.\<close>
theorem run_refused:
  assumes "bs_Running (bk_state s)"
  shows "\<exists>e n. runner_Run retention create source s = (Inl e, s\<lparr>w_tick := n\<rparr>) \<and>
           (e = ErrBackupAlreadyRunning \<or> bk_ctx s (w_tick s) = Some e)"
  using assms
  by (cases "bk_ctx s (w_tick s)") (auto simp: runner_Run_def bindE_def reserve_cases Begin_def)

text \<open>A free slot, used to run the theorems on concrete inputs.\<close>

definition demo_bk :: "BackupRunState \<Rightarrow> backupsv" where
  "demo_bk b = \<lparr>w_dir = [], w_ddir = [], w_dirs = [], w_ino = (\<lambda>_. \<lparr>i_data = [], i_sync = []\<rparr>), w_fd = (\<lambda>_. None),
     w_next = 0, w_tick = 0, w_fault = (\<lambda>_. None), w_clock = (\<lambda>n. int n * 10), bk_state = b,
     bk_ctx = (\<lambda>_. None)\<rparr>"

theorem run_releases_slot_witness:
  "run_ended NewBackupState ''cron''
     (fst (runner_Run (retE ()) (throwE (EPanic ''nil map'')) ''cron'' (demo_bk NewBackupState)))
     (bk_state (snd (runner_Run (retE ()) (throwE (EPanic ''nil map'')) ''cron'' (demo_bk NewBackupState))))
   \<and> fst (runner_Run (retE ()) (throwE (EPanic ''nil map'')) ''cron'' (demo_bk NewBackupState)) =
       Inl (EMsg ''basebackup panicked: nil map'')"
proof -
  have a: "bk_state (demo_bk NewBackupState) = NewBackupState" by (simp add: demo_bk_def)
  have k: "keeps_slot (retE ())" "keeps_slot (throwE (EPanic ''nil map''))"
    by (intro keeps_intros)+
  have "fst (runner_Run (retE ()) (throwE (EPanic ''nil map'')) ''cron'' (demo_bk NewBackupState)) =
       Inl (EMsg ''basebackup panicked: nil map'')"
    by (simp add: runner_Run_def bindE_def reserve_cases demo_bk_def NewBackupState_def Begin_def Let_def
        runReserved_def runBody_def thenE_def wrapE_def retE_def throwE_def ctx_check_def wrap_err_def
        finishRun_eq recovered_def)
  moreover have "run_ended NewBackupState ''cron''
     (fst (runner_Run (retE ()) (throwE (EPanic ''nil map'')) ''cron'' (demo_bk NewBackupState)))
     (bk_state (snd (runner_Run (retE ()) (throwE (EPanic ''nil map'')) ''cron'' (demo_bk NewBackupState))))"
    using run_releases_slot [OF k, of "demo_bk NewBackupState" "''cron''"] unfolding a
    by (simp add: NewBackupState_def demo_bk_def)
  ultimately show ?thesis by (rule conjI [rotated])
qed

theorem run_refused_witness:
  "\<exists>e n. runner_Run (retE ()) (retE ()) ''manual'' (demo_bk (snd (Begin 1 ''cron'' NewBackupState)))
       = (Inl e, (demo_bk (snd (Begin 1 ''cron'' NewBackupState)))\<lparr>w_tick := n\<rparr>)
     \<and> (e = ErrBackupAlreadyRunning
        \<or> bk_ctx (demo_bk (snd (Begin 1 ''cron'' NewBackupState))) (w_tick (demo_bk (snd (Begin 1 ''cron'' NewBackupState)))) = Some e)"
  by (rule run_refused) (simp add: demo_bk_def Begin_def NewBackupState_def)

end
