(* ===== verification/Modes.thy ===== *)
theory Modes
  imports SetupSpec BackupRun
begin

section \<open>The daemon's life (cmd/mode\_receive.go, cmd/mode\_serve.go)\<close>

text \<open>
  Both modes start goroutines and then supervise them: the main goroutine waits for a signal or for the error of a
  critical component, cancels the common context, waits for the others and returns.  A state holds the context, the
  channel of errors (capacity one), the phase of each goroutine and of the main one.  The goroutines' own work is in
  the theories of the components; here each of them runs until it returns an error, returns nothing or panics.
  \<open>signal.NotifyContext\<close> and \<open>context.WithCancel\<close> are one flag, since the first is derived from the second.
\<close>

subsection \<open>The supervised goroutines\<close>

datatype main_pc = Waiting | Stopping "gerr option" | Returned "gerr option"

datatype goroutine = Live | Cancelling | Gone

record 't sup =
  su_ctx :: bool
  su_chan :: "gerr option"
  su_go :: "'t \<Rightarrow> goroutine"
  su_main :: main_pc

text \<open>
  The goroutines; for a critical one what its panic and its error are reported as; and whether the wait for the
  others is bounded by a timer.
\<close>

record 't sup_cfg =
  sc_tasks :: "'t list"
  sc_fatal :: "'t \<Rightarrow> (string \<times> string) option"
  sc_timeout :: bool

datatype 't label =
    Signal
  | Ends 't "gerr option"
  | Panics 't string
  | Cancel 't
  | MainCtx
  | MainErr
  | MainDone
  | MainTimeout
  | Idle

text \<open>What a goroutine hands to \<open>sendFatalErr\<close> when it ends or panics; \<open>context.Canceled\<close> is not an error.\<close>

fun task_error :: "'t sup_cfg \<Rightarrow> 't label \<Rightarrow> gerr option" where
  "task_error C (Ends t (Some e)) =
     (if errors_Is e ECanceled then None
      else case sc_fatal C t of None \<Rightarrow> None | Some (pm, em) \<Rightarrow> Some (EWrap em e))"
| "task_error C (Panics t m) = (case sc_fatal C t of None \<Rightarrow> None | Some (pm, em) \<Rightarrow> Some (EMsg (pm @ m)))"
| "task_error C _ = None"

text \<open>\<open>sendFatalErr\<close>, first half: the send that does not block.  The cancellation is the goroutine's next step.\<close>

definition send_err :: "gerr \<Rightarrow> 't sup \<Rightarrow> 't sup" where
  "send_err err s = (case su_chan s of None \<Rightarrow> s\<lparr>su_chan := Some err\<rparr> | Some _ \<Rightarrow> s)"

definition task_ends :: "'t sup_cfg \<Rightarrow> 't \<Rightarrow> 't label \<Rightarrow> 't sup \<Rightarrow> 't sup" where
  "task_ends C t l s =
     (case task_error C l of
        None \<Rightarrow> s\<lparr>su_go := (su_go s)(t := Gone)\<rparr>
      | Some err \<Rightarrow> send_err err (s\<lparr>su_go := (su_go s)(t := Cancelling)\<rparr>))"

text \<open>What the main goroutine returns for the reason it stops: nothing for a cancellation.\<close>

definition run_result :: "gerr option \<Rightarrow> gerr option" where
  "run_result runErr = (case runErr of None \<Rightarrow> None | Some e \<Rightarrow> if errors_Is e ECanceled then None else Some e)"

inductive sup_step :: "'t sup_cfg \<Rightarrow> 't sup \<Rightarrow> 't label \<Rightarrow> 't sup \<Rightarrow> bool" for C where
  signal: "sup_step C s Signal (s\<lparr>su_ctx := True\<rparr>)"
| returns: "t \<in> set (sc_tasks C) \<Longrightarrow> su_go s t = Live \<Longrightarrow> sup_step C s (Ends t r) (task_ends C t (Ends t r) s)"
| panics: "t \<in> set (sc_tasks C) \<Longrightarrow> su_go s t = Live \<Longrightarrow> sup_step C s (Panics t m) (task_ends C t (Panics t m) s)"
| cancel: "su_go s t = Cancelling \<Longrightarrow> sup_step C s (Cancel t) (s\<lparr>su_ctx := True, su_go := (su_go s)(t := Gone)\<rparr>)"
| main_ctx: "su_main s = Waiting \<Longrightarrow> su_ctx s \<Longrightarrow>
     sup_step C s MainCtx (s\<lparr>su_chan := None,
       su_main := Stopping (case su_chan s of Some e \<Rightarrow> Some e | None \<Rightarrow> Some ECanceled)\<rparr>)"
| main_err: "su_main s = Waiting \<Longrightarrow> su_chan s = Some e \<Longrightarrow>
     sup_step C s MainErr (s\<lparr>su_chan := None, su_ctx := True, su_main := Stopping (Some e)\<rparr>)"
| main_done: "su_main s = Stopping r \<Longrightarrow> \<forall>t \<in> set (sc_tasks C). su_go s t = Gone \<Longrightarrow>
     sup_step C s MainDone (s\<lparr>su_chan := None,
       su_main := Returned (run_result (case su_chan s of Some e \<Rightarrow> Some e | None \<Rightarrow> r))\<rparr>)"
| main_timeout: "su_main s = Stopping r \<Longrightarrow> sc_timeout C \<Longrightarrow>
     sup_step C s MainTimeout (s\<lparr>su_main := Returned (Some (EMsg ''shutdown timeout: some goroutines did not stop''))\<rparr>)"
| idle: "sup_step C s Idle s"

inductive_cases sup_stepE: "sup_step C s l t"

definition sup_start :: "'t sup" where
  "sup_start = \<lparr>su_ctx = False, su_chan = None, su_go = (\<lambda>_. Live), su_main = Waiting\<rparr>"

inductive sup_run :: "'t sup_cfg \<Rightarrow> 't label list \<Rightarrow> 't sup \<Rightarrow> bool" for C where
  start: "sup_run C [] sup_start"
| step: "sup_run C ls s \<Longrightarrow> sup_step C s l t \<Longrightarrow> sup_run C (ls @ [l]) t"

subsection \<open>The two modes\<close>

datatype component = WalReceiver | BackupCron | HttpServer | WalArchiver

definition receive_sup :: "component sup_cfg" where
  "receive_sup = \<lparr>sc_tasks = [WalReceiver, BackupCron, HttpServer, WalArchiver],
     sc_fatal = (\<lambda>t. case t of
         WalReceiver \<Rightarrow> Some (''wal receiver panicked: '', ''streaming failed'')
       | WalArchiver \<Rightarrow> Some (''wal archive supervisor panicked: '', ''run wal archive supervisor'')
       | _ \<Rightarrow> None),
     sc_timeout = True\<rparr>"

definition serve_sup :: "component sup_cfg" where
  "serve_sup = \<lparr>sc_tasks = [HttpServer],
     sc_fatal = (\<lambda>t. if t = HttpServer then Some (''http server panicked: '', ''run http server'') else None),
     sc_timeout = False\<rparr>"

subsection \<open>What is set up before the goroutines start\<close>

record ReceiveModeOpts =
  rmo_ReceiveDirectory :: string
  rmo_Slot :: string
  rmo_NoLoop :: bool
  rmo_ListenPort :: int

definition initWalStorage :: "('k, 'c, 'g, 'a world_scheme) libs \<Rightarrow> (string \<Rightarrow> int) \<Rightarrow> cfg_globals \<Rightarrow> ReceiveModeOpts \<Rightarrow> 64 word
    \<Rightarrow> ('a world_scheme, 'a world_scheme VariadicStorage) m" where
  "initWalStorage L mt g opts segSz =
     bindE (wrapE ''convert wal segment size'' (liftE (Uint64ToInt64 segSz))) (\<lambda>walSegSz.
       SetupStorage L mt g \<lparr>ss_BaseDir = rmo_ReceiveDirectory opts, ss_SubPath = LocalFSStorageSubpath, ss_S3PartSizeBytes = walSegSz\<rparr>)"

definition initBasebackupStorage :: "('k, 'c, 'g, 'a world_scheme) libs \<Rightarrow> (string \<Rightarrow> int) \<Rightarrow> cfg_globals \<Rightarrow> string
    \<Rightarrow> ('a world_scheme, 'a world_scheme VariadicStorage) m" where
  "initBasebackupStorage L mt g dir =
     SetupStorage L mt g \<lparr>ss_BaseDir = dir, ss_SubPath = BaseBackupSubpath, ss_S3PartSizeBytes = 0\<rparr>"

text \<open>\<open>newPg\<close> is the construction of the WAL receiver, with its segment size; the result is what the goroutines use.\<close>

definition receive_init :: "('k, 'c, 'g, 'a world_scheme) libs \<Rightarrow> (string \<Rightarrow> int) \<Rightarrow> cfg_globals \<Rightarrow>
    (ReceiveModeOpts \<Rightarrow> ('a world_scheme, 'p \<times> 64 word) m) \<Rightarrow> ReceiveModeOpts \<Rightarrow>
    ('a world_scheme, 'p \<times> 'a world_scheme VariadicStorage \<times> 'a world_scheme VariadicStorage) m" where
  "receive_init L mt g newPg opts =
     bindE (wrapE ''load config'' (liftE (Cfg g))) (\<lambda>cfg.
     bindE (wrapE ''init wal receiver'' (newPg opts)) (\<lambda>(pgrw, segSz).
     bindE (wrapE ''init wal storage'' (initWalStorage L mt g opts segSz)) (\<lambda>walStor.
     bindE (wrapE ''init basebackup storage'' (initBasebackupStorage L mt g (mn_Directory (cf_Main cfg)))) (\<lambda>backupStor.
     thenE (wrapE ''init basebackup supervisor''
         (liftE (checkOpts (Some \<lparr>bo_Directory = rmo_ReceiveDirectory opts, bo_WalSegSz = segSz,
           bo_hasBasebackupStor = True, bo_hasWalStor = True, bo_hasCfg = True\<rparr>))))
       (retE (pgrw, walStor, backupStor))))))"

definition serve_init :: "('k, 'c, 'g, 'a world_scheme) libs \<Rightarrow> (string \<Rightarrow> int) \<Rightarrow> cfg_globals \<Rightarrow> string
    \<Rightarrow> ('a world_scheme, 'a world_scheme VariadicStorage) m" where
  "serve_init L mt g dir = wrapE ''setup storage''
     (SetupStorage L mt g \<lparr>ss_BaseDir = dir, ss_SubPath = LocalFSStorageSubpath, ss_S3PartSizeBytes = 0\<rparr>)"

end
