(* ===== verification/StreamBB.thy ===== *)
theory StreamBB
  imports Retention
begin

section \<open>Streaming a base backup (internal/opt/basebackup/backup: stream_bb.go, streaming_file.go)\<close>

text \<open>
  The server's messages are a list; its end is the cancellation of the context, on which
  \<open>ReceiveMessage\<close> returns an error.  \<open>pglogrepl\<close> and the JSON coder are parameters.  A streaming file
  feeds a pipe that a goroutine puts into the storage: the put is run on the whole stream when the file
  is closed, or on what has been written when the storage gives up earlier (\<open>bb_giveup\<close>).
\<close>

subsection \<open>Parameters\<close>

record tblspc =
  bt_OID :: "32 word"
  bt_Location :: string

record startinfo =
  sr_LSN :: lsn
  sr_TimelineID :: "32 word"
  sr_Tablespaces :: "tblspc list"

datatype bbmsg = CopyOutResponse | CopyData bytes | CopyDone | OtherMessage | ReceiveError gerr

record 's basebackup =
  bb_storage :: "'s Storage"
  bb_timestamp :: string
  bb_now :: "('s, int) m"
  bb_giveup :: "string \<Rightarrow> bytes \<Rightarrow> gerr option"
  bb_StartBaseBackup :: "gerr + startinfo"
  bb_FinishBaseBackup :: "gerr + lsn"
  bb_Unmarshal :: "bytes \<Rightarrow> gerr + BackupManifest"
  bb_Marshal :: "Result \<Rightarrow> gerr + bytes"

definition NewBaseBackup :: "bool \<Rightarrow> bool \<Rightarrow> string \<Rightarrow> gerr + unit" where
  "NewBaseBackup hasConn hasStorage timestamp =
     (if \<not> hasConn then Inl (EMsg ''basebackup: connection is required'')
      else if \<not> hasStorage then Inl (EMsg ''basebackup: storage is required'')
      else if timestamp = '''' then Inl (EMsg ''basebackup: timestamp is required'')
      else Inr ())"

subsection \<open>Streaming files\<close>

record StreamingFile =
  sf_path :: string
  sf_data :: bytes
  sf_putErr :: "gerr option"
  sf_closed :: bool

definition NewStreamingFile :: "string \<Rightarrow> StreamingFile" where
  "NewStreamingFile path = \<lparr>sf_path = path, sf_data = [], sf_putErr = None, sf_closed = False\<rparr>"

text \<open>The goroutine's put has ended with an error: later writes see it.\<close>

definition sf_Write :: "'s basebackup \<Rightarrow> StreamingFile \<Rightarrow> bytes \<Rightarrow> ('s, (gerr + nat) \<times> StreamingFile) m" where
  "sf_Write bb sf p =
     (case sf_putErr sf of
        Some e \<Rightarrow> retE (Inl (EWrap ''storage put failed'' e), sf)
      | None \<Rightarrow>
          if sf_closed sf then retE (Inl (EMsg ''write to closed streaming file''), sf)
          else case bb_giveup bb (sf_path sf) (sf_data sf @ p) of
              None \<Rightarrow> retE (Inr (length p), sf\<lparr>sf_data := sf_data sf @ p\<rparr>)
            | Some e \<Rightarrow>
                bindE (tryE (st_Put (bb_storage bb) (sf_path sf) (sf_data sf @ p, e))) (\<lambda>r.
                  let e' = (case r of Inl e' \<Rightarrow> e' | Inr _ \<Rightarrow> e)
                  in retE (Inl (EWrap ''storage put failed'' e'), sf\<lparr>sf_putErr := Some e'\<rparr>)))"

definition sf_Close :: "'s basebackup \<Rightarrow> StreamingFile \<Rightarrow> ('s, gerr option \<times> StreamingFile) m" where
  "sf_Close bb sf =
     (if sf_closed sf then retE (None, sf)
      else let sf = sf\<lparr>sf_closed := True\<rparr> in
        case sf_putErr sf of
          Some e \<Rightarrow> retE (Some (EWrap ''storage put failed'' e), sf)
        | None \<Rightarrow>
            bindE (tryE (st_Put (bb_storage bb) (sf_path sf) (sf_data sf, EEOF))) (\<lambda>r.
              case r of
                Inl e \<Rightarrow> retE (Some (EWrap ''storage put failed'' e), sf\<lparr>sf_putErr := Some e\<rparr>)
              | Inr _ \<Rightarrow> retE (None, sf)))"

subsection \<open>The loop over the messages\<close>

definition readCString :: "bytes \<Rightarrow> gerr + string \<times> bytes" where
  "readCString buf =
     (if zero_byte \<notin> set buf then Inl (EMsg ''invalid CString'')
      else Inr (takeWhile (\<lambda>c. c \<noteq> zero_byte) buf, tl (dropWhile (\<lambda>c. c \<noteq> zero_byte) buf)))"

definition getTblspcInfo :: "tblspc list \<Rightarrow> Tablespace list" where
  "getTblspcInfo t = map (\<lambda>elem. \<lparr>ts_OID = bt_OID elem, ts_Location = bt_Location elem\<rparr>) t"

record bbloop =
  bl_curFile :: "StreamingFile option"
  bl_totalBytes :: "64 word"
  bl_remotePath :: string
  bl_manifestBuf :: bytes
  bl_inManifest :: bool

definition closeCurrent :: "'s basebackup \<Rightarrow> bbloop \<Rightarrow> ('s, gerr option \<times> bbloop) m" where
  "closeCurrent bb l =
     (case bl_curFile l of
        None \<Rightarrow> retE (None, l)
      | Some sf \<Rightarrow>
          bindE (sf_Close bb sf) (\<lambda>(err, sf').
            case err of
              Some e \<Rightarrow> retE (Some e, l\<lparr>bl_curFile := Some sf'\<rparr>)
            | None \<Rightarrow> retE (None, l\<lparr>bl_curFile := None\<rparr>)))"

text \<open>\<open>if err := closeCurrent(); err != nil { return nil, err }\<close>, and \<open>_ = closeCurrent()\<close> before an error.\<close>

definition closed_or_fail :: "'s basebackup \<Rightarrow> bbloop \<Rightarrow> ('s, bbloop) m" where
  "closed_or_fail bb l = bindE (closeCurrent bb l) (\<lambda>(err, l'). case err of Some e \<Rightarrow> throwE e | None \<Rightarrow> retE l')"

definition close_and_fail :: "'s basebackup \<Rightarrow> bbloop \<Rightarrow> gerr \<Rightarrow> ('s, 'a) m" where
  "close_and_fail bb l e = bindE (closeCurrent bb l) (\<lambda>_. throwE e)"

text \<open>One \<open>CopyData\<close> message; an empty one is an index out of range.\<close>

definition newArchive :: "'s basebackup \<Rightarrow> bytes \<Rightarrow> bbloop \<Rightarrow> ('s, bbloop) m" where
  "newArchive bb d l =
     bindE (closed_or_fail bb (l\<lparr>bl_inManifest := False\<rparr>)) (\<lambda>l.
     bindE (liftE (readCString d)) (\<lambda>(filename, rest).
     bindE (liftE (readCString rest)) (\<lambda>(tsPath, _).
       let remotePath = trim_prefix filename ''./''
       in retE (l\<lparr>bl_remotePath := remotePath, bl_curFile := Some (NewStreamingFile remotePath)\<rparr>))))"

definition archiveData :: "'s basebackup \<Rightarrow> bytes \<Rightarrow> bbloop \<Rightarrow> ('s, bbloop) m" where
  "archiveData bb d l =
     (if bl_inManifest l then retE (l\<lparr>bl_manifestBuf := bl_manifestBuf l @ d\<rparr>)
      else case bl_curFile l of
          None \<Rightarrow> close_and_fail bb l (EMsg ''received data but no active file'')
        | Some sf \<Rightarrow>
            bindE (sf_Write bb sf d) (\<lambda>(r, sf').
              case r of
                Inl e \<Rightarrow> close_and_fail bb (l\<lparr>bl_curFile := Some sf'\<rparr>) (wrap_err ''write to storage pipe'' e)
              | Inr n \<Rightarrow> retE (l\<lparr>bl_curFile := Some sf', bl_totalBytes := bl_totalBytes l + word_of_nat n\<rparr>)))"

definition handleCopyData :: "'s basebackup \<Rightarrow> bytes \<Rightarrow> bbloop \<Rightarrow> ('s, bbloop) m" where
  "handleCopyData bb data l =
     (case data of
        [] \<Rightarrow> throwE (EPanic ''index out of range'')
      | c # d \<Rightarrow>
          if c = CHR ''n'' then newArchive bb d l
          else if c = CHR ''d'' then archiveData bb d l
          else if c = CHR ''m'' then
            bindE (closed_or_fail bb l) (\<lambda>l. retE (l\<lparr>bl_inManifest := True, bl_manifestBuf := []\<rparr>))
          else retE l)"

definition finishBackup :: "'s basebackup \<Rightarrow> Result \<Rightarrow> int \<Rightarrow> bbloop \<Rightarrow> ('s, Result) m" where
  "finishBackup bb result startTime l =
     bindE (closed_or_fail bb l) (\<lambda>l.
     bindE (wrapE ''finish base backup'' (liftE (bb_FinishBaseBackup bb))) (\<lambda>stopLSN.
     bindE (bb_now bb) (\<lambda>finished.
       let result = result\<lparr>rs_StopLSN := stopLSN, rs_BytesTotal := bl_totalBytes l,
                           rs_StartedAt := startTime, rs_FinishedAt := finished\<rparr>
       in if bl_manifestBuf l \<noteq> [] then
            bindE (wrapE ''parse manifest'' (liftE (bb_Unmarshal bb (bl_manifestBuf l)))) (\<lambda>manifest.
              retE (result\<lparr>rs_Manifest := Some manifest\<rparr>))
          else retE result)))"

fun bb_loop :: "'s basebackup \<Rightarrow> Result \<Rightarrow> int \<Rightarrow> bbmsg list \<Rightarrow> bbloop \<Rightarrow> ('s, Result) m" where
  "bb_loop bb result startTime [] l = close_and_fail bb l (wrap_err ''receive message'' ECanceled)"
| "bb_loop bb result startTime (msg # msgs) l =
     (case msg of
        ReceiveError e \<Rightarrow> close_and_fail bb l (wrap_err ''receive message'' e)
      | CopyOutResponse \<Rightarrow> bb_loop bb result startTime msgs l
      | CopyData d \<Rightarrow> bindE (handleCopyData bb d l) (bb_loop bb result startTime msgs)
      | CopyDone \<Rightarrow> finishBackup bb result startTime l
      | OtherMessage \<Rightarrow> throwE (EMsg ''unexpected message type''))"

definition bb_start :: bbloop where
  "bb_start = \<lparr>bl_curFile = None, bl_totalBytes = 0, bl_remotePath = '''', bl_manifestBuf = [], bl_inManifest = False\<rparr>"

definition streamBaseBackup :: "'s basebackup \<Rightarrow> bbmsg list \<Rightarrow> ('s, Result) m" where
  "streamBaseBackup bb msgs =
     bindE (wrapE ''start base backup'' (liftE (bb_StartBaseBackup bb))) (\<lambda>startResp.
       let result = \<lparr>rs_StartLSN = sr_LSN startResp, rs_StopLSN = 0, rs_TimelineID = sr_TimelineID startResp,
             rs_Tablespaces = getTblspcInfo (sr_Tablespaces startResp), rs_BytesTotal = 0,
             rs_StartedAt = zero_time, rs_FinishedAt = zero_time, rs_Manifest = None\<rparr>
       in bindE (bb_now bb) (\<lambda>startTime. bb_loop bb result startTime msgs bb_start))"

definition StreamBackup :: "'s basebackup \<Rightarrow> bbmsg list \<Rightarrow> ('s, Result) m" where
  "StreamBackup bb msgs =
     bindE (streamBaseBackup bb msgs) (\<lambda>result.
     bindE (liftE (bb_Marshal bb result)) (\<lambda>markerFileData.
     thenE (st_Put (bb_storage bb) (bb_timestamp bb @ ''.json'') (markerFileData, EEOF))
       (retE result)))"

end
