(* ===== verification/Commands.thy ===== *)
theory Commands
  imports Modes StreamBB
begin

section \<open>Commands and scheduled backups (cmd/pgrwl/main.go, basebackup/backup/create.go, backupsv: creator.go, supervisor.go)\<close>

subsection \<open>Creating a base backup\<close>

text \<open>
  The time stamp names the backup.  A connection gives the replication calls, as a \<open>basebackup\<close> once the storage and
  the time stamp are known, and the messages of the server.
\<close>

type_synonym 's bb_conn = "('s Storage \<Rightarrow> string \<Rightarrow> 's basebackup) \<times> bbmsg list"

record 's bb_env =
  be_timestamp :: "('s, string) m"
  be_Connect :: "('s, 's bb_conn) m"
  be_crypt :: cryptenv

definition CreateBaseBackup :: "('k, 'c, 'g, 'a world_scheme) libs \<Rightarrow> (string \<Rightarrow> int) \<Rightarrow> cfg_globals \<Rightarrow> 'a world_scheme bb_env \<Rightarrow> string
    \<Rightarrow> ('a world_scheme, Result) m" where
  "CreateBaseBackup L mt g be dir =
     bindE (be_timestamp be) (\<lambda>ts.
     bindE (SetupStorage L mt g \<lparr>ss_BaseDir = dir, ss_SubPath = filepath_Join [BaseBackupSubpath, ts], ss_S3PartSizeBytes = 0\<rparr>) (\<lambda>stor.
     bindE (be_Connect be) (\<lambda>(conn, msgs).
     thenE (liftE (NewBaseBackup True True ts))
       (StreamBackup (conn (var_storage (be_crypt be) stor) ts) msgs))))"

definition basebackupCreator_Create :: "('k, 'c, 'g, 'a backupsv_scheme) libs \<Rightarrow> (string \<Rightarrow> int) \<Rightarrow> cfg_globals \<Rightarrow> 'a backupsv_scheme bb_env \<Rightarrow> string
    \<Rightarrow> ('a backupsv_scheme, unit) m" where
  "basebackupCreator_Create L mt g be dir =
     thenE ctx_check (bindE (CreateBaseBackup L mt g be dir) (\<lambda>_. retE ()))"

subsection \<open>The schedule\<close>

text \<open>
  \<open>parse\<close> is the cron library's verdict on the expression.  The jobs that come due until the context is done run one
  after the other, \<open>n\<close> of them; one that came due during another would be refused by the slot.  What each logs is
  returned.
\<close>

fun cron_jobs :: "('a backupsv_scheme, unit) m \<Rightarrow> ('a backupsv_scheme, unit) m \<Rightarrow> nat \<Rightarrow> ('a backupsv_scheme, run_log option list) m" where
  "cron_jobs retention create 0 = retE []"
| "cron_jobs retention create (Suc n) =
     bindE (cron_job retention create) (\<lambda>l. bindE (cron_jobs retention create n) (\<lambda>ls. retE (l # ls)))"

definition RunCron :: "(string \<Rightarrow> gerr option) \<Rightarrow> Config \<Rightarrow> ('a backupsv_scheme, unit) m \<Rightarrow> ('a backupsv_scheme, unit) m \<Rightarrow> nat
    \<Rightarrow> ('a backupsv_scheme, run_log option list) m" where
  "RunCron parse cfg retention create n =
     (case parse (cf_BackupCron cfg) of
        Some e \<Rightarrow> throwE (EWrap ''add basebackup cron job'' e)
      | None \<Rightarrow> cron_jobs retention create n)"

subsection \<open>The command line (cmd/pgrwl/main.go)\<close>

text \<open>What the actions call; the flags are arguments.\<close>

record 's cli =
  cl_LoadConfig :: "string \<Rightarrow> string \<Rightarrow> ('s, Config) m"
  cl_CheckPgEnvsAreSet :: "('s, unit) m"
  cl_RunReceiveMode :: "ReceiveModeOpts \<Rightarrow> ('s, unit) m"
  cl_RunServeMode :: "string \<Rightarrow> int \<Rightarrow> ('s, unit) m"
  cl_CreateBaseBackup :: "string \<Rightarrow> ('s, Result) m"
  cl_RestoreBaseBackup :: "Config \<Rightarrow> string \<Rightarrow> string \<Rightarrow> ('s, unit) m"
  cl_ExecRestoreCommand :: "string \<Rightarrow> string \<Rightarrow> string \<Rightarrow> ('s, unit) m"

definition daemonCmd :: "'s cli \<Rightarrow> string \<Rightarrow> string \<Rightarrow> ('s, unit) m" where
  "daemonCmd cl configPath mode =
     (if trim_space mode = '''' then throwE (EMsg ''daemon-cmd: empty mode'')
      else if \<not> (mode = ModeReceive \<or> mode = ModeServe) then throwE (EMsg ''daemon-cmd: unknown mode'')
      else bindE (cl_LoadConfig cl configPath mode) (\<lambda>cfg.
        thenE (if mode = ModeReceive then
                 thenE (cl_CheckPgEnvsAreSet cl)
                   (cl_RunReceiveMode cl \<lparr>rmo_ReceiveDirectory = mn_Directory (cf_Main cfg), rmo_Slot = rv_Slot (cf_Receiver cfg),
                      rmo_NoLoop = rv_NoLoop (cf_Receiver cfg), rmo_ListenPort = mn_ListenPort (cf_Main cfg)\<rparr>)
               else retE ())
          (if mode = ModeServe then cl_RunServeMode cl (mn_Directory (cf_Main cfg)) (mn_ListenPort (cf_Main cfg)) else retE ())))"

definition backupCreateCmd :: "'s cli \<Rightarrow> string \<Rightarrow> ('s, unit) m" where
  "backupCreateCmd cl configPath =
     thenE (cl_CheckPgEnvsAreSet cl)
       (bindE (cl_LoadConfig cl configPath ModeBackupCMD) (\<lambda>cfg.
        bindE (cl_CreateBaseBackup cl (mn_Directory (cf_Main cfg))) (\<lambda>_. retE ())))"

definition backupRestoreCmd :: "'s cli \<Rightarrow> string \<Rightarrow> string \<Rightarrow> string \<Rightarrow> ('s, unit) m" where
  "backupRestoreCmd cl configPath backupID dest =
     bindE (cl_LoadConfig cl configPath ModeRestoreCMD) (\<lambda>cfg. cl_RestoreBaseBackup cl cfg backupID dest)"

definition restoreCommandCmd :: "'s cli \<Rightarrow> string \<Rightarrow> string list \<Rightarrow> ('s, unit) m" where
  "restoreCommandCmd cl serveAddr args =
     (if length args \<noteq> 2 then throwE (EMsg ''usage: restore-command <WAL_FILE_NAME> <DEST_PATH>'')
      else cl_ExecRestoreCommand cl (args ! 0) (args ! 1) serveAddr)"

definition validateCmd :: "'s cli \<Rightarrow> string \<Rightarrow> string \<Rightarrow> ('s, unit) m" where
  "validateCmd cl configPath mode =
     (if mode = '''' then throwE (EMsg ''required flag 'mode' is empty'')
      else bindE (cl_LoadConfig cl configPath mode) (\<lambda>_. retE ()))"

subsection \<open>What they establish\<close>

text \<open>
  A schedule survives its jobs.  The retention and the backup may fail and panic as they like, as long as they do not
  end the process, do not touch the slot and leave the context to its owner.
\<close>

definition tame :: "('a backupsv_scheme, unit) m \<Rightarrow> bool" where
  "tame f \<longleftrightarrow> keeps_slot f \<and> keeps bk_ctx f \<and> (\<forall>s n t. f s \<noteq> (Inl (EExit n), t))"

definition ctx_errors :: "'a backupsv_scheme \<Rightarrow> bool" where
  "ctx_errors s \<longleftrightarrow> (\<forall>n e. bk_ctx s n = Some e \<longrightarrow> \<not> is_abort e)"

definition no_exit :: "gerr \<Rightarrow> bool" where
  "no_exit e \<longleftrightarrow> (\<forall>n. e \<noteq> EExit n)"

lemma no_exit_wrap: "no_exit e \<Longrightarrow> no_exit (wrap_err m e)"
  by (simp add: no_exit_def wrap_err_def)

lemma tame_wp:
  assumes "tame f" and "ctx_errors s"
  shows "wp f (\<lambda>_ t. bk_state t = bk_state s \<and> ctx_errors t) (\<lambda>e t. bk_state t = bk_state s \<and> ctx_errors t \<and> no_exit e) s"
proof -
  obtain r t where f: "f s = (r, t)" by fastforce
  have k: "keeps bk_state f" "keeps bk_ctx f" using assms(1) by (simp_all add: tame_def)
  have "bk_state t = bk_state s" "bk_ctx t = bk_ctx s" using keepsD [OF k(1) f] keepsD [OF k(2) f] .
  moreover have "r \<noteq> Inl (EExit n)" for n using assms(1) f by (auto simp: tame_def)
  ultimately show ?thesis using assms(2) by (auto simp: wp_def f ctx_errors_def no_exit_def split: sum.split)
qed

lemma ctx_check_wp:
  assumes "ctx_errors s"
  shows "wp ctx_check (\<lambda>_ t. bk_state t = bk_state s \<and> ctx_errors t) (\<lambda>e t. bk_state t = bk_state s \<and> ctx_errors t \<and> no_exit e) s"
proof (cases "bk_ctx s (w_tick s)")
  case (Some e)
  then have "\<not> is_abort e" using assms by (simp add: ctx_errors_def)
  then have "no_exit e" by (auto simp: no_exit_def)
  with Some assms show ?thesis by (simp add: wp_def ctx_check_def ctx_errors_def)
qed (use assms in \<open>simp add: wp_def ctx_check_def ctx_errors_def\<close>)

lemma runBody_wp:
  assumes "tame retention" and "tame create" and "ctx_errors s"
  shows "wp (runBody retention create) (\<lambda>_ t. bk_state t = bk_state s \<and> ctx_errors t)
    (\<lambda>e t. bk_state t = bk_state s \<and> ctx_errors t \<and> no_exit e) s"
proof -
  let ?Q = "\<lambda>_ t. bk_state t = bk_state s \<and> ctx_errors t"
  let ?R = "\<lambda>e t. bk_state t = bk_state s \<and> ctx_errors t \<and> no_exit e"
  have c: "wp (wrapE ''create basebackup'' create) ?Q ?R t" if "bk_state t = bk_state s" "ctx_errors t" for t
    unfolding wp_wrapE by (rule wp_conseq [OF tame_wp [OF assms(2) that(2)]]) (auto simp: that(1) no_exit_wrap)
  have k: "wp (thenE ctx_check (wrapE ''create basebackup'' create)) ?Q ?R t" if "bk_state t = bk_state s" "ctx_errors t" for t
    unfolding wp_thenE by (rule wp_conseq [OF ctx_check_wp [OF that(2)]]) (auto simp del: wp_wrapE simp: that(1) intro!: c)
  show ?thesis
    unfolding runBody_def wp_thenE [of "wrapE ''retention before basebackup'' retention"] wp_wrapE
    by (rule wp_conseq [OF tame_wp [OF assms(1,3)]]) (auto simp del: wp_thenE wp_wrapE simp: no_exit_wrap intro!: k)
qed

lemma cron_job_survives:
  assumes "tame retention" and "tame create" and "ctx_errors s" and "\<not> bs_Running (bk_state s)"
  shows "wp (cron_job retention create) (\<lambda>_ t. \<not> bs_Running (bk_state t) \<and> ctx_errors t) (\<lambda>_ _. False) s"
proof -
  have "wp (runner_Run retention create ''cron'') (\<lambda>_ t. \<not> bs_Running (bk_state t) \<and> ctx_errors t)
      (\<lambda>e t. \<not> is_abort e \<and> \<not> bs_Running (bk_state t) \<and> ctx_errors t) s"
  proof (cases "bk_ctx s (w_tick s)")
    case (Some e)
    then show ?thesis using assms(3,4) by (auto simp: runner_Run_def bindE_def reserve_cases wp_def ctx_errors_def)
  next
    case None
    let ?r = "Begin (w_clock s (Suc (w_tick s))) ''cron'' (bk_state s)"
    let ?u = "s\<lparr>w_tick := Suc (Suc (w_tick s)), bk_state := snd ?r\<rparr>"
    have run: "runner_Run retention create ''cron'' s = runReserved retention create ?u"
      using None assms(4) by (simp add: runner_Run_def bindE_def reserve_cases Let_def Begin_def)
    obtain q t where b: "runBody retention create ?u = (q, t)" by fastforce
    have "ctx_errors ?u" using assms(3) by (simp add: ctx_errors_def)
    from runBody_wp [OF assms(1,2) this] have c: "ctx_errors t" and q: "\<And>e. q = Inl e \<Longrightarrow> no_exit e"
      by (auto simp: wp_def b split: sum.splits)
    have dn: "ctx_errors (t\<lparr>w_tick := n, bk_state := st\<rparr>)" for n st using c by (simp add: ctx_errors_def)
    show ?thesis
    proof (cases q)
      case (Inr x)
      then show ?thesis unfolding wp_def run by (simp add: runReserved_def b finishRun_eq Finish_def dn)
    next
      case (Inl e)
      then have "no_exit e" by (rule q)
      then show ?thesis unfolding wp_def run
        by (cases e) (simp_all add: Inl runReserved_def b finishRun_eq Finish_def recovered_def thenE_def bindE_def throwE_def dn no_exit_def)
    qed
  qed
  then show ?thesis
    unfolding cron_job_def by (simp, rule wp_conseq) auto
qed

lemma cron_survives:
  "tame retention \<Longrightarrow> tame create \<Longrightarrow> ctx_errors s \<Longrightarrow> \<not> bs_Running (bk_state s) \<Longrightarrow>
    wp (cron_jobs retention create n) (\<lambda>ls t. length ls = n \<and> \<not> bs_Running (bk_state t)) (\<lambda>_ _. False) s"
proof (induction n arbitrary: s)
  case (Suc n)
  show ?case
    by (simp, rule wp_conseq [OF cron_job_survives [OF Suc.prems]])
      (auto intro!: wp_conseq [OF Suc.IH [OF Suc.prems(1,2)]])
qed simp

lemma daemon_unknown_mode:
  "mode \<noteq> ModeReceive \<Longrightarrow> mode \<noteq> ModeServe \<Longrightarrow> \<exists>e. daemonCmd cl path mode s = (Inl e, s)"
  by (simp add: daemonCmd_def throwE_def)

text \<open>A daemon runs in exactly one mode, after its configuration was accepted for that mode.\<close>

lemma daemon_serve_only:
  assumes "daemonCmd cl path mode s = (Inr (), t)" and "mode \<noteq> ModeReceive"
  shows "mode = ModeServe \<and> (\<exists>cfg u. cl_LoadConfig cl path mode s = (Inr cfg, u) \<and>
    cl_RunServeMode cl (mn_Directory (cf_Main cfg)) (mn_ListenPort (cf_Main cfg)) u = (Inr (), t))"
  using assms by (auto simp: daemonCmd_def exec_simps split: if_splits prod.splits sum.splits)

end
