(* ===== verification/FakeReaders.thy ===== *)
theory FakeReaders
  imports IOStream
begin

section \<open>Readers for tests (shared/fakereaders)\<close>

text \<open>
  The readers that the tests of the storages use.  A reader is a state and a read of at most \<open>n\<close> bytes, which gives
  the bytes and an error.  Delays are left out.
\<close>

type_synonym 'r reads = "nat \<Rightarrow> 'r \<Rightarrow> (bytes \<times> gerr option) \<times> 'r"

definition large_Read :: "int reads" where
  "large_Read n remaining =
     (if remaining \<le> 0 then (([], Some EEOF), remaining)
      else let k = (if remaining < int n then nat remaining else n) in ((replicate k (CHR ''A''), None), remaining - int k))"

definition ErrFlaky :: gerr where "ErrFlaky = EMsg ''fakereader: simulated failure''"

record FlakyConfig =
  fk_Size :: int
  fk_FailAt :: "int list"
  fk_RepeatFailures :: bool

record FlakyReader =
  fr_cfg :: FlakyConfig
  fr_pos :: int
  fr_failI :: nat

definition NewFlakyReader :: "FlakyConfig \<Rightarrow> FlakyReader" where
  "NewFlakyReader cfg = \<lparr>fr_cfg = cfg, fr_pos = 0, fr_failI = 0\<rparr>"

definition flaky_byte :: "int \<Rightarrow> char" where
  "flaky_byte p = char_of (nat (p mod 251))"

definition flaky_Read :: "FlakyReader reads" where
  "flaky_Read n r =
     (let c = fr_cfg r; pos = fr_pos r in
      if fk_Size c \<le> pos then (([], Some EEOF), r)
      else
        let failAt = (if fr_failI r < length (fk_FailAt c) then fk_FailAt c ! fr_failI r else - 1);
            remaining = fk_Size c - pos;
            k = (if remaining < int n then remaining else int n);
            k = (if 0 \<le> failAt \<and> pos < failAt \<and> failAt < pos + k then failAt - pos else k)
        in if 0 \<le> failAt \<and> pos = failAt then
             (([], Some ErrFlaky), r\<lparr>fr_failI := (if \<not> fk_RepeatFailures c then length (fk_FailAt c) else fr_failI r + 1)\<rparr>)
           else ((map (\<lambda>i. flaky_byte (pos + int i)) [0..<nat k], None), r\<lparr>fr_pos := pos + k\<rparr>))"

record ('r, 'f) RetryableReader =
  rt_factory :: "'f \<Rightarrow> 'r \<times> 'f"
  rt_env :: 'f
  rt_current :: 'r
  rt_bytesRead :: int
  rt_maxRetries :: int

definition NewRetryableReader :: "('f \<Rightarrow> 'r \<times> 'f) \<Rightarrow> 'f \<Rightarrow> int \<Rightarrow> ('r, 'f) RetryableReader" where
  "NewRetryableReader factory env maxRetries =
     (case factory env of (r, env') \<Rightarrow>
       \<lparr>rt_factory = factory, rt_env = env', rt_current = r, rt_bytesRead = 0, rt_maxRetries = maxRetries\<rparr>)"

definition rt_renew :: "('r, 'f) RetryableReader \<Rightarrow> ('r, 'f) RetryableReader" where
  "rt_renew r = (case rt_factory r (rt_env r) of (x, env) \<Rightarrow> r\<lparr>rt_current := x, rt_env := env\<rparr>)"

text \<open>The loop; \<open>left\<close> is \<open>maxRetries - attempt\<close>.\<close>

fun retry_attempts :: "'r reads \<Rightarrow> nat \<Rightarrow> nat \<Rightarrow> ('r, 'f) RetryableReader \<Rightarrow> (bytes \<times> gerr option) \<times> ('r, 'f) RetryableReader" where
  "retry_attempts read n left r =
     (case read n (rt_current r) of ((d, e), cur) \<Rightarrow>
        let r = r\<lparr>rt_current := cur, rt_bytesRead := rt_bytesRead r + int (length d)\<rparr> in
        if e \<noteq> None \<and> d = [] \<and> rt_bytesRead r = 0 then
          (case left of 0 \<Rightarrow> (([], e), r) | Suc k \<Rightarrow> retry_attempts read n k (rt_renew r))
        else ((d, e), r))"

declare retry_attempts.simps [simp del]

definition retry_Read :: "'r reads \<Rightarrow> nat \<Rightarrow> ('r, 'f) RetryableReader \<Rightarrow> (gerr + bytes \<times> gerr option) \<times> ('r, 'f) RetryableReader" where
  "retry_Read read n r =
     (if rt_maxRetries r < 0 then (Inl (EPanic ''unreachable''), r)
      else case retry_attempts read n (nat (rt_maxRetries r)) r of (x, r') \<Rightarrow> (Inr x, r'))"

subsection \<open>What they deliver\<close>

fun read_many :: "'r reads \<Rightarrow> nat list \<Rightarrow> 'r \<Rightarrow> bytes \<times> 'r" where
  "read_many read [] r = ([], r)"
| "read_many read (n # ns) r =
     (case read n r of ((d, e), r') \<Rightarrow> (case read_many read ns r' of (ds, r'') \<Rightarrow> (d @ ds, r'')))"

text \<open>
  One read of a flaky reader: it delivers exactly the bytes it moves over, and with room for a byte it moves on or
  uses up a failure, until the end.
\<close>

definition flaky_left :: "FlakyReader \<Rightarrow> nat" where
  "flaky_left r = nat (fk_Size (fr_cfg r) - fr_pos r) + (length (fk_FailAt (fr_cfg r)) - fr_failI r)"

lemma flaky_Read_step:
  assumes "flaky_Read n r = ((d, e), r')" and "0 \<le> fr_pos r"
  shows "d = map flaky_byte [fr_pos r..fr_pos r' - 1] \<and> fr_pos r \<le> fr_pos r' \<and> fr_cfg r' = fr_cfg r \<and>
    (fr_pos r \<le> fk_Size (fr_cfg r) \<longrightarrow> fr_pos r' \<le> fk_Size (fr_cfg r)) \<and>
    (0 < n \<and> fr_pos r < fk_Size (fr_cfg r) \<longrightarrow> flaky_left r' < flaky_left r) \<and> flaky_left r' \<le> flaky_left r"
proof -
  have up: "map (\<lambda>i. flaky_byte (p + int i)) [0..<nat k] = map flaky_byte [p..p + k - 1]" for p k
  proof (rule nth_equalityI)
    fix i assume "i < length (map (\<lambda>i. flaky_byte (p + int i)) [0..<nat k])"
    then show "map (\<lambda>i. flaky_byte (p + int i)) [0..<nat k] ! i = map flaky_byte [p..p + k - 1] ! i" by (simp add: nth_upto)
  qed simp
  show ?thesis
    using assms by (auto simp: flaky_Read_def Let_def up flaky_left_def split: if_splits)
qed

lemma upto_append: "a \<le> b \<Longrightarrow> b \<le> c \<Longrightarrow> [a..b - 1] @ [b..c - 1] = [a..c - (1 :: int)]"
proof (cases "b = c")
  case False
  assume "a \<le> b" "b \<le> c"
  with False show ?thesis by (intro upto_split1 [symmetric]) auto
qed simp

text \<open>
  A reader with failures loses and repeats no byte, whatever the sizes of the reads, and after at most as many reads
  as it has bytes and failures it has delivered all of them.
\<close>

lemma flaky_exact:
  assumes "read_many flaky_Read ns r = (ds, r')" and "0 \<le> fr_pos r" and "fr_pos r \<le> fk_Size (fr_cfg r)"
  shows "ds = map flaky_byte [fr_pos r..fr_pos r' - 1] \<and> fr_pos r \<le> fr_pos r' \<and> fr_pos r' \<le> fk_Size (fr_cfg r) \<and>
    (0 \<notin> set ns \<and> flaky_left r \<le> length ns \<longrightarrow> fr_pos r' = fk_Size (fr_cfg r))"
  using assms
proof (induction ns arbitrary: r ds)
  case Nil
  then show ?case by (auto simp: flaky_left_def)
next
  case (Cons n ns)
  obtain d e r1 where r1: "flaky_Read n r = ((d, e), r1)" by (metis prod.collapse)
  obtain ds1 where ds1: "read_many flaky_Read ns r1 = (ds1, r')" "ds = d @ ds1"
    using Cons.prems(1) r1 by (auto split: prod.splits)
  note st = flaky_Read_step [OF r1 Cons.prems(2)]
  have "0 \<le> fr_pos r1" "fr_pos r1 \<le> fk_Size (fr_cfg r1)" using st Cons.prems by auto
  note ih = Cons.IH [OF ds1(1) this]
  have "ds = map flaky_byte [fr_pos r..fr_pos r' - 1]"
    using ih st by (simp add: ds1(2) upto_append flip: map_append)
  moreover have "fr_pos r' = fk_Size (fr_cfg r)" if "0 \<notin> set (n # ns)" "flaky_left r \<le> length (n # ns)"
  proof (cases "fr_pos r < fk_Size (fr_cfg r)")
    case True
    with st that have "flaky_left r1 \<le> length ns" by auto
    with ih st that show ?thesis by simp
  next
    case False
    with ih st Cons.prems show ?thesis by auto
  qed
  ultimately show ?case using ih st by auto
qed

text \<open>
  The retrying reader starts again only while nothing has been delivered, and at most \<open>maxRetries\<close> times in a read:
  after the first byte it passes the reads of one reader through, failures included.
\<close>

lemma retry_passes:
  assumes "0 < rt_bytesRead r" and "0 \<le> rt_maxRetries r" and "read n (rt_current r) = ((d, e), cur)"
  shows "retry_Read read n r = (Inr (d, e), r\<lparr>rt_current := cur, rt_bytesRead := rt_bytesRead r + int (length d)\<rparr>)"
  using assms by (simp add: retry_Read_def retry_attempts.simps [of read n _ r] Let_def)

lemma retry_many:
  assumes "0 < rt_bytesRead r" and "0 \<le> rt_maxRetries r" and "read_many (\<lambda>n r. case retry_Read read n r of
      (Inr x, r') \<Rightarrow> (x, r') | (Inl e, r') \<Rightarrow> (([], Some e), r')) ns r = (ds, r')"
  shows "read_many read ns (rt_current r) = (ds, rt_current r')"
  using assms
proof (induction ns arbitrary: r ds)
  case (Cons n ns)
  obtain d e cur where c: "read n (rt_current r) = ((d, e), cur)" by (metis prod.collapse)
  let ?r = "r\<lparr>rt_current := cur, rt_bytesRead := rt_bytesRead r + int (length d)\<rparr>"
  have p: "0 < rt_bytesRead ?r" "0 \<le> rt_maxRetries ?r" using Cons.prems(1,2) by simp_all
  have "retry_Read read n r = (Inr (d, e), ?r)" by (rule retry_passes) (use Cons.prems c in auto)
  then show ?case using Cons.prems(3) Cons.IH [OF p] by (auto simp: c split: prod.splits)
qed simp

end
