(* ===== verification/Http.thy ===== *)
theory Http
  imports IOStream "HOL-Library.AList"
begin

section \<open>HTTP handlers and middleware (shared/x/httpx, internal/opt/api/middleware)\<close>

text \<open>
  A handler answers a request: it may read and change the state of the program and writes a response.  The
  response is package net/http's: the first status sent stays, the first write sends status 200, later changes of
  the header are not seen, and a write to a connection that is gone fails (\<open>rs_lost\<close>, per write).
\<close>

record request =
  rq_Method :: string
  rq_Path :: "string list"
  rq_Header :: "string \<Rightarrow> string"
  rq_PathValue :: "string \<Rightarrow> string"

record response =
  rs_status :: "nat option"
  rs_header :: "(string \<times> string) list"
  rs_body :: bytes
  rs_writes :: nat
  rs_lost :: "nat \<Rightarrow> gerr option"

type_synonym ('s, 'x) http = "('s \<times> response, 'x) m"
type_synonym 's Handler = "request \<Rightarrow> ('s, unit) http"

definition new_response :: "(nat \<Rightarrow> gerr option) \<Rightarrow> response" where
  "new_response lost = \<lparr>rs_status = None, rs_header = [], rs_body = [], rs_writes = 0, rs_lost = lost\<rparr>"

definition set_header :: "string \<Rightarrow> string \<Rightarrow> (response, unit) m" where
  "set_header k v = modE (\<lambda>r. if rs_status r = None then r\<lparr>rs_header := AList.update k v (rs_header r)\<rparr> else r)"

definition WriteHeader :: "nat \<Rightarrow> (response, unit) m" where
  "WriteHeader code = modE (\<lambda>r. if rs_status r = None then r\<lparr>rs_status := Some code\<rparr> else r)"

definition rs_Write :: "bytes \<Rightarrow> (response, unit) m" where
  "rs_Write p = thenE (WriteHeader 200) (\<lambda>r.
     case rs_lost r (rs_writes r) of
       Some e \<Rightarrow> (Inl e, r\<lparr>rs_writes := Suc (rs_writes r)\<rparr>)
     | None \<Rightarrow> (Inr (), r\<lparr>rs_body := rs_body r @ p, rs_writes := Suc (rs_writes r)\<rparr>))"

text \<open>\<open>http.Error\<close>.\<close>

definition http_Error :: "string \<Rightarrow> nat \<Rightarrow> (response, unit) m" where
  "http_Error msg code =
     thenE (set_header ''Content-Type'' ''text/plain; charset=utf-8'')
    (thenE (set_header ''X-Content-Type-Options'' ''nosniff'')
    (thenE (WriteHeader code)
    (bindE (tryE (rs_Write (msg @ [CHR 0x0A]))) (\<lambda>_. retE ()))))"

definition StatusOK :: nat where "StatusOK = 200"
definition StatusNoContent :: nat where "StatusNoContent = 204"
definition StatusBadRequest :: nat where "StatusBadRequest = 400"
definition StatusUnauthorized :: nat where "StatusUnauthorized = 401"
definition StatusNotFound :: nat where "StatusNotFound = 404"
definition StatusConflict :: nat where "StatusConflict = 409"
definition StatusTooManyRequests :: nat where "StatusTooManyRequests = 429"
definition StatusInternalServerError :: nat where "StatusInternalServerError = 500"
definition StatusServiceUnavailable :: nat where "StatusServiceUnavailable = 503"

lemmas status_defs = StatusOK_def StatusNoContent_def StatusBadRequest_def StatusUnauthorized_def StatusNotFound_def
  StatusConflict_def StatusTooManyRequests_def StatusInternalServerError_def StatusServiceUnavailable_def

subsection \<open>httpx\<close>

text \<open>The JSON encoder's result for the value is the argument.\<close>

definition WriteJSON :: "nat \<Rightarrow> gerr + bytes \<Rightarrow> (response, unit) m" where
  "WriteJSON status enc =
     thenE (set_header ''Content-Type'' ''application/json'')
    (thenE (set_header ''X-Content-Type-Options'' ''nosniff'')
    (thenE (WriteHeader status)
    (bindE (tryE (bindE (liftE enc) rs_Write)) (\<lambda>r.
       case r of Inl e \<Rightarrow> http_Error (gerr_text e) StatusInternalServerError | Inr _ \<Rightarrow> retE ()))))"

definition PathValueString :: "request \<Rightarrow> string \<Rightarrow> gerr + string" where
  "PathValueString rq name =
     (if rq_PathValue rq name = '''' then Inl (EMsg (''empty path value for name: '' @ name)) else Inr (rq_PathValue rq name))"

subsection \<open>Middleware\<close>

type_synonym 's Middleware = "'s Handler \<Rightarrow> 's Handler"

definition Chain :: "'s Middleware list \<Rightarrow> 's Middleware" where
  "Chain ms h = foldr (\<lambda>m h. m h) ms h"

definition SafeHandlerMiddleware :: "'s Middleware" where
  "SafeHandlerMiddleware h rq = (\<lambda>s.
     case h rq s of
       (Inl (EPanic m), t) \<Rightarrow> on_snd (http_Error ''internal error'' StatusInternalServerError) t
     | r \<Rightarrow> r)"

definition Cors :: "'s Middleware" where
  "Cors h rq =
     thenE (on_snd (set_header ''Access-Control-Allow-Origin'' ''*''))
    (thenE (on_snd (set_header ''Access-Control-Allow-Methods'' ''GET, POST, PUT, DELETE, OPTIONS''))
    (thenE (on_snd (set_header ''Access-Control-Allow-Headers'' ''Content-Type, Authorization''))
    (thenE (on_snd (set_header ''Access-Control-Allow-Credentials'' ''true''))
       (if rq_Method rq = ''OPTIONS'' then on_snd (WriteHeader StatusNoContent) else h rq))))"

text \<open>The limiter's \<open>Allow\<close> is a computation.\<close>

definition RateLimiter :: "('s, bool) m \<Rightarrow> 's Middleware" where
  "RateLimiter allow h rq =
     bindE (on_fst allow) (\<lambda>ok.
       if \<not> ok then on_snd (http_Error ''Too Many Requests'' StatusTooManyRequests) else h rq)"

definition AuthWrap :: "string \<Rightarrow> 's Middleware" where
  "AuthWrap token h rq =
     (if token = '''' then on_snd (http_Error ''internal auth token is not configured'' StatusServiceUnavailable)
      else
        let got = rq_Header rq ''Authorization'' in
        if \<not> has_prefix got ''Bearer '' then on_snd (http_Error ''missing bearer token'' StatusUnauthorized)
        else if trim_prefix got ''Bearer '' \<noteq> token then on_snd (http_Error ''invalid bearer token'' StatusUnauthorized)
        else h rq)"

subsection \<open>Rules\<close>

lemma wp_set_header [simp]:
  "wp (set_header k v) Q R = (\<lambda>r. Q () (if rs_status r = None then r\<lparr>rs_header := AList.update k v (rs_header r)\<rparr> else r))"
  by (simp add: set_header_def)

lemma wp_WriteHeader [simp]:
  "wp (WriteHeader c) Q R = (\<lambda>r. Q () (if rs_status r = None then r\<lparr>rs_status := Some c\<rparr> else r))"
  by (simp add: WriteHeader_def)

text \<open>What a client sees: the status, and the body with a normal end.\<close>

definition answer_of :: "response \<Rightarrow> nat \<times> io_reader" where
  "answer_of r = (case rs_status r of None \<Rightarrow> 200 | Some c \<Rightarrow> c, (rs_body r, EEOF))"

definition sent_status :: "nat \<Rightarrow> response \<Rightarrow> nat" where
  "sent_status c r = (case rs_status r of None \<Rightarrow> c | Some c' \<Rightarrow> c')"

text \<open>A connection that stays.\<close>

definition steady :: "response \<Rightarrow> bool" where
  "steady r = (rs_lost r = (\<lambda>_. None))"

lemma wp_rs_Write:
  assumes "steady r"
    and "\<And>t. steady t \<Longrightarrow> rs_body t = rs_body r @ p \<Longrightarrow> rs_status t = Some (sent_status 200 r) \<Longrightarrow> Q () t"
  shows "wp (rs_Write p) Q R r"
  using assms by (auto simp: rs_Write_def steady_def wp_def sent_status_def WriteHeader_def thenE_def bindE_def modE_def split: option.split)

lemma wp_http_Error:
  assumes "steady r"
    and "\<And>t. steady t \<Longrightarrow> rs_body t = rs_body r @ msg @ [CHR 0x0A] \<Longrightarrow> rs_status t = Some (sent_status c r) \<Longrightarrow> Q () t"
  shows "wp (http_Error msg c) Q R r"
  unfolding http_Error_def
  using assms(1)
  by (auto simp: steady_def sent_status_def intro!: wp_rs_Write assms(2))

lemma wp_write_pieces:
  assumes "steady r" and "rs_status r = Some 200 \<or> rs_status r = None"
  shows "wp (write_all rs_Write ps) (\<lambda>_ t. steady t \<and> rs_body t = rs_body r @ concat ps \<and>
     rs_status t = (if ps = [] then rs_status r else Some 200)) R r"
  using assms
proof (induction ps arbitrary: r)
  case (Cons p ps)
  show ?case
    by (simp, rule wp_rs_Write [OF Cons.prems(1)])
      (use Cons.prems(2) in \<open>auto simp: sent_status_def intro!: wp_conseq [OF Cons.IH]\<close>)
qed simp

text \<open>\<open>io.Copy\<close> into the response.\<close>

lemma wp_copy_out:
  assumes "steady r" and "rs_status r = None" and "rs_body r = []"
  shows "wp (io_Copy rs_Write (d, e))
     (\<lambda>_ t. e = EEOF \<and> steady t \<and> rs_body t = d \<and> rs_status t = (if d = [] then None else Some 200))
     (\<lambda>x t. e \<noteq> EEOF \<and> x = e \<and> steady t \<and> rs_body t = d \<and> rs_status t = (if d = [] then None else Some 200)) r"
proof -
  have p: "pieces copyBufSize d = [] \<longleftrightarrow> d = []" by (subst pieces.simps) (simp add: copyBufSize_def)
  have c: "concat (pieces copyBufSize d) = d" by (simp add: concat_pieces copyBufSize_def)
  have "wp (write_all rs_Write (pieces copyBufSize d)) (\<lambda>_ t. steady t \<and> rs_body t = d \<and>
     rs_status t = (if d = [] then None else Some 200)) (\<lambda>x t. False) r"
    using wp_write_pieces [OF assms(1), of "pieces copyBufSize d"] assms(2,3) unfolding p c by auto
  then show ?thesis unfolding io_Copy_def prod.case wp_thenE by (rule wp_conseq) auto
qed

end
