(* ===== verification/HttpServer.thy ===== *)
theory HttpServer
  imports Http Restore
begin

section \<open>The HTTP server (internal/opt/api/server.go) and what is left of httpx\<close>

text \<open>
  \<open>Run\<close> has two goroutines: it calls \<open>ListenAndServe\<close> itself, and another one waits for the context and calls
  \<open>Shutdown\<close>.  Of package net/http the model has what is documented: \<open>Shutdown\<close> closes the listener, makes
  \<open>ListenAndServe\<close> return \<open>ErrServerClosed\<close> at once and then waits for the requests being served or for its own
  context; every error of \<open>ListenAndServe\<close> is not nil.
\<close>

definition ErrServerClosed :: gerr where "ErrServerClosed = EMsg ''http: Server closed''"

record 'h HTTPServer =
  hs_port :: int
  hs_router :: 'h

definition NewHTTPServer :: "int \<Rightarrow> 'h \<Rightarrow> 'h HTTPServer" where
  "NewHTTPServer port router = \<lparr>hs_port = port, hs_router = router\<rparr>"

definition srv_Addr :: "'h HTTPServer \<Rightarrow> string" where
  "srv_Addr s = CHR '':'' # fmt_d (hs_port s)"

datatype listening = NotListening | Listening | Closed gerr

datatype shutting = AwaitsCtx | Draining | Drained "gerr option"

record httpd =
  hd_ctx :: bool
  hd_listen :: listening
  hd_stop :: shutting
  hd_busy :: nat
  hd_run :: "gerr option option"

text \<open>What \<open>Run\<close> makes of the error of \<open>ListenAndServe\<close>.\<close>

definition http_result :: "gerr \<Rightarrow> gerr option" where
  "http_result err = (if \<not> errors_Is err ErrServerClosed then Some err else None)"

inductive http_step :: "httpd \<Rightarrow> httpd \<Rightarrow> bool" where
  cancelled: "http_step s (s\<lparr>hd_ctx := True\<rparr>)"
| listen: "hd_listen s = NotListening \<Longrightarrow> hd_stop s = AwaitsCtx \<Longrightarrow> http_step s (s\<lparr>hd_listen := Listening\<rparr>)"
| listen_late: "hd_listen s = NotListening \<Longrightarrow> hd_stop s \<noteq> AwaitsCtx \<Longrightarrow> http_step s (s\<lparr>hd_listen := Closed ErrServerClosed\<rparr>)"
| fails: "hd_listen s \<in> {NotListening, Listening} \<Longrightarrow> hd_stop s = AwaitsCtx \<Longrightarrow> \<not> errors_Is e ErrServerClosed \<Longrightarrow>
    http_step s (s\<lparr>hd_listen := Closed e\<rparr>)"
| request: "hd_listen s = Listening \<Longrightarrow> http_step s (s\<lparr>hd_busy := Suc (hd_busy s)\<rparr>)"
| answered: "hd_busy s = Suc n \<Longrightarrow> http_step s (s\<lparr>hd_busy := n\<rparr>)"
| shutdown: "hd_ctx s \<Longrightarrow> hd_stop s = AwaitsCtx \<Longrightarrow>
    http_step s (s\<lparr>hd_stop := Draining,
      hd_listen := (if hd_listen s = Listening then Closed ErrServerClosed else hd_listen s)\<rparr>)"
| drained: "hd_stop s = Draining \<Longrightarrow> hd_busy s = 0 \<Longrightarrow> http_step s (s\<lparr>hd_stop := Drained None\<rparr>)"
| drain_timeout: "hd_stop s = Draining \<Longrightarrow> http_step s (s\<lparr>hd_stop := Drained (Some EDeadlineExceeded)\<rparr>)"
| returns: "hd_run s = None \<Longrightarrow> hd_listen s = Closed e \<Longrightarrow> http_step s (s\<lparr>hd_run := Some (http_result e)\<rparr>)"

definition http_start :: httpd where
  "http_start = \<lparr>hd_ctx = False, hd_listen = NotListening, hd_stop = AwaitsCtx, hd_busy = 0, hd_run = None\<rparr>"

definition http_inv :: "httpd \<Rightarrow> bool" where
  "http_inv s \<longleftrightarrow> (hd_stop s \<noteq> AwaitsCtx \<longrightarrow> hd_ctx s \<and> hd_listen s \<noteq> Listening) \<and>
     (hd_listen s = Closed ErrServerClosed \<longrightarrow> hd_stop s \<noteq> AwaitsCtx) \<and>
     (\<forall>e. hd_listen s = Closed e \<longrightarrow> e = ErrServerClosed \<or> \<not> errors_Is e ErrServerClosed) \<and>
     (\<forall>r. hd_run s = Some r \<longrightarrow> (\<exists>e. hd_listen s = Closed e \<and> r = http_result e))"

lemma Is_ErrServerClosed [simp]: "errors_Is ErrServerClosed ErrServerClosed"
  by (simp add: ErrServerClosed_def)

lemma http_inv_step: "http_step s t \<Longrightarrow> http_inv s \<Longrightarrow> http_inv t"
  by (induction rule: http_step.induct) (auto simp: http_inv_def)

lemma http_inv_reachable: "http_step\<^sup>*\<^sup>* http_start s \<Longrightarrow> http_inv s"
proof (induction rule: rtranclp_induct)
  case base
  show ?case by (simp add: http_inv_def http_start_def)
next
  case (step s t)
  from step.hyps(2) step.IH show ?case by (rule http_inv_step)
qed

text \<open>
  What \<open>Run\<close> returns: nothing only after the context was cancelled and the shutdown begun, otherwise the error that
  ended the listener.
\<close>

lemma http_run_result:
  assumes "http_step\<^sup>*\<^sup>* http_start s" and "hd_run s = Some r"
  shows "(r = None \<longrightarrow> hd_ctx s \<and> hd_stop s \<noteq> AwaitsCtx) \<and> (\<forall>e. r = Some e \<longrightarrow> hd_listen s = Closed e \<and> e \<noteq> ErrServerClosed)"
proof -
  from http_inv_reachable [OF assms(1)] assms(2)
  obtain e where e: "hd_listen s = Closed e" "r = http_result e" and i: "http_inv s" by (auto simp: http_inv_def)
  show ?thesis
  proof (cases "e = ErrServerClosed")
    case True
    with e i show ?thesis by (auto simp: http_inv_def http_result_def)
  next
    case False
    with e i have "r = Some e" by (auto simp: http_inv_def http_result_def)
    with e(1) False show ?thesis by (metis option.distinct(1) option.inject)
  qed
qed

text \<open>From every state that the program reaches with a cancelled context, \<open>Run\<close> can return.\<close>

lemma http_can_return:
  assumes "http_step\<^sup>*\<^sup>* http_start s" and "hd_ctx s"
  shows "\<exists>t. http_step\<^sup>*\<^sup>* s t \<and> hd_run t \<noteq> None"
proof -
  have ret: "\<exists>t. http_step\<^sup>*\<^sup>* u t \<and> hd_run t \<noteq> None" if "hd_listen u = Closed e" for u e
  proof (cases "hd_run u")
    case None
    from http_step.returns [OF this that] show ?thesis by (intro exI conjI, rule r_into_rtranclp) simp_all
  qed auto
  have stopped: "\<exists>t. http_step\<^sup>*\<^sup>* u t \<and> hd_run t \<noteq> None" if "hd_stop u \<noteq> AwaitsCtx" "hd_listen u \<noteq> Listening" for u
  proof (cases "hd_listen u")
    case NotListening
    from http_step.listen_late [OF this that(1)] ret [of "u\<lparr>hd_listen := Closed ErrServerClosed\<rparr>" ErrServerClosed]
    show ?thesis by (auto intro: converse_rtranclp_into_rtranclp)
  qed (use that ret in auto)
  show ?thesis
  proof (cases "hd_stop s = AwaitsCtx")
    case True
    let ?t = "s\<lparr>hd_stop := Draining, hd_listen := (if hd_listen s = Listening then Closed ErrServerClosed else hd_listen s)\<rparr>"
    have "http_step s ?t" by (rule http_step.shutdown [OF assms(2) True])
    moreover have "\<exists>t. http_step\<^sup>*\<^sup>* ?t t \<and> hd_run t \<noteq> None" by (rule stopped) auto
    ultimately show ?thesis by (auto intro: converse_rtranclp_into_rtranclp)
  next
    case False
    with http_inv_reachable [OF assms(1)] show ?thesis by (intro stopped) (auto simp: http_inv_def)
  qed
qed

text \<open>
  \<open>Run\<close> does not wait for \<open>Shutdown\<close>: it can have returned nothing while a request is being served and the
  shutdown is still waiting for it, so that the daemon, which then exits, cuts the answer off.
\<close>

lemma http_run_abandons:
  "\<exists>s. http_step\<^sup>*\<^sup>* http_start s \<and> hd_run s = Some None \<and> hd_busy s = 1 \<and> hd_stop s = Draining"
proof -
  let ?a = "http_start\<lparr>hd_listen := Listening\<rparr>"
  let ?b = "?a\<lparr>hd_busy := Suc (hd_busy ?a)\<rparr>"
  let ?c = "?b\<lparr>hd_ctx := True\<rparr>"
  let ?d = "?c\<lparr>hd_stop := Draining, hd_listen := (if hd_listen ?c = Listening then Closed ErrServerClosed else hd_listen ?c)\<rparr>"
  let ?e = "?d\<lparr>hd_run := Some (http_result ErrServerClosed)\<rparr>"
  have "http_step http_start ?a" by (rule http_step.listen) (simp_all add: http_start_def)
  moreover have "http_step ?a ?b" by (rule http_step.request) simp
  moreover have "http_step ?b ?c" by (rule http_step.cancelled)
  moreover have "http_step ?c ?d" by (rule http_step.shutdown) (simp_all add: http_start_def)
  moreover have "http_step ?d ?e" by (rule http_step.returns) (simp_all add: http_start_def)
  ultimately have "http_step\<^sup>*\<^sup>* http_start ?e" by (meson converse_rtranclp_into_rtranclp rtranclp.rtrancl_refl)
  then show ?thesis by (intro exI [of _ ?e]) (simp add: http_result_def http_start_def)
qed

subsection \<open>Helpers of httpx\<close>

text \<open>A body that is not set is \<open>None\<close>; the decoder is a parameter.\<close>

definition ReadJSON :: "(io_reader \<Rightarrow> gerr + 'x) \<Rightarrow> io_reader option \<Rightarrow> gerr + 'x" where
  "ReadJSON decode body = (case body of None \<Rightarrow> Inl (EMsg ''missing request body'') | Some b \<Rightarrow> decode b)"

definition PathValueI32 :: "request \<Rightarrow> string \<Rightarrow> gerr + int" where
  "PathValueI32 r name =
     (let pathValue = rq_PathValue r name in
      if pathValue = '''' then Inl (EMsg (''empty path value for name: '' @ name)) else Atoi pathValue)"

definition PathValueI64 :: "request \<Rightarrow> string \<Rightarrow> gerr + int" where
  "PathValueI64 r name =
     (let pathValue = rq_PathValue r name in
      if pathValue = '''' then Inl (EMsg (''empty path value for name: '' @ name)) else ParseInt pathValue 10 64)"

end
