(* ===== verification/Logging.thy ===== *)
theory Logging
  imports Http Restore
begin

section \<open>Logging (internal/core/logger, internal/opt/api/middleware/logging.go)\<close>

text \<open>
  The handler that prints log records as lines, the choice of a handler at start, and the HTTP middleware that
  records the status of an answer.  A time is formatted by a parameter, as are the texts of values whose types the
  program does not know; the width of a column counts the bytes that begin a character.
\<close>

subsection \<open>Values\<close>

record Source =
  so_Function :: string
  so_File :: string
  so_Line :: int

text \<open>
  The dynamic values of kind \<open>Any\<close>: with a \<open>MarshalText\<close> method (its result and the text of \<open>%+v\<close>), a source, a
  level, one whose formatting panics (whether it is a nil pointer, and the panic's text), \<open>nil\<close>, any other.
\<close>

datatype anyval =
    AnyText "string option" string
  | AnySource "Source option"
  | AnyLevel int
  | AnyPanics bool string
  | AnyNil
  | AnyOther string

datatype lval =
    VString string
  | VInt64 int
  | VUint64 nat
  | VFloat64 string
  | VBool bool
  | VDuration string
  | VTime int
  | VGroup "(string \<times> lval) list"
  | VAny anyval
  | VLogValuer lval

type_synonym lattr = "string \<times> lval"

text \<open>\<open>Value.Resolve\<close>, for the values that need fewer than a hundred steps.\<close>

fun Resolve :: "lval \<Rightarrow> lval" where
  "Resolve (VLogValuer v) = Resolve v"
| "Resolve v = v"

definition empty_attr :: lattr where "empty_attr = ('''', VAny AnyNil)"

definition LevelDebug :: int where "LevelDebug = -4"
definition LevelInfo :: int where "LevelInfo = 0"
definition LevelWarn :: int where "LevelWarn = 4"
definition LevelError :: int where "LevelError = 8"
definition LevelTrace :: int where "LevelTrace = LevelDebug - 4"
definition LevelFatal :: int where "LevelFatal = LevelError + 4"

text \<open>\<open>Level.String\<close>.\<close>

definition level_str :: "string \<Rightarrow> int \<Rightarrow> string" where
  "level_str base v = (if v = 0 then base else base @ (if v < 0 then fmt_d v else CHR ''+'' # fmt_d v))"

definition level_String :: "int \<Rightarrow> string" where
  "level_String l =
     (if l < LevelInfo then level_str ''DEBUG'' (l - LevelDebug)
      else if l < LevelWarn then level_str ''INFO'' (l - LevelInfo)
      else if l < LevelError then level_str ''WARN'' (l - LevelWarn)
      else level_str ''ERROR'' (l - LevelError))"

subsection \<open>Formatting\<close>

text \<open>\<open>%q\<close>; bytes from 128 on belong to printable characters.\<close>

definition quote_char :: "char \<Rightarrow> string" where
  "quote_char c = (let n = (of_char c :: nat) in
     if n = 34 then [CHR 0x5C, c] else if n = 92 then [CHR 0x5C, c]
     else if n = 7 then [CHR 0x5C, CHR ''a''] else if n = 8 then [CHR 0x5C, CHR ''b''] else if n = 12 then [CHR 0x5C, CHR ''f'']
     else if n = 10 then [CHR 0x5C, CHR ''n''] else if n = 13 then [CHR 0x5C, CHR ''r''] else if n = 9 then [CHR 0x5C, CHR ''t'']
     else if n = 11 then [CHR 0x5C, CHR ''v'']
     else if n < 32 \<or> n = 127 then [CHR 0x5C, CHR ''x''] @ to_lower (hexw 2 n) else [c])"

definition go_quote :: "string \<Rightarrow> string" where
  "go_quote s = [CHR 0x22] @ concat (map quote_char s) @ [CHR 0x22]"

definition needs_quote :: "char \<Rightarrow> bool" where
  "needs_quote c = ((of_char c :: nat) \<in> {32, 9, 10, 13, 34, 61})"

definition quoteIfNeeded :: "string \<Rightarrow> string" where
  "quoteIfNeeded s = (if s = '''' \<or> (\<exists>c \<in> set s. needs_quote c) then go_quote s else s)"

definition formatSource :: "Source option \<Rightarrow> string" where
  "formatSource src =
     (case src of
        None \<Rightarrow> ''''
      | Some s \<Rightarrow> if so_File s = '''' then so_Function s
                  else if so_Line s \<le> 0 then so_File s
                  else so_File s @ '':'' @ fmt_d (so_Line s))"

text \<open>The text of a value and of a group under \<open>%+v\<close> and \<open>%q\<close>, where the handler asks for it, is \<open>gtext\<close>.\<close>

primrec formatAnyValue :: "anyval \<Rightarrow> string" where
  "formatAnyValue (AnyText data text) = (case data of Some d \<Rightarrow> d | None \<Rightarrow> text)"
| "formatAnyValue (AnySource s) = formatSource s"
| "formatAnyValue (AnyLevel l) = level_String l"
| "formatAnyValue (AnyPanics isNil text) = (if isNil then ''<nil>'' else ''!PANIC: '' @ text)"
| "formatAnyValue AnyNil = ''<nil>''"
| "formatAnyValue (AnyOther text) = text"

record logenv =
  le_rfc3339 :: "int \<Rightarrow> string"
  le_layout :: "string \<Rightarrow> int \<Rightarrow> string"
  le_group :: "lattr list \<Rightarrow> string"

definition formatAttrValue :: "logenv \<Rightarrow> string \<Rightarrow> lval \<Rightarrow> string" where
  "formatAttrValue L key value = key @ ''='' @
     (case Resolve value of
        VString s \<Rightarrow> quoteIfNeeded s
      | VInt64 i \<Rightarrow> fmt_d i
      | VUint64 n \<Rightarrow> fmt_d (int n)
      | VFloat64 t \<Rightarrow> t
      | VBool b \<Rightarrow> if b then ''true'' else ''false''
      | VDuration t \<Rightarrow> t
      | VTime t \<Rightarrow> le_rfc3339 L t
      | VGroup as \<Rightarrow> le_group L as
      | VAny a \<Rightarrow> quoteIfNeeded (formatAnyValue a)
      | VLogValuer v \<Rightarrow> '''')"

text \<open>\<open>fuel\<close> bounds the nesting of groups; \<open>group_depth\<close> of the value is enough.\<close>

fun writeAttr :: "nat \<Rightarrow> logenv \<Rightarrow> string list \<Rightarrow> lattr \<Rightarrow> string" where
  "writeAttr 0 L groups a = ''''"
| "writeAttr (Suc n) L groups a =
     (let k = fst a; v = Resolve (snd a) in
      if (k, v) = empty_attr then ''''
      else case v of
          VGroup as \<Rightarrow>
            (let nextGroups = (if k \<noteq> '''' then groups @ [k] else groups)
             in concat (map (writeAttr n L nextGroups) as))
        | _ \<Rightarrow> if k = '''' then ''''
               else '' '' @ formatAttrValue L (if groups \<noteq> [] then join_with ''.'' (groups @ [k]) else k) v)"

fun group_depth :: "lval \<Rightarrow> nat" where
  "group_depth (VGroup as) = Suc (fold max (map (\<lambda>a. group_depth (snd a)) as) 0)"
| "group_depth (VLogValuer v) = group_depth v"
| "group_depth v = 0"

definition write_attr :: "logenv \<Rightarrow> string list \<Rightarrow> lattr \<Rightarrow> string" where
  "write_attr L groups a = writeAttr (Suc (group_depth (snd a))) L groups a"

definition normalizeLevel :: "int \<Rightarrow> string" where
  "normalizeLevel l =
     (if l = LevelDebug then ''DEBUG'' else if l = LevelInfo then ''INFO'' else if l = LevelWarn then ''WARN''
      else if l = LevelError then ''ERROR'' else to_upper (level_String l))"

definition formatLevelValue :: "lval \<Rightarrow> int \<Rightarrow> string" where
  "formatLevelValue value fallback =
     (case Resolve value of
        VString s \<Rightarrow> to_upper s
      | VAny (AnyLevel l) \<Rightarrow> normalizeLevel l
      | VAny a \<Rightarrow> to_upper (formatAnyValue a)
      | _ \<Rightarrow> normalizeLevel fallback)"

definition formatTimeValue :: "logenv \<Rightarrow> lval \<Rightarrow> int \<Rightarrow> string \<Rightarrow> string" where
  "formatTimeValue L value fallback layout =
     (case Resolve value of
        VTime t \<Rightarrow> le_layout L layout t
      | VString s \<Rightarrow> s
      | _ \<Rightarrow> le_layout L layout fallback)"

subsection \<open>The handler\<close>

record PrettyTextOptions =
  po_Level :: "int option"
  po_AddSource :: bool
  po_ReplaceAttr :: "(string list \<Rightarrow> lattr \<Rightarrow> lattr) option"
  po_TimeFormat :: string
  po_MessageWidth :: int

record PrettyTextHandler =
  ph_opts :: PrettyTextOptions
  ph_attrs :: "lattr list"
  ph_groups :: "string list"

definition defaultTimeFormat :: string where "defaultTimeFormat = ''2006-01-02 15:04:05''"
definition defaultMessageWidth :: int where "defaultMessageWidth = 34"

definition NewPrettyTextHandler :: "PrettyTextOptions option \<Rightarrow> PrettyTextHandler" where
  "NewPrettyTextHandler opts =
     (let o' = (case opts of None \<Rightarrow> \<lparr>po_Level = None, po_AddSource = False, po_ReplaceAttr = None, po_TimeFormat = '''', po_MessageWidth = 0\<rparr>
                | Some x \<Rightarrow> x);
          o' = (if po_Level o' = None then o'\<lparr>po_Level := Some LevelInfo\<rparr> else o')
      in \<lparr>ph_opts = o', ph_attrs = [], ph_groups = []\<rparr>)"

text \<open>A level that is not set panics; \<open>NewPrettyTextHandler\<close> sets it.\<close>

definition Enabled :: "PrettyTextHandler \<Rightarrow> int \<Rightarrow> bool" where
  "Enabled h level = (case po_Level (ph_opts h) of Some l \<Rightarrow> l \<le> level | None \<Rightarrow> False)"

record log_record =
  lr_Time :: int
  lr_Level :: int
  lr_Message :: string
  lr_PC :: "Source option"
  lr_Attrs :: "lattr list"

definition replace :: "PrettyTextHandler \<Rightarrow> string list \<Rightarrow> lattr \<Rightarrow> lattr" where
  "replace h groups a =
     (let a = (fst a, Resolve (snd a)) in
      if a = empty_attr then empty_attr
      else case po_ReplaceAttr (ph_opts h) of
          None \<Rightarrow> a
        | Some f \<Rightarrow> let a = f groups a; a = (fst a, Resolve (snd a)) in if a = empty_attr then empty_attr else a)"

definition rune_count :: "string \<Rightarrow> nat" where
  "rune_count s = length (filter (\<lambda>c. \<not> (128 \<le> (of_char c :: nat) \<and> (of_char c :: nat) < 192)) s)"

definition pad_right :: "nat \<Rightarrow> string \<Rightarrow> string" where
  "pad_right w s = s @ replicate (w - rune_count s) (CHR '' '')"

definition log_line :: "logenv \<Rightarrow> PrettyTextHandler \<Rightarrow> log_record \<Rightarrow> string" where
  "log_line L h r =
     (let o' = ph_opts h;
          timeFormat = (if po_TimeFormat o' = '''' then defaultTimeFormat else po_TimeFormat o');
          messageWidth = (if po_MessageWidth o' \<le> 0 then defaultMessageWidth else po_MessageWidth o');
          timeAttr = replace h [] (''time'', VTime (lr_Time r));
          levelAttr = replace h [] (''level'', VAny (AnyLevel (lr_Level r)));
          timestamp = formatTimeValue L (snd timeAttr) (lr_Time r) timeFormat;
          level = formatLevelValue (snd levelAttr) (lr_Level r)
      in pad_right 6 level @ '' ['' @ timestamp @ ''] '' @ pad_right (nat messageWidth) (lr_Message r) @
         (case lr_PC r of
            Some src \<Rightarrow> if po_AddSource o' then write_attr L [] (replace h [] (''source'', VAny (AnySource (Some src)))) else ''''
          | None \<Rightarrow> '''') @
         concat (map (\<lambda>a. write_attr L (ph_groups h) (replace h (ph_groups h) a)) (ph_attrs h)) @
         concat (map (\<lambda>a. write_attr L (ph_groups h) (replace h (ph_groups h) a)) (lr_Attrs r)) @ [CHR 0x0A])"

text \<open>One write per record, under the mutex.\<close>

definition log_Handle :: "logenv \<Rightarrow> PrettyTextHandler \<Rightarrow> log_record \<Rightarrow> ('a sink_scheme, unit) m" where
  "log_Handle L h r = sink_Write (log_line L h r)"

definition WithAttrs :: "lattr list \<Rightarrow> PrettyTextHandler \<Rightarrow> PrettyTextHandler" where
  "WithAttrs attrs h = (if attrs = [] then h else h\<lparr>ph_attrs := ph_attrs h @ attrs\<rparr>)"

definition WithGroup :: "string \<Rightarrow> PrettyTextHandler \<Rightarrow> PrettyTextHandler" where
  "WithGroup name h = (if name = '''' then h else h\<lparr>ph_groups := ph_groups h @ [name]\<rparr>)"

subsection \<open>The choice of the handler (slog.go)\<close>

definition log_levels :: "string \<Rightarrow> int option" where
  "log_levels s =
     (if s = ''trace'' then Some LevelTrace else if s = ''debug'' then Some LevelDebug else if s = ''info'' then Some LevelInfo
      else if s = ''warn'' then Some LevelWarn else if s = ''error'' then Some LevelError else None)"

definition init_level :: "string \<Rightarrow> int" where
  "init_level s = (case log_levels (to_lower s) of Some l \<Rightarrow> l | None \<Rightarrow> LevelInfo)"

definition replaceAttr :: "bool \<Rightarrow> int \<Rightarrow> string list \<Rightarrow> lattr \<Rightarrow> lattr" where
  "replaceAttr addSource lvl groups attr =
     (let attr = (if addSource \<and> fst attr = ''source'' then
                    (case snd attr of
                       VAny (AnySource (Some src)) \<Rightarrow> (fst attr, VAny (AnySource (Some (src\<lparr>so_File := filepath_Base (so_File src)\<rparr>))))
                     | _ \<Rightarrow> attr)
                  else attr)
      in if (lvl \<le> LevelDebug \<or> LevelError \<le> lvl) \<and> fst attr = ''level'' then
           (case snd attr of
              VAny (AnyLevel l) \<Rightarrow> if l = LevelTrace then (''level'', VString ''TRACE'')
                else if l = LevelFatal then (''level'', VString ''FATAL'') else attr
            | _ \<Rightarrow> attr)
         else attr)"

datatype log_handler =
    JSONHandler bool int "string list \<Rightarrow> lattr \<Rightarrow> lattr" "lattr list"
  | TextHandler bool int "string list \<Rightarrow> lattr \<Rightarrow> lattr" "lattr list"
  | PrettyHandler PrettyTextHandler

definition log_Init :: "int \<Rightarrow> string \<Rightarrow> string \<Rightarrow> bool \<Rightarrow> log_handler" where
  "log_Init pid level format addSource =
     (let lvl = init_level level; ra = replaceAttr addSource lvl in
      if equal_fold format ''json'' then JSONHandler addSource lvl ra [(''pid'', VInt64 pid)]
      else if equal_fold format ''pretty'' then
        PrettyHandler (WithAttrs [(''pid'', VInt64 pid)] (NewPrettyTextHandler (Some
          \<lparr>po_Level = Some lvl, po_AddSource = addSource, po_ReplaceAttr = Some ra, po_TimeFormat = '''', po_MessageWidth = 0\<rparr>)))
      else TextHandler addSource lvl ra [(''pid'', VInt64 pid)])"

subsection \<open>The logging middleware\<close>

text \<open>
  A handler as the sequence of its calls of the response writer; between them it works on its own state, and the
  result of a write decides how it goes on.
\<close>

datatype 's writer_prog =
    WEnd "gerr option"
  | WState "'s \<Rightarrow> 's \<times> 's writer_prog"
  | WSetHeader string string "'s writer_prog"
  | WWriteHeader nat "'s writer_prog"
  | WWrite bytes "gerr option \<Rightarrow> 's writer_prog"

primrec serve_plain :: "'s writer_prog \<Rightarrow> ('s \<times> response, unit) m" where
  "serve_plain (WEnd e) = (case e of None \<Rightarrow> retE () | Some x \<Rightarrow> throwE x)"
| "serve_plain (WState f) = (\<lambda>(s, r). (case map_prod id serve_plain (f s) of (s', k) \<Rightarrow> k (s', r)))"
| "serve_plain (WSetHeader k v p) = thenE (on_snd (set_header k v)) (serve_plain p)"
| "serve_plain (WWriteHeader c p) = thenE (on_snd (WriteHeader c)) (serve_plain p)"
| "serve_plain (WWrite b p) = bindE (tryE (on_snd (rs_Write b))) (\<lambda>x. (serve_plain \<circ> p) (case x of Inl e \<Rightarrow> Some e | Inr _ \<Rightarrow> None))"

record responseWriter =
  rw_ResponseWriter :: response
  rw_status :: nat
  rw_wroteHeader :: bool

definition wrapResponseWriter :: "response \<Rightarrow> responseWriter" where
  "wrapResponseWriter w = \<lparr>rw_ResponseWriter = w, rw_status = 0, rw_wroteHeader = False\<rparr>"

text \<open>A method of the wrapped writer that is called on the wrapper.\<close>

definition promoted :: "(response, 'x) m \<Rightarrow> (responseWriter, 'x) m" where
  "promoted f rw = (case f (rw_ResponseWriter rw) of (x, w) \<Rightarrow> (x, rw\<lparr>rw_ResponseWriter := w\<rparr>))"

definition rw_WriteHeader :: "nat \<Rightarrow> (responseWriter, unit) m" where
  "rw_WriteHeader code =
     bindE (getE rw_wroteHeader) (\<lambda>wrote.
       if wrote then retE ()
       else thenE (modE (\<lambda>rw. rw\<lparr>rw_status := code\<rparr>))
           (thenE (promoted (WriteHeader code)) (modE (\<lambda>rw. rw\<lparr>rw_wroteHeader := True\<rparr>))))"

primrec serve_wrapped :: "'s writer_prog \<Rightarrow> ('s \<times> responseWriter, unit) m" where
  "serve_wrapped (WEnd e) = (case e of None \<Rightarrow> retE () | Some x \<Rightarrow> throwE x)"
| "serve_wrapped (WState f) = (\<lambda>(s, r). (case map_prod id serve_wrapped (f s) of (s', k) \<Rightarrow> k (s', r)))"
| "serve_wrapped (WSetHeader k v p) = thenE (on_snd (promoted (set_header k v))) (serve_wrapped p)"
| "serve_wrapped (WWriteHeader c p) = thenE (on_snd (rw_WriteHeader c)) (serve_wrapped p)"
| "serve_wrapped (WWrite b p) = bindE (tryE (on_snd (promoted (rs_Write b))))
     (\<lambda>x. (serve_wrapped \<circ> p) (case x of Inl e \<Rightarrow> Some e | Inr _ \<Rightarrow> None))"

text \<open>The middleware: the response, and the status it logs when it is verbose and the handler returned.\<close>

definition LoggingMiddleware :: "bool \<Rightarrow> 's writer_prog \<Rightarrow> 's \<times> response \<Rightarrow> ((gerr + unit) \<times> 's \<times> response) \<times> nat option" where
  "LoggingMiddleware verbose p = (\<lambda>(s, w).
     case serve_wrapped p (s, wrapResponseWriter w) of
       (x, (s', rw)) \<Rightarrow> ((x, (s', rw_ResponseWriter rw)), if verbose \<and> (\<exists>u. x = Inr u) then Some (rw_status rw) else None))"

end
