(* ===== verification/StreamBBSpec.thy ===== *)
theory StreamBBSpec
  imports StreamBB
begin

section \<open>A finished base backup is complete\<close>

text \<open>
  What the messages say, read directly off their list: the data that follow up to the next archive or
  manifest, the archives with their names and contents, and the manifest.
\<close>

fun data_run :: "bbmsg list \<Rightarrow> bytes" where
  "data_run (CopyOutResponse # ms) = data_run ms"
| "data_run (CopyData (c # d) # ms) =
     (if c = CHR ''d'' then d @ data_run ms
      else if c = CHR ''n'' \<or> c = CHR ''m'' then [] else data_run ms)"
| "data_run ms = []"

definition archive_name :: "bytes \<Rightarrow> string" where
  "archive_name d = trim_prefix (takeWhile (\<lambda>c. c \<noteq> zero_byte) d) ''./''"

fun archives :: "bbmsg list \<Rightarrow> (string \<times> bytes) list" where
  "archives (CopyOutResponse # ms) = archives ms"
| "archives (CopyData (c # d) # ms) =
     (if c = CHR ''n'' then (archive_name d, data_run ms) # archives ms else archives ms)"
| "archives ms = []"

fun last_manifest :: "bytes \<Rightarrow> bbmsg list \<Rightarrow> bytes" where
  "last_manifest b (CopyOutResponse # ms) = last_manifest b ms"
| "last_manifest b (CopyData (c # d) # ms) = (if c = CHR ''m'' then last_manifest (data_run ms) ms else last_manifest b ms)"
| "last_manifest b ms = b"

definition stored_all :: "(string \<times> bytes) list \<Rightarrow> (string \<Rightarrow> bytes option) \<Rightarrow> string \<Rightarrow> bytes option" where
  "stored_all as f = fold (\<lambda>(p, d) f. f(p \<mapsto> d)) as f"

definition total_bytes :: "(string \<times> bytes) list \<Rightarrow> nat" where
  "total_bytes as = sum_list (map (length \<circ> snd) as)"

lemma stored_all_Cons: "stored_all ((p, d) # as) f = stored_all as (f(p \<mapsto> d))"
  by (simp add: stored_all_def)

text \<open>What the loop has still to do, from its variables and the messages to come.\<close>

definition pending :: "bbloop \<Rightarrow> bbmsg list \<Rightarrow> (string \<times> bytes) list" where
  "pending l ms = (case bl_curFile l of None \<Rightarrow> [] | Some sf \<Rightarrow> [(sf_path sf, sf_data sf @ data_run ms)]) @ archives ms"

definition rest_bytes :: "bbloop \<Rightarrow> bbmsg list \<Rightarrow> nat" where
  "rest_bytes l ms = (if bl_curFile l = None then 0 else length (data_run ms)) + total_bytes (archives ms)"

definition rest_manifest :: "bbloop \<Rightarrow> bbmsg list \<Rightarrow> bytes" where
  "rest_manifest l ms = last_manifest (if bl_inManifest l then bl_manifestBuf l @ data_run ms else bl_manifestBuf l) ms"

definition names :: "bbloop \<Rightarrow> bbmsg list \<Rightarrow> string set" where
  "names l ms = fst ` set (pending l ms)"

definition loop_ok :: "bbloop \<Rightarrow> bool" where
  "loop_ok l \<longleftrightarrow> (\<forall>sf. bl_curFile l = Some sf \<longrightarrow> \<not> sf_closed sf \<and> sf_putErr sf = None) \<and>
     (bl_inManifest l \<longrightarrow> bl_curFile l = None)"

definition manifest_ok :: "'s basebackup \<Rightarrow> bytes \<Rightarrow> Result \<Rightarrow> bool" where
  "manifest_ok bb b res \<longleftrightarrow>
     (if b = [] then rs_Manifest res = None else \<exists>mf. bb_Unmarshal bb b = Inr mf \<and> rs_Manifest res = Some mf)"

context wal_archive
begin

lemma put_wp: "inv s \<Longrightarrow> wp (st_Put B p r)
    (\<lambda>_ t. inv t \<and> snd r = EEOF \<and> files t = (files s)(p \<mapsto> fst r)) (\<lambda>e t. inv t \<and> outside {p} (files s) (files t)) s"
  by (rule wp_conseq [OF put_law [OF _ all_good]]) (auto simp: outside_def all_good)

text \<open>Closing the current file puts it whole or reports an error.\<close>

lemma closeCurrent_wp:
  assumes "bb_storage bb = B" and "inv s" and "loop_ok l"
  shows "wp (closeCurrent bb l)
     (\<lambda>(err, l') t. inv t \<and> outside (names l []) (files s) (files t) \<and>
        (err = None \<longrightarrow> files t = stored_all (pending l []) (files s) \<and> l' = l\<lparr>bl_curFile := None\<rparr>))
     (\<lambda>e t. inv t \<and> outside (names l []) (files s) (files t)) s"
proof (cases "bl_curFile l")
  case None
  then show ?thesis using assms(2) by (simp add: closeCurrent_def pending_def stored_all_def)
next
  case (Some sf)
  with assms(3) have sf: "\<not> sf_closed sf" "sf_putErr sf = None" by (auto simp: loop_ok_def)
  have n: "names l [] = {sf_path sf}" by (simp add: names_def pending_def Some)
  have p: "stored_all (pending l []) f = f(sf_path sf \<mapsto> sf_data sf)" for f
    by (simp add: pending_def Some stored_all_def)
  show ?thesis
    using sf unfolding n p
    by (simp add: closeCurrent_def Some sf_Close_def assms(1) Let_def, intro wp_conseq [OF put_wp [OF assms(2)]])
      (auto simp: outside_def)
qed

lemma closed_or_fail_wp:
  assumes "bb_storage bb = B" and "inv s" and "loop_ok l"
  shows "wp (closed_or_fail bb l)
     (\<lambda>l' t. inv t \<and> outside (names l []) (files s) (files t) \<and> files t = stored_all (pending l []) (files s) \<and> l' = l\<lparr>bl_curFile := None\<rparr>)
     (\<lambda>e t. inv t \<and> outside (names l []) (files s) (files t)) s"
  unfolding closed_or_fail_def wp_bindE
  by (rule wp_conseq [OF closeCurrent_wp [OF assms]]) (auto split: option.split)

lemma close_and_fail_wp:
  assumes "bb_storage bb = B" and "inv s" and "loop_ok l"
  shows "wp (close_and_fail bb l e) (\<lambda>_ _. False) (\<lambda>e t. inv t \<and> outside (names l []) (files s) (files t)) s"
  unfolding close_and_fail_def wp_bindE
  by (rule wp_conseq [OF closeCurrent_wp [OF assms]]) auto

text \<open>After a write failed the file is abandoned: closing it again changes nothing.\<close>

lemma sf_Write_wp:
  assumes "bb_storage bb = B" and "inv s" and "\<not> sf_closed sf" and "sf_putErr sf = None"
    and giveup: "\<And>p d. bb_giveup bb p d \<noteq> Some EEOF"
  shows "wp (sf_Write bb sf d)
     (\<lambda>(r, sf') t. inv t \<and> outside {sf_path sf} (files s) (files t) \<and> \<not> sf_closed sf' \<and>
        (case r of Inr n \<Rightarrow> n = length d \<and> files t = files s \<and> sf' = sf\<lparr>sf_data := sf_data sf @ d\<rparr>
         | Inl e \<Rightarrow> sf_putErr sf' \<noteq> None))
     (\<lambda>e t. inv t \<and> outside {sf_path sf} (files s) (files t)) s"
proof (cases "bb_giveup bb (sf_path sf) (sf_data sf @ d)")
  case None
  then show ?thesis using assms(2-4) by (simp add: sf_Write_def)
next
  case (Some e)
  with giveup have e: "e \<noteq> EEOF" by metis
  show ?thesis
    using Some assms(3,4) e
    by (simp add: sf_Write_def assms(1) Let_def, intro wp_conseq [OF put_wp [OF assms(2)]]) auto
qed

lemma close_failed:
  assumes "bl_curFile l = Some sf" and "sf_putErr sf \<noteq> None"
  shows "wp (close_and_fail bb l e) (\<lambda>_ _. False) (\<lambda>_ t. t = s) s"
  using assms by (cases "sf_closed sf") (auto simp: close_and_fail_def closeCurrent_def sf_Close_def Let_def)

text \<open>One message: what is left to do afterwards is what was left to do before.\<close>

definition same_rest :: "bbloop \<Rightarrow> (string \<Rightarrow> bytes option) \<Rightarrow> bbmsg list \<Rightarrow> bbloop \<Rightarrow> (string \<Rightarrow> bytes option) \<Rightarrow> bbmsg list \<Rightarrow> bool" where
  "same_rest l f ms l' f' ms' \<longleftrightarrow>
     loop_ok l' \<and> stored_all (pending l' ms') f' = stored_all (pending l ms) f \<and>
     bl_totalBytes l' + word_of_nat (rest_bytes l' ms') = bl_totalBytes l + word_of_nat (rest_bytes l ms) \<and>
     rest_manifest l' ms' = rest_manifest l ms \<and> names l' ms' \<subseteq> names l ms \<and> outside (names l ms) f f'"

lemma names_Nil: "names l [] \<subseteq> names l ms"
  by (cases "bl_curFile l") (auto simp: names_def pending_def)

lemma newArchive_wp:
  assumes "bb_storage bb = B" and "inv s" and "loop_ok l"
  shows "wp (newArchive bb d l) (\<lambda>l' t. inv t \<and> (\<forall>ms. same_rest l (files s) (CopyData (CHR ''n'' # d) # ms) l' (files t) ms))
     (\<lambda>e t. inv t \<and> outside (names l []) (files s) (files t)) s"
proof -
  let ?l = "l\<lparr>bl_inManifest := False\<rparr>"
  have ok: "loop_ok ?l" using assms(3) by (simp add: loop_ok_def)
  have p: "pending ?l ms = pending l ms" "names ?l ms = names l ms" for ms by (simp_all add: pending_def names_def)
  have same: "same_rest l (files s) (CopyData (CHR ''n'' # d) # ms)
      (l\<lparr>bl_inManifest := False, bl_remotePath := archive_name d, bl_curFile := Some (NewStreamingFile (archive_name d))\<rparr>)
      (stored_all (pending l []) (files s)) ms" for ms
    using assms(3)
    by (cases "bl_curFile l") (auto simp: same_rest_def loop_ok_def pending_def names_def rest_bytes_def rest_manifest_def
        NewStreamingFile_def stored_all_def total_bytes_def outside_def)
  have r: "readCString d = Inr x \<Longrightarrow> fst x = takeWhile (\<lambda>c. c \<noteq> zero_byte) d" for x
    by (auto simp: readCString_def split: if_splits)
  show ?thesis
    unfolding newArchive_def wp_bindE
    by (rule wp_conseq [OF closed_or_fail_wp [OF assms(1,2) ok]])
      (use same r in \<open>auto simp: p Let_def archive_name_def split: sum.split prod.split\<close>)
qed

lemma archiveData_wp:
  assumes "bb_storage bb = B" and "inv s" and "loop_ok l" and "\<And>p d. bb_giveup bb p d \<noteq> Some EEOF"
  shows "wp (archiveData bb d l) (\<lambda>l' t. inv t \<and> (\<forall>ms. same_rest l (files s) (CopyData (CHR ''d'' # d) # ms) l' (files t) ms))
     (\<lambda>e t. inv t \<and> outside (names l []) (files s) (files t)) s"
proof (cases "bl_inManifest l")
  case True
  then show ?thesis
    using assms(2,3) by (auto simp: archiveData_def same_rest_def loop_ok_def pending_def names_def rest_bytes_def rest_manifest_def)
next
  case man: False
  show ?thesis
  proof (cases "bl_curFile l")
    case None
    then show ?thesis
      unfolding archiveData_def using man
      by (simp, intro wp_conseq [OF close_and_fail_wp [OF assms(1-3)]]) auto
  next
    case (Some sf)
    with assms(3) have sf: "\<not> sf_closed sf" "sf_putErr sf = None" by (auto simp: loop_ok_def)
    have n: "names l [] = {sf_path sf}" by (simp add: names_def pending_def Some)
    have same: "same_rest l (files s) (CopyData (CHR ''d'' # d) # ms)
        (l\<lparr>bl_curFile := Some (sf\<lparr>sf_data := sf_data sf @ d\<rparr>), bl_totalBytes := bl_totalBytes l + word_of_nat (length d)\<rparr>) (files s) ms" for ms
      using sf man by (auto simp: same_rest_def loop_ok_def pending_def names_def rest_bytes_def rest_manifest_def Some)
    have fail: "wp (close_and_fail bb (l\<lparr>bl_curFile := Some sf'\<rparr>) e) Q (\<lambda>e t. inv t \<and> outside {sf_path sf} (files s) (files t)) t"
      if "sf_putErr sf' \<noteq> None" "inv t" "outside {sf_path sf} (files s) (files t)" for sf' e t Q
      using that(1) by (intro wp_conseq [OF close_failed [where sf = sf']]) (auto simp: that)
    show ?thesis
      unfolding archiveData_def using man Some
      by (simp add: n, intro wp_conseq [OF sf_Write_wp [OF assms(1,2) sf assms(4)]])
        (auto simp: same split: sum.splits intro!: fail)
  qed
qed

lemma handleCopyData_wp:
  assumes "bb_storage bb = B" and "inv s" and "loop_ok l" and "\<And>p d. bb_giveup bb p d \<noteq> Some EEOF"
  shows "wp (handleCopyData bb d l) (\<lambda>l' t. inv t \<and> (\<forall>ms. same_rest l (files s) (CopyData d # ms) l' (files t) ms))
     (\<lambda>e t. inv t \<and> outside (names l []) (files s) (files t)) s"
proof (cases d)
  case Nil
  then show ?thesis using assms(2) by (simp add: handleCopyData_def)
next
  case (Cons c d')
  consider "c = CHR ''n''" | "c = CHR ''d''" | "c = CHR ''m''" | "c \<noteq> CHR ''n''" "c \<noteq> CHR ''d''" "c \<noteq> CHR ''m''" by blast
  then show ?thesis
  proof cases
    case 1
    then show ?thesis using newArchive_wp [OF assms(1-3), of d'] by (simp add: handleCopyData_def Cons)
  next
    case 2
    then show ?thesis using archiveData_wp [OF assms, of d'] by (simp add: handleCopyData_def Cons)
  next
    case 3
    have same: "same_rest l (files s) (CopyData (CHR ''m'' # d') # ms)
        (l\<lparr>bl_curFile := None, bl_inManifest := True, bl_manifestBuf := []\<rparr>) (stored_all (pending l []) (files s)) ms" for ms
      using assms(3)
      by (cases "bl_curFile l") (auto simp: same_rest_def loop_ok_def pending_def names_def rest_bytes_def rest_manifest_def
          stored_all_def outside_def)
    show ?thesis
      unfolding handleCopyData_def Cons using 3
      by (simp, intro wp_conseq [OF closed_or_fail_wp [OF assms(1-3)]]) (use same in auto)
  next
    case 4
    then show ?thesis
      using assms(2,3) by (auto simp: handleCopyData_def Cons same_rest_def pending_def names_def rest_bytes_def rest_manifest_def)
  qed
qed

lemma finishBackup_wp:
  assumes "bb_storage bb = B" and "inv s" and "loop_ok l" and "keeps (\<lambda>s. s) (bb_now bb)" and "rs_Manifest res0 = None"
  shows "wp (finishBackup bb res0 st l)
     (\<lambda>res t. inv t \<and> files t = stored_all (pending l []) (files s) \<and> rs_BytesTotal res = bl_totalBytes l \<and>
        manifest_ok bb (bl_manifestBuf l) res)
     (\<lambda>e t. inv t \<and> outside (names l []) (files s) (files t)) s"
proof -
  have now: "wp (bb_now bb) (\<lambda>_ u. Q u) (\<lambda>_ u. Q u) t" if "Q t" for Q t
    using that by (intro wpI) (auto dest: keepsD [OF assms(4)])
  show ?thesis
    unfolding finishBackup_def wp_bindE
    by (rule wp_conseq [OF closed_or_fail_wp [OF assms(1-3)]])
      (auto simp: manifest_ok_def assms(5) Let_def split: sum.split
        intro!: wp_conseq [OF now [where Q = "\<lambda>u. inv u \<and> files u = stored_all (pending l []) (files s) \<and> outside (names l []) (files s) (files u)"]])
qed

lemma bb_loop_wp:
  assumes "bb_storage bb = B" and "keeps (\<lambda>s. s) (bb_now bb)" and "rs_Manifest res0 = None" and "\<And>p d. bb_giveup bb p d \<noteq> Some EEOF"
  shows "inv s \<Longrightarrow> loop_ok l \<Longrightarrow> wp (bb_loop bb res0 st msgs l)
     (\<lambda>res t. inv t \<and> files t = stored_all (pending l msgs) (files s) \<and>
        rs_BytesTotal res = bl_totalBytes l + word_of_nat (rest_bytes l msgs) \<and> manifest_ok bb (rest_manifest l msgs) res)
     (\<lambda>e t. inv t \<and> outside (names l msgs) (files s) (files t)) s"
proof (induction msgs arbitrary: s l)
  case Nil
  then show ?case by (simp, intro wp_conseq [OF close_and_fail_wp [OF assms(1)]]) auto
next
  case (Cons m msgs)
  have out: "outside (names l (m # msgs)) (files s) (files t)" if "outside (names l []) (files s) (files t)" for t
    using outside_mono [OF that names_Nil] .
  show ?case
  proof (cases m)
    case CopyOutResponse
    have "pending l (CopyOutResponse # msgs) = pending l msgs" "rest_bytes l (CopyOutResponse # msgs) = rest_bytes l msgs"
      "rest_manifest l (CopyOutResponse # msgs) = rest_manifest l msgs" "names l (CopyOutResponse # msgs) = names l msgs"
      by (cases "bl_curFile l"; simp add: pending_def rest_bytes_def rest_manifest_def names_def)+
    then show ?thesis using Cons.IH [OF Cons.prems] by (simp only: CopyOutResponse bb_loop.simps bbmsg.case)
  next
    case (CopyData d)
    have step: "wp (bb_loop bb res0 st msgs l')
       (\<lambda>res u. inv u \<and> files u = stored_all (pending l (m # msgs)) (files s) \<and>
          rs_BytesTotal res = bl_totalBytes l + word_of_nat (rest_bytes l (m # msgs)) \<and> manifest_ok bb (rest_manifest l (m # msgs)) res)
       (\<lambda>e u. inv u \<and> outside (names l (m # msgs)) (files s) (files u)) t"
      if "inv t" "same_rest l (files s) (CopyData d # msgs) l' (files t) msgs" for l' t
    proof -
      have sr: "loop_ok l'" "stored_all (pending l' msgs) (files t) = stored_all (pending l (m # msgs)) (files s)"
        "bl_totalBytes l' + word_of_nat (rest_bytes l' msgs) = bl_totalBytes l + word_of_nat (rest_bytes l (m # msgs))"
        "rest_manifest l' msgs = rest_manifest l (m # msgs)" "names l' msgs \<subseteq> names l (m # msgs)"
        "outside (names l (m # msgs)) (files s) (files t)"
        using that(2) unfolding same_rest_def CopyData by blast+
      show ?thesis
        by (rule wp_conseq [OF Cons.IH [OF that(1) sr(1)]])
          (auto simp: sr(2-4) intro: outside_trans [OF sr(6)] elim: outside_mono [OF _ sr(5)])
    qed
    show ?thesis
      unfolding bb_loop.simps CopyData bbmsg.case wp_bindE
      by (rule wp_conseq [OF handleCopyData_wp [OF assms(1) Cons.prems assms(4)]])
        (use step out CopyData in auto)
  next
    case CopyDone
    then show ?thesis
      unfolding bb_loop.simps CopyDone bbmsg.case
      by (intro wp_conseq [OF finishBackup_wp [OF assms(1) Cons.prems assms(2,3)]])
        (use out CopyDone in \<open>auto simp: pending_def rest_bytes_def rest_manifest_def total_bytes_def cong: option.case_cong\<close>)
  next
    case OtherMessage
    then show ?thesis using Cons.prems by simp
  next
    case (ReceiveError e)
    then show ?thesis
      unfolding bb_loop.simps ReceiveError bbmsg.case
      by (intro wp_conseq [OF close_and_fail_wp [OF assms(1) Cons.prems]]) (use out ReceiveError in auto)
  qed
qed

lemma streamBaseBackup_wp:
  assumes "bb_storage bb = B" and "keeps (\<lambda>s. s) (bb_now bb)" and "\<And>p d. bb_giveup bb p d \<noteq> Some EEOF" and "inv s"
  shows "wp (streamBaseBackup bb msgs)
     (\<lambda>res t. inv t \<and> files t = stored_all (archives msgs) (files s) \<and>
        rs_BytesTotal res = word_of_nat (total_bytes (archives msgs)) \<and> manifest_ok bb (last_manifest [] msgs) res)
     (\<lambda>e t. inv t \<and> outside (fst ` set (archives msgs)) (files s) (files t)) s"
proof -
  have now: "wp (bb_now bb) (\<lambda>_ u. Q u) (\<lambda>_ u. Q u) t" if "Q t" for Q t
    using that by (intro wpI) (auto dest: keepsD [OF assms(2)])
  have b: "pending bb_start msgs = archives msgs" "loop_ok bb_start" "names bb_start msgs = fst ` set (archives msgs)"
    "rest_bytes bb_start msgs = total_bytes (archives msgs)" "rest_manifest bb_start msgs = last_manifest [] msgs"
    by (simp_all add: bb_start_def pending_def loop_ok_def names_def rest_bytes_def rest_manifest_def)
  have loop: "wp (bb_loop bb res0 st msgs bb_start)
     (\<lambda>res t. inv t \<and> files t = stored_all (archives msgs) (files s) \<and>
        rs_BytesTotal res = word_of_nat (total_bytes (archives msgs)) \<and> manifest_ok bb (last_manifest [] msgs) res)
     (\<lambda>e t. inv t \<and> outside (fst ` set (archives msgs)) (files s) (files t)) t"
    if "inv t" "files t = files s" "rs_Manifest res0 = None" for res0 st t
    using bb_loop_wp [OF assms(1,2) that(3) assms(3) that(1) b(2), of st msgs]
    by (simp add: b that(2)) (simp add: bb_start_def)
  show ?thesis
    unfolding streamBaseBackup_def using assms(4)
    by (auto simp: Let_def split: sum.split intro!: wp_conseq [OF now [where Q = "\<lambda>u. inv u \<and> files u = files s"]] loop)
qed

end

lemma streamed_backup:
  assumes "bb_storage bb = mem_storage" and "keeps (\<lambda>s. s) (bb_now bb)" and "\<forall>p d. bb_giveup bb p d \<noteq> Some EEOF"
    and "StreamBackup bb msgs s = (Inr res, t)"
  shows "\<exists>marker. bb_Marshal bb res = Inr marker \<and>
     mem_files t = (stored_all (archives msgs) (mem_files s))(bb_timestamp bb @ ''.json'' \<mapsto> marker) \<and>
     rs_BytesTotal res = word_of_nat (total_bytes (archives msgs)) \<and> manifest_ok bb (last_manifest [] msgs) res"
proof -
  have g: "bb_giveup bb p d \<noteq> Some EEOF" for p d using assms(3) by blast
  have "wp (StreamBackup bb msgs)
     (\<lambda>res t. \<exists>marker. bb_Marshal bb res = Inr marker \<and>
        mem_files t = (stored_all (archives msgs) (mem_files s))(bb_timestamp bb @ ''.json'' \<mapsto> marker) \<and>
        rs_BytesTotal res = word_of_nat (total_bytes (archives msgs)) \<and> manifest_ok bb (last_manifest [] msgs) res)
     (\<lambda>_ _. True) s"
    unfolding StreamBackup_def wp_bindE wp_liftE wp_thenE
    by (rule wp_conseq [OF mem_archive.streamBaseBackup_wp [where s = s and msgs = msgs, OF assms(1,2) g]])
      (auto simp: assms(1) split: sum.split intro!: wp_conseq [OF mem_archive.put_wp])
  from wpD_ok [OF this assms(4)] show ?thesis .
qed

subsection \<open>Properties\<close>

text \<open>C6: A base backup that reports success is complete. Then the storage holds every archive the server sent, under its name and with exactly the concatenation of its data messages, and after them the marker file with the encoded result; nothing else has changed. The result counts the bytes of all archives, and carries the last manifest the server sent, parsed.\<close>
theorem backup_complete:
  assumes "bb_storage bb = mem_storage" and "keeps (\<lambda>s. s) (bb_now bb)" and "\<forall>p d. bb_giveup bb p d \<noteq> Some EEOF"
    and "StreamBackup bb msgs s = (Inr res, t)"
  shows "\<exists>marker. bb_Marshal bb res = Inr marker \<and>
     mem_files t = (stored_all (archives msgs) (mem_files s))(bb_timestamp bb @ ''.json'' \<mapsto> marker) \<and>
     rs_BytesTotal res = word_of_nat (total_bytes (archives msgs)) \<and> manifest_ok bb (last_manifest [] msgs) res"
  by (rule streamed_backup [OF assms])


definition demo_bb :: "InMemoryStorage basebackup" where
  "demo_bb = \<lparr>bb_storage = mem_storage, bb_timestamp = ''20250101000000'', bb_now = retE 7, bb_giveup = (\<lambda>p d. None),
     bb_StartBaseBackup = Inr \<lparr>sr_LSN = 0x28, sr_TimelineID = 1, sr_Tablespaces = []\<rparr>, bb_FinishBaseBackup = Inr 0x100,
     bb_Unmarshal = (\<lambda>b. Inr \<lparr>bm_Version = 1, bm_Files = [], bm_WALRanges = [], bm_ManifestChecksum = b\<rparr>),
     bb_Marshal = (\<lambda>r. Inr ''{}'')\<rparr>"

definition demo_msgs :: "bbmsg list" where
  "demo_msgs = [CopyOutResponse, CopyData (''n./base.tar'' @ [zero_byte, zero_byte]), CopyData ''dab'', CopyData ''dc'',
     CopyData ''m'', CopyData ''dM''] "

lemma demo_giveup: "\<forall>p d. bb_giveup demo_bb p d \<noteq> Some EEOF" "keeps (\<lambda>s. s) (bb_now demo_bb)" "bb_storage demo_bb = mem_storage"
  by (simp_all add: demo_bb_def keeps_basic)

theorem backup_complete_witness:
  "\<exists>res t. StreamBackup demo_bb (demo_msgs @ [CopyDone]) (NewInMemoryStorage 0) = (Inr res, t) \<and>
     mem_files t ''base.tar'' = Some ''abc'' \<and>
     (\<exists>marker. bb_Marshal demo_bb res = Inr marker \<and>
       mem_files t = (stored_all (archives (demo_msgs @ [CopyDone])) (mem_files (NewInMemoryStorage 0)))(bb_timestamp demo_bb @ ''.json'' \<mapsto> marker) \<and>
       rs_BytesTotal res = word_of_nat (total_bytes (archives (demo_msgs @ [CopyDone]))) \<and>
       manifest_ok demo_bb (last_manifest [] (demo_msgs @ [CopyDone])) res)"
proof -
  have "mem_files (snd (StreamBackup demo_bb (demo_msgs @ [CopyDone]) (NewInMemoryStorage 0))) ''base.tar'' = Some ''abc'' \<and>
      (case fst (StreamBackup demo_bb (demo_msgs @ [CopyDone]) (NewInMemoryStorage 0)) of Inr res \<Rightarrow> True | Inl e \<Rightarrow> False)"
    by code_simp
  then obtain res where r: "fst (StreamBackup demo_bb (demo_msgs @ [CopyDone]) (NewInMemoryStorage 0)) = Inr res"
    "mem_files (snd (StreamBackup demo_bb (demo_msgs @ [CopyDone]) (NewInMemoryStorage 0))) ''base.tar'' = Some ''abc''"
    by (auto split: sum.splits)
  then have s: "StreamBackup demo_bb (demo_msgs @ [CopyDone]) (NewInMemoryStorage 0) =
      (Inr res, snd (StreamBackup demo_bb (demo_msgs @ [CopyDone]) (NewInMemoryStorage 0)))" by (metis prod.collapse)
  from backup_complete [OF demo_giveup(3,2,1) s] s r(2) show ?thesis by blast
qed


end
