(* ===== verification/LocalSpec.thy ===== *)
theory LocalSpec
  imports LocalFS
begin

section \<open>The local backend keeps the contract\<close>

text \<open>
  The contract of the storage interface for the local backend, for plain file names, under every failure of
  the system calls, and what a synchronous put makes durable.
\<close>

definition loc_inv :: "'a world_scheme \<Rightarrow> bool" where
  "loc_inv s \<longleftrightarrow> (\<forall>p i. lookup s p = Some i \<longrightarrow> i < w_next s) \<and>
     (\<forall>p q i. lookup s p = Some i \<longrightarrow> lookup s q = Some i \<longrightarrow> p = q) \<and>
     (\<forall>p \<in> set (w_dirs s). lookup s p = None)"

definition loc_good :: "localStorage \<Rightarrow> string \<Rightarrow> bool" where
  "loc_good l p \<longleftrightarrow> plain_name p \<and> baseDir l \<noteq> ''''"

definition loc_files :: "localStorage \<Rightarrow> 'a world_scheme \<Rightarrow> string \<Rightarrow> bytes option" where
  "loc_files l s p =
     (if loc_good l p then map_option (\<lambda>i. i_data (w_ino s i)) (lookup s (fullPath l p)) else None)"

text \<open>\<open>only_ino i s t\<close>: from \<open>s\<close> to \<open>t\<close> at most the contents of file \<open>i\<close> changed.\<close>

definition only_ino :: "nat \<Rightarrow> 'a world_scheme \<Rightarrow> 'a world_scheme \<Rightarrow> bool" where
  "only_ino i s t \<longleftrightarrow> lookup t = lookup s \<and> w_dirs t = w_dirs s \<and> w_next s \<le> w_next t \<and>
     (\<forall>j. j \<noteq> i \<longrightarrow> w_ino t j = w_ino s j)"

lemma only_ino_trans: "only_ino i s t \<Longrightarrow> only_ino i t u \<Longrightarrow> only_ino i s u"
  by (simp add: only_ino_def)

lemma only_ino_env: "env_le s t \<Longrightarrow> only_ino i s t"
  by (simp add: only_ino_def env_leD)

lemma w_dirs_simps [simp]:
  "w_dirs (put_data i d s) = w_dirs s" "w_dirs (sync_ino i s) = w_dirs s"
  by (simp_all add: put_data_def sync_ino_def)

lemma only_ino_steps: "only_ino i s (put_data i d s)" "only_ino i s (sync_ino i s)" "only_ino i s (close_fd f s)"
  by (simp_all add: only_ino_def)

lemma fullPath_plain: "loc_good l p \<Longrightarrow> fullPath l p = dir_child (baseDir l) p"
proof -
  assume g: "loc_good l p"
  then have p: "plain_name p" by (simp add: loc_good_def)
  then have "\<not> rooted p" by (cases p) (auto simp: rooted_def has_prefix_def plain_name_def)
  with p have "filepath_Clean p = p"
    by (simp add: filepath_Clean_def path_elems_def path_of_def split_on_plain plain_name_def)
  with g show ?thesis by (simp add: fullPath_def filepath_Join_child loc_good_def)
qed

lemma fullPath_inj: "loc_good l p \<Longrightarrow> loc_good l q \<Longrightarrow> fullPath l p = fullPath l q \<longleftrightarrow> p = q"
  by (simp add: fullPath_plain)

lemma write_at_end: "write_at d (length d) xs = d @ xs"
  by (simp add: write_at_def)

lemma put_data_twice: "put_data i d (put_data i d' s) = put_data i d s"
  by (simp add: put_data_def)

lemma wp_copy_pieces:
  assumes "w_fd s f = Some i" and "f < w_next s"
  shows "wp (copy_pieces f (length (i_data (w_ino s i))) ps)
    (\<lambda>_ t. env_le (put_data i (i_data (w_ino s i) @ concat ps) s) t) (\<lambda>_ t. \<exists>d. env_le (put_data i d s) t) s"
  using assms
proof (induction ps arbitrary: s)
  case Nil
  have "put_data i (i_data (w_ino s i)) s = s" by (simp add: put_data_def)
  then show ?case by simp
next
  case (Cons p ps)
  have step: "wp (copy_pieces f (length (i_data (w_ino s i)) + length p) ps)
      (\<lambda>_ u. env_le (put_data i (i_data (w_ino s i) @ p @ concat ps) s) u) (\<lambda>_ u. \<exists>d. env_le (put_data i d s) u) t"
    if t: "env_le (put_data i (i_data (w_ino s i) @ p) s) t" for t :: "'a world_scheme"
  proof -
    have f: "w_fd t f = Some i" "f < w_next t" "i_data (w_ino t i) = i_data (w_ino s i) @ p"
      using t Cons.prems by (auto simp: env_leD(3,6) dest: env_leD(5))
    have tr: "env_le (put_data i d s) u" if "env_le (put_data i d t) u" for d u
      using env_le_trans [OF env_le_cong(1) [OF t] that] by (simp add: put_data_twice)
    show ?thesis
      using Cons.IH [OF f(1,2)] unfolding f(3) by (auto elim!: wp_conseq intro: tr)
  qed
  show ?case
    by (simp, rule wp_f_WriteAt [OF Cons.prems(1)]) (auto simp: write_at_end intro: step)
qed

lemma wp_fill_file:
  assumes "w_fd s f = Some i" and "f < w_next s" and "i_data (w_ino s i) = []"
  shows "wp (fill_file l r f)
    (\<lambda>_ t. snd r = EEOF \<and> only_ino i s t \<and> i_data (w_ino t i) = fst r \<and> (fsyncOnWrite l \<longrightarrow> i_sync (w_ino t i) = fst r))
    (\<lambda>_ t. only_ino i s t) s"
proof -
  have oi: "only_ino i s t" if "env_le (put_data i d s) t" for d t
    using only_ino_trans [OF only_ino_steps(1) only_ino_env [OF that]] .
  have fd: "w_fd t f = Some i" if "env_le (put_data i d s) t" for d t
    using that assms(1,2) by (simp add: env_leD(6))
  have fd': "w_fd u f = Some i" if "env_le (put_data i d s) t" "env_le (sync_ino i t) u" for d t u
    using that assms(1,2) by (metis env_leD(5,6) fd fd_simps(2) less_le_trans next_simps(1,2))
  have cl: "wp (f_Close f) Q R t"
    if "w_fd t f = Some i" "\<And>u. only_ino i t u \<Longrightarrow> w_ino u = w_ino t \<Longrightarrow> Q () u"
      "\<And>e u. \<not> is_abort e \<Longrightarrow> only_ino i t u \<Longrightarrow> w_ino u = w_ino t \<Longrightarrow> R e u" for Q R t
    by (rule wp_f_Close [OF that(1)])
      (auto intro!: that(2,3) only_ino_trans [OF only_ino_steps(3) only_ino_env] simp: env_leD(3))
  have fin: "wp (finish_file l f)
      (\<lambda>_ u. only_ino i s u \<and> i_data (w_ino u i) = d \<and> (fsyncOnWrite l \<longrightarrow> i_sync (w_ino u i) = d))
      (\<lambda>_ u. only_ino i s u) t" if t: "env_le (put_data i d s) t" for d t
  proof (cases "fsyncOnWrite l")
    case False
    then show ?thesis
      using oi [OF t] by (auto simp: finish_file_def intro!: cl [OF fd [OF t]] intro: only_ino_trans simp: env_leD(3) [OF t])
  next
    case True
    have a: "only_ino i s u" if "env_le (sync_ino i t) u" for u
      using only_ino_trans [OF oi [OF t] only_ino_trans [OF only_ino_steps(2) only_ino_env [OF that]]] .
    have b: "i_data (w_ino u i) = d \<and> i_sync (w_ino u i) = d" if "env_le (sync_ino i t) u" for u
      using that by (simp add: env_leD(3) env_leD(3) [OF t])
    have c: "only_ino i s u" if "env_le t u" for u
      using only_ino_trans [OF oi [OF t] only_ino_env [OF that]] .
    have d: "w_fd u f = Some i" if "env_le t u" for u
      using fd [OF env_le_trans [OF t that]] .
    have ok: "wp (f_Close f) (\<lambda>_ u. only_ino i s u \<and> i_data (w_ino u i) = d \<and> i_sync (w_ino u i) = d)
        (\<lambda>_ u. only_ino i s u) u" if "env_le (sync_ino i t) u" for u
      using b [OF that] by (intro cl [OF fd' [OF t that]]) (auto intro: only_ino_trans [OF a [OF that]])
    have err: "wp (f_Close f) (\<lambda>_. only_ino i s) (\<lambda>_. only_ino i s) u" if "env_le t u" for u
      by (intro cl [OF d [OF that]]) (auto intro: only_ino_trans [OF c [OF that]])
    show ?thesis
      using True by (simp add: finish_file_def, intro wp_Fsync [OF fd [OF t]]) (auto intro: ok elim!: wp_conseq [OF err])
  qed
  obtain d e where r: "r = (d, e)" by (cases r)
  have cp: "wp (copy_pieces f 0 (pieces copyBufSize d)) (\<lambda>_ t. env_le (put_data i d s) t)
      (\<lambda>_ t. \<exists>d. env_le (put_data i d s) t) s"
    using wp_copy_pieces [OF assms(1,2), of "pieces copyBufSize d"] by (simp add: assms(3) concat_pieces)
  have bad: "wp (f_Close f) (\<lambda>_. only_ino i s) (\<lambda>_. only_ino i s) t" if "env_le (put_data i d' s) t" for d' t
    by (intro cl [OF fd [OF that]]) (auto intro: only_ino_trans [OF oi [OF that]])
  show ?thesis
    unfolding fill_file_def copy_file_def r prod.case wp_bindE wp_tryE wp_thenE
    by (rule wp_conseq [OF cp]) (auto intro: oi elim!: wp_conseq [OF bad] wp_conseq [OF fin])
qed

lemma loc_inv_only_ino: "loc_inv s \<Longrightarrow> only_ino i s t \<Longrightarrow> loc_inv t"
  by (auto simp: loc_inv_def only_ino_def intro: less_le_trans)

lemma loc_files_only_ino:
  assumes "loc_inv s" and "only_ino i s t" and "lookup s (fullPath l p) = Some i" and "loc_good l q" and "loc_good l p" and "q \<noteq> p"
  shows "loc_files l t q = loc_files l s q"
proof -
  have "j \<noteq> i" if "lookup s (fullPath l q) = Some j" for j
    using that assms(1,3-6) fullPath_inj by (metis loc_inv_def)
  with assms(2) show ?thesis by (cases "lookup s (fullPath l q)") (auto simp: loc_files_def only_ino_def)
qed

lemma wp_os_MkdirAll:
  assumes "loc_inv s"
    and "\<And>t. loc_inv t \<Longrightarrow> lookup t = lookup s \<Longrightarrow> w_ino t = w_ino s \<Longrightarrow> w_next t = w_next s \<Longrightarrow> Q () t"
    and "\<And>e t. \<not> is_abort e \<Longrightarrow> loc_inv t \<Longrightarrow> lookup t = lookup s \<Longrightarrow> w_ino t = w_ino s \<Longrightarrow> R e t"
  shows "wp (os_MkdirAll d) Q R s"
proof -
  have set: "set (fold List.insert ps ds) = set ps \<union> set ds" for ps ds :: "string list"
    by (induction ps arbitrary: ds) auto
  have look: "lookup (s\<lparr>w_tick := n, w_dirs := ds\<rparr>) = lookup s" for n ds
    by (simp add: lookup_def fun_eq_iff)
  show ?thesis
    unfolding os_MkdirAll_def
    by (rule wp_failingI) (use assms in \<open>auto simp: loc_inv_def set look ENOTDIR_def intro!: assms(2,3)\<close>)
qed

lemma loc_files_same:
  "lookup t = lookup s \<Longrightarrow> w_ino t = w_ino s \<Longrightarrow> loc_files l t = loc_files l s"
  by (simp add: loc_files_def fun_eq_iff)

lemma wp_os_Create_dir:
  assumes "\<And>i f t. lookup s p = Some i \<Longrightarrow> env_le (put_data i [] s) t \<Longrightarrow> w_fd t f = Some i \<Longrightarrow> f < w_next t \<Longrightarrow> Q f t"
    and "\<And>f t. lookup s p = None \<Longrightarrow> p \<notin> set (w_dirs s) \<Longrightarrow> env_le (add_file p (w_next s) s) t \<Longrightarrow>
      w_fd t f = Some (w_next s) \<Longrightarrow> f < w_next t \<Longrightarrow> Q f t"
    and "\<And>e t. env_le s t \<Longrightarrow> R e t"
  shows "wp (os_Create p) Q R s"
  using assms
  by (auto simp: os_Create_def new_fd_def set_data_def put_data_def add_file_def env_le_def lookup_def
      split: option.split prod.split)

lemma local_put_wp:
  assumes "loc_inv s" and "loc_good l p"
  shows "wp (local_Put l p r)
    (\<lambda>_ t. loc_inv t \<and> snd r = EEOF \<and> loc_files l t = (loc_files l s)(p \<mapsto> fst r) \<and>
       (fsyncOnWrite l \<longrightarrow> (\<exists>i. lookup t (fullPath l p) = Some i \<and> i_sync (w_ino t i) = fst r)))
    (\<lambda>_ t. loc_inv t \<and> (\<forall>q. q \<noteq> p \<longrightarrow> loc_good l q \<longrightarrow> loc_files l t q = loc_files l s q)) s"
proof -
  let ?Q = "\<lambda>_ t. loc_inv t \<and> snd r = EEOF \<and> loc_files l t = (loc_files l s)(p \<mapsto> fst r) \<and>
       (fsyncOnWrite l \<longrightarrow> (\<exists>i. lookup t (fullPath l p) = Some i \<and> i_sync (w_ino t i) = fst r))"
  let ?R = "\<lambda>(_ :: gerr) t. loc_inv t \<and> (\<forall>q. q \<noteq> p \<longrightarrow> loc_good l q \<longrightarrow> loc_files l t q = loc_files l s q)"
  have fill: "wp (fill_file l r f) ?Q ?R t"
    if t: "w_fd t f = Some i" "f < w_next t" "i_data (w_ino t i) = []" "loc_inv t" "lookup t (fullPath l p) = Some i"
      "\<And>q. q \<noteq> p \<Longrightarrow> loc_good l q \<Longrightarrow> loc_files l t q = loc_files l s q" for f i t
  proof (rule wp_conseq [OF wp_fill_file [OF t(1-3)]])
    fix x u
    assume u: "snd r = EEOF \<and> only_ino i t u \<and> i_data (w_ino u i) = fst r \<and> (fsyncOnWrite l \<longrightarrow> i_sync (w_ino u i) = fst r)"
    have "loc_files l u q = ((loc_files l s)(p \<mapsto> fst r)) q" for q
    proof (cases "q = p")
      case True
      then show ?thesis using u t(5) assms(2) by (simp add: loc_files_def only_ino_def)
    next
      case False
      then show ?thesis
        using u t(6) loc_files_only_ino [OF t(4) _ t(5) _ assms(2)] by (cases "loc_good l q") (auto simp: loc_files_def)
    qed
    then show "?Q () u" using u t(5) loc_inv_only_ino [OF t(4)] by (auto simp: only_ino_def)
  next
    fix e u assume u: "only_ino i t u"
    then show "?R e u" using t(6) loc_inv_only_ino [OF t(4) u] loc_files_only_ino [OF t(4) u t(5) _ assms(2)] by auto
  qed
  have create: "wp (bindE (os_Create (fullPath l p)) (fill_file l r)) ?Q ?R t"
    if t: "loc_inv t" "lookup t = lookup s" "w_ino t = w_ino s" for t
  proof -
    have R: "?R e u" if "env_le t u" for e u
      using t that loc_inv_only_ino [OF t(1) only_ino_env [OF that]] loc_files_same [of u s l] by (auto simp: env_leD)
    have d: "lookup t (fullPath l p) \<noteq> None \<Longrightarrow> fullPath l p \<notin> set (w_dirs t)" using t(1) by (auto simp: loc_inv_def)
    show ?thesis
      unfolding wp_bindE
    proof (rule wp_os_Create_dir)
      fix i f u
      assume u: "lookup t (fullPath l p) = Some i" "env_le (put_data i [] t) u" "w_fd u f = Some i" "f < w_next u"
      have o: "only_ino i t u" using only_ino_trans [OF only_ino_steps(1) only_ino_env [OF u(2)]] .
      show "wp (fill_file l r f) ?Q ?R u"
        by (rule fill [OF u(3,4)])
          (use u o loc_inv_only_ino [OF t(1) o] loc_files_only_ino [OF t(1) o u(1) _ assms(2)] loc_files_same [OF t(2,3), of l]
            in \<open>auto simp: env_leD\<close>)
    next
      fix f u
      assume u: "lookup t (fullPath l p) = None" "fullPath l p \<notin> set (w_dirs t)"
        "env_le (add_file (fullPath l p) (w_next t) t) u" "w_fd u f = Some (w_next t)" "f < w_next u"
      have l: "lookup u = (lookup t)(fullPath l p \<mapsto> w_next t)" "w_dirs u = w_dirs t" "Suc (w_next t) \<le> w_next u"
        "w_ino u = (w_ino t)(w_next t := \<lparr>i_data = [], i_sync = []\<rparr>)"
        using env_leD [OF u(3)] by simp_all
      have fr: "lookup t q \<noteq> Some (w_next t)" for q using t(1) by (auto simp: loc_inv_def)
      have "loc_inv u" using t(1) u(2) l fr by (fastforce simp: loc_inv_def split: if_splits)
      moreover have "loc_files l u q = loc_files l s q" if "q \<noteq> p" "loc_good l q" for q
        using that assms(2) fullPath_inj [of l q p] l fr t(2,3)
        by (cases "lookup s (fullPath l q)") (auto simp: loc_files_def)
      ultimately show "wp (fill_file l r f) ?Q ?R u"
        by (intro fill [OF u(4,5)]) (simp_all add: l)
    qed (rule R)
  qed
  show ?thesis
    unfolding local_Put_def Let_def wp_thenE
  proof (rule wp_os_MkdirAll [OF assms(1)])
    fix t assume "loc_inv t" "lookup t = lookup s" "w_ino t = w_ino s"
    then show "wp (bindE (os_Create (fullPath l p)) (fill_file l r)) ?Q ?R t" by (rule create)
  next
    fix e t assume t: "loc_inv t" "lookup t = lookup s" "w_ino t = w_ino s"
    then show "?R e t" using loc_files_same [OF t(2,3), of l] by simp
  qed
qed

interpretation local: storage_backend "local_storage l modTime" loc_inv "loc_files l" "loc_good l"
proof unfold_locales
  fix s :: "'a world_scheme" and p q r
  assume inv: "loc_inv s" and p: "loc_good l p"
  have nd: "lookup s x = Some i \<Longrightarrow> x \<notin> set (w_dirs s)" for x i using inv by (auto simp: loc_inv_def)
  have t: "loc_inv u" "loc_files l u = loc_files l s" if "env_le s u" for u
    using loc_inv_only_ino [OF inv only_ino_env [OF that]] loc_files_same [of u s l] that by (auto simp: env_leD)
  have tick: "env_le s (s\<lparr>w_tick := n\<rparr>)" for n by (simp add: env_le_def)
  show "wp (st_Exists (local_storage l modTime) p) (\<lambda>b t. loc_inv t \<and> loc_files l t = loc_files l s \<and> b = (loc_files l s p \<noteq> None))
      (\<lambda>e t. loc_inv t \<and> loc_files l t = loc_files l s \<and> \<not> not_exist e) s"
    using p t [OF tick] nd
    by (auto simp: local_storage_def local_Exists_def os_Stat_def wp_def loc_files_def not_exist_def exec_simps failing_def
        syscall_def EOVERFLOW_def split: option.split)
  show "wp (st_Put (local_storage l modTime) p r) (\<lambda>_ t. loc_inv t \<and> snd r = EEOF \<and> loc_files l t = (loc_files l s)(p \<mapsto> fst r))
      (\<lambda>e t. loc_inv t \<and> (\<forall>q. q \<noteq> p \<longrightarrow> loc_good l q \<longrightarrow> loc_files l t q = loc_files l s q)) s"
    using local_put_wp [OF inv p, of r] by (auto simp: local_storage_def elim!: wp_conseq)
  show "wp (st_Get (local_storage l modTime) p) (\<lambda>r t. loc_inv t \<and> loc_files l t = loc_files l s \<and>
        (snd r = EEOF \<longrightarrow> loc_files l s p = Some (fst r))) (\<lambda>e t. loc_inv t \<and> loc_files l t = loc_files l s) s"
    using p t [OF tick] nd
    by (auto simp: local_storage_def local_Get_def os_Open_def wp_def loc_files_def exec_simps failing_def
        syscall_def EISDIR_def split: option.split)
  have full: "lookup s (fullPath l x) \<noteq> None \<longleftrightarrow> loc_files l s x \<noteq> None" if "loc_good l x" for x
    using that by (simp add: loc_files_def)
  have upd: "loc_files l u = (loc_files l s)(p := None)"
    if "lookup u = (lookup s)(fullPath l p := None)" "w_ino u = w_ino s" for u
    using that fullPath_inj [of l _ p] p by (auto simp: loc_files_def fun_eq_iff)
  have del: "loc_inv u \<and> loc_files l u = (loc_files l s)(p := None)" if "u = s\<lparr>w_tick := n, w_dir := AList.delete (fullPath l p) (w_dir s)\<rparr>" for u n
  proof -
    have k: "lookup u = (lookup s)(fullPath l p := None)" "w_ino u = w_ino s" "w_dirs u = w_dirs s" "w_next u = w_next s"
      using that by (auto simp: lookup_def delete_conv' fun_eq_iff)
    then show ?thesis using inv upd [OF k(1,2)] by (auto simp: loc_inv_def split: if_splits)
  qed
  have rmdir: "loc_inv u \<and> loc_files l u = loc_files l s" if "u = s\<lparr>w_tick := n, w_dirs := removeAll x (w_dirs s)\<rparr>" for u n x
  proof -
    have k: "lookup u = lookup s" "w_ino u = w_ino s" "set (w_dirs u) \<subseteq> set (w_dirs s)" "w_next u = w_next s"
      using that by (auto simp: lookup_def fun_eq_iff)
    then show ?thesis using inv loc_files_same [OF k(1,2)] by (auto simp: loc_inv_def)
  qed
  show "wp (st_Delete (local_storage l modTime) p) (\<lambda>_ t. loc_inv t \<and> loc_files l t = (loc_files l s)(p := None))
      (\<lambda>e t. loc_inv t \<and> loc_files l t = loc_files l s \<and> (not_exist e \<longrightarrow> loc_files l s p = None)) s"
  proof (cases "fullPath l p \<in> set (w_dirs s)")
    case True
    then have "loc_files l s p = None" using inv by (auto simp: loc_files_def loc_inv_def)
    then show ?thesis
      using True t [OF tick] rmdir
      by (auto simp: local_storage_def local_Delete_def os_RemoveAny_def ENOTEMPTY_def not_exist_def fun_upd_idem split: option.split)
  next
    case False
    then show ?thesis
      using p t [OF tick] del
      by (auto simp: local_storage_def local_Delete_def os_RemoveAny_def os_Remove_def not_exist_def loc_files_def
          split: option.split)
  qed
  show "wp (st_Rename (local_storage l modTime) p q)
      (\<lambda>_ t. loc_inv t \<and> loc_files l t = (loc_files l s)(p := None, q := loc_files l s p))
      (\<lambda>e t. loc_inv t \<and> loc_files l t = loc_files l s) s"
    if q: "loc_good l q" "p \<noteq> q" "loc_files l s p \<noteq> None"
  proof -
    have ne: "fullPath l p \<noteq> fullPath l q" using fullPath_inj [OF p q(1)] q(2) by simp
    have ren: "wp (os_RenameAny (fullPath l p) (fullPath l q))
        (\<lambda>_ t. loc_inv t \<and> loc_files l t = (loc_files l s)(p := None, q := loc_files l s p))
        (\<lambda>e t. loc_inv t \<and> loc_files l t = loc_files l s) u"
      if u: "loc_inv u" "lookup u = lookup s" "w_ino u = w_ino s" for u
    proof -
      have fu: "loc_files l v = loc_files l s" if "lookup v = lookup u" "w_ino v = w_ino u" for v
        by (rule loc_files_same) (simp_all add: that u(2,3))
      have nd: "fullPath l p \<notin> set (w_dirs u)"
        using u(1,2) q(3) full [OF p] by (auto simp: loc_inv_def)
      have mv: "loc_inv v \<and> loc_files l v = (loc_files l s)(p := None, q := loc_files l s p)"
        if v: "lookup u (fullPath l p) = Some i" "fullPath l q \<notin> set (w_dirs u)"
          "lookup v = (lookup u)(fullPath l p := None, fullPath l q \<mapsto> i)" "w_ino v = w_ino u" "w_dirs v = w_dirs u"
          "w_next u \<le> w_next v" for v i
      proof -
        have "loc_inv v" using u(1) v ne by (fastforce simp: loc_inv_def split: if_splits)
        moreover have "loc_files l v x = ((loc_files l s)(p := None, q := loc_files l s p)) x" for x
        proof (cases "loc_good l x")
          case True
          have "lookup s (fullPath l p) = Some i" using v(1) u(2) by simp
          then show ?thesis
            using p q(1) fullPath_inj [OF True p] fullPath_inj [OF True q(1)]
            by (simp only: loc_files_def v(3,4) u(2,3) True if_True fun_upd_apply) simp
        qed (use p q(1) in \<open>auto simp: loc_files_def\<close>)
        ultimately show ?thesis by auto
      qed
      have tk: "loc_inv v \<and> loc_files l v = loc_files l s" if "v = u\<lparr>w_tick := n\<rparr>" for v n
      proof
        show "loc_inv v" using that u(1) by (simp add: loc_inv_def)
        show "loc_files l v = loc_files l s" by (rule fu) (simp_all add: that)
      qed
      have look: "lookup (u\<lparr>w_tick := n, w_dir := AList.update b i (AList.delete a (w_dir u))\<rparr>) = (lookup u)(a := None, b \<mapsto> i)"
        for n a b i by (auto simp: lookup_def update_conv' delete_conv' fun_eq_iff)
      have mv': "loc_inv v \<and> loc_files l v = (loc_files l s)(p := None, q := loc_files l s p)"
        if "lookup u (fullPath l p) = Some i" "fullPath l q \<notin> set (w_dirs u)"
          "v = u\<lparr>w_tick := n, w_dir := AList.update (fullPath l q) i (AList.delete (fullPath l p) (w_dir u))\<rparr>" for v i n
        by (rule mv [OF that(1,2)]) (simp_all add: that(3) look)
      show ?thesis
        using nd ne tk mv' by (auto simp: os_RenameAny_def os_Rename_def look split: option.split)
    qed
    show ?thesis
      unfolding local_storage_def Storage.simps local_Rename_def Let_def
      using ne
      by simp (rule wp_os_MkdirAll [OF inv], auto intro: ren loc_files_same)
  qed
qed

subsection \<open>What a put makes durable\<close>

text \<open>Computations that leave the durable directory alone.\<close>

abbreviation keeps_ddir :: "('a world_scheme, 'b) m \<Rightarrow> bool" where
  "keeps_ddir \<equiv> keeps w_ddir"

lemma keeps_sys [keeps_intros]: "keeps_ddir syscall" "keeps_ddir fresh"
  by (simp_all add: keeps_def syscall_def fresh_def)

lemma keeps_failing [keeps_intros]: "keeps_ddir m \<Longrightarrow> keeps_ddir (failing m)"
  by (auto simp: failing_def intro!: keeps_intros)

lemma keeps_set_data [keeps_intros]: "keeps_ddir (set_data i d)"
  by (auto simp: set_data_def intro!: keeps_intros)

lemma keeps_copy_pieces: "keeps_ddir (copy_pieces f off ps)"
  by (induction ps arbitrary: off) (auto simp: f_WriteAt_def fd_ino_def intro!: keeps_intros)

lemma keeps_f_Close: "keeps_ddir (f_Close f)"
  by (auto simp: f_Close_def fd_ino_def intro!: keeps_intros)

lemma keeps_fill_file: "keeps_ddir (fill_file l r f)"
  by (auto simp: fill_file_def finish_file_def copy_file_def Fsync_def syscall_Fsync_def fd_ino_def
      intro!: keeps_intros keeps_copy_pieces keeps_f_Close)

lemma keeps_local_Put: "keeps_ddir (local_Put l p r)"
  by (auto simp: local_Put_def os_MkdirAll_def os_Create_def new_fd_def Let_def
      intro!: keeps_intros keeps_fill_file)


text \<open>C40: A put never syncs the directory: whatever it returns, a file that had no durable directory entry before
  has none afterwards, so after a power loss it is gone, also when the put was successful and synchronous.\<close>

theorem local_put_entry_lost:
  assumes "local_Put l p r s = (x, t)" and "dlookup s (fullPath l p) = None"
  shows "lookup (crash t) (fullPath l p) = None"
  using keepsD [OF keeps_local_Put assms(1)] assms(2)
  by (simp add: lookup_def dlookup_def crash_def)

definition demo_local :: localStorage where
  "demo_local = \<lparr>baseDir = ''/archive'', fsyncOnWrite = True\<rparr>"

definition demo_disk :: world where
  "demo_disk = \<lparr>w_dir = [], w_ddir = [], w_dirs = [''/archive''], w_ino = (\<lambda>_. \<lparr>i_data = [], i_sync = []\<rparr>),
     w_fd = (\<lambda>_. None), w_next = 0, w_tick = 0, w_fault = (\<lambda>_. None), w_clock = (\<lambda>_. 0)\<rparr>"

lemma demo_disk_ok: "loc_inv demo_disk" "loc_good demo_local ''seg''" "dlookup demo_disk p = None"
  by (simp_all add: loc_inv_def demo_disk_def lookup_def dlookup_def loc_good_def demo_local_def plain_name_def)

lemma demo_put_ok: "fst (local_Put demo_local ''seg'' (''wal'', EEOF) demo_disk) = Inr ()"
proof -
  have f: "fullPath demo_local ''seg'' = ''/archive/seg''" "filepath_Dir ''/archive/seg'' = ''/archive''"
    "path_prefixes ''/archive'' = [''/archive'']" by (code_simp, code_simp, code_simp)
  have p: "pieces copyBufSize ''wal'' = [''wal'']"
    by (simp add: copyBufSize_def pieces.simps)
  show ?thesis
    by (simp add: local_Put_def f p fill_file_def finish_file_def copy_file_def demo_disk_def
        os_MkdirAll_def os_Create_def new_fd_def fresh_def failing_def syscall_def set_data_def f_WriteAt_def fd_ino_def Fsync_def syscall_Fsync_def f_Close_def lookup_def write_at_def exec_simps Let_def)
qed


theorem local_put_entry_lost_witness:
  "fst (local_Put demo_local ''seg'' (''wal'', EEOF) demo_disk) = Inr () \<and>
   lookup (crash (snd (local_Put demo_local ''seg'' (''wal'', EEOF) demo_disk))) (fullPath demo_local ''seg'') = None"
  using local_put_entry_lost [OF prod.collapse [symmetric] demo_disk_ok(3)] demo_put_ok by blast

end
