(* ===== verification/RestoreSpec.thy ===== *)
theory RestoreSpec
  imports Restore StreamBBSpec LocalSpec
begin

section \<open>A restore puts back what the backup stored\<close>

text \<open>
  Extraction as a map of paths to contents, against which the loops over tar entries, archives and
  tablespaces are proved; then the restore of a backup that the streaming of it has stored.
\<close>

subsection \<open>Extraction\<close>

definition extract_one :: "string \<Rightarrow> tar_entry \<Rightarrow> (string \<Rightarrow> bytes option) \<Rightarrow> string \<Rightarrow> bytes option" where
  "extract_one dest h f = (if th_Typeflag h = TypeReg then f(filepath_Join [dest, th_Name h] \<mapsto> fst (th_body h)) else f)"

definition extracted :: "string \<Rightarrow> tar_entry list \<Rightarrow> (string \<Rightarrow> bytes option) \<Rightarrow> string \<Rightarrow> bytes option" where
  "extracted dest hs f = fold (extract_one dest) hs f"

definition targets :: "string \<Rightarrow> tar_entry list \<Rightarrow> string set" where
  "targets dest hs = {filepath_Join [dest, th_Name h] | h. h \<in> set hs \<and> th_Typeflag h = TypeReg}"

definition same_outside :: "string set \<Rightarrow> 'a world_scheme \<Rightarrow> 'a world_scheme \<Rightarrow> bool" where
  "same_outside N s t \<longleftrightarrow> loc_inv t \<and> outside N (file_content s) (file_content t)"

lemma content_only_ino:
  assumes "loc_inv s" and "lookup s p = Some i" and "only_ino i s t"
  shows "file_content t = (file_content s)(p \<mapsto> i_data (w_ino t i))"
proof
  fix q
  have "j \<noteq> i" if "lookup s q = Some j" "q \<noteq> p" for j
    using that assms(1,2) unfolding loc_inv_def by blast
  then show "file_content t q = ((file_content s)(p \<mapsto> i_data (w_ino t i))) q"
    using assms(2,3) by (cases "lookup s q") (auto simp: file_content_def only_ino_def)
qed

lemma loc_inv_add_file:
  assumes "loc_inv s" and "p \<notin> set (w_dirs s)" and "lookup s p = None"
  shows "loc_inv (add_file p (w_next s) s)"
    and "file_content (add_file p (w_next s) s) = (file_content s)(p \<mapsto> [])"
proof -
  have fr: "lookup s q \<noteq> Some (w_next s)" for q using assms(1) by (auto simp: loc_inv_def)
  show "loc_inv (add_file p (w_next s) s)"
    using assms fr by (fastforce simp: loc_inv_def split: if_splits)
  show "file_content (add_file p (w_next s) s) = (file_content s)(p \<mapsto> [])"
  proof
    fix q
    show "file_content (add_file p (w_next s) s) q = ((file_content s)(p \<mapsto> [])) q"
      using fr by (cases "lookup s q") (auto simp: file_content_def)
  qed
qed

lemma same_outside_trans: "same_outside N s t \<Longrightarrow> same_outside N t u \<Longrightarrow> same_outside N s u"
  by (auto simp: same_outside_def intro: outside_trans)

lemma loc_inv_env: "loc_inv s \<Longrightarrow> env_le s t \<Longrightarrow> loc_inv t"
  by (rule loc_inv_only_ino [OF _ only_ino_env])

text \<open>The body of an entry goes to a file that has been created or emptied.\<close>

lemma copy_wp:
  assumes inv: "loc_inv s" and l: "lookup s p = Some i" and f: "w_fd s f = Some i" "f < w_next s" and e: "i_data (w_ino s i) = []"
  shows "wp (copy_file f r)
     (\<lambda>_ t. loc_inv t \<and> snd r = EEOF \<and> file_content t = (file_content s)(p \<mapsto> fst r) \<and> w_fd t f = Some i \<and> f < w_next t)
     (\<lambda>_ t. same_outside {p} s t \<and> w_fd t f = Some i \<and> f < w_next t) s"
proof -
  obtain d er where r: "r = (d, er)" by (cases r)
  have st: "loc_inv t" "file_content t = (file_content s)(p \<mapsto> d')" "w_fd t f = Some i" "f < w_next t"
    if t: "env_le (put_data i d' s) t" for d' t
  proof -
    have o: "only_ino i s t" using only_ino_trans [OF only_ino_steps(1) only_ino_env [OF t]] .
    show "loc_inv t" using loc_inv_only_ino [OF inv o] .
    show "file_content t = (file_content s)(p \<mapsto> d')" using content_only_ino [OF inv l o] by (simp add: env_leD(3) [OF t])
    show "w_fd t f = Some i" using t f by (simp add: env_leD(6))
    show "f < w_next t" using env_leD(5) [OF t] f(2) by simp
  qed
  have cp: "wp (copy_pieces f 0 (pieces copyBufSize d)) (\<lambda>_ t. env_le (put_data i d s) t)
      (\<lambda>_ t. \<exists>d. env_le (put_data i d s) t) s"
    using wp_copy_pieces [OF f, of "pieces copyBufSize d"] by (simp add: e concat_pieces)
  show ?thesis
    unfolding copy_file_def r prod.case wp_thenE
    by (rule wp_conseq [OF cp]) (auto simp: same_outside_def st outside_def)
qed

lemma close_wp:
  assumes "loc_inv s" and "w_fd s f = Some i"
  shows "wp (f_Close f) (\<lambda>_ t. loc_inv t \<and> file_content t = file_content s) (\<lambda>_ t. loc_inv t \<and> file_content t = file_content s) s"
proof -
  have "loc_inv t \<and> file_content t = file_content s" if t: "env_le (close_fd f s) t" for t
    using loc_inv_only_ino [OF assms(1) only_ino_trans [OF only_ino_steps(3) only_ino_env [OF t]]]
    by (simp add: file_content_def env_leD [OF t] fun_eq_iff)
  then show ?thesis by (auto intro!: wp_f_Close [OF assms(2)])
qed

lemma create_wp:
  assumes inv: "loc_inv s"
  shows "wp (os_Create p)
     (\<lambda>f t. loc_inv t \<and> file_content t = (file_content s)(p \<mapsto> []) \<and> f < w_next t \<and>
        (\<exists>i. lookup t p = Some i \<and> w_fd t f = Some i \<and> i_data (w_ino t i) = []))
     (\<lambda>_ t. loc_inv t \<and> file_content t = file_content s) s"
proof (rule wp_os_Create_dir)
  fix i f t
  assume t: "lookup s p = Some i" "env_le (put_data i [] s) t" "w_fd t f = Some i" "f < w_next t"
  have o: "only_ino i s t" using only_ino_trans [OF only_ino_steps(1) only_ino_env [OF t(2)]] .
  show "loc_inv t \<and> file_content t = (file_content s)(p \<mapsto> []) \<and> f < w_next t \<and>
      (\<exists>i. lookup t p = Some i \<and> w_fd t f = Some i \<and> i_data (w_ino t i) = [])"
    using t loc_inv_only_ino [OF inv o] content_only_ino [OF inv t(1) o] by (simp add: env_leD [OF t(2)])
next
  fix f t
  assume t: "lookup s p = None" "p \<notin> set (w_dirs s)" "env_le (add_file p (w_next s) s) t" "w_fd t f = Some (w_next s)" "f < w_next t"
  show "loc_inv t \<and> file_content t = (file_content s)(p \<mapsto> []) \<and> f < w_next t \<and>
      (\<exists>i. lookup t p = Some i \<and> w_fd t f = Some i \<and> i_data (w_ino t i) = [])"
    using t loc_inv_env [OF loc_inv_add_file(1) [OF inv t(2,1)] t(3)]
    by (simp add: content_env [OF t(3)] loc_inv_add_file(2) [OF inv t(2,1)] env_leD [OF t(3)])
next
  fix e t assume "env_le s t"
  then show "loc_inv t \<and> file_content t = file_content s" using loc_inv_env [OF inv] content_env by blast
qed

lemma same_outside_refl: "loc_inv s \<Longrightarrow> same_outside N s s"
  by (simp add: same_outside_def)

lemma untar_file_wp:
  fixes s :: "'a world_scheme"
  assumes inv: "loc_inv s"
  shows "wp (untar_file p r)
     (\<lambda>_ t. loc_inv t \<and> snd r = EEOF \<and> file_content t = (file_content s)(p \<mapsto> fst r)) (\<lambda>_ t. same_outside {p} s t) s"
proof -
  let ?Q = "\<lambda>_ t. loc_inv t \<and> snd r = EEOF \<and> file_content t = (file_content s)(p \<mapsto> fst r)"
  let ?R = "\<lambda>(_ :: gerr) t. same_outside {p} s t"
  have cl: "wp (f_Close f) Q R t"
    if "loc_inv t" "w_fd t f = Some i" "\<And>x u. loc_inv u \<Longrightarrow> file_content u = file_content t \<Longrightarrow> Q x u"
      "\<And>e u. loc_inv u \<Longrightarrow> file_content u = file_content t \<Longrightarrow> R e u" for f i Q R t
    by (rule wp_conseq [OF close_wp [OF that(1,2)]]) (auto intro: that(3,4))
  have body: "wp (bindE (tryE (copy_file f r)) (\<lambda>c. case c of
          Inl e \<Rightarrow> thenE (tryE (f_Close f)) (throwE e) | Inr _ \<Rightarrow> thenE (tryE (f_Close f)) (retE ()))) ?Q ?R t"
    if t: "loc_inv t" "lookup t p = Some i" "w_fd t f = Some i" "f < w_next t" "i_data (w_ino t i) = []"
      "file_content t = (file_content s)(p \<mapsto> [])" for f i t
    unfolding wp_bindE wp_tryE
    by (rule wp_conseq [OF copy_wp [OF t(1-5)]])
      (auto simp: t(6) same_outside_def outside_def intro!: cl)
  have mk: "wp (os_Create p) (\<lambda>f. wp (bindE (tryE (copy_file f r)) (\<lambda>c. case c of
          Inl e \<Rightarrow> thenE (tryE (f_Close f)) (throwE e) | Inr _ \<Rightarrow> thenE (tryE (f_Close f)) (retE ()))) ?Q ?R) ?R t"
    if t: "loc_inv t" "lookup t = lookup s" "w_ino t = w_ino s" for t :: "'a world_scheme"
  proof -
    have c: "file_content t = file_content s" using t by (simp add: file_content_def fun_eq_iff)
    show ?thesis
    proof (rule wp_conseq [OF create_wp [OF t(1), of p]])
      fix f and u :: "'a world_scheme"
      assume "loc_inv u \<and> file_content u = (file_content t)(p \<mapsto> []) \<and> f < w_next u \<and>
        (\<exists>i. lookup u p = Some i \<and> w_fd u f = Some i \<and> i_data (w_ino u i) = [])"
      then obtain i where u: "loc_inv u" "lookup u p = Some i" "w_fd u f = Some i" "f < w_next u" "i_data (w_ino u i) = []"
        "file_content u = (file_content s)(p \<mapsto> [])"
        using c by auto
      show "wp (bindE (tryE (copy_file f r)) (\<lambda>c. case c of
          Inl e \<Rightarrow> thenE (tryE (f_Close f)) (throwE e) | Inr _ \<Rightarrow> thenE (tryE (f_Close f)) (retE ()))) ?Q ?R u"
        by (rule body [OF u])
    next
      fix u :: "'a world_scheme" assume "loc_inv u \<and> file_content u = file_content t"
      then show "same_outside {p} s u" by (simp add: same_outside_def c)
    qed
  qed
  have same: "same_outside {p} s t" if "loc_inv t" "lookup t = lookup s" "w_ino t = w_ino s" for t :: "'a world_scheme"
  proof -
    have "file_content t = file_content s" using that by (simp add: file_content_def fun_eq_iff)
    with that(1) show ?thesis by (simp add: same_outside_def)
  qed
  show ?thesis
    unfolding untar_file_def wp_thenE [of "os_MkdirAll (filepath_Dir p)"] wp_bindE [of "os_Create p"]
    by (rule wp_os_MkdirAll [OF inv]) (erule (2) mk, erule (2) same)
qed

lemma mkdir_wp:
  "loc_inv s \<Longrightarrow> wp (os_MkdirAll p) (\<lambda>_ t. loc_inv t \<and> file_content t = file_content s) (\<lambda>_ t. loc_inv t \<and> file_content t = file_content s) s"
  by (rule wp_os_MkdirAll) (auto simp: file_content_def fun_eq_iff)

definition bodies_read :: "tar_entry list \<Rightarrow> bool" where
  "bodies_read hs \<longleftrightarrow> (\<forall>h \<in> set hs. th_Typeflag h = TypeReg \<longrightarrow> snd (th_body h) = EEOF)"

lemma untar_loop_wp:
  "loc_inv s \<Longrightarrow> wp (untar_loop dest hs e)
     (\<lambda>_ t. loc_inv t \<and> e = EEOF \<and> bodies_read hs \<and> file_content t = extracted dest hs (file_content s))
     (\<lambda>_ t. same_outside (targets dest hs) s t) s"
proof (induction hs arbitrary: s)
  case Nil
  then show ?case by (simp add: bodies_read_def extracted_def same_outside_refl)
next
  case (Cons h hs)
  let ?p = "filepath_Join [dest, th_Name h]"
  have sub: "targets dest hs \<subseteq> targets dest (h # hs)" by (auto simp: targets_def)
  have step: "wp (untar_loop dest hs e)
     (\<lambda>_ u. loc_inv u \<and> e = EEOF \<and> bodies_read (h # hs) \<and> file_content u = extracted dest (h # hs) (file_content s))
     (\<lambda>_ u. same_outside (targets dest (h # hs)) s u) t"
    if t: "loc_inv t" "file_content t = extract_one dest h (file_content s)" "th_Typeflag h = TypeReg \<longrightarrow> snd (th_body h) = EEOF" for t
  proof (rule wp_conseq [OF Cons.IH [OF t(1)]])
    fix u assume "loc_inv u \<and> e = EEOF \<and> bodies_read hs \<and> file_content u = extracted dest hs (file_content t)"
    then show "loc_inv u \<and> e = EEOF \<and> bodies_read (h # hs) \<and> file_content u = extracted dest (h # hs) (file_content s)"
      using t(2,3) by (simp add: bodies_read_def extracted_def)
  next
    fix u assume u: "same_outside (targets dest hs) t u"
    have "outside (targets dest (h # hs)) (file_content s) (file_content t)"
      by (auto simp: t(2) extract_one_def targets_def)
    then show "same_outside (targets dest (h # hs)) s u"
      using u outside_mono [OF _ sub] by (auto simp: same_outside_def intro: outside_trans)
  qed
  show ?case
  proof (cases "th_Typeflag h")
    case TypeDir
    show ?thesis
      unfolding untar_loop.simps Let_def wp_thenE TypeDir typeflag.case
      by (rule wp_conseq [OF mkdir_wp [OF Cons.prems]])
        (auto intro!: step simp: extract_one_def TypeDir same_outside_def)
  next
    case TypeReg
    have "?p \<in> targets dest (h # hs)" using TypeReg by (auto simp: targets_def)
    then show ?thesis
      unfolding untar_loop.simps Let_def wp_thenE TypeReg typeflag.case
      by (intro wp_conseq [OF untar_file_wp [OF Cons.prems]])
        (auto intro!: step simp: extract_one_def TypeReg same_outside_def elim: outside_mono)
  next
    case TypeOther
    then show ?thesis
      using step [OF Cons.prems] by (simp add: extract_one_def)
  qed
qed

lemma Untar_wp:
  "loc_inv s \<Longrightarrow> wp (Untar te r dest)
     (\<lambda>_ t. loc_inv t \<and> snd (te r) = EEOF \<and> bodies_read (fst (te r)) \<and> file_content t = extracted dest (fst (te r)) (file_content s))
     (\<lambda>_ t. same_outside (targets dest (fst (te r))) s t) s"
  by (cases "te r") (simp add: Untar_def untar_loop_wp)

subsection \<open>Links and directory checks\<close>

lemma links_simps [simp]:
  "lookup (s\<lparr>rw_links := ls\<rparr>) = lookup s" "loc_inv (s\<lparr>rw_links := ls\<rparr>) = loc_inv s"
  "file_content (s\<lparr>rw_links := ls\<rparr>) = file_content s"
  by (simp_all add: lookup_def loc_inv_def file_content_def fun_eq_iff)

lemma tick_simps [simp]:
  "lookup (s\<lparr>w_tick := n\<rparr>) = lookup s" "loc_inv (s\<lparr>w_tick := n\<rparr>) = loc_inv s"
  by (simp_all add: lookup_def loc_inv_def fun_eq_iff)


lemma wp_os_ReadDir_env: "wp (os_ReadDir p) (\<lambda>_ t. env_le s t) (\<lambda>_ t. env_le s t) s"
  unfolding os_ReadDir_def by (rule wp_failingI) (auto simp: env_le_def)

lemma DirExistsAndNotEmpty_wp:
  "wp (DirExistsAndNotEmpty p) (\<lambda>b t. env_le s t \<and> (p \<in> set (w_dirs s) \<longrightarrow> b = (children p (w_dirs s @ map fst (w_dir s)) \<noteq> [])))
     (\<lambda>_ t. env_le s t) s"
proof -
  have st: "wp (os_Stat p) (\<lambda>r t. env_le s t \<and> (p \<in> set (w_dirs s) \<longrightarrow> \<not> fst r))
      (\<lambda>e t. env_le s t \<and> (p \<in> set (w_dirs s) \<longrightarrow> \<not> not_exist e)) s"
    unfolding os_Stat_def by (rule wp_failingI) (auto simp: wp_def env_le_def not_exist_def split: option.split)
  have rd: "wp (os_ReadDir p) (\<lambda>es t. env_le s t \<and> (es \<noteq> []) = (children p (w_dirs s @ map fst (w_dir s)) \<noteq> []))
      (\<lambda>_ t. env_le s t) t" if "env_le s t" for t :: "'a world_scheme"
    unfolding os_ReadDir_def using that by (intro wp_failingI) (auto simp: env_le_def)
  show ?thesis
    unfolding DirExistsAndNotEmpty_def wp_bindE wp_tryE
    by (rule wp_conseq [OF st]) (auto intro!: wp_conseq [OF rd])
qed





subsection \<open>What the listing of a backup's directory says\<close>







text \<open>The names the server gives its archives.\<close>

definition server_name :: "string \<Rightarrow> bool" where
  "server_name p \<longleftrightarrow> p = ''base.tar'' \<or> (\<exists>oid. p = fmt_d (uint (oid :: 32 word)) @ ''.tar'')"

lemma dec_digits_digits: "c \<in> set (dec_digits n) \<Longrightarrow> \<exists>k < 10. c = char_of (48 + k :: nat)"
proof (induction n rule: dec_digits.induct)
  case (1 n)
  show ?case
  proof (cases "n < 10")
    case True
    with "1.prems" show ?thesis by (auto simp: dec_digits.simps [of n])
  next
    case False
    then have "c \<in> set (dec_digits (n div 10)) \<or> c = char_of (48 + n mod 10)"
      using "1.prems" by (subst (asm) dec_digits.simps) (auto simp del: of_char_eq_iff)
    moreover have "n mod 10 < 10" by simp
    ultimately show ?thesis using "1.IH" [OF False] by blast
  qed
qed

lemma digit_char: "k < 10 \<Longrightarrow> char_of (48 + k :: nat) \<notin> {CHR ''b'', CHR ''j'', CHR ''/'', CHR ''.'', CHR ''-''}"
proof -
  assume k: "k < (10 :: nat)"
  have "\<forall>k \<in> set [0..<10]. char_of (48 + k :: nat) \<notin> {CHR ''b'', CHR ''j'', CHR ''/'', CHR ''.'', CHR ''-''}"
    by code_simp
  with k show ?thesis by auto
qed

lemma dec_digits_not: "c \<in> set (dec_digits n) \<Longrightarrow> c \<notin> {CHR ''b'', CHR ''j'', CHR ''/'', CHR ''.'', CHR ''-''}"
  using dec_digits_digits digit_char by metis

lemma dec_digits_ne: "dec_digits n \<noteq> []"
  by (simp add: dec_digits.simps [of n])

lemma server_name_facts:
  assumes "server_name p"
  shows "\<not> has_prefix p (i @ ''.json'')" "has_suffix p ''.tar''" "has_prefix p ''base.'' \<longleftrightarrow> p = ''base.tar''" "CHR ''/'' \<notin> set p" "p \<noteq> []"
proof -
  have c: "CHR ''j'' \<notin> set p \<and> CHR ''/'' \<notin> set p \<and> p \<noteq> []"
    using assms dec_digits_not by (fastforce simp: server_name_def fmt_d_def)
  have "\<exists>r. p = (i @ ''.json'') @ r" if "has_prefix p (i @ ''.json'')"
    using that unfolding has_prefix_def by (metis append_take_drop_id)
  with c show "\<not> has_prefix p (i @ ''.json'')" by auto
  show "CHR ''/'' \<notin> set p" "p \<noteq> []" using c by auto
  show "has_suffix p ''.tar''"
    using assms by (auto simp: server_name_def has_suffix_def)
  show "has_prefix p ''base.'' \<longleftrightarrow> p = ''base.tar''"
  proof (cases "p = ''base.tar''")
    case True
    then show ?thesis by (simp add: has_prefix_def)
  next
    case False
    with assms obtain n where p: "p = dec_digits n @ ''.tar''" by (auto simp: server_name_def fmt_d_def)
    obtain x xs where d: "dec_digits n = x # xs" using dec_digits_ne by (cases "dec_digits n") auto
    have "x \<noteq> CHR ''b''" using dec_digits_not [of x n] d by simp
    with p d False show ?thesis by (simp add: has_prefix_def)
  qed
qed

lemma server_name_plain: "server_name p \<Longrightarrow> plain_name p"
  using server_name_facts(2,4) [of p] by (auto simp: plain_name_def has_suffix_def)

subsection \<open>The reads of a restore\<close>















subsection \<open>Properties\<close>

text \<open>C35: A tar archive that \<open>Untar\<close> accepts is extracted exactly. The stream was read to its end, the body of every regular entry was complete, and afterwards each path holds what the last regular entry for it says; every other file is as it was.\<close>
theorem untar_exact:
  assumes "loc_inv s" and "Untar te r dest s = (Inr (), t)"
  shows "snd (te r) = EEOF \<and> bodies_read (fst (te r)) \<and> file_content t = extracted dest (fst (te r)) (file_content s)"
  using wpD_ok [OF Untar_wp [OF assms(1)] assms(2)] by simp

text \<open>C33: A restore never writes into a directory in use. When the destination holds anything, \<open>RestoreBaseBackup\<close> fails, under every failure of the system calls, and neither a file, a link nor the storage has changed.\<close>
theorem restore_refuses_nonempty:
  assumes "dest \<in> set (w_dirs w)" and "children dest (w_dirs w @ map fst (w_dir w)) \<noteq> []"
  shows "\<exists>e w'. RestoreBaseBackup re i dest (w, s) = (Inl e, (w', s)) \<and> file_content w' = file_content w \<and> rw_links w' = rw_links w"
proof -
  have "wp (RestoreBaseBackup re i dest) (\<lambda>_ _. False) (\<lambda>_ t. env_le w (fst t) \<and> snd t = s) (w, s)"
    unfolding RestoreBaseBackup_def wp_bindE wp_on_fst fst_conv
    by (rule wp_conseq [OF DirExistsAndNotEmpty_wp]) (use assms in auto)
  then obtain e t where t: "RestoreBaseBackup re i dest (w, s) = (Inl e, t)" "env_le w (fst t)" "snd t = s"
    by (auto simp: wp_def split: prod.splits sum.splits)
  from t(2) have "rw_links (fst t) = rw_links w"
    by (cases w, cases "fst t") (simp add: env_le_def)
  with t show ?thesis by (metis content_env prod.collapse)
qed

text \<open>An archive of a tablespace is restored at its own location, if no other tablespace of the manifest has an OID whose digits begin those of this one.\<close>
theorem tblspc_location_right:
  assumes "ts \<in> set (rs_Tablespaces mf)" and "0 \<le> sint (ts_OID ts)" and "CHR ''/'' \<notin> set i"
    and "\<forall>ts' \<in> set (rs_Tablespaces mf). ts' = ts \<or> \<not> has_prefix (fmt_d (sint (ts_OID ts))) (fmt_d (sint (ts_OID ts')))"
  shows "getTblspcLocation (i @ ''/'' @ fmt_d (sint (ts_OID ts)) @ ''.tar'') mf = Inr ts"
proof -
  let ?d = "fmt_d (sint (ts_OID ts))"
  have d: "?d = dec_digits (nat (sint (ts_OID ts)))" using assms(2) by (simp add: fmt_d_def)
  have c: "CHR ''/'' \<notin> set ?d \<and> ?d \<noteq> []" using dec_digits_not dec_digits_ne d by (metis insertI1 insertI2)
  have "plain_name (?d @ ''.tar'')" using c by (auto simp: plain_name_def append_eq_Cons_conv)
  then have base: "filepath_Base (i @ ''/'' @ ?d @ ''.tar'') = ?d @ ''.tar''" by (rule filepath_Base_child(1))
  have pre: "has_prefix (?d @ ''.tar'') (fmt_d (sint (ts_OID ts'))) \<Longrightarrow> has_prefix ?d (fmt_d (sint (ts_OID ts')))" for ts'
  proof -
    assume "has_prefix (?d @ ''.tar'') (fmt_d (sint (ts_OID ts')))"
    then obtain u where u: "?d @ ''.tar'' = fmt_d (sint (ts_OID ts')) @ u" by (auto simp: has_prefix_iff)
    have n: "CHR ''.'' \<notin> set (fmt_d n)" for n using dec_digits_not by (auto simp: fmt_d_def)
    from u obtain us where "?d = fmt_d (sint (ts_OID ts')) @ us \<or> fmt_d (sint (ts_OID ts')) = ?d @ us \<and> ''.tar'' = us @ u"
      unfolding append_eq_append_conv2 by metis
    moreover have "us = []" if "fmt_d (sint (ts_OID ts')) = ?d @ us" "''.tar'' = us @ u"
      using n [of "sint (ts_OID ts')"] that by (cases us) auto
    ultimately show ?thesis by (metis append_Nil2 has_prefix_iff)
  qed
  have pre': "ts' = ts" if "ts' \<in> set (rs_Tablespaces mf)" "has_prefix (?d @ ''.tar'') (fmt_d (sint (ts_OID ts')))" for ts'
    using that pre assms(4) by blast
  have "find_tblspc tar tss = Inr ts"
    if "ts \<in> set tss" "set tss \<subseteq> set (rs_Tablespaces mf)" "filepath_Base tar = ?d @ ''.tar''" for tar tss
    using that by (induction tss) (auto dest: pre')
  from this [OF assms(1) subset_refl base] assms(1) show ?thesis by (auto simp: getTblspcLocation_def)
qed

text \<open>Without the last hypothesis it is not: the archive of 25222 goes to the place of 2522.\<close>

lemma tblspc_location_confused:
  "getTblspcLocation ''b/25222.tar'' (res\<lparr>rs_Tablespaces := [\<lparr>ts_OID = 2522, ts_Location = ''/a''\<rparr>, \<lparr>ts_OID = 25222, ts_Location = ''/b''\<rparr>]\<rparr>)
     = Inr \<lparr>ts_OID = 2522, ts_Location = ''/a''\<rparr>"
  by (simp add: getTblspcLocation_def fmt_d_def dec_digits.simps go_defs) code_simp


subsection \<open>Witnesses\<close>

lemma pieces_code [code]:
  "pieces n d = (if d = [] \<or> n = 0 then [] else if length d \<le> n then [d] else take n d # pieces n (drop n d))"
  by (subst pieces.simps) (simp add: pieces.simps)

definition demo_root :: restoreworld where
  "demo_root = \<lparr>w_dir = [(''/d/old'', 0)], w_ddir = [], w_dirs = [''/'', ''/d''], w_ino = (\<lambda>_. \<lparr>i_data = ''x'', i_sync = []\<rparr>),
     w_fd = (\<lambda>_. None), w_next = 1, w_tick = 0, w_fault = (\<lambda>_. None), w_clock = (\<lambda>_. 0), rw_links = []\<rparr>"

definition demo_tar :: "io_reader \<Rightarrow> tar_entry list \<times> gerr" where
  "demo_tar r = ([\<lparr>th_Name = ''base'', th_Typeflag = TypeDir, th_body = ([], EEOF)\<rparr>,
     \<lparr>th_Name = ''PG_VERSION'', th_Typeflag = TypeReg, th_body = (fst r, EEOF)\<rparr>], EEOF)"

definition demo_res :: Result where
  "demo_res = \<lparr>rs_StartLSN = 0x28, rs_StopLSN = 0x100, rs_TimelineID = 1, rs_Tablespaces = [], rs_BytesTotal = 3,
     rs_StartedAt = 7, rs_FinishedAt = 7, rs_Manifest = Some \<lparr>bm_Version = 1, bm_Files = [], bm_WALRanges = [], bm_ManifestChecksum = ''M''\<rparr>\<rparr>"

definition demo_restore :: "InMemoryStorage restore_env" where
  "demo_restore = \<lparr>re_stor = Inr mem_storage, re_decode = (\<lambda>r. Inr demo_res), re_tar = demo_tar\<rparr>"

definition demo_store :: InMemoryStorage where
  "demo_store = \<lparr>Files = [(''20250101000000/20250101000000.json'', ''{}''), (''20250101000000/base.tar'', ''abc'')], ctxDone = False, nowTime = 0\<rparr>"

lemma demo_root_ok: "loc_inv demo_root"
  by (auto simp: loc_inv_def demo_root_def lookup_def)

theorem untar_exact_witness:
  "\<exists>t. Untar demo_tar (''16'', EEOF) ''/new'' demo_root = (Inr (), t) \<and> snd (demo_tar (''16'', EEOF)) = EEOF \<and>
     bodies_read (fst (demo_tar (''16'', EEOF))) \<and>
     file_content t = extracted ''/new'' (fst (demo_tar (''16'', EEOF))) (file_content demo_root) \<and>
     file_content t ''/new/PG_VERSION'' = Some ''16''"
proof -
  have "fst (Untar demo_tar (''16'', EEOF) ''/new'' demo_root) = Inr ()" by code_simp
  then obtain t where t: "Untar demo_tar (''16'', EEOF) ''/new'' demo_root = (Inr (), t)" by (metis prod.collapse)
  have "filepath_Join [''/new'', ''PG_VERSION''] = ''/new/PG_VERSION''" by code_simp
  then have "extracted ''/new'' (fst (demo_tar (''16'', EEOF))) f ''/new/PG_VERSION'' = Some ''16''" for f
    by (simp add: extracted_def extract_one_def demo_tar_def)
  with t untar_exact [OF demo_root_ok t] show ?thesis by metis
qed

theorem restore_refuses_nonempty_witness:
  "\<exists>e w'. RestoreBaseBackup demo_restore '''' ''/d'' (demo_root, demo_store) = (Inl e, (w', demo_store)) \<and>
     file_content w' = file_content demo_root \<and> rw_links w' = rw_links demo_root"
proof (rule restore_refuses_nonempty)
  show "''/d'' \<in> set (w_dirs demo_root)" by (simp add: demo_root_def)
  show "children ''/d'' (w_dirs demo_root @ map fst (w_dir demo_root)) \<noteq> []" by code_simp
qed

theorem tblspc_location_right_witness:
  "getTblspcLocation (''b'' @ ''/'' @ fmt_d (sint (ts_OID \<lparr>ts_OID = 25222, ts_Location = ''/b''\<rparr>)) @ ''.tar'')
     (demo_res\<lparr>rs_Tablespaces := [\<lparr>ts_OID = 2622, ts_Location = ''/a''\<rparr>, \<lparr>ts_OID = 25222, ts_Location = ''/b''\<rparr>]\<rparr>)
   = Inr \<lparr>ts_OID = 25222, ts_Location = ''/b''\<rparr>"
proof (rule tblspc_location_right)
  have d: "\<not> has_prefix (fmt_d (sint (25222 :: 32 word))) (fmt_d (sint (2622 :: 32 word)))"
    by (simp add: fmt_d_def dec_digits.simps has_prefix_def) code_simp?
  show "\<forall>ts' \<in> set (rs_Tablespaces (demo_res\<lparr>rs_Tablespaces := [\<lparr>ts_OID = 2622, ts_Location = ''/a''\<rparr>, \<lparr>ts_OID = 25222, ts_Location = ''/b''\<rparr>]\<rparr>)).
      ts' = \<lparr>ts_OID = 25222, ts_Location = ''/b''\<rparr> \<or>
      \<not> has_prefix (fmt_d (sint (ts_OID \<lparr>ts_OID = 25222, ts_Location = ''/b''\<rparr>))) (fmt_d (sint (ts_OID ts')))"
    using d by simp
qed simp_all



end
