(* ===== verification/LoggingSpec.thy ===== *)
theory LoggingSpec
  imports Logging RestoreSpec
begin

section \<open>Log records are lines, and logging does not change answers\<close>

subsection \<open>One record, one line\<close>

definition nl_free :: "string \<Rightarrow> bool" where
  "nl_free s \<longleftrightarrow> CHR 0x0A \<notin> set s"

lemma nl_free_simps [simp]:
  "nl_free []" "nl_free (s @ t) \<longleftrightarrow> nl_free s \<and> nl_free t" "nl_free (c # s) \<longleftrightarrow> c \<noteq> CHR 0x0A \<and> nl_free s"
  by (auto simp: nl_free_def)

lemma nl_free_concat: "(\<And>s. s \<in> set ss \<Longrightarrow> nl_free s) \<Longrightarrow> nl_free (concat ss)"
  by (induction ss) auto


text \<open>The texts that the handler prints as they are: the keys, and those of floats and durations.\<close>

fun val_ok :: "lval \<Rightarrow> bool" where
  "val_ok (VGroup as) = (\<forall>a \<in> set as. nl_free (fst a) \<and> val_ok (snd a))"
| "val_ok (VLogValuer v) = val_ok v"
| "val_ok (VFloat64 t) = nl_free t"
| "val_ok (VDuration t) = nl_free t"
| "val_ok v = True"

definition attr_ok :: "lattr \<Rightarrow> bool" where
  "attr_ok a \<longleftrightarrow> nl_free (fst a) \<and> val_ok (snd a)"




lemma Resolve_idem [simp]: "Resolve (Resolve v) = Resolve v"
  by (induction v rule: Resolve.induct) auto

lemma char_of_nl: "n < 256 \<Longrightarrow> n \<noteq> 10 \<Longrightarrow> char_of (n :: nat) \<noteq> CHR 0x0A"
proof
  assume n: "n < 256" "n \<noteq> 10" and c: "char_of n = CHR 0x0A"
  have "of_char (char_of n) = (of_char (CHR 0x0A) :: nat)" using c by simp
  moreover have "of_char (char_of n) = n" using n by (simp only: of_char_of mod_less)
  ultimately show False using n by simp
qed

text \<open>The fuel of \<open>write_attr\<close> is enough: more does not change the text.\<close>

lemma group_depth_Resolve [simp]: "group_depth (Resolve v) = group_depth v"
  by (induction v rule: Resolve.induct) auto

lemma fold_max_ge: "(x :: nat) \<in> set xs \<or> x \<le> a \<Longrightarrow> x \<le> fold max xs a"
  by (induction xs arbitrary: a) (auto simp: max.coboundedI2)

lemma group_depth_mem:
  assumes "Resolve v = VGroup as" and "x \<in> set as"
  shows "group_depth (snd x) < group_depth v"
proof -
  have "group_depth (snd x) \<le> fold max (map (\<lambda>a. group_depth (snd a)) as) 0"
    using assms(2) by (intro fold_max_ge) auto
  moreover have "group_depth v = Suc (fold max (map (\<lambda>a. group_depth (snd a)) as) 0)"
    using group_depth_Resolve [of v] by (simp add: assms(1))
  ultimately show ?thesis by simp
qed

lemma writeAttr_enough:
  "group_depth (snd a) < n \<Longrightarrow> group_depth (snd a) < m \<Longrightarrow> writeAttr n L gs a = writeAttr m L gs a"
proof (induction n arbitrary: m gs a)
  case (Suc n)
  obtain m' where m: "m = Suc m'" using Suc.prems(2) by (cases m) auto
  have "writeAttr n L g x = writeAttr m' L g x" if "Resolve (snd a) = VGroup as" "x \<in> set as" for as g x
    using Suc.IH [of x m' g] group_depth_mem [OF that] Suc.prems by (simp add: m)
  then have g: "map (writeAttr n L g) as = map (writeAttr m' L g) as" if "Resolve (snd a) = VGroup as" for as g
    using that by (intro map_cong) auto
  show ?case
  proof (cases "\<exists>as. Resolve (snd a) = VGroup as")
    case True
    then obtain as where as: "Resolve (snd a) = VGroup as" by blast
    show ?thesis unfolding m writeAttr.simps Let_def as lval.case g [OF as] ..
  next
    case False
    then show ?thesis unfolding m writeAttr.simps Let_def by (auto split: lval.split)
  qed
qed simp

lemma write_attr_fuel: "group_depth (snd a) < n \<Longrightarrow> writeAttr n L gs a = write_attr L gs a"
  unfolding write_attr_def by (rule writeAttr_enough) simp_all

lemma lower_hex_nl: "d < 16 \<Longrightarrow> lower_char (hex_digit d) \<noteq> CHR 0x0A"
proof -
  assume d: "d < 16"
  define n where "n = (if d < 10 then 48 + d else 55 + d)"
  have n: "n < 128" "n \<noteq> 10" using d by (auto simp: n_def)
  have h: "hex_digit d = char_of n" by (simp add: hex_digit_def n_def)
  have "of_char (char_of n) = n" using n by (simp only: of_char_of) simp
  then have "lower_char (hex_digit d) = char_of (if 65 \<le> n \<and> n \<le> 90 then n + 32 else n)"
    unfolding lower_char_def h Let_def by simp
  then show ?thesis using n char_of_nl [of n] char_of_nl [of "n + 32"] by (cases "65 \<le> n \<and> n \<le> 90") simp_all
qed

lemma quote_char_nl: "nl_free (quote_char c)"
proof -
  have h: "nl_free (to_lower (hexw 2 n))" for n
  proof -
    have "lower_char c \<noteq> CHR 0x0A" if "c \<in> set (hexw 2 n)" for c
      using hexw_digits [OF that] lower_hex_nl by blast
    then have "CHR 0x0A \<notin> lower_char ` set (hexw 2 n)" by (metis imageE)
    then show ?thesis unfolding nl_free_def to_lower_def set_map .
  qed
  show ?thesis
  proof (cases "(of_char c :: nat) = 10")
    case False
    then have "c \<noteq> CHR 0x0A" by auto
    then show ?thesis using h [of "of_char c"] by (simp add: quote_char_def Let_def)
  qed (simp add: quote_char_def Let_def)
qed

lemma quoteIfNeeded_nl [simp]: "nl_free (quoteIfNeeded s)"
proof (cases "s = '''' \<or> (\<exists>c \<in> set s. needs_quote c)")
  case True
  have "nl_free (concat (map quote_char s))" by (rule nl_free_concat) (auto intro: quote_char_nl)
  with True show ?thesis by (auto simp: quoteIfNeeded_def go_quote_def)
next
  case False
  have "needs_quote (CHR 0x0A)" by (simp add: needs_quote_def)
  with False have "nl_free s" by (auto simp: nl_free_def)
  with False show ?thesis by (auto simp: quoteIfNeeded_def)
qed

lemma dec_char_nl: "k < 10 \<Longrightarrow> char_of (48 + k :: nat) \<noteq> CHR 0x0A"
  by (rule char_of_nl) simp_all

lemma fmt_d_nl [simp]: "nl_free (fmt_d i)"
proof -
  have "CHR 0x0A \<notin> set (dec_digits n)" for n
    using dec_digits_digits [of "CHR 0x0A" n] by (metis dec_char_nl)
  then show ?thesis by (simp add: fmt_d_def nl_free_def)
qed



lemma base_source_ok: "attr_ok (k, VAny (AnySource s)) = nl_free k"
  by (simp add: attr_ok_def)








lemma pad_right_nl [simp]: "nl_free (pad_right w s) = nl_free s"
  by (auto simp: pad_right_def nl_free_def)






text \<open>
  A group that is opened later also qualifies the attributes that were added before, which the contract of
  \<open>slog.Handler\<close> excludes: the process id of every logger turns into \<open>req.pid\<close>.
\<close>

lemma group_qualifies_earlier:
  assumes "po_ReplaceAttr (ph_opts h) = None" and "ph_groups h = []" and "name \<noteq> ''''" and "key \<noteq> ''''"
  shows "\<exists>u v. log_line L (WithGroup name (WithAttrs [(key, VInt64 i)] h)) r =
    u @ '' '' @ name @ ''.'' @ key @ ''='' @ fmt_d i @ v"
proof -
  have "write_attr L [name] (key, VInt64 i) = '' '' @ name @ ''.'' @ key @ ''='' @ fmt_d i"
    using assms(4) by (simp add: write_attr_def Let_def empty_attr_def formatAttrValue_def)
  moreover have "replace (WithGroup name (WithAttrs [(key, VInt64 i)] h)) gs (key, VInt64 i) = (key, VInt64 i)" for gs
    using assms(1,3) by (simp add: replace_def WithGroup_def WithAttrs_def empty_attr_def Let_def)
  moreover have line: "\<exists>u v. log_line L h' r = u @ concat (map (\<lambda>a. write_attr L (ph_groups h') (replace h' (ph_groups h') a)) (ph_attrs h')) @ v" for h'
    unfolding log_line_def Let_def append_assoc [symmetric] by (intro exI, rule append_assoc)
  have h': "ph_groups (WithGroup name (WithAttrs [(key, VInt64 i)] h)) = [name]"
      "ph_attrs (WithGroup name (WithAttrs [(key, VInt64 i)] h)) = ph_attrs h @ [(key, VInt64 i)]"
    using assms(2,3) by (simp_all add: WithGroup_def WithAttrs_def)
  from line [of "WithGroup name (WithAttrs [(key, VInt64 i)] h)"]
  obtain u v where "log_line L (WithGroup name (WithAttrs [(key, VInt64 i)] h)) r = u @
      concat (map (\<lambda>a. write_attr L [name] (replace (WithGroup name (WithAttrs [(key, VInt64 i)] h)) [name] a)) (ph_attrs h @ [(key, VInt64 i)])) @ v"
    unfolding h' by blast
  ultimately have "log_line L (WithGroup name (WithAttrs [(key, VInt64 i)] h)) r =
      (u @ concat (map (\<lambda>a. write_attr L [name] (replace (WithGroup name (WithAttrs [(key, VInt64 i)] h)) [name] a)) (ph_attrs h))) @
      '' '' @ name @ ''.'' @ key @ ''='' @ fmt_d i @ v" by simp
  then show ?thesis by blast
qed

subsection \<open>The logging middleware is transparent\<close>





text \<open>The status it logs is 0 for a handler that only writes a body, while the client gets 200.\<close>

lemma implicit_status_not_logged:
  assumes "LoggingMiddleware True (WWrite b (\<lambda>_. WEnd None)) (s, new_response (\<lambda>_. None)) = ((x, (s', w)), st)"
  shows "st = Some 0 \<and> rs_status w = Some 200 \<and> rs_body w = b"
  using assms
  by (auto simp: LoggingMiddleware_def bindE_def tryE_def on_snd_def promoted_def rs_Write_def WriteHeader_def
      wrapResponseWriter_def new_response_def exec_simps)

end
