(* ===== verification/Metrics.thy ===== *)
theory Metrics
  imports Prelude
begin

section \<open>Metrics (internal/opt/metrics)\<close>

text \<open>
  The two interfaces of metrics with what implements them: one that does nothing, and one over Prometheus counters,
  of which the model has what is documented: a counter only grows, and adding a negative number panics.  Floating
  point numbers are of a type \<open>'f\<close>.  The names and the registration of the counters are left out.
\<close>

record 'f flt =
  fn_zero :: 'f
  fn_one :: 'f
  fn_add :: "'f \<Rightarrow> 'f \<Rightarrow> 'f"
  fn_neg :: "'f \<Rightarrow> bool"

subsection \<open>The interfaces\<close>

record ('p, 'f) pgrwlMetrics =
  MetricsEnabled :: bool
  AddWALBytesReceived :: "'f \<Rightarrow> ('p, unit) m"
  IncWALFilesReceived :: "('p, unit) m"
  IncWALFilesUploaded :: "('p, unit) m"
  IncWALFilesDeleted :: "('p, unit) m"
  AddWALFilesDeleted :: "'f \<Rightarrow> ('p, unit) m"
  UptimeSet :: "'f \<Rightarrow> ('p, unit) m"
  StartUptimeReporter :: "('p, unit) m"

record ('p, 'f) bbMetrics =
  AddBasebackupBytesReceived :: "'f \<Rightarrow> ('p, unit) m"
  AddBasebackupBytesDeleted :: "'f \<Rightarrow> ('p, unit) m"

definition pgrwlMetricsNoop :: "('p, 'f) pgrwlMetrics" where
  "pgrwlMetricsNoop = \<lparr>MetricsEnabled = False, AddWALBytesReceived = (\<lambda>_. retE ()), IncWALFilesReceived = retE (),
     IncWALFilesUploaded = retE (), IncWALFilesDeleted = retE (), AddWALFilesDeleted = (\<lambda>_. retE ()),
     UptimeSet = (\<lambda>_. retE ()), StartUptimeReporter = retE ()\<rparr>"

definition bbMetricsNoop :: "('p, 'f) bbMetrics" where
  "bbMetricsNoop = \<lparr>AddBasebackupBytesReceived = (\<lambda>_. retE ()), AddBasebackupBytesDeleted = (\<lambda>_. retE ())\<rparr>"

subsection \<open>Prometheus\<close>

datatype counter = WalBytesReceived | WalFilesReceived | WalFilesUploaded | WalFilesDeleted | BbBytesReceived | BbBytesDeleted

text \<open>The counters, the gauge, and the \<open>sync.Once\<close> with the number of reporters that were started.\<close>

record 'f prom =
  pr_count :: "counter \<Rightarrow> 'f"
  pr_uptime :: 'f
  pr_once :: bool
  pr_reporters :: nat

definition counter_Add :: "'f flt \<Rightarrow> counter \<Rightarrow> 'f \<Rightarrow> ('f prom, unit) m" where
  "counter_Add F c v =
     (if fn_neg F v then throwE (EPanic ''counter cannot decrease in value'')
      else modE (\<lambda>p. p\<lparr>pr_count := (pr_count p)(c := fn_add F (pr_count p c) v)\<rparr>))"

definition counter_Inc :: "'f flt \<Rightarrow> counter \<Rightarrow> ('f prom, unit) m" where
  "counter_Inc F c = counter_Add F c (fn_one F)"

definition prom_StartUptimeReporter :: "('f prom, unit) m" where
  "prom_StartUptimeReporter =
     bindE (getE pr_once) (\<lambda>started.
       if started then retE () else modE (\<lambda>p. p\<lparr>pr_once := True, pr_reporters := Suc (pr_reporters p)\<rparr>))"

definition pgrwlMetricsProm :: "'f flt \<Rightarrow> ('f prom, 'f) pgrwlMetrics" where
  "pgrwlMetricsProm F = \<lparr>MetricsEnabled = True, AddWALBytesReceived = counter_Add F WalBytesReceived,
     IncWALFilesReceived = counter_Inc F WalFilesReceived, IncWALFilesUploaded = counter_Inc F WalFilesUploaded,
     IncWALFilesDeleted = counter_Inc F WalFilesDeleted, AddWALFilesDeleted = counter_Add F WalFilesDeleted,
     UptimeSet = (\<lambda>v. modE (\<lambda>p. p\<lparr>pr_uptime := v\<rparr>)), StartUptimeReporter = prom_StartUptimeReporter\<rparr>"

definition bbMetricsProm :: "'f flt \<Rightarrow> ('f prom, 'f) bbMetrics" where
  "bbMetricsProm F = \<lparr>AddBasebackupBytesReceived = counter_Add F BbBytesReceived,
     AddBasebackupBytesDeleted = counter_Add F BbBytesDeleted\<rparr>"

definition InitPromMetrics :: "'f flt \<Rightarrow> (gerr + unit) \<times> 'f prom" where
  "InitPromMetrics F = StartUptimeReporter (pgrwlMetricsProm F)
     \<lparr>pr_count = (\<lambda>_. fn_zero F), pr_uptime = fn_zero F, pr_once = False, pr_reporters = 0\<rparr>"

text \<open>The goroutine of the reporter over what its \<open>select\<close> meets: a tick with the time since the start, or the end.\<close>

fun uptime_reporter :: "('p, 'f) pgrwlMetrics \<Rightarrow> 'f option list \<Rightarrow> ('p, unit) m" where
  "uptime_reporter M [] = retE ()"
| "uptime_reporter M (None # evs) = retE ()"
| "uptime_reporter M (Some v # evs) = thenE (UptimeSet M v) (uptime_reporter M evs)"

subsection \<open>Metrics are transparent\<close>

text \<open>A call of a metric, and a program with such calls; between them it works on its own state.\<close>

datatype 'f metric_call =
    CallWALBytes 'f | CallWALReceived | CallWALUploaded | CallWALDeleted | CallWALsDeleted 'f | CallBbReceived 'f | CallBbDeleted 'f

datatype ('s, 'f) metered =
    MDone "gerr option"
  | MStep "'s \<Rightarrow> 's \<times> ('s, 'f) metered"
  | MCall "'f metric_call" "('s, 'f) metered"

primrec do_call :: "('p, 'f) pgrwlMetrics \<Rightarrow> ('p, 'f) bbMetrics \<Rightarrow> 'f metric_call \<Rightarrow> ('p, unit) m" where
  "do_call M B (CallWALBytes v) = AddWALBytesReceived M v"
| "do_call M B CallWALReceived = IncWALFilesReceived M"
| "do_call M B CallWALUploaded = IncWALFilesUploaded M"
| "do_call M B CallWALDeleted = IncWALFilesDeleted M"
| "do_call M B (CallWALsDeleted v) = AddWALFilesDeleted M v"
| "do_call M B (CallBbReceived v) = AddBasebackupBytesReceived B v"
| "do_call M B (CallBbDeleted v) = AddBasebackupBytesDeleted B v"

primrec call_arg :: "'f metric_call \<Rightarrow> 'f option" where
  "call_arg (CallWALBytes v) = Some v"
| "call_arg CallWALReceived = None"
| "call_arg CallWALUploaded = None"
| "call_arg CallWALDeleted = None"
| "call_arg (CallWALsDeleted v) = Some v"
| "call_arg (CallBbReceived v) = Some v"
| "call_arg (CallBbDeleted v) = Some v"

primrec run_metered :: "('p, 'f) pgrwlMetrics \<Rightarrow> ('p, 'f) bbMetrics \<Rightarrow> ('s, 'f) metered \<Rightarrow> ('s \<times> 'p, unit) m" where
  "run_metered M B (MDone e) = (case e of None \<Rightarrow> retE () | Some x \<Rightarrow> throwE x)"
| "run_metered M B (MStep f) = (\<lambda>(s, p). (case map_prod id (run_metered M B) (f s) of (s', k) \<Rightarrow> k (s', p)))"
| "run_metered M B (MCall c k) = thenE (on_snd (do_call M B c)) (run_metered M B k)"

primrec run_unmetered :: "('s, 'f) metered \<Rightarrow> ('s, unit) m" where
  "run_unmetered (MDone e) = (case e of None \<Rightarrow> retE () | Some x \<Rightarrow> throwE x)"
| "run_unmetered (MStep f) = (\<lambda>s. (case map_prod id run_unmetered (f s) of (s', k) \<Rightarrow> k s'))"
| "run_unmetered (MCall c k) = run_unmetered k"

primrec never_negative :: "('f \<Rightarrow> bool) \<Rightarrow> ('s, 'f) metered \<Rightarrow> bool" where
  "never_negative neg (MDone e) = True"
| "never_negative neg (MStep f) = (\<forall>s. snd (map_prod id (never_negative neg) (f s)))"
| "never_negative neg (MCall c k) = ((case call_arg c of None \<Rightarrow> True | Some v \<Rightarrow> \<not> neg v) \<and> never_negative neg k)"

text \<open>What the callers rely on: a call that adds nothing negative returns.\<close>

locale metering =
  fixes M :: "('p, 'f) pgrwlMetrics" and B :: "('p, 'f) bbMetrics" and neg :: "'f \<Rightarrow> bool"
  assumes returns: "case call_arg c of None \<Rightarrow> True | Some v \<Rightarrow> \<not> neg v \<Longrightarrow> fst (do_call M B c p) = Inr ()"

context metering
begin

lemma transparent:
  "never_negative neg prog \<Longrightarrow> map_prod id fst (run_metered M B prog (s, p)) = run_unmetered prog s"
proof (induction prog arbitrary: s p)
  case (MDone e)
  then show ?case by (simp add: retE_def throwE_def split: option.split)
next
  case (MStep f)
  obtain s' k where f: "f s = (s', k)" by fastforce
  have "never_negative neg k" using MStep.prems f by (auto simp: split_def elim!: allE [of _ s])
  then show ?case using MStep.IH [OF rangeI [of f s], of k s' p] by (simp add: f)
next
  case (MCall c k)
  then obtain p' where "do_call M B c p = (Inr (), p')"
    using returns [of c p] by (cases "do_call M B c p") auto
  with MCall show ?case by (simp add: thenE_def bindE_def on_snd_def)
qed

end

interpretation noop: metering pgrwlMetricsNoop bbMetricsNoop neg for neg
proof (unfold_locales, goal_cases)
  case (1 c p)
  then show ?case by (cases c) (simp_all add: pgrwlMetricsNoop_def bbMetricsNoop_def retE_def)
qed

lemma prom_metrics: "\<not> fn_neg F (fn_one F) \<Longrightarrow> metering (pgrwlMetricsProm F) (bbMetricsProm F) (fn_neg F)"
proof (unfold_locales, goal_cases)
  case (1 c p)
  then show ?case by (cases c) (simp_all add: pgrwlMetricsProm_def bbMetricsProm_def counter_Add_def counter_Inc_def modE_def)
qed

definition real_flt :: "int flt" where
  "real_flt = \<lparr>fn_zero = 0, fn_one = 1, fn_add = (+), fn_neg = (\<lambda>v. v < 0)\<rparr>"

interpretation prom: metering "pgrwlMetricsProm real_flt" "bbMetricsProm real_flt" "fn_neg real_flt"
  by (rule prom_metrics) (simp add: real_flt_def)

text \<open>
  Whether metrics are enabled changes nothing else: a program gives the same result and the same state with
  Prometheus, with the metrics that do nothing, and with its calls left out, as it is modelled everywhere else.
\<close>

lemma metrics_transparent:
  assumes "\<not> fn_neg F (fn_one F)" and "never_negative (fn_neg F) prog"
  shows "map_prod id fst (run_metered (pgrwlMetricsProm F) (bbMetricsProm F) prog (s, p)) = run_unmetered prog s"
    and "map_prod id fst (run_metered pgrwlMetricsNoop bbMetricsNoop prog (s, q)) = run_unmetered prog s"
  by (rule metering.transparent [OF prom_metrics [OF assms(1)] assms(2)], rule noop.transparent [OF assms(2)])

text \<open>However often the reporter is asked for, at most one is started.\<close>

lemma one_reporter:
  "pr_reporters p \<le> 1 \<and> (pr_once p \<longleftrightarrow> pr_reporters p = 1) \<Longrightarrow> snd (prom_StartUptimeReporter p) = q \<Longrightarrow>
   pr_reporters q = 1 \<and> pr_once q"
  by (auto simp: prom_StartUptimeReporter_def bindE_def getE_def modE_def retE_def split: if_splits)

lemma init_one_reporter: "pr_reporters (snd (InitPromMetrics F)) = 1"
  by (simp add: InitPromMetrics_def pgrwlMetricsProm_def prom_StartUptimeReporter_def bindE_def getE_def modE_def)

text \<open>A negative number, such as the size that a damaged manifest gives, panics when metrics are enabled.\<close>

lemma negative_add_panics: "fn_neg F v \<Longrightarrow> fst (counter_Add F c v p) = Inl (EPanic ''counter cannot decrease in value'')"
  by (simp add: counter_Add_def throwE_def)

end
