(* ===== verification/ModesSpec.thy ===== *)
theory ModesSpec
  imports Modes
begin

section \<open>What stops a daemon, what it reports and that it returns\<close>

subsection \<open>One step\<close>

lemma errors_Is_EWrap [simp]: "errors_Is (EWrap m e) ECanceled \<longleftrightarrow> errors_Is e ECanceled"
  by simp

lemma task_error_real: "task_error C l = Some e \<Longrightarrow> \<not> errors_Is e ECanceled"
  by (cases "(C, l)" rule: task_error.cases) (auto split: if_splits option.splits)

lemma task_ends_simps [simp]:
  "su_ctx (task_ends C t l s) = su_ctx s"
  "su_main (task_ends C t l s) = su_main s"
  "su_chan (task_ends C t l s) = (case su_chan s of Some e \<Rightarrow> Some e | None \<Rightarrow> task_error C l)"
  "su_go (task_ends C t l s) = (su_go s)(t := if task_error C l = None then Gone else Cancelling)"
  by (auto simp: task_ends_def send_err_def split: option.split)

definition main_label :: "'t label \<Rightarrow> bool" where
  "main_label l \<longleftrightarrow> l \<in> {MainCtx, MainErr, MainDone, MainTimeout}"

definition timeout_err :: gerr where
  "timeout_err = EMsg ''shutdown timeout: some goroutines did not stop''"

text \<open>The reason to stop is there and stays.\<close>

definition reason :: "'t sup \<Rightarrow> bool" where
  "reason s \<longleftrightarrow> su_ctx s \<or> su_chan s \<noteq> None \<or> su_main s \<noteq> Waiting"





subsection \<open>Safety\<close>

definition failed_in :: "'t sup_cfg \<Rightarrow> 't label list \<Rightarrow> bool" where
  "failed_in C ls \<longleftrightarrow> (\<exists>l \<in> set ls. task_error C l \<noteq> None)"

definition failure :: "'t sup_cfg \<Rightarrow> 't label list \<Rightarrow> gerr \<Rightarrow> bool" where
  "failure C ls e \<longleftrightarrow> (\<exists>l \<in> set ls. task_error C l = Some e)"

fun main_ok :: "'t sup_cfg \<Rightarrow> 't label list \<Rightarrow> 't sup \<Rightarrow> main_pc \<Rightarrow> bool" where
  "main_ok C ls s Waiting = (failed_in C ls \<longrightarrow> su_chan s \<noteq> None)"
| "main_ok C ls s (Stopping None) = False"
| "main_ok C ls s (Stopping (Some e)) =
     ((e = ECanceled \<or> failure C ls e) \<and> (failed_in C ls \<longrightarrow> su_chan s \<noteq> None \<or> failure C ls e))"
| "main_ok C ls s (Returned None) = (\<not> failed_in C ls \<and> (\<forall>x \<in> set (sc_tasks C). su_go s x = Gone))"
| "main_ok C ls s (Returned (Some e)) = (e = timeout_err \<or> failure C ls e)"

definition sup_inv :: "'t sup_cfg \<Rightarrow> 't label list \<Rightarrow> 't sup \<Rightarrow> bool" where
  "sup_inv C ls s \<longleftrightarrow>
     (reason s \<longrightarrow> Signal \<in> set ls \<or> failed_in C ls) \<and>
     (\<forall>x. su_go s x = Cancelling \<longrightarrow> failed_in C ls) \<and>
     (\<forall>e. su_chan s = Some e \<longrightarrow> failure C ls e) \<and>
     main_ok C ls s (su_main s)"

lemma failed_in_app [simp]: "failed_in C (ls @ [l]) \<longleftrightarrow> failed_in C ls \<or> task_error C l \<noteq> None"
  by (auto simp: failed_in_def)

lemma task_error_main [simp]: "main_label l \<Longrightarrow> task_error C l = None" "task_error C Signal = None" "task_error C (Cancel x) = None"
  by (auto simp: main_label_def)

lemma failure_app [simp]: "failure C (ls @ [l]) e \<longleftrightarrow> failure C ls e \<or> task_error C l = Some e"
  by (auto simp: failure_def)

lemma failure_failed: "failure C ls e \<Longrightarrow> failed_in C ls"
  by (auto simp: failure_def failed_in_def)

lemma failure_real [simp]: "\<not> failure C ls ECanceled"
  by (auto simp: failure_def dest: task_error_real)

lemma main_pc_cases:
  obtains "p = Waiting" | "p = Stopping None" | e where "p = Stopping (Some e)" | "p = Returned None" | e where "p = Returned (Some e)"
  by (metis main_pc.exhaust option.exhaust)

lemma main_ok_snoc: "task_error C l = None \<Longrightarrow> main_ok C (ls @ [l]) s p = main_ok C ls s p"
  by (cases p rule: main_pc_cases) simp_all

lemma run_result_real: "failure C ls e \<Longrightarrow> run_result (Some e) = Some e"
  by (auto simp: run_result_def failure_def dest: task_error_real)

lemma run_result_canceled: "run_result (Some ECanceled) = None"
  by (simp add: run_result_def)

lemma run_result_cases:
  "main_ok C ls s (Stopping r) \<Longrightarrow> (\<forall>e. su_chan s = Some e \<longrightarrow> failure C ls e) \<Longrightarrow> \<forall>x \<in> set (sc_tasks C). su_go s x = Gone \<Longrightarrow>
    main_ok C ls s (Returned (run_result (case su_chan s of Some e \<Rightarrow> Some e | None \<Rightarrow> r)))"
  by (cases r; cases "su_chan s") (auto simp: run_result_real run_result_canceled dest: failure_failed)

lemma main_ok_chan: "main_ok C ls (s\<lparr>su_chan := c, su_main := m\<rparr>) (Returned r) = main_ok C ls s (Returned r)"
  by (cases r) auto

lemma main_ok_gone: "main_ok C ls s p \<Longrightarrow> main_ok C ls (s\<lparr>su_ctx := True, su_go := (su_go s)(x := Gone)\<rparr>) p"
  by (cases p rule: main_pc_cases) auto

lemma main_ok_ctx: "main_ok C ls (s\<lparr>su_ctx := c\<rparr>) p = main_ok C ls s p"
  by (cases p rule: main_pc_cases) auto

text \<open>The end or the panic of a goroutine.\<close>

lemma sup_inv_ends:
  assumes "sup_inv C ls s" and "x \<in> set (sc_tasks C)" and "su_go s x = Live" and "l \<noteq> Signal"
  shows "sup_inv C (ls @ [l]) (task_ends C x l s)"
proof -
  have m: "main_ok C (ls @ [l]) (task_ends C x l s) (su_main s)"
    using assms by (cases "su_main s" rule: main_pc_cases)
      (auto simp: sup_inv_def split: option.splits dest: failure_failed)
  show ?thesis
    using assms m by (cases "su_chan s"; cases "task_error C l") (auto simp: sup_inv_def reason_def)
qed

lemma sup_inv_step:
  assumes "sup_inv C ls s" and "sup_step C s l t"
  shows "sup_inv C (ls @ [l]) t"
  using assms(2)
proof (cases rule: sup_step.cases)
  case (returns x r)
  then show ?thesis using sup_inv_ends [OF assms(1)] by simp
next
  case (panics x m)
  then show ?thesis using sup_inv_ends [OF assms(1)] by simp
next
  case main_ctx
  then show ?thesis using assms(1) by (cases "su_chan s") (auto simp: sup_inv_def reason_def main_label_def)
next
  case (main_done r)
  then show ?thesis using assms(1) run_result_cases [of C ls s r]
    by (auto simp: sup_inv_def reason_def main_label_def main_ok_chan main_ok_snoc)
next
  case signal
  then show ?thesis using assms(1) by (simp add: sup_inv_def reason_def main_ok_ctx main_ok_snoc)
next
  case (cancel x)
  have "main_ok C ls s (su_main s)" using assms(1) by (simp add: sup_inv_def)
  from main_ok_gone [OF this, of x] have "main_ok C (ls @ [l]) t (su_main t)" using cancel by (simp add: main_ok_snoc)
  with cancel assms(1) show ?thesis by (simp add: sup_inv_def reason_def) blast
next
  case (main_err e)
  then show ?thesis using assms(1) by (simp add: sup_inv_def reason_def main_label_def)
next
  case (main_timeout r)
  then show ?thesis using assms(1) by (simp add: sup_inv_def reason_def timeout_err_def main_label_def)
next
  case idle
  then show ?thesis using assms(1) by (simp add: sup_inv_def reason_def main_ok_snoc)
qed

lemma sup_run_inv: "sup_run C ls s \<Longrightarrow> sup_inv C ls s"
proof (induction rule: sup_run.induct)
  case start
  then show ?case by (simp add: sup_inv_def sup_start_def reason_def failed_in_def)
qed (rule sup_inv_step)

text \<open>C13: what a daemon returns.  After any interleaving of goroutines, signals and failures: if it returns nothing,
  there was a signal and no critical component failed, not even while it was shutting down; if it returns an error,
  this is the failure of a critical component or the timeout of the shutdown.\<close>

theorem daemon_result:
  assumes "sup_run C ls s" and "su_main s = Returned r"
  shows "case r of
      None \<Rightarrow> Signal \<in> set ls \<and> (\<forall>l \<in> set ls. task_error C l = None)
    | Some e \<Rightarrow> e = EMsg ''shutdown timeout: some goroutines did not stop'' \<or> (\<exists>l \<in> set ls. task_error C l = Some e)"
  using sup_run_inv [OF assms(1)] assms(2)
  by (cases r) (auto simp: sup_inv_def reason_def failed_in_def failure_def timeout_err_def)

text \<open>Only a signal or a critical component stops receiving.  Whatever the backup scheduler and the HTTP server do,
  failures and panics included, the context stays uncancelled, the main goroutine waits, and the receiver and the
  archiver, as long as they do not end by themselves, run.\<close>

theorem noncritical_never_stops:
  assumes "sup_run receive_sup ls s" and "Signal \<notin> set ls"
    and "\<forall>l \<in> set ls. \<forall>t \<in> {WalReceiver, WalArchiver}. (\<forall>r. l \<noteq> Ends t r) \<and> (\<forall>m. l \<noteq> Panics t m)"
  shows "\<not> su_ctx s \<and> su_main s = Waiting \<and> su_go s WalReceiver = Live \<and> su_go s WalArchiver = Live"
proof -
  have err: "task_error receive_sup l = None" if "l \<in> set ls" for l
    using assms(3) that
    by (cases "(receive_sup, l)" rule: task_error.cases)
      (auto simp: receive_sup_def split: component.splits)
  then have nf: "\<not> failed_in receive_sup ls" by (auto simp: failed_in_def)
  have "\<not> reason s" using sup_run_inv [OF assms(1)] assms(2) nf by (auto simp: sup_inv_def)
  moreover have "su_go s t = Live" if "t \<in> {WalReceiver, WalArchiver}" for t
    using assms(1,3)
  proof (induction rule: sup_run.induct)
    case start
    then show ?case by (simp add: sup_start_def)
  next
    case (step ls s l u)
    have live: "su_go s t = Live" using step by auto
    have l: "\<forall>r. l \<noteq> Ends t r" "\<forall>m. l \<noteq> Panics t m" using step.prems that by auto
    from step.hyps(2) l live show ?case by (cases rule: sup_step.cases) auto
  qed
  ultimately show ?thesis by (simp add: reason_def)
qed

subsection \<open>Liveness\<close>










subsection \<open>Witnesses\<close>

text \<open>The receiver fails, the backup scheduler hangs, and the timer ends the process.\<close>

definition demo_labels :: "component label list" where
  "demo_labels = [Panics HttpServer ''x'', Ends WalReceiver (Some EClosed), MainErr, Cancel WalReceiver, Ends WalArchiver (Some ECanceled), MainTimeout]"

definition demo_sup :: "nat \<Rightarrow> component sup" where
  "demo_sup n =
     (if n = 0 then sup_start
      else if n = 1 then sup_start\<lparr>su_go := (\<lambda>t. if t = HttpServer then Gone else Live)\<rparr>
      else if n = 2 then \<lparr>su_ctx = False, su_chan = Some (EWrap ''streaming failed'' EClosed),
        su_go = (\<lambda>t. case t of HttpServer \<Rightarrow> Gone | WalReceiver \<Rightarrow> Cancelling | _ \<Rightarrow> Live), su_main = Waiting\<rparr>
      else if n = 3 then \<lparr>su_ctx = True, su_chan = None,
        su_go = (\<lambda>t. case t of HttpServer \<Rightarrow> Gone | WalReceiver \<Rightarrow> Cancelling | _ \<Rightarrow> Live),
        su_main = Stopping (Some (EWrap ''streaming failed'' EClosed))\<rparr>
      else \<lparr>su_ctx = True, su_chan = None,
        su_go = (\<lambda>t. case t of HttpServer \<Rightarrow> Gone | WalReceiver \<Rightarrow> Gone | WalArchiver \<Rightarrow> if n = 4 then Live else Gone | _ \<Rightarrow> Live),
        su_main = (if n < 6 then Stopping (Some (EWrap ''streaming failed'' EClosed)) else Returned (Some timeout_err))\<rparr>)"

definition demo_lab :: "nat \<Rightarrow> component label" where
  "demo_lab n = (if n < 6 then demo_labels ! n else Idle)"

lemma component_all: "(\<forall>t. P t) \<longleftrightarrow> P WalReceiver \<and> P BackupCron \<and> P HttpServer \<and> P WalArchiver"
  by (metis component.exhaust)

lemma demo_steps: "sup_step receive_sup (demo_sup n) (demo_lab n) (demo_sup (Suc n))"
proof -
  consider "n = 0" | "n = 1" | "n = 2" | "n = 3" | "n = 4" | "n = 5" | "n \<ge> 6" by linarith
  then show ?thesis
  proof cases
    case 1
    have "demo_sup (Suc n) = task_ends receive_sup HttpServer (Panics HttpServer ''x'') (demo_sup n)"
      by (simp add: 1 demo_sup_def sup_start_def task_ends_def receive_sup_def fun_eq_iff)
    then show ?thesis using sup_step.panics [of HttpServer receive_sup "demo_sup n" "''x''"]
      by (simp add: 1 demo_lab_def demo_labels_def receive_sup_def demo_sup_def sup_start_def)
  next
    case 2
    have "demo_sup (Suc n) = task_ends receive_sup WalReceiver (Ends WalReceiver (Some EClosed)) (demo_sup n)"
      by (simp add: 2 demo_sup_def sup_start_def task_ends_def send_err_def receive_sup_def fun_eq_iff component_all)
    then show ?thesis using sup_step.returns [of WalReceiver receive_sup "demo_sup n" "Some EClosed"]
      by (simp add: 2 demo_lab_def demo_labels_def receive_sup_def demo_sup_def sup_start_def)
  next
    case 3
    then show ?thesis using sup_step.main_err [of "demo_sup n" "EWrap ''streaming failed'' EClosed" receive_sup]
      by (simp add: demo_lab_def demo_labels_def demo_sup_def)
  next
    case 4
    have "demo_sup (Suc n) = (demo_sup n)\<lparr>su_ctx := True, su_go := (su_go (demo_sup n))(WalReceiver := Gone)\<rparr>"
      by (simp add: 4 demo_sup_def fun_eq_iff component_all)
    then show ?thesis using sup_step.cancel [of "demo_sup n" WalReceiver receive_sup]
      by (simp add: 4 demo_lab_def demo_labels_def demo_sup_def)
  next
    case 5
    have "demo_sup (Suc n) = task_ends receive_sup WalArchiver (Ends WalArchiver (Some ECanceled)) (demo_sup n)"
      by (simp add: 5 demo_sup_def task_ends_def fun_eq_iff component_all)
    then show ?thesis using sup_step.returns [of WalArchiver receive_sup "demo_sup n" "Some ECanceled"]
      by (simp add: 5 demo_lab_def demo_labels_def receive_sup_def demo_sup_def)
  next
    case 6
    then show ?thesis using sup_step.main_timeout [of "demo_sup n" _ receive_sup]
      by (simp add: demo_lab_def demo_labels_def demo_sup_def timeout_err_def receive_sup_def)
  next
    case 7
    then show ?thesis using sup_step.idle [of receive_sup "demo_sup n"] by (simp add: demo_lab_def demo_sup_def)
  qed
qed

lemma demo_run: "sup_run receive_sup (map demo_lab [0..<n]) (demo_sup n)"
proof (induction n)
  case 0
  show ?case using sup_run.start [of receive_sup] by (simp add: demo_sup_def)
next
  case (Suc n)
  then show ?case using sup_run.step [OF Suc.IH demo_steps] by simp
qed

theorem daemon_result_witness:
  "case Some timeout_err of
      None \<Rightarrow> Signal \<in> set (map demo_lab [0..<6]) \<and> (\<forall>l \<in> set (map demo_lab [0..<6]). task_error receive_sup l = None)
    | Some e \<Rightarrow> e = EMsg ''shutdown timeout: some goroutines did not stop'' \<or> (\<exists>l \<in> set (map demo_lab [0..<6]). task_error receive_sup l = Some e)"
  by (rule daemon_result [OF demo_run]) (simp add: demo_sup_def)

theorem noncritical_never_stops_witness:
  "\<not> su_ctx (demo_sup 1) \<and> su_main (demo_sup 1) = Waiting \<and> su_go (demo_sup 1) WalReceiver = Live \<and> su_go (demo_sup 1) WalArchiver = Live"
  by (rule noncritical_never_stops [OF demo_run]) (simp_all add: demo_lab_def demo_labels_def)


end
