(* ===== verification/WalFile.thy ===== *)
theory WalFile
  imports World
begin

section \<open>The open WAL segment (internal/core/xlog/walfile.go)\<close>

text \<open>
  \<open>stream\<close> is the \<open>StreamCtl\<close> of receivelog.go on top of the world: its fields, the replication
  connection as the events that are still to arrive and the messages sent, and the two metrics
  counters.  This theory has the operations on the segment that is being written.
\<close>

record walfileT =
  currpos :: u64
  pathname :: string
  fd :: "nat option"

datatype bmsg =
    CopyData bytes
  | CopyDone
  | CommandComplete
  | ErrorResponse string
  | ReadyForQuery
  | DataRow "bytes list"
  | RowDescription
  | ParameterStatus
  | NoticeResponse
  | EmptyQueryResponse
  | OtherMsg

text \<open>What a receive on the connection can give: a message, the timeout of the call, an error, or
  the cancellation of the context.\<close>

datatype event =
    RMsg bmsg
  | RTimeout
  | RErr gerr
  | RCancel

record feedback =
  WALWritePosition :: lsn
  WALFlushPosition :: lsn
  WALApplyPosition :: lsn
  ClientTime :: int
  ReplyRequested :: bool

datatype sent =
    SStatus feedback
  | SCopyDone

record stream = world +
  startPos :: lsn
  timeline :: u32
  standbyMessageTimeout :: int
  synchronous :: bool
  partialSuffix :: string
  replicationSlot :: string
  walSegSz :: u64
  receiveDir :: string
  reportFlushPosition :: bool
  lastStatus :: int
  lastFlushPosition :: lsn
  blockPos :: lsn
  stopPos :: lsn
  walfile :: "walfileT option"
  startedAt :: int
  c_inbox :: "event list"
  c_cancelled :: bool
  c_sent :: "sent list"
  m_bytes :: nat
  m_files :: nat

definition updateLastFlushPosition :: "lsn \<Rightarrow> ('a stream_scheme, unit) m" where
  "updateLastFlushPosition p = modE (\<lambda>s. s\<lparr>lastFlushPosition := p\<rparr>)"

text \<open>The checks for a nil \<open>walfile\<close> and a nil descriptor.\<close>

definition the_fd :: "('a stream_scheme, nat) m" where
  "the_fd = bindE (getE walfile) (\<lambda>wf.
     case wf of
       None \<Rightarrow> throwE (EMsg ''stream.walfile is nil'')
     | Some f \<Rightarrow> (case fd f of None \<Rightarrow> throwE (EMsg ''stream.walfile.fd is nil'') | Some n \<Rightarrow> retE n))"

definition SyncWalFile :: "('a stream_scheme, unit) m" where
  "SyncWalFile = bindE the_fd Fsync"

definition WriteAtWalFile :: "bytes \<Rightarrow> u64 \<Rightarrow> ('a stream_scheme, nat) m" where
  "WriteAtWalFile data xlogoff =
     bindE (liftE (Uint64ToInt64 xlogoff)) (\<lambda>off.
     bindE the_fd (\<lambda>f.
     bindE (f_WriteAt f data (unat off)) (\<lambda>n.
     thenE (whenE (0 < n) (modE (\<lambda>s. s\<lparr>walfile :=
              map_option (\<lambda>wf. wf\<lparr>currpos := currpos wf + word_of_nat n\<rparr>) (walfile s)\<rparr>)))
       (retE n))))"

definition createFileAndTruncate :: "string \<Rightarrow> u64 \<Rightarrow> ('a stream_scheme, nat) m" where
  "createFileAndTruncate fullPath initSize =
     bindE (wrapE ''could not create file'' (os_Create fullPath)) (\<lambda>f.
       case Uint64ToInt64 initSize of
         Inl e \<Rightarrow> thenE (tryE (f_Close f)) (throwE e)
       | Inr truncateSize \<Rightarrow>
           bindE (tryE (f_Truncate f (unat truncateSize))) (\<lambda>r.
             case r of
               Inl e \<Rightarrow> thenE (tryE (f_Close f)) (throwE (wrap_err ''could not preallocate file'' e))
             | Inr _ \<Rightarrow> retE f))"

definition openFileAndFsync :: "string \<Rightarrow> ('a stream_scheme, nat) m" where
  "openFileAndFsync fullPath =
     bindE (os_OpenFile fullPath) (\<lambda>f.
     bindE (tryE (Fsync f)) (\<lambda>r.
       case r of
         Inl errFsync \<Rightarrow>
           thenE (tryE (f_Close f)) (thenE (tryE (os_Remove fullPath)) (throwE errFsync))
       | Inr _ \<Rightarrow> retE f))"

definition set_walfile :: "string \<Rightarrow> nat \<Rightarrow> ('a stream_scheme, unit) m" where
  "set_walfile path f =
     modE (\<lambda>s. s\<lparr>walfile := Some \<lparr>currpos = 0, pathname = path, fd = Some f\<rparr>\<rparr>)"

definition initWalFile :: "string \<Rightarrow> ('a stream_scheme, unit) m" where
  "initWalFile fullPath =
     bindE (getE walSegSz) (\<lambda>seg.
     bindE (wrapE ''could not create WAL file'' (createFileAndTruncate fullPath seg))
       (set_walfile fullPath))"

text \<open>The part of \<open>OpenWalFile\<close> after the \<open>Stat\<close>: resume a file of full size, refuse one of another
  size, start a missing or empty one.\<close>

definition openOrCreate :: "string \<Rightarrow> gerr + bool \<times> 64 word \<Rightarrow> ('a stream_scheme, unit) m" where
  "openOrCreate fullPath stat =
     (case stat of
        Inr (True, sz) \<Rightarrow>
          bindE (getE walSegSz) (\<lambda>seg.
            if ToUint64 sz = seg then
              bindE (tryE (openFileAndFsync fullPath)) (\<lambda>r.
                case r of
                  Inl e \<Rightarrow> throwE (EExit 1)
                | Inr f \<Rightarrow> set_walfile fullPath f)
            else if sz \<noteq> 0 then throwE (EMsg ''corrupt WAL file'')
            else initWalFile fullPath)
      | _ \<Rightarrow> initWalFile fullPath)"

definition OpenWalFile :: "lsn \<Rightarrow> ('a stream_scheme, unit) m" where
  "OpenWalFile startpoint =
     bindE (getE (\<lambda>s. (walSegSz s, timeline s, partialSuffix s, receiveDir s))) (\<lambda>(seg, tli, sfx, dir).
     bindE (liftE (XLByteToSeg startpoint seg)) (\<lambda>segno.
     bindE (liftE (XLogFileName tli segno seg)) (\<lambda>nm.
       let fullPath = filepath_Join [dir, nm @ sfx] in
       bindE (tryE (os_Stat fullPath)) (openOrCreate fullPath))))"

definition closeNoRename :: "('a stream_scheme, unit) m" where
  "closeNoRename =
     bindE (getE walfile) (\<lambda>wf.
       case wf of
         None \<Rightarrow> throwE (EPanic ''nil pointer dereference'')
       | Some f \<Rightarrow>
           (case fd f of
              None \<Rightarrow> throwE (EMsg ''stream.walfile.fd is nil (closeNoRename)'')
            | Some n \<Rightarrow>
                thenE (f_Close n)
               (thenE (modE (\<lambda>s. s\<lparr>walfile := None\<rparr>))
                 (FsyncFnameAndDir (pathname f)))))"

definition closeAndRename :: "('a stream_scheme, unit) m" where
  "closeAndRename =
     bindE (getE (\<lambda>s. (walfile s, partialSuffix s))) (\<lambda>(wf, sfx).
       case wf of
         None \<Rightarrow> throwE (EPanic ''nil pointer dereference'')
       | Some f \<Rightarrow>
           (case fd f of
              None \<Rightarrow> throwE (EMsg ''stream.walfile.fd is nil (closeAndRename)'')
            | Some n \<Rightarrow>
                (let finalName = trim_suffix (pathname f) sfx in
                 thenE (f_Close n)
                (thenE (FsyncFname (pathname f))
                (thenE (os_Rename (pathname f) finalName)
                (thenE (modE (\<lambda>s. s\<lparr>walfile := None\<rparr>))
                (thenE (FsyncFnameAndDir finalName)
                  (modE (\<lambda>s. s\<lparr>m_files := Suc (m_files s)\<rparr>)))))))))"

definition CloseWalFile :: "('a stream_scheme, unit) m" where
  "CloseWalFile =
     bindE (getE (\<lambda>s. (blockPos s, walfile s, partialSuffix s, walSegSz s))) (\<lambda>(pos, wf, sfx, seg).
       case wf of
         None \<Rightarrow> retE ()
       | Some f \<Rightarrow>
           thenE (wrapE ''could not close file''
             (if has_suffix (pathname f) sfx then
                if currpos f = seg then closeAndRename else closeNoRename
              else closeAndRename))
           (updateLastFlushPosition pos))"

definition CloseWalFileIfPresentNoRename :: "string \<Rightarrow> ('a stream_scheme, unit) m" where
  "CloseWalFileIfPresentNoRename notice =
     bindE (getE walfile) (\<lambda>wf.
       case wf of
         None \<Rightarrow> retE ()
       | Some _ \<Rightarrow> bindE (tryE closeNoRename) (\<lambda>_. retE ()))"

end
