(* ===== verification/StreamUtil.thy ===== *)
theory StreamUtil
  imports WalFile
begin

section \<open>Replication commands and their results (internal/core/xlog/streamutil.go)\<close>

text \<open>
  The parsers of the results of \<open>READ_REPLICATION_SLOT\<close> and \<open>SHOW\<close>, the scanner of the segment
  size, the startup check and the client side of the end of a copy.  The libraries \<open>pglogrepl\<close> and
  \<open>pgconn\<close> are the argument \<open>api\<close>: parsers of its messages, and the server's answers, which may
  depend on the time of the request (the counter of system calls).
\<close>

record keepalive =
  pkServerWALEnd :: lsn
  pkReplyRequested :: bool

record xlogdata =
  xWALStart :: lsn
  xServerWALEnd :: lsn
  xWALData :: bytes

record pgapi =
  ParsePrimaryKeepaliveMessage :: "bytes \<Rightarrow> gerr + keepalive"
  ParseXLogData :: "bytes \<Rightarrow> gerr + xlogdata"
  ParseLSN :: "string \<Rightarrow> gerr + lsn"
  ExecReadAll :: "nat \<Rightarrow> string \<Rightarrow> gerr + bytes list list list"
  TimelineHistory :: "nat \<Rightarrow> 32 word \<Rightarrow> gerr + string \<times> bytes"
  IdentifySystem :: "nat \<Rightarrow> gerr + lsn \<times> 32 word"
  CreateReplicationSlot :: "nat \<Rightarrow> string \<Rightarrow> gerr + unit"

text \<open>A request: the answer the server gives at this moment.\<close>

definition request :: "(nat \<Rightarrow> gerr + 'b) \<Rightarrow> ('a world_scheme, 'b) m" where
  "request f s = (f (w_tick s), s\<lparr>w_tick := Suc (w_tick s)\<rparr>)"

definition ErrSlotDoesNotExist :: gerr where
  "ErrSlotDoesNotExist = EMsg ''replication slot does not exist''"

record slotInfo =
  SlotType :: string
  RestartLSN :: lsn
  RestartTLI :: u32

definition parseReadReplicationSlot :: "pgapi \<Rightarrow> gerr + bytes list list list \<Rightarrow> gerr + slotInfo" where
  "parseReadReplicationSlot api mrr =
     (case mrr of
        Inl e \<Rightarrow> Inl e
      | Inr results \<Rightarrow>
          if length results \<noteq> 1 then Inl (EMsg ''expected 1 result set'')
          else let result = hd results in
          if length result \<noteq> 1 then Inl (EMsg ''expected 1 result row'')
          else let row = hd result in
          if length row \<noteq> 3 then Inl (EMsg ''expected 3 result columns'')
          else if row ! 0 = [] then Inl ErrSlotDoesNotExist
          else
            (case (if row ! 1 \<noteq> [] then ParseLSN api (row ! 1) else Inr 0) of
               Inl e \<Rightarrow> Inl (wrap_err ''failed to parse restart_lsn'' e)
             | Inr restartLSN \<Rightarrow>
                 (case (if row ! 2 \<noteq> [] then ParseUint32 (row ! 2) else Inr 0) of
                    Inl e \<Rightarrow> Inl (wrap_err ''failed to parse restart_tli'' e)
                  | Inr restartTLI \<Rightarrow>
                      Inr \<lparr>SlotType = row ! 0, RestartLSN = restartLSN, RestartTLI = restartTLI\<rparr>)))"

definition GetSlotInformation :: "pgapi \<Rightarrow> string \<Rightarrow> ('a world_scheme, slotInfo) m" where
  "GetSlotInformation api slotName =
     request (\<lambda>n. parseReadReplicationSlot api (ExecReadAll api n (''READ_REPLICATION_SLOT '' @ slotName)))"

definition parseShowParameter :: "gerr + bytes list list list \<Rightarrow> gerr + string" where
  "parseShowParameter mrr =
     (case mrr of
        Inl e \<Rightarrow> Inl e
      | Inr results \<Rightarrow>
          if length results \<noteq> 1 then Inl (EMsg ''expected 1 result set'')
          else let result = hd results in
          if length result \<noteq> 1 then Inl (EMsg ''expected 1 result row'')
          else let row = hd result in
          if length row < 1 then Inl (EMsg ''expected at least 1 column in SHOW result'')
          else Inr (row ! 0))"

definition GetShowParameter :: "pgapi \<Rightarrow> string \<Rightarrow> ('a world_scheme, string) m" where
  "GetShowParameter api parameterName =
     wrapE ''failed to read SHOW'' (request (\<lambda>n. parseShowParameter (ExecReadAll api n (''SHOW '' @ parameterName))))"

subsection \<open>The segment size with its unit\<close>

text \<open>
  \<open>fmt.Sscanf(s, "%d%2s", &val, &unit)\<close>: each verb skips blanks (a newline is an error), \<open>%d\<close>
  takes a sign and digits, \<open>%2s\<close> at most two non-blank characters; the rest of the input is not
  looked at.
\<close>

definition is_digit :: "char \<Rightarrow> bool" where [go_defs]:
  "is_digit c = (c \<in> set ''0123456789'')"

fun skip_space :: "string \<Rightarrow> gerr + string" where
  "skip_space [] = Inl EUnexpectedEOF"
| "skip_space (c # s) =
     (if c = CHR 0x0A then Inl (EMsg ''unexpected newline'')
      else if is_blank c then skip_space s else Inr (c # s))"

definition scan_d :: "string \<Rightarrow> gerr + 64 word \<times> string" where
  "scan_d s =
     (case skip_space s of
        Inl e \<Rightarrow> Inl e
      | Inr t \<Rightarrow>
          (let sgn = takeWhile (\<lambda>c. c = CHR ''+'' \<or> c = CHR ''-'') (take 1 t);
               ds = takeWhile is_digit (drop (length sgn) t)
           in if ds = [] then Inl (EMsg ''expected integer'')
              else (case ParseInt (sgn @ ds) 10 64 of
                      Inl e \<Rightarrow> Inl e
                    | Inr n \<Rightarrow> Inr (word_of_int n, drop (length sgn + length ds) t))))"

definition scan_2s :: "string \<Rightarrow> gerr + string" where
  "scan_2s s =
     (case skip_space s of
        Inl e \<Rightarrow> Inl e
      | Inr t \<Rightarrow> Inr (takeWhile (\<lambda>c. \<not> is_blank c) (take 2 t)))"

definition ScanWalSegSize :: "string \<Rightarrow> gerr + u64" where
  "ScanWalSegSize sizeStr =
     (if sizeStr = '''' then Inl (EMsg ''empty input'')
      else case scan_d sizeStr of
        Inl e \<Rightarrow> Inl e
      | Inr (val, rest) \<Rightarrow>
        (case scan_2s rest of
           Inl e \<Rightarrow> Inl e
         | Inr unit \<Rightarrow>
             if val = 0 then Inl (EMsg ''segment size cannot be zero'')
             else if unit = '''' then Inl (EMsg ''unit cannot be empty'')
             else
               (case (if unit = ''MB'' then Some (1024 * 1024)
                      else if unit = ''GB'' then Some (1024 * 1024 * 1024) else None) of
                  None \<Rightarrow> Inl (EMsg ''unknown unit'')
                | Some multiplier \<Rightarrow>
                    (let segSize = ToUint64 (val * multiplier)
                     in if \<not> IsValidWalSegSize segSize then Inl (EMsg ''wal_segment_size is out of range'')
                        else Inr segSize))))"

definition GetStartupInfo :: "pgapi \<Rightarrow> ('a world_scheme, u64) m" where
  "GetStartupInfo api =
     bindE (GetShowParameter api ''wal_segment_size'') (\<lambda>p.
     bindE (liftE (ScanWalSegSize p)) (\<lambda>wss.
     bindE (GetShowParameter api ''server_version_num'') (\<lambda>p.
     bindE (liftE (ParseInt p 10 32)) (\<lambda>serverVersion.
       if serverVersion < 150000 then throwE (EMsg ''unsupported version, postgresql >=15 is expected'')
       else retE wss))))"

subsection \<open>The end of a copy\<close>

record cdr =
  cdrTimeline :: "32 word"
  cdrLSN :: lsn

text \<open>The \<open>DataRow\<close> of the next timeline: both columns must parse, otherwise it is ignored.\<close>

definition cdr_row :: "pgapi \<Rightarrow> bytes list \<Rightarrow> cdr \<Rightarrow> cdr" where
  "cdr_row api vs c =
     (if length vs = 2 then
        (case Atoi (vs ! 0) of
           Inl e \<Rightarrow> c
         | Inr tln \<Rightarrow>
             (case ParseLSN api (vs ! 1) of
                Inl e \<Rightarrow> c
              | Inr l \<Rightarrow> \<lparr>cdrTimeline = word_of_int tln, cdrLSN = l\<rparr>))
      else c)"

fun copyDone_loop :: "pgapi \<Rightarrow> cdr \<Rightarrow> event list \<Rightarrow> ('a stream_scheme, cdr) m" where
  "copyDone_loop api c [] = throwE EUnexpectedEOF"
| "copyDone_loop api c (ev # rest) =
     thenE (modE (\<lambda>s. s\<lparr>c_inbox := rest\<rparr>))
      (case ev of
         RErr e \<Rightarrow> throwE e
       | RTimeout \<Rightarrow> copyDone_loop api c rest
       | RCancel \<Rightarrow> thenE (modE (\<lambda>s. s\<lparr>c_cancelled := True\<rparr>)) (copyDone_loop api c rest)
       | RMsg m \<Rightarrow>
           (case m of
              DataRow vs \<Rightarrow> copyDone_loop api (cdr_row api vs c) rest
            | ErrorResponse msg \<Rightarrow> throwE (EMsg msg)
            | ReadyForQuery \<Rightarrow> retE c
            | _ \<Rightarrow> copyDone_loop api c rest))"

definition SendStandbyCopyDone :: "pgapi \<Rightarrow> ('a stream_scheme, cdr) m" where
  "SendStandbyCopyDone api =
     thenE (failing (modE (\<lambda>s. s\<lparr>c_sent := c_sent s @ [SCopyDone]\<rparr>)))
     (bindE (getE c_inbox) (copyDone_loop api \<lparr>cdrTimeline = 0, cdrLSN = 0\<rparr>))"

end
