(* ===== verification/ReceiveLog.thy ===== *)
theory ReceiveLog
  imports StreamUtil
begin

section \<open>The replication stream (internal/core/xlog/receivelog.go)\<close>

text \<open>
  The loop that receives WAL: it writes what arrives into the open segment, syncs it, and reports
  to the server the position up to which the WAL is flushed.  \<open>copy_outer\<close> and \<open>copy_inner\<close> are
  the two nested loops of \<open>handleCopyStream\<close>, by recursion on the events that arrive; an empty
  list of events is a cancelled context.  Trace logging is left out.
\<close>

subsection \<open>Times\<close>

definition time_zero :: int where "time_zero = - 62135596800000000000"
definition Second :: int where "Second = 1000000000"

definition time_Sub :: "int \<Rightarrow> int \<Rightarrow> int" where
  "time_Sub a b = max (- (2 ^ 63)) (min (2 ^ 63 - 1) (a - b))"

subsection \<open>Setting up\<close>

record StreamOpts =
  oStartPos :: lsn
  oTimeline :: u32
  oReplicationSlot :: string
  oWalSegSz :: u64
  oReceiveDirectory :: string

definition NewStream :: "StreamOpts \<Rightarrow> ('a stream_scheme, unit) m" where
  "NewStream opts =
     bindE time_Now (\<lambda>now. modE (\<lambda>s. s\<lparr>
       standbyMessageTimeout := 10 * Second,
       synchronous := True,
       partialSuffix := PartialSuffix,
       reportFlushPosition := True,
       startPos := oStartPos opts,
       timeline := oTimeline opts,
       replicationSlot := oReplicationSlot opts,
       walSegSz := oWalSegSz opts,
       receiveDir := oReceiveDirectory opts,
       lastStatus := time_zero, lastFlushPosition := 0, blockPos := 0, stopPos := 0,
       walfile := None,
       startedAt := now\<rparr>))"

subsection \<open>Feedback\<close>

definition sendFeedback :: "int \<Rightarrow> bool \<Rightarrow> ('a stream_scheme, unit) m" where
  "sendFeedback now replyRequested =
     failing (modE (\<lambda>s. s\<lparr>c_sent := c_sent s @ [SStatus
       \<lparr>WALWritePosition = blockPos s,
        WALFlushPosition = (if reportFlushPosition s then lastFlushPosition s else 0),
        WALApplyPosition = 0,
        ClientTime = now,
        ReplyRequested = replyRequested\<rparr>]\<rparr>))"

definition calculateCopyStreamSleepTime :: "'a stream_scheme \<Rightarrow> int \<Rightarrow> int" where
  "calculateCopyStreamSleepTime s now =
     (let statusTargetTime =
        (if 0 < standbyMessageTimeout s then lastStatus s + standbyMessageTimeout s else time_zero)
      in if statusTargetTime \<noteq> time_zero then
           (let diff = time_Sub statusTargetTime now in if diff \<le> 0 then 1 * Second else diff)
         else - 1)"

subsection \<open>Messages\<close>

definition syncAndAdvance :: "('a stream_scheme, unit) m" where
  "syncAndAdvance =
     thenE (wrapE ''could not fsync WAL file'' SyncWalFile)
       (bindE (getE blockPos) updateLastFlushPosition)"

definition processKeepaliveMsg :: "keepalive \<Rightarrow> ('a stream_scheme, unit) m" where
  "processKeepaliveMsg pkm =
     whenE (pkReplyRequested pkm)
      (thenE
        (bindE (getE (\<lambda>s. reportFlushPosition s \<and> lastFlushPosition s < blockPos s \<and> walfile s \<noteq> None))
          (\<lambda>b. whenE b syncAndAdvance))
       (bindE time_Now (\<lambda>now.
        thenE (wrapE ''failed to send feedback in keepalive'' (sendFeedback now False))
          (modE (\<lambda>s. s\<lparr>lastStatus := now\<rparr>)))))"

text \<open>How much of the message goes into the current segment.\<close>

definition pieceLen :: "u64 \<Rightarrow> u64 \<Rightarrow> u64 \<Rightarrow> u64" where
  "pieceLen seg xlogoff bytesLeft =
     (if seg < xlogoff + bytesLeft then seg - xlogoff else bytesLeft)"

text \<open>The body of the loop up to the advance: open a segment if none is open, write the piece,
  move the position; the result is the length of the piece.\<close>

definition writePiece :: "bytes \<Rightarrow> u64 \<Rightarrow> ('a stream_scheme, u64) m" where
  "writePiece data xlogoff =
     bindE (getE (\<lambda>s. pieceLen (walSegSz s) xlogoff (word_of_nat (length data)))) (\<lambda>bytesToWrite.
     thenE (bindE (getE (\<lambda>s. (walfile s, blockPos s))) (\<lambda>(h, pos). whenE (h = None) (OpenWalFile pos)))
    (bindE (wrapE ''could not write bytes to WAL file''
              (WriteAtWalFile (take (unat bytesToWrite) data) xlogoff)) (\<lambda>k.
       thenE (if k \<noteq> unat bytesToWrite then throwE (EMsg ''could not write bytes to WAL file'') else retE ())
      (thenE (modE (\<lambda>s. s\<lparr>blockPos := blockPos s + bytesToWrite,
                         m_bytes := m_bytes s + unat bytesToWrite\<rparr>))
         (retE bytesToWrite)))))"

text \<open>
  The loop of \<open>processXLogDataMsg\<close>.  \<open>data\<close> is what is left of the message.  Every turn writes at
  least one byte as long as the offset is inside the segment, so as much fuel as there are bytes
  is enough; running out of it stands for a loop that does not end.
\<close>

fun write_loop :: "nat \<Rightarrow> bytes \<Rightarrow> u64 \<Rightarrow> ('a stream_scheme, unit) m" where
  "write_loop 0 data xlogoff = throwE (EPanic ''loop does not end'')"
| "write_loop (Suc n) data xlogoff =
     (if data = [] then retE ()
      else
        bindE (writePiece data xlogoff) (\<lambda>bytesToWrite.
        bindE (getE (\<lambda>s. XLogSegmentOffset (blockPos s) (walSegSz s))) (\<lambda>xlSegOff.
          if xlSegOff = 0
          then thenE CloseWalFile (write_loop n (drop (unat bytesToWrite) data) 0)
          else write_loop n (drop (unat bytesToWrite) data) (xlogoff + bytesToWrite))))"

definition processXLogDataMsg :: "xlogdata \<Rightarrow> ('a stream_scheme, unit) m" where
  "processXLogDataMsg xld =
     thenE (modE (\<lambda>s. s\<lparr>blockPos := xWALStart xld\<rparr>))
    (bindE (getE (\<lambda>s. (XLogSegmentOffset (blockPos s) (walSegSz s), walfile s))) (\<lambda>(xlogoff, h).
       case h of
         None \<Rightarrow>
           if xlogoff \<noteq> 0 then throwE (EMsg ''received WAL at offset but no file open'')
           else write_loop (Suc (length (xWALData xld))) (xWALData xld) xlogoff
       | Some f \<Rightarrow>
           if currpos f \<noteq> xlogoff then throwE (EMsg ''got WAL data offset, expected'')
           else write_loop (Suc (length (xWALData xld))) (xWALData xld) xlogoff))"

definition handleEndOfCopyStream :: "pgapi \<Rightarrow> ('a stream_scheme, cdr option) m" where
  "handleEndOfCopyStream api =
     thenE (wrapE ''failed to close WAL file'' CloseWalFile)
    (bindE (wrapE ''failed to send client CopyDone'' (SendStandbyCopyDone api)) (\<lambda>c.
       thenE (modE (\<lambda>s. s\<lparr>stopPos := blockPos s\<rparr>)) (retE (Some c))))"

text \<open>\<open>processOneMsg\<close>: the result is \<open>None\<close> for Go's \<open>nil, nil\<close>.  Empty copy data panics.\<close>

definition processOneMsg :: "pgapi \<Rightarrow> bmsg \<Rightarrow> ('a stream_scheme, cdr option) m" where
  "processOneMsg api msg =
     (case msg of
        CopyData d \<Rightarrow>
          (case d of
             [] \<Rightarrow> throwE (EPanic ''index out of range'')
           | b # body \<Rightarrow>
               if b = CHR ''k'' then
                 (case ParsePrimaryKeepaliveMessage api body of
                    Inl e \<Rightarrow> throwE (wrap_err ''parse keepalive failed'' e)
                  | Inr pkm \<Rightarrow>
                      thenE (wrapE ''process keepalive failed'' (processKeepaliveMsg pkm)) (retE None))
               else if b = CHR ''w'' then
                 (case ParseXLogData api body of
                    Inl e \<Rightarrow> throwE (wrap_err ''parse xlogdata failed'' e)
                  | Inr xld \<Rightarrow>
                      thenE (wrapE ''processing xlogdata failed'' (processXLogDataMsg xld)) (retE None))
               else throwE (EMsg ''unexpected CopyData message type''))
      | CopyDone \<Rightarrow> handleEndOfCopyStream api
      | CommandComplete \<Rightarrow> retE None
      | ErrorResponse msg \<Rightarrow> throwE (EMsg ''error response from server'')
      | ReadyForQuery \<Rightarrow> retE None
      | _ \<Rightarrow> throwE (EMsg ''received unexpected message''))"

subsection \<open>The loops\<close>

definition syncStep :: "int \<Rightarrow> ('a stream_scheme, unit) m" where
  "syncStep now =
     bindE (getE (\<lambda>s. synchronous s \<and> lastFlushPosition s < blockPos s \<and> walfile s \<noteq> None)) (\<lambda>b.
     whenE b
      (thenE syncAndAdvance
      (thenE (wrapE ''could not send feedback after sync'' (sendFeedback now False))
        (modE (\<lambda>s. s\<lparr>lastStatus := now\<rparr>)))))"

definition statusStep :: "int \<Rightarrow> ('a stream_scheme, unit) m" where
  "statusStep now =
     bindE (getE (\<lambda>s. (standbyMessageTimeout s, lastStatus s))) (\<lambda>(timeout, lst).
     whenE (0 < timeout)
      (bindE time_Now (\<lambda>t.
       whenE (timeout < time_Sub t lst)
        (thenE (wrapE ''could not send periodic feedback'' (sendFeedback now False))
          (modE (\<lambda>s. s\<lparr>lastStatus := now\<rparr>))))))"

definition set_inbox :: "event list \<Rightarrow> ('a stream_scheme, unit) m" where
  "set_inbox evs = modE (\<lambda>s. s\<lparr>c_inbox := evs\<rparr>)"

text \<open>\<open>ctx.Err()\<close>: the context is found cancelled.\<close>

definition cancel_ctx :: "('a stream_scheme, 'b) m" where
  "cancel_ctx = thenE (modE (\<lambda>s. s\<lparr>c_cancelled := True\<rparr>)) (throwE ECanceled)"

fun copy_outer :: "pgapi \<Rightarrow> event list \<Rightarrow> ('a stream_scheme, cdr option) m"
  and copy_inner :: "pgapi \<Rightarrow> bmsg \<Rightarrow> event list \<Rightarrow> ('a stream_scheme, cdr option) m" where
  "copy_outer api [] =
     bindE time_Now (\<lambda>now. thenE (syncStep now) (thenE (statusStep now) cancel_ctx))"
| "copy_outer api (ev # rest) =
     bindE time_Now (\<lambda>now. thenE (syncStep now) (thenE (statusStep now)
       (bindE (getE c_cancelled) (\<lambda>c.
        if c then cancel_ctx
        else case ev of
            RCancel \<Rightarrow> cancel_ctx
          | RTimeout \<Rightarrow> thenE (set_inbox rest) (copy_outer api rest)
          | RErr e \<Rightarrow> thenE (set_inbox rest) (throwE (wrap_err ''receive message failed'' e))
          | RMsg m \<Rightarrow> thenE (set_inbox rest) (copy_inner api m rest)))))"
| "copy_inner api m [] =
     bindE (processOneMsg api m) (\<lambda>r. case r of Some c \<Rightarrow> retE (Some c) | None \<Rightarrow> cancel_ctx)"
| "copy_inner api m (ev # rest) =
     bindE (processOneMsg api m) (\<lambda>r.
       case r of
         Some c \<Rightarrow> retE (Some c)
       | None \<Rightarrow>
           (case ev of
              RCancel \<Rightarrow> cancel_ctx
            | RTimeout \<Rightarrow> thenE (set_inbox rest) (copy_outer api rest)
            | RErr e \<Rightarrow> thenE (set_inbox rest) (throwE e)
            | RMsg m' \<Rightarrow> thenE (set_inbox rest) (copy_inner api m' rest)))"

definition handleCopyStream :: "pgapi \<Rightarrow> ('a stream_scheme, cdr option) m" where
  "handleCopyStream api =
     thenE (modE (\<lambda>s. s\<lparr>lastStatus := time_zero, blockPos := startPos s\<rparr>))
       (bindE (getE c_inbox) (copy_outer api))"

subsection \<open>Timeline history files\<close>

definition fileExists :: "string \<Rightarrow> ('a world_scheme, bool) m" where
  "fileExists path = bindE (tryE (os_Stat path)) (\<lambda>r.
     case r of Inl e \<Rightarrow> retE False | Inr (regular, sz) \<Rightarrow> retE regular)"

definition historyFileName :: "u32 \<Rightarrow> string" where
  "historyFileName t = fmt_X 8 (unat t) @ ''.history''"

definition existsTimeLineHistoryFile :: "('a stream_scheme, bool) m" where
  "existsTimeLineHistoryFile =
     bindE (getE (\<lambda>s. (timeline s, receiveDir s))) (\<lambda>(t, dir).
       if t = 1 then retE True else fileExists (filepath_Join [dir, historyFileName t]))"

definition writeHistoryTmp :: "string \<Rightarrow> bytes \<Rightarrow> nat \<Rightarrow> ('a stream_scheme, unit) m" where
  "writeHistoryTmp histPath content f =
     bindE (tryE (f_WriteAt f content 0)) (\<lambda>r.
       case r of
         Inl e \<Rightarrow> thenE (tryE (os_Remove histPath)) (throwE (wrap_err ''could not write timeline history file'' e))
       | Inr n \<Rightarrow>
           if n \<noteq> length content
           then thenE (tryE (os_Remove histPath)) (throwE (EMsg ''could not write timeline history file''))
           else
             thenE (wrapE ''could not fsync timeline history file'' (Fsync f))
               (wrapE ''could not close timeline history file'' (f_Close f)))"

definition writeTimeLineHistoryFile :: "string \<Rightarrow> bytes \<Rightarrow> ('a stream_scheme, unit) m" where
  "writeTimeLineHistoryFile filename content =
     bindE (getE (\<lambda>s. (timeline s, receiveDir s))) (\<lambda>(t, dir).
       if historyFileName t \<noteq> filename
       then throwE (EMsg ''server reported unexpected history file name for timeline'')
       else
         let histPath = filepath_Join [dir, filename @ ''.tmp''];
             finalPath = filepath_Join [dir, filename]
         in bindE (wrapE ''could not create timeline history file'' (os_Create histPath)) (\<lambda>f.
            bindE (tryE (thenE (writeHistoryTmp histPath content f)
                 (wrapE ''could not rename temp timeline history file to final'' (os_Rename histPath finalPath))))
              (\<lambda>r. thenE (tryE (f_Close f)) (liftE r))))"

subsection \<open>ReceiveXlogStream\<close>

text \<open>One turn of the loop; the result says whether to restart on the next timeline.\<close>

definition fetchHistory :: "pgapi \<Rightarrow> 32 word \<Rightarrow> ('a stream_scheme, unit) m" where
  "fetchHistory api t =
     bindE existsTimeLineHistoryFile (\<lambda>b.
     whenE (\<not> b)
      (bindE (wrapE ''failed to fetch timeline history'' (request (\<lambda>n. TimelineHistory api n t))) (\<lambda>(fname, content).
        wrapE ''failed to write timeline history file'' (writeTimeLineHistoryFile fname content))))"

definition nextTimeline :: "cdr \<Rightarrow> ('a stream_scheme, unit) m" where
  "nextTimeline c =
     (let newTimeline = ToUint32 (cdrTimeline c); newStartPos = cdrLSN c in
      bindE (getE (\<lambda>s. (timeline s, stopPos s, walSegSz s))) (\<lambda>(t, stop, seg).
        if newTimeline \<le> t then
          thenE (CloseWalFileIfPresentNoRename ''(end-of-timeline) newTimeline <= stream.Timeline'')
            (throwE (EMsg ''server reported unexpected next timeline''))
        else if stop < newStartPos then
          thenE (CloseWalFileIfPresentNoRename ''(end-of-timeline) newStartPos > stopPos'')
            (throwE (EMsg ''server reported next timeline startpos > stoppos''))
        else
          bindE (liftE (go_mod newStartPos seg)) (\<lambda>off.
            modE (\<lambda>s. s\<lparr>timeline := newTimeline, startPos := newStartPos - off\<rparr>))))"

definition receiveTurn :: "pgapi \<Rightarrow> ('a stream_scheme, bool) m" where
  "receiveTurn api =
     bindE (getE timeline) (\<lambda>t.
     bindE (liftE (Uint32ToInt32 t)) (\<lambda>timelineToI32.
     thenE (fetchHistory api timelineToI32)
    (thenE (wrapE ''failed to start replication'' (failing (retE ())))
    (bindE (tryE (handleCopyStream api)) (\<lambda>r.
       case r of
         Inl err \<Rightarrow>
           thenE (CloseWalFileIfPresentNoRename
              (if errors_Is err ECanceled then ''context canceled'' else ''func handleCopyStream() exits with an error''))
            (throwE (wrap_err ''error during streaming'' err))
       | Inr (Some c) \<Rightarrow> thenE (nextTimeline c) (retE True)
       | Inr None \<Rightarrow> thenE (CloseWalFileIfPresentNoRename ''controlled shutdown'') (retE False))))))"

text \<open>The loop: a turn that continues has consumed an event, so the number of events bounds it.\<close>

fun receive_loop :: "pgapi \<Rightarrow> nat \<Rightarrow> ('a stream_scheme, unit) m" where
  "receive_loop api 0 = throwE (EPanic ''loop does not end'')"
| "receive_loop api (Suc n) =
     bindE (receiveTurn api) (\<lambda>again. if again then receive_loop api n else retE ())"

definition ReceiveXlogStream :: "pgapi \<Rightarrow> ('a stream_scheme, unit) m" where
  "ReceiveXlogStream api =
     thenE (bindE (getE startPos) updateLastFlushPosition)
    (thenE (modE (\<lambda>s. s\<lparr>lastStatus := time_zero\<rparr>))
    (bindE (getE c_inbox) (\<lambda>evs. receive_loop api (Suc (length evs)))))"

end
