(* ===== verification/WalStore.thy ===== *)
theory WalStore
  imports WalFile
begin

section \<open>What it means that WAL is stored\<close>

text \<open>
  The abstract specification of the receiver's directory.  The WAL of a timeline is a function
  from positions to bytes; position \<open>x\<close> belongs to segment \<open>x div S\<close>, offset \<open>x mod S\<close>.  A byte is
  stored when the complete or the partial file of its segment holds it in its synced contents; a
  segment is archived when its complete file has, in the volatile and in the durable directory,
  exactly the bytes of the segment.  The lemmas say which state transformers keep both.
\<close>

definition fin_path :: "'a stream_scheme \<Rightarrow> nat \<Rightarrow> string" where
  "fin_path s q = dir_child (receiveDir s) (wal_name (timeline s) q (walSegSz s))"

definition part_path :: "'a stream_scheme \<Rightarrow> nat \<Rightarrow> string" where
  "part_path s q = dir_child (receiveDir s) (wal_name (timeline s) q (walSegSz s) @ PartialSuffix)"

abbreviation seg_sz :: "'a stream_scheme \<Rightarrow> nat" where
  "seg_sz s \<equiv> unat (walSegSz s)"

text \<open>The settings of a stream as \<open>NewStream\<close> makes it.\<close>

definition cfg_ok :: "'a stream_scheme \<Rightarrow> bool" where
  "cfg_ok s = (IsPowerOf2 (walSegSz s) \<and> walSegSz s \<le> 0x100000000 \<and> partialSuffix s = PartialSuffix \<and>
     receiveDir s \<noteq> '''' \<and> reportFlushPosition s)"

text \<open>Directory entries point to allocated inodes, no two to the same one.\<close>

definition dir_ok :: "'a world_scheme \<Rightarrow> bool" where
  "dir_ok s = ((\<forall>p i. lookup s p = Some i \<longrightarrow> i < w_next s) \<and>
     (\<forall>p p' i. lookup s p = Some i \<longrightarrow> lookup s p' = Some i \<longrightarrow> p = p'))"

definition stored :: "(nat \<Rightarrow> char) \<Rightarrow> 'a stream_scheme \<Rightarrow> nat \<Rightarrow> bool" where
  "stored wal s x = (\<exists>p \<in> {fin_path s (x div seg_sz s), part_path s (x div seg_sz s)}. \<exists>i.
     lookup s p = Some i \<and> x mod seg_sz s < length (i_sync (w_ino s i)) \<and>
     i_sync (w_ino s i) ! (x mod seg_sz s) = wal x)"

definition seg_bytes :: "(nat \<Rightarrow> char) \<Rightarrow> nat \<Rightarrow> nat \<Rightarrow> bytes" where
  "seg_bytes wal sz q = map wal [q * sz ..< Suc q * sz]"

definition archived :: "(nat \<Rightarrow> char) \<Rightarrow> 'a stream_scheme \<Rightarrow> nat \<Rightarrow> bool" where
  "archived wal s q = (\<exists>i. lookup s (fin_path s q) = Some i \<and> dlookup s (fin_path s q) = Some i \<and>
     i_data (w_ino s i) = seg_bytes wal (seg_sz s) q \<and> i_sync (w_ino s i) = seg_bytes wal (seg_sz s) q)"

text \<open>The bytes an inode holds for segment \<open>q\<close> agree with the WAL below position \<open>b\<close>.\<close>

definition holds :: "(nat \<Rightarrow> char) \<Rightarrow> nat \<Rightarrow> bytes \<Rightarrow> nat \<Rightarrow> nat \<Rightarrow> bool" where
  "holds wal sz d q b = (\<forall>k. k < sz \<longrightarrow> q * sz + k < b \<longrightarrow> k < length d \<and> d ! k = wal (q * sz + k))"

lemma more_fields:
  fixes s t :: "'a stream_scheme"
  assumes "world.more t = world.more s"
  shows "walfile t = walfile s" "timeline t = timeline s" "partialSuffix t = partialSuffix s"
    "receiveDir t = receiveDir s" "walSegSz t = walSegSz s" "blockPos t = blockPos s"
    "lastFlushPosition t = lastFlushPosition s" "c_sent t = c_sent s" "c_inbox t = c_inbox s"
    "startPos t = startPos s" "stopPos t = stopPos s" "synchronous t = synchronous s"
    "reportFlushPosition t = reportFlushPosition s" "c_cancelled t = c_cancelled s"
    "standbyMessageTimeout t = standbyMessageTimeout s" "lastStatus t = lastStatus s"
    "m_files t = m_files s" "m_bytes t = m_bytes s" "replicationSlot t = replicationSlot s"
    "startedAt t = startedAt s" "stream.more t = stream.more s"
  using assms by (cases s rule: stream.cases_scheme, cases t rule: stream.cases_scheme, simp)+

lemma part_fin: "part_path s q = fin_path s q @ PartialSuffix"
  by (simp add: part_path_def fin_path_def dir_child_suffix)

lemma path_cong:
  assumes "world.more t = world.more s"
  shows "fin_path t = fin_path s" "part_path t = part_path s"
  by (simp_all add: fin_path_def part_path_def more_fields [OF assms] fun_eq_iff)

lemma cfg_cong: "world.more t = world.more s \<Longrightarrow> cfg_ok t = cfg_ok s"
  by (simp add: cfg_ok_def more_fields [of t s])

lemma seg_of_ok: "cfg_ok s \<Longrightarrow> x < 2 ^ 64 \<Longrightarrow> seg_ok (x div seg_sz s) (walSegSz s)"
  using seg_of_pos_ok [of "walSegSz s" "word_of_nat x"]
  by (simp add: cfg_ok_def unat_of_nat take_bit_nat_eq_self)

lemma path_inj:
  assumes "seg_ok q (walSegSz s)" "seg_ok r (walSegSz s)"
  shows "fin_path s q = fin_path s r \<longleftrightarrow> q = r" "part_path s q = part_path s r \<longleftrightarrow> q = r"
    "fin_path s q \<noteq> part_path s r" "part_path s r \<noteq> fin_path s q"
proof -
  have l: "length (wal_name (timeline s) n (walSegSz s)) = 24" if "seg_ok n (walSegSz s)" for n
    using that by (rule length_wal_name)
  show "fin_path s q = fin_path s r \<longleftrightarrow> q = r" "part_path s q = part_path s r \<longleftrightarrow> q = r"
    using wal_name_inj [OF assms] by (auto simp: fin_path_def part_path_def)
  have "wal_name (timeline s) q (walSegSz s) \<noteq> wal_name (timeline s) r (walSegSz s) @ PartialSuffix"
    using l [OF assms(1)] l [OF assms(2)]
    by (metis length_append add_cancel_left_right length_0_conv PartialSuffix_def list.distinct(1))
  then show "fin_path s q \<noteq> part_path s r" "part_path s r \<noteq> fin_path s q"
    by (auto simp: fin_path_def part_path_def)
qed

subsection \<open>Which transformers keep the directory well formed\<close>

lemma dir_ok_env: "env_le s t \<Longrightarrow> dir_ok s \<Longrightarrow> dir_ok t"
  unfolding dir_ok_def using env_leD [of s t] by (metis order_less_le_trans)

lemma dir_ok_simps [simp]:
  "dir_ok (put_data i d s) = dir_ok s" "dir_ok (sync_ino i s) = dir_ok s"
  "dir_ok (sync_entries e s) = dir_ok s" "dir_ok (close_fd f s) = dir_ok s"
  by (simp_all add: dir_ok_def)

lemma dir_ok_mv: "dir_ok s \<Longrightarrow> lookup s p = Some i \<Longrightarrow> dir_ok (mv p q i s)"
  unfolding dir_ok_def lookup_mv by (auto split: if_splits)

lemma dir_ok_rm: "dir_ok s \<Longrightarrow> dir_ok (rm p s)"
  unfolding dir_ok_def by (auto split: if_splits)

lemma dir_ok_add_file: "dir_ok s \<Longrightarrow> dir_ok (add_file p (w_next s) s)"
  unfolding dir_ok_def by (auto split: if_splits intro: less_SucI)


subsection \<open>Which transformers keep stored bytes and archived segments\<close>

definition all_stored :: "(nat \<Rightarrow> char) \<Rightarrow> nat set \<Rightarrow> 'a stream_scheme \<Rightarrow> bool" where
  "all_stored wal A s = (\<forall>x. x \<in> A \<longrightarrow> stored wal s x)"

definition all_archived :: "(nat \<Rightarrow> char) \<Rightarrow> nat set \<Rightarrow> 'a stream_scheme \<Rightarrow> bool" where
  "all_archived wal N s = (\<forall>q. q \<in> N \<longrightarrow> seg_ok q (walSegSz s) \<and> archived wal s q)"

text \<open>The claim on the inode of segment \<open>q\<close> under which writing its contents through is harmless.\<close>

definition covers :: "(nat \<Rightarrow> char) \<Rightarrow> nat set \<Rightarrow> 'a stream_scheme \<Rightarrow> nat \<Rightarrow> bytes \<Rightarrow> bool" where
  "covers wal A s q d = (\<forall>x. x \<in> A \<longrightarrow> x div seg_sz s = q \<longrightarrow>
     x mod seg_sz s < length d \<and> d ! (x mod seg_sz s) = wal x)"

lemma stored_cong:
  assumes "world.more t = world.more s"
    and "\<And>p i. p \<in> {fin_path s (x div seg_sz s), part_path s (x div seg_sz s)} \<Longrightarrow> lookup s p = Some i \<Longrightarrow>
      lookup t p = Some i \<and> i_sync (w_ino t i) = i_sync (w_ino s i)"
  shows "stored wal s x \<Longrightarrow> stored wal t x"
  using assms(2) unfolding stored_def path_cong [OF assms(1)] more_fields [OF assms(1)]
  by (smt (verit, best))

lemma archived_cong:
  assumes "world.more t = world.more s"
    and "\<And>i. lookup s (fin_path s q) = Some i \<Longrightarrow> dlookup s (fin_path s q) = Some i \<Longrightarrow>
      i_sync (w_ino s i) = i_data (w_ino s i) \<Longrightarrow>
      lookup t (fin_path s q) = Some i \<and> dlookup t (fin_path s q) = Some i \<and> w_ino t i = w_ino s i"
  shows "archived wal s q \<Longrightarrow> archived wal t q"
  using assms(2) unfolding archived_def path_cong [OF assms(1)] more_fields [OF assms(1)]
  by (metis (no_types, lifting))

lemma env_keeps:
  assumes "env_le s t"
  shows "all_stored wal A s \<Longrightarrow> all_stored wal A t" "all_archived wal N s \<Longrightarrow> all_archived wal N t"
    "covers wal A t q d = covers wal A s q d"
proof -
  note e = env_leD [OF assms]
  show "all_stored wal A s \<Longrightarrow> all_stored wal A t"
    unfolding all_stored_def by (auto simp: e(1,3) intro!: stored_cong [OF e(4)])
  show "all_archived wal N s \<Longrightarrow> all_archived wal N t"
    unfolding all_archived_def more_fields [OF e(4)]
    by (auto simp: e(1,2,3) intro!: archived_cong [OF e(4)])
  show "covers wal A t q d = covers wal A s q d"
    by (simp add: covers_def more_fields [OF e(4)])
qed

lemma put_data_fields:
  fixes s :: "'a stream_scheme"
  shows "fin_path (put_data i d s) = fin_path s" "part_path (put_data i d s) = part_path s"
    "walSegSz (put_data i d s) = walSegSz s"
    "fin_path (sync_ino i s) = fin_path s" "part_path (sync_ino i s) = part_path s"
    "walSegSz (sync_ino i s) = walSegSz s"
    "fin_path (sync_entries e s) = fin_path s" "part_path (sync_entries e s) = part_path s"
    "walSegSz (sync_entries e s) = walSegSz s"
    "fin_path (mv p q i s) = fin_path s" "part_path (mv p q i s) = part_path s"
    "walSegSz (mv p q i s) = walSegSz s"
    "fin_path (close_fd f s) = fin_path s" "part_path (close_fd f s) = part_path s"
    "walSegSz (close_fd f s) = walSegSz s"
  by (simp_all only: path_cong [OF more_simps(1)] path_cong [OF more_simps(2)] path_cong [OF more_simps(3)]
      path_cong [OF more_simps(4)] path_cong [OF close_fd_simps(5)] more_fields(5) [OF more_simps(1)]
      more_fields(5) [OF more_simps(2)] more_fields(5) [OF more_simps(3)] more_fields(5) [OF more_simps(4)]
      more_fields(5) [OF close_fd_simps(5)])

lemma close_keeps [simp]:
  "all_stored wal A (close_fd f s) = all_stored wal A s"
  "all_archived wal N (close_fd f s) = all_archived wal N s"
  by (simp_all add: all_stored_def all_archived_def stored_def archived_def put_data_fields)

lemma put_data_sync: "i_sync (w_ino (put_data i d s) j) = i_sync (w_ino s j)"
  by simp

lemma put_data_stored [simp]: "all_stored wal A (put_data i d s) = all_stored wal A s"
  by (simp add: all_stored_def stored_def put_data_fields put_data_sync del: ino_simps)

lemma put_data_archived:
  assumes "all_archived wal N s" and "\<And>q. q \<in> N \<Longrightarrow> lookup s (fin_path s q) \<noteq> Some i"
  shows "all_archived wal N (put_data i d s)"
  using assms(1) unfolding all_archived_def put_data_fields
  by (auto intro!: archived_cong [of "put_data i d s" s] dest: assms(2))

lemma sync_stored:
  assumes "dir_ok s" and "lookup s p = Some i" and "p \<in> {fin_path s q, part_path s q}"
    and "seg_ok q (walSegSz s)" and "\<And>x. x \<in> A \<Longrightarrow> seg_ok (x div seg_sz s) (walSegSz s)"
    and "all_stored wal A s" and "covers wal A s q (i_data (w_ino s i))"
  shows "all_stored wal A (sync_ino i s)"
  unfolding all_stored_def
proof (intro allI impI)
  fix x assume x: "x \<in> A"
  let ?r = "x div seg_sz s"
  from x assms(6) obtain p' j where j: "p' \<in> {fin_path s ?r, part_path s ?r}" "lookup s p' = Some j"
    "x mod seg_sz s < length (i_sync (w_ino s j))" "i_sync (w_ino s j) ! (x mod seg_sz s) = wal x"
    unfolding all_stored_def stored_def by blast
  show "stored wal (sync_ino i s) x"
  proof (cases "j = i")
    case True
    then have "p' = p" using assms(1,2) j(2) unfolding dir_ok_def by blast
    then have "?r = q"
      using assms(3) j(1) path_inj [OF assms(5) [OF x] assms(4)] path_inj [OF assms(4) assms(5) [OF x]]
      by auto
    with x j True assms(7) show ?thesis
      unfolding stored_def covers_def put_data_fields by (auto intro!: bexI [OF _ j(1)])
  next
    case False
    with j show ?thesis
      unfolding stored_def put_data_fields by (auto intro!: bexI [OF _ j(1)])
  qed
qed

lemma sync_archived: "all_archived wal N s \<Longrightarrow> all_archived wal N (sync_ino i s)"
  unfolding all_archived_def put_data_fields
  by (auto intro!: archived_cong [of "sync_ino i s" s])

lemma sync_entries_keeps:
  "all_stored wal A s \<Longrightarrow> all_stored wal A (sync_entries e s)"
  "all_archived wal N s \<Longrightarrow> all_archived wal N (sync_entries e s)"
  unfolding all_stored_def all_archived_def put_data_fields
  by (auto intro!: archived_cong [of "sync_entries e s" s] stored_cong [of "sync_entries e s" s]
      simp: dlookup_sync_entries)

lemma mv_stored:
  assumes "lookup s (part_path s q) = Some i"
    and "seg_ok q (walSegSz s)" and "\<And>x. x \<in> A \<Longrightarrow> seg_ok (x div seg_sz s) (walSegSz s)"
    and "all_stored wal A s" and "covers wal A s q (i_sync (w_ino s i))"
  shows "all_stored wal A (mv (part_path s q) (fin_path s q) i s)"
  unfolding all_stored_def
proof (intro allI impI)
  fix x assume x: "x \<in> A"
  let ?r = "x div seg_sz s" and ?t = "mv (part_path s q) (fin_path s q) i s"
  have ne: "part_path s q \<noteq> fin_path s q" using path_inj(4) [OF assms(2) assms(2)] .
  show "stored wal ?t x"
  proof (cases "?r = q")
    case True
    with x assms(5) ne show ?thesis
      unfolding stored_def covers_def put_data_fields by (auto simp: lookup_mv)
  next
    case False
    from x assms(4) obtain p j where j: "p \<in> {fin_path s ?r, part_path s ?r}" "lookup s p = Some j"
      "x mod seg_sz s < length (i_sync (w_ino s j))" "i_sync (w_ino s j) ! (x mod seg_sz s) = wal x"
      unfolding all_stored_def stored_def by blast
    have "p \<noteq> part_path s q" "p \<noteq> fin_path s q"
      using j(1) False path_inj [OF assms(3) [OF x] assms(2)] path_inj [OF assms(2) assms(3) [OF x]]
      by auto
    with j show ?thesis
      unfolding stored_def put_data_fields by (auto simp: lookup_mv intro!: bexI [OF _ j(1)])
  qed
qed

lemma mv_archived:
  assumes "all_archived wal N s" and "q \<notin> N" and "seg_ok q (walSegSz s)"
  shows "all_archived wal N (mv (part_path s q) (fin_path s q) i s)"
  unfolding all_archived_def put_data_fields
proof (intro allI impI conjI)
  fix r assume r: "r \<in> N"
  with assms(1) have ok: "seg_ok r (walSegSz s)" and a: "archived wal s r"
    unfolding all_archived_def by blast+
  show "seg_ok r (walSegSz s)" by (rule ok)
  have "r \<noteq> q" using r assms(2) by blast
  then show "archived wal (mv (part_path s q) (fin_path s q) i s) r"
    using path_inj [OF ok assms(3)] by (intro archived_cong [OF _ _ a]) (auto simp: lookup_mv)
qed

lemma rm_keeps:
  assumes "seg_ok q (walSegSz s)"
  shows "(\<And>x. x \<in> A \<Longrightarrow> seg_ok (x div seg_sz s) (walSegSz s) \<and> x div seg_sz s \<noteq> q) \<Longrightarrow>
      all_stored wal A s \<Longrightarrow> all_stored wal A (rm (part_path s q) s)"
    and "all_archived wal N s \<Longrightarrow> all_archived wal N (rm (part_path s q) s)"
proof -
  show "all_stored wal A (rm (part_path s q) s)"
    if a: "\<And>x. x \<in> A \<Longrightarrow> seg_ok (x div seg_sz s) (walSegSz s) \<and> x div seg_sz s \<noteq> q"
      and st: "all_stored wal A s"
    unfolding all_stored_def
  proof (intro allI impI)
    fix x assume x: "x \<in> A"
    note ok = a [OF x]
    from st x have "stored wal s x" by (simp add: all_stored_def)
    then show "stored wal (rm (part_path s q) s) x"
      using ok path_inj [OF conjunct1 [OF ok] assms] by (elim stored_cong [rotated 2]) auto
  qed
  show "all_archived wal N (rm (part_path s q) s)" if "all_archived wal N s"
    unfolding all_archived_def more_fields [OF rm_simps(4)]
  proof (intro allI impI conjI)
    fix r assume r: "r \<in> N"
    with that have ok: "seg_ok r (walSegSz s)" and a: "archived wal s r"
      unfolding all_archived_def by blast+
    show "seg_ok r (walSegSz s)" by (rule ok)
    show "archived wal (rm (part_path s q) s) r"
      using path_inj(3) [OF ok assms] by (intro archived_cong [OF _ _ a]) auto
  qed
qed

lemma add_file_keeps:
  assumes "lookup s p = None" and "dir_ok s"
  shows "all_stored wal A s \<Longrightarrow> all_stored wal A (add_file p (w_next s) s)"
    and "all_archived wal N s \<Longrightarrow> all_archived wal N (add_file p (w_next s) s)"
proof -
  have n: "lookup s r \<noteq> Some (w_next s)" for r
    using assms(2) unfolding dir_ok_def by blast
  show "all_stored wal A s \<Longrightarrow> all_stored wal A (add_file p (w_next s) s)"
    unfolding all_stored_def using assms(1) n
    by (auto intro!: stored_cong [of "add_file p (w_next s) s" s])
  show "all_archived wal N s \<Longrightarrow> all_archived wal N (add_file p (w_next s) s)"
    unfolding all_archived_def more_fields [OF add_file_simps(4)] using assms(1) n
    by (auto intro!: archived_cong [of "add_file p (w_next s) s" s])
qed


subsection \<open>The invariant of the directory and the segment being written\<close>

definition store_inv :: "(nat \<Rightarrow> char) \<Rightarrow> nat set \<Rightarrow> nat set \<Rightarrow> 'a stream_scheme \<Rightarrow> bool" where
  "store_inv wal A N s = (cfg_ok s \<and> dir_ok s \<and> all_stored wal A s \<and> all_archived wal N s \<and>
     (\<forall>x. x \<in> A \<longrightarrow> x < 2 ^ 64))"

definition open_at :: "(nat \<Rightarrow> char) \<Rightarrow> 'a stream_scheme \<Rightarrow> nat \<Rightarrow> nat \<Rightarrow> nat \<Rightarrow> nat \<Rightarrow> bool" where
  "open_at wal s q c i f = (\<exists>w. walfile s = Some \<lparr>currpos = w, pathname = part_path s q, fd = Some f\<rparr> \<and>
     unat w = c \<and> c \<le> seg_sz s \<and> w_fd s f = Some i \<and> f < w_next s \<and>
     lookup s (part_path s q) = Some i \<and> length (i_data (w_ino s i)) = seg_sz s \<and>
     (\<forall>k. k < c \<longrightarrow> i_data (w_ino s i) ! k = wal (q * seg_sz s + k)))"

text \<open>No segment is open, or its descriptor is closed already (after a failed close).\<close>

definition idle :: "'a stream_scheme \<Rightarrow> bool" where
  "idle s = (case walfile s of None \<Rightarrow> True
     | Some h \<Rightarrow> (case fd h of None \<Rightarrow> True | Some f \<Rightarrow> w_fd s f = None))"

text \<open>The positions of segment \<open>q\<close> below offset \<open>c\<close>.\<close>

definition below_off :: "nat \<Rightarrow> nat \<Rightarrow> nat \<Rightarrow> nat set" where
  "below_off sz q c = {x. x div sz = q \<and> x mod sz < c}"

text \<open>The fields of the stream that file operations leave alone.\<close>

definition sc_same :: "'a stream_scheme \<Rightarrow> 'a stream_scheme \<Rightarrow> bool" where
  "sc_same s t = (timeline t = timeline s \<and> partialSuffix t = partialSuffix s \<and>
     receiveDir t = receiveDir s \<and> walSegSz t = walSegSz s \<and> blockPos t = blockPos s \<and>
     lastFlushPosition t = lastFlushPosition s \<and> c_sent t = c_sent s \<and> c_inbox t = c_inbox s \<and>
     startPos t = startPos s \<and> stopPos t = stopPos s \<and> synchronous t = synchronous s \<and>
     reportFlushPosition t = reportFlushPosition s \<and> c_cancelled t = c_cancelled s \<and>
     standbyMessageTimeout t = standbyMessageTimeout s \<and> lastStatus t = lastStatus s \<and>
     replicationSlot t = replicationSlot s \<and> startedAt t = startedAt s \<and> stream.more t = stream.more s)"

lemma sc_same_refl [simp]: "sc_same s s"
  by (simp add: sc_same_def)

lemma sc_same_trans: "sc_same s t \<Longrightarrow> sc_same t u \<Longrightarrow> sc_same s u"
  by (simp add: sc_same_def)

lemma sc_same_more: "world.more t = world.more s \<Longrightarrow> sc_same s t"
  unfolding sc_same_def by (intro conjI; erule more_fields)

lemma sc_same_upd [simp]:
  "sc_same s (t\<lparr>walfile := w\<rparr>) = sc_same s t" "sc_same s (t\<lparr>m_files := k\<rparr>) = sc_same s t"
  "sc_same s (t\<lparr>m_bytes := k\<rparr>) = sc_same s t"
  by (simp_all add: sc_same_def)

lemma sc_same_paths:
  assumes "sc_same s t"
  shows "fin_path t = fin_path s" "part_path t = part_path s" "walSegSz t = walSegSz s" "cfg_ok t = cfg_ok s"
  using assms by (simp_all add: sc_same_def fin_path_def part_path_def cfg_ok_def fun_eq_iff)

lemma store_inv_env: "env_le s t \<Longrightarrow> store_inv wal A N s \<Longrightarrow> store_inv wal A N t"
  unfolding store_inv_def using cfg_cong env_leD(4) dir_ok_env env_keeps(1,2) by metis

lemma store_inv_seg: "store_inv wal A N s \<Longrightarrow> x \<in> A \<Longrightarrow> seg_ok (x div seg_sz s) (walSegSz s)"
  unfolding store_inv_def by (blast intro: seg_of_ok)

lemma store_inv_upd [simp]:
  "store_inv wal A N (s\<lparr>walfile := w\<rparr>) = store_inv wal A N s"
  "store_inv wal A N (s\<lparr>m_files := k\<rparr>) = store_inv wal A N s"
  "store_inv wal A N (s\<lparr>m_bytes := k\<rparr>) = store_inv wal A N s"
  "store_inv wal A N (s\<lparr>lastFlushPosition := l\<rparr>) = store_inv wal A N s"
  "store_inv wal A N (s\<lparr>blockPos := l\<rparr>) = store_inv wal A N s"
  "store_inv wal A N (s\<lparr>stopPos := l\<rparr>) = store_inv wal A N s"
  "store_inv wal A N (s\<lparr>lastStatus := z\<rparr>) = store_inv wal A N s"
  "store_inv wal A N (s\<lparr>c_inbox := e\<rparr>) = store_inv wal A N s"
  "store_inv wal A N (s\<lparr>c_cancelled := b\<rparr>) = store_inv wal A N s"
  "store_inv wal A N (s\<lparr>c_sent := m\<rparr>) = store_inv wal A N s"
  by (simp_all add: store_inv_def cfg_ok_def dir_ok_def all_stored_def all_archived_def stored_def
      archived_def fin_path_def part_path_def lookup_def dlookup_def)

lemma idle_env:
  assumes "env_le s t" and "walfile s = None"
  shows "idle t"
  using assms(2) unfolding idle_def more_fields(1) [OF env_leD(4) [OF assms(1)]] by simp

lemma open_at_env:
  assumes "env_le s t" and "open_at wal s q c i f"
  shows "open_at wal t q c i f"
proof -
  note e = env_leD [OF assms(1)]
  from assms(2) have "f < w_next s" unfolding open_at_def by blast
  then show ?thesis
    using assms(2) e(5,6) unfolding open_at_def path_cong(2) [OF e(4)] more_fields(1,5) [OF e(4)] e(1,3)
    by auto
qed

end
