(* ===== verification/WalFileSpec.thy ===== *)
theory WalFileSpec
  imports WalStore
begin

section \<open>What the operations on the open segment guarantee\<close>

text \<open>
  One rule per operation of walfile.go, for every outcome of the system calls: the invariant of
  the directory is kept whatever fails, what was stored stays stored, and on success the bytes
  of the segment up to the current offset are stored, or the segment is archived.
\<close>

lemma below_off_less: "seg_ok q w \<Longrightarrow> x \<in> below_off (unat w) q c \<Longrightarrow> x < 2 ^ 64"
proof -
  assume a: "seg_ok q w" "x \<in> below_off (unat w) q c"
  then have "0 < unat w" using IsPowerOf2_pos by (simp add: seg_ok_def)
  then have "x < Suc (x div unat w) * unat w"
    by (metis dividend_less_div_times mult.commute mult_Suc add.commute)
  then show ?thesis using a seg_ok_bound [of q w] by (simp add: below_off_def)
qed

lemma open_at_covers:
  assumes "open_at wal s q c i f" and "\<And>x. x \<in> A \<Longrightarrow> x div seg_sz s = q \<Longrightarrow> x mod seg_sz s < c"
  shows "covers wal A s q (i_data (w_ino s i))"
  unfolding covers_def
proof (intro allI impI)
  fix x assume x: "x \<in> A" "x div seg_sz s = q"
  from assms(1) have o: "c \<le> seg_sz s" "length (i_data (w_ino s i)) = seg_sz s"
    "\<And>k. k < c \<Longrightarrow> i_data (w_ino s i) ! k = wal (q * seg_sz s + k)"
    unfolding open_at_def by blast+
  have "q * seg_sz s + x mod seg_sz s = x" using x(2) by (simp flip: x(2))
  with o assms(2) [OF x]
  show "x mod seg_sz s < length (i_data (w_ino s i)) \<and> i_data (w_ino s i) ! (x mod seg_sz s) = wal x"
    by fastforce
qed

text \<open>After a sync of the open segment, its bytes up to the offset are stored.\<close>

lemma sync_open:
  assumes "store_inv wal A N s" and "open_at wal s q c i f" and "seg_ok q (walSegSz s)"
    and "\<And>x. x \<in> A \<Longrightarrow> x div seg_sz s = q \<Longrightarrow> x mod seg_sz s < c"
  shows "store_inv wal (A \<union> below_off (seg_sz s) q c) N (sync_ino i s)"
    and "open_at wal (sync_ino i s) q c i f"
proof -
  from assms(2) have l: "lookup s (part_path s q) = Some i" unfolding open_at_def by blast
  let ?B = "A \<union> below_off (seg_sz s) q c"
  have "covers wal ?B s q (i_data (w_ino s i))"
    using assms(4) by (intro open_at_covers [OF assms(2)]) (auto simp: below_off_def)
  note cov = this
  have inv: "cfg_ok s" "dir_ok s" "all_stored wal A s" "all_archived wal N s"
    using assms(1) by (simp_all add: store_inv_def)
  have "all_stored wal A (sync_ino i s)"
    using store_inv_seg [OF assms(1)] cov inv
    by (intro sync_stored [OF inv(2) l _ assms(3)]) (auto simp: covers_def)
  moreover have "stored wal (sync_ino i s) x" if "x \<in> below_off (seg_sz s) q c" for x
    using that cov l unfolding stored_def covers_def put_data_fields by (auto simp: below_off_def)
  ultimately have "all_stored wal ?B (sync_ino i s)"
    by (auto simp: all_stored_def)
  moreover have "cfg_ok (sync_ino i s)" using inv(1) cfg_cong [OF more_simps(2)] by blast
  ultimately show "store_inv wal ?B N (sync_ino i s)"
    using inv sync_archived [OF inv(4)] assms(1) by (auto simp: store_inv_def dest: below_off_less [OF assms(3)])
  show "open_at wal (sync_ino i s) q c i f"
    using assms(2) unfolding open_at_def put_data_fields more_fields(1) [OF more_simps(2)] by auto
qed

lemma store_inv_mono: "store_inv wal A N s \<Longrightarrow> B \<subseteq> A \<Longrightarrow> M \<subseteq> N \<Longrightarrow> store_inv wal B M s"
  by (auto simp: store_inv_def all_stored_def all_archived_def)

lemma wp_SyncWalFile:
  assumes "store_inv wal A N s" and "open_at wal s q c i f" and "seg_ok q (walSegSz s)"
    and "\<And>x. x \<in> A \<Longrightarrow> x div seg_sz s = q \<Longrightarrow> x mod seg_sz s < c"
    and "\<And>t. store_inv wal (A \<union> below_off (seg_sz s) q c) N t \<Longrightarrow> open_at wal t q c i f \<Longrightarrow>
      sc_same s t \<Longrightarrow> walfile t = walfile s \<Longrightarrow> m_bytes t = m_bytes s \<Longrightarrow> Q () t"
    and "\<And>e t. \<not> is_abort e \<Longrightarrow> store_inv wal A N t \<Longrightarrow> open_at wal t q c i f \<Longrightarrow> sc_same s t \<Longrightarrow> R e t"
  shows "wp SyncWalFile Q R s"
proof -
  obtain w where o: "walfile s = Some \<lparr>currpos = w, pathname = part_path s q, fd = Some f\<rparr>"
    "w_fd s f = Some i" using assms(2) unfolding open_at_def by blast
  note sy = sync_open [OF assms(1-4)]
  have "wp (Fsync f) Q R s"
  proof (rule wp_Fsync [OF o(2)])
    fix t assume t: "env_le (sync_ino i s) t"
    from env_leD(4) [OF t] have m: "world.more t = world.more s" by simp
    show "Q () t"
      using assms(5) store_inv_env [OF t sy(1)] open_at_env [OF t sy(2)] sc_same_more [OF m]
        more_fields(1,18) [OF m] by blast
  next
    fix e t assume t: "\<not> is_abort e" "env_le s t"
    show "R e t"
      using assms(6) t(1) store_inv_env [OF t(2) assms(1)] open_at_env [OF t(2) assms(2)]
        sc_same_more [OF env_leD(4) [OF t(2)]] by blast
  qed
  then show ?thesis by (simp add: SyncWalFile_def the_fd_def o(1))
qed

text \<open>Syncing a file of the segment by name, together with its directory.\<close>

lemma sync_named:
  assumes "store_inv wal A N s" and "lookup s p = Some i" and "p \<in> {fin_path s q, part_path s q}"
    and "seg_ok q (walSegSz s)" and "covers wal (A \<union> below_off (seg_sz s) q c) s q (i_data (w_ino s i))"
  shows "store_inv wal (A \<union> below_off (seg_sz s) q c) N (sync_ino i s)"
proof -
  let ?B = "A \<union> below_off (seg_sz s) q c"
  have inv: "cfg_ok s" "dir_ok s" "all_stored wal A s" "all_archived wal N s"
    using assms(1) by (simp_all add: store_inv_def)
  have "all_stored wal A (sync_ino i s)"
    using store_inv_seg [OF assms(1)] assms(5) inv
    by (intro sync_stored [OF inv(2) assms(2,3,4)]) (auto simp: covers_def)
  moreover have "stored wal (sync_ino i s) x" if "x \<in> below_off (seg_sz s) q c" for x
    using that assms(2,3,5) unfolding stored_def covers_def put_data_fields by (auto simp: below_off_def)
  ultimately have "all_stored wal ?B (sync_ino i s)"
    by (auto simp: all_stored_def)
  moreover have "cfg_ok (sync_ino i s)" using inv(1) cfg_cong [OF more_simps(2)] by blast
  ultimately show ?thesis
    using inv sync_archived [OF inv(4)] assms(1)
    by (auto simp: store_inv_def dest: below_off_less [OF assms(4)])
qed

lemma sync_entries_inv: "store_inv wal A N s \<Longrightarrow> store_inv wal A N (sync_entries e s)"
  unfolding store_inv_def using cfg_cong [OF more_simps(3)] sync_entries_keeps by auto

lemma wp_FsyncFname_seg:
  assumes "store_inv wal A N s" and "lookup s p = Some i" and "p \<in> {fin_path s q, part_path s q}"
    and "seg_ok q (walSegSz s)" and "covers wal (A \<union> below_off (seg_sz s) q c) s q (i_data (w_ino s i))"
    and "\<And>t. store_inv wal (A \<union> below_off (seg_sz s) q c) N t \<Longrightarrow> env_le (sync_ino i s) t \<Longrightarrow> Q () t"
    and "\<And>e t. \<not> is_abort e \<Longrightarrow> store_inv wal A N t \<Longrightarrow> world.more t = world.more s \<Longrightarrow>
      w_next s \<le> w_next t \<Longrightarrow> (\<forall>f < w_next s. w_fd t f = w_fd s f) \<Longrightarrow> R e t"
  shows "wp (FsyncFname p) Q R s"
proof -
  note sy = sync_named [OF assms(1-5)]
  show ?thesis
  proof (rule wp_FsyncFname)
    fix j t assume "lookup s p = Some j" "env_le (sync_ino j s) t"
    with assms(2) have t: "env_le (sync_ino i s) t" by simp
    show "Q () t" using assms(6) [OF store_inv_env [OF t sy] t] .
  next
    fix e t assume t: "\<not> is_abort e" "env_le s t"
    show "R e t"
      using assms(7) [OF t(1) store_inv_env [OF t(2) assms(1)]] env_leD(4,5,6) [OF t(2)] by blast
  next
    fix e j t assume t: "\<not> is_abort e" "lookup s p = Some j" "env_le (sync_ino j s) t"
    with assms(2) have e: "env_le (sync_ino i s) t" by simp
    have "store_inv wal A N (sync_ino i s)" using store_inv_mono [OF sy] by blast
    from assms(7) [OF t(1) store_inv_env [OF e this]] env_leD(4,5,6) [OF e] show "R e t" by simp
  qed
qed

lemma wp_FsyncFnameAndDir_seg:
  assumes "store_inv wal A N s" and "lookup s p = Some i" and "p \<in> {fin_path s q, part_path s q}"
    and "seg_ok q (walSegSz s)" and "covers wal (A \<union> below_off (seg_sz s) q c) s q (i_data (w_ino s i))"
    and "\<And>t. store_inv wal (A \<union> below_off (seg_sz s) q c) N t \<Longrightarrow> world.more t = world.more s \<Longrightarrow>
      lookup t = lookup s \<Longrightarrow> dlookup t p = Some i \<Longrightarrow>
      w_ino t i = \<lparr>i_data = i_data (w_ino s i), i_sync = i_data (w_ino s i)\<rparr> \<Longrightarrow> Q () t"
    and "\<And>e t. \<not> is_abort e \<Longrightarrow> store_inv wal A N t \<Longrightarrow> world.more t = world.more s \<Longrightarrow> R e t"
  shows "wp (FsyncFnameAndDir p) Q R s"
  unfolding FsyncFnameAndDir_def wp_thenE
proof (rule wp_FsyncFname_seg [OF assms(1-5)])
  fix t assume inv: "store_inv wal (A \<union> below_off (seg_sz s) q c) N t" and t: "env_le (sync_ino i s) t"
  note e = env_leD [OF t]
  have invA: "store_inv wal A N t" using store_inv_mono [OF inv] by blast
  show "wp (FsyncDir (filepath_Dir p)) Q R t"
  proof (rule wp_FsyncDir)
    fix u assume u: "env_le (sync_entries (filepath_Dir p) t) u"
    note f = env_leD [OF u]
    show "Q () u"
    proof (rule assms(6))
      show "store_inv wal (A \<union> below_off (seg_sz s) q c) N u"
        by (rule store_inv_env [OF u sync_entries_inv [OF inv]])
      show "world.more u = world.more s" "lookup u = lookup s" using e f by simp_all
      show "dlookup u p = Some i"
        using f(2) e(1) assms(2) by (simp add: dlookup_sync_entries)
      show "w_ino u i = \<lparr>i_data = i_data (w_ino s i), i_sync = i_data (w_ino s i)\<rparr>"
        using f(3) e(3) by (simp add: inode.splits)
    qed
  next
    fix er u assume u: "\<not> is_abort er" "env_le t u"
    show "R er u"
      using assms(7) [OF u(1) store_inv_env [OF u(2) invA]] env_leD(4) [OF u(2)] e(4) by simp
  next
    fix er u assume u: "\<not> is_abort er" "env_le (sync_entries (filepath_Dir p) t) u"
    show "R er u"
      using assms(7) [OF u(1) store_inv_env [OF u(2) sync_entries_inv [OF invA]]] env_leD(4) [OF u(2)] e(4)
      by simp
  qed
qed (use assms(7) in blast)

subsection \<open>Closing\<close>

lemma upd_lookup [simp]:
  "lookup (s\<lparr>walfile := w\<rparr>) = lookup s" "dlookup (s\<lparr>walfile := w\<rparr>) = dlookup s"
  "lookup (s\<lparr>m_files := k\<rparr>) = lookup s" "dlookup (s\<lparr>m_files := k\<rparr>) = dlookup s"
  by (simp_all add: lookup_def dlookup_def fun_eq_iff)

lemma upd_paths [simp]:
  "fin_path (s\<lparr>walfile := w\<rparr>) = fin_path s" "part_path (s\<lparr>walfile := w\<rparr>) = part_path s"
  "fin_path (s\<lparr>m_files := k\<rparr>) = fin_path s" "part_path (s\<lparr>m_files := k\<rparr>) = part_path s"
  by (simp_all add: fin_path_def part_path_def fun_eq_iff)

lemma cfg_close: "cfg_ok (close_fd f s) = cfg_ok s" for s :: "'a stream_scheme"
  by (rule cfg_cong) simp

lemma store_inv_close: "store_inv wal A N s \<Longrightarrow> store_inv wal A N (close_fd f s)"
  by (simp add: store_inv_def cfg_close)

lemma covers_cong: "walSegSz t = walSegSz s \<Longrightarrow> covers wal A t q d = covers wal A s q d"
  by (simp add: covers_def)

lemma open_at_below:
  assumes "open_at wal s q c i f" and "\<And>x. x \<in> A \<Longrightarrow> x div seg_sz s = q \<Longrightarrow> x mod seg_sz s < c"
  shows "covers wal (A \<union> below_off (seg_sz s) q c) s q (i_data (w_ino s i))"
  using assms(2) by (intro open_at_covers [OF assms(1)]) (auto simp: below_off_def)

lemma closed_idle:
  assumes "env_le (close_fd f s) t" and "f < w_next s" and "walfile s = Some \<lparr>currpos = w, pathname = p, fd = Some f\<rparr>"
    and "world.more u = world.more t" and "\<And>g. g < w_next t \<Longrightarrow> w_fd u g = w_fd t g"
  shows "idle u"
proof -
  note e = env_leD [OF assms(1)]
  have "walfile u = walfile s"
    using more_fields(1) [OF assms(4)] more_fields(1) [OF e(4)] more_fields(1) [OF close_fd_simps(5)]
    by metis
  moreover have "w_fd u f = None" using assms(2,5) e(5) e(6) [of f] by simp
  ultimately show ?thesis using assms(3) by (simp add: idle_def)
qed

lemma wp_closeNoRename:
  assumes "store_inv wal A N s" and "open_at wal s q c i f" and "seg_ok q (walSegSz s)"
    and "\<And>x. x \<in> A \<Longrightarrow> x div seg_sz s = q \<Longrightarrow> x mod seg_sz s < c"
    and "\<And>t. store_inv wal (A \<union> below_off (seg_sz s) q c) N t \<Longrightarrow> walfile t = None \<Longrightarrow> sc_same s t \<Longrightarrow> Q () t"
    and "\<And>e t. \<not> is_abort e \<Longrightarrow> store_inv wal A N t \<Longrightarrow> idle t \<Longrightarrow> sc_same s t \<Longrightarrow> R e t"
  shows "wp closeNoRename Q R s"
proof -
  obtain w where o: "walfile s = Some \<lparr>currpos = w, pathname = part_path s q, fd = Some f\<rparr>"
    "w_fd s f = Some i" "f < w_next s" "lookup s (part_path s q) = Some i"
    using assms(2) unfolding open_at_def by blast
  note cov = open_at_below [OF assms(2,4)]
  have "wp (thenE (f_Close f) (thenE (modE (\<lambda>s. s\<lparr>walfile := None\<rparr>)) (FsyncFnameAndDir (part_path s q)))) Q R s"
    unfolding wp_thenE wp_modE
  proof (rule wp_f_Close [OF o(2)])
    fix t assume t: "env_le (close_fd f s) t"
    note e = env_leD [OF t]
    let ?t = "t\<lparr>walfile := None\<rparr>"
    have m: "world.more t = world.more s" using e(4) by simp
    have i1: "store_inv wal A N ?t"
      using store_inv_env [OF t store_inv_close [OF assms(1)]] by simp
    show "wp (FsyncFnameAndDir (part_path s q)) Q R ?t"
    proof (rule wp_FsyncFnameAndDir_seg [where q = q and c = c, OF i1])
      show "lookup ?t (part_path s q) = Some i" using o(4) e(1) by simp
      show "part_path s q \<in> {fin_path ?t q, part_path ?t q}" using path_cong [OF m] by simp
      show "seg_ok q (walSegSz ?t)" using assms(3) more_fields(5) [OF m] by simp
      show "covers wal (A \<union> below_off (seg_sz ?t) q c) ?t q (i_data (w_ino ?t i))"
        using cov e(3) more_fields(5) [OF m] by (simp add: covers_def)
    next
      fix u assume u: "store_inv wal (A \<union> below_off (seg_sz ?t) q c) N u" "world.more u = world.more ?t"
      have "walfile u = None" using more_fields(1) [OF u(2)] by simp
      moreover have "sc_same s u"
        using sc_same_more [OF m] sc_same_more [OF u(2)] sc_same_trans sc_same_upd(1) sc_same_refl by metis
      ultimately show "Q () u" using assms(5) u(1) more_fields(5) [OF m] by simp
    next
      fix er u assume u: "\<not> is_abort er" "store_inv wal A N u" "world.more u = world.more ?t"
      have "walfile u = None" using more_fields(1) [OF u(3)] by simp
      then have "idle u" by (simp add: idle_def)
      moreover have "sc_same s u"
        using sc_same_more [OF m] sc_same_more [OF u(3)] sc_same_trans sc_same_upd(1) sc_same_refl by metis
      ultimately show "R er u" using assms(6) u(1,2) by blast
    qed
  next
    fix er t assume t: "\<not> is_abort er" "env_le (close_fd f s) t"
    have "store_inv wal A N t" using store_inv_env [OF t(2) store_inv_close [OF assms(1)]] .
    moreover have "idle t" by (rule closed_idle [OF t(2) o(3,1)]) simp_all
    moreover have "sc_same s t" using env_leD(4) [OF t(2)] by (intro sc_same_more) simp
    ultimately show "R er t" using assms(6) t(1) by blast
  qed
  then show ?thesis by (simp add: closeNoRename_def o(1))
qed

lemma wp_closeNoRename_idle:
  assumes "store_inv wal A N s" and "idle s"
    and "\<And>e t. store_inv wal A N t \<Longrightarrow> idle t \<Longrightarrow> sc_same s t \<Longrightarrow> R e t"
  shows "wp closeNoRename Q R s"
  using assms by (auto simp: closeNoRename_def idle_def f_Close_def split: option.split)

lemma open_at_bytes:
  assumes "open_at wal s q (seg_sz s) i f"
  shows "i_data (w_ino s i) = seg_bytes wal (seg_sz s) q"
  using assms unfolding open_at_def seg_bytes_def by (auto intro!: nth_equalityI)

lemma mv_inv:
  assumes "store_inv wal A N s" and "lookup s (part_path s q) = Some i" and "seg_ok q (walSegSz s)"
    and "covers wal A s q (i_sync (w_ino s i))" and "q \<notin> N"
  shows "store_inv wal A N (mv (part_path s q) (fin_path s q) i s)"
proof -
  have inv: "cfg_ok s" "dir_ok s" "all_stored wal A s" "all_archived wal N s"
    using assms(1) by (simp_all add: store_inv_def)
  have "cfg_ok (mv (part_path s q) (fin_path s q) i s)" using inv(1) cfg_cong [OF more_simps(4)] by blast
  with inv mv_stored [OF assms(2,3) _ inv(3) assms(4)] mv_archived [OF inv(4) assms(5,3)]
    dir_ok_mv [OF inv(2) assms(2)] store_inv_seg [OF assms(1)] assms(1)
  show ?thesis by (auto simp: store_inv_def)
qed

lemma env_le_walfile: "env_le s t \<Longrightarrow> sc_same s t \<and> walfile t = walfile s \<and> m_bytes t = m_bytes s"
  using sc_same_more more_fields(1,18) env_leD(4) by metis

lemma wp_closeAndRename:
  assumes "store_inv wal A N s" and "open_at wal s q (seg_sz s) i f" and "seg_ok q (walSegSz s)"
    and "q \<notin> N"
    and "\<And>t. store_inv wal (A \<union> below_off (seg_sz s) q (seg_sz s)) (insert q N) t \<Longrightarrow>
      walfile t = None \<Longrightarrow> sc_same s t \<Longrightarrow> Q () t"
    and "\<And>e t. \<not> is_abort e \<Longrightarrow> store_inv wal A N t \<Longrightarrow> idle t \<Longrightarrow> sc_same s t \<Longrightarrow> R e t"
  shows "wp closeAndRename Q R s"
proof -
  let ?n = "seg_sz s" and ?part = "part_path s q" and ?fin = "fin_path s q"
  let ?B = "A \<union> below_off ?n q ?n"
  obtain w where o: "walfile s = Some \<lparr>currpos = w, pathname = ?part, fd = Some f\<rparr>"
    "w_fd s f = Some i" "f < w_next s" "lookup s ?part = Some i"
    using assms(2) unfolding open_at_def by blast
  have pos: "0 < ?n" using assms(3) IsPowerOf2_pos by (simp add: seg_ok_def)
  have cov: "covers wal ?B s q (i_data (w_ino s i))"
    using pos by (intro open_at_below [OF assms(2)]) simp
  note dat = open_at_bytes [OF assms(2)]
  have sfx: "partialSuffix s = PartialSuffix" using assms(1) by (simp add: store_inv_def cfg_ok_def)
  have fin: "trim_suffix ?part (partialSuffix s) = ?fin" by (simp add: sfx part_fin)
  have ne: "?part \<noteq> ?fin" using path_inj(4) [OF assms(3,3)] .
  let ?K = "thenE (f_Close f) (thenE (FsyncFname ?part) (thenE (os_Rename ?part ?fin)
     (thenE (modE (\<lambda>s. s\<lparr>walfile := None\<rparr>)) (thenE (FsyncFnameAndDir ?fin)
       (modE (\<lambda>s. s\<lparr>m_files := Suc (m_files s)\<rparr>))))))"
  have "wp ?K Q R s"
    unfolding wp_thenE wp_modE
  proof (rule wp_f_Close [OF o(2)])
    fix t assume t: "env_le (close_fd f s) t"
    note e = env_leD [OF t]
    have m: "world.more t = world.more s" using e(4) by simp
    have i1: "store_inv wal A N t" using store_inv_env [OF t store_inv_close [OF assms(1)]] .
    have seg: "seg_ok q (walSegSz t)" using assms(3) more_fields(5) [OF m] by simp
    have idl: "idle u" if "world.more u = world.more t" "\<And>g. g < w_next t \<Longrightarrow> w_fd u g = w_fd t g" for u
      by (rule closed_idle [OF t o(3,1) that])
    show "wp (FsyncFname ?part) (\<lambda>_. wp (os_Rename ?part ?fin) (\<lambda>_ s. wp (FsyncFnameAndDir ?fin)
        (\<lambda>_ s. Q () (s\<lparr>m_files := Suc (m_files s)\<rparr>)) R (s\<lparr>walfile := None\<rparr>)) R) R t"
    proof (rule wp_FsyncFname_seg [where q = q and c = ?n, OF i1 _ _ seg])
      show "lookup t ?part = Some i" using o(4) e(1) by simp
      show "?part \<in> {fin_path t q, part_path t q}" using path_cong [OF m] by simp
      show "covers wal (A \<union> below_off (seg_sz t) q ?n) t q (i_data (w_ino t i))"
        using cov e(3) more_fields(5) [OF m] by (simp add: covers_def)
    next
      fix u assume u: "store_inv wal (A \<union> below_off (seg_sz t) q ?n) N u" "env_le (sync_ino i t) u"
      note g = env_leD [OF u(2)]
      have mu: "world.more u = world.more s" using g(4) m by simp
      have su: "w_ino u i = \<lparr>i_data = seg_bytes wal ?n q, i_sync = seg_bytes wal ?n q\<rparr>"
        using g(3) e(3) dat by simp
      have lu: "lookup u ?part = Some i" using g(1) e(1) o(4) by simp
      have invu: "store_inv wal ?B N u" using u(1) more_fields(5) [OF m] by simp
      have invA: "store_inv wal A N u" using store_inv_mono [OF invu] by blast
      have covu: "covers wal ?B u q (seg_bytes wal ?n q)"
        using cov dat more_fields(5) [OF mu] by (simp add: covers_def)
      have segu: "seg_ok q (walSegSz u)" using assms(3) more_fields(5) [OF mu] by simp
      have lu': "lookup u (part_path u q) = Some i" using lu path_cong [OF mu] by simp
      have "covers wal ?B u q (i_sync (w_ino u i))" using covu su by simp
      note mv_inv [OF invu lu' segu this assms(4)]
      then have mvB: "store_inv wal ?B N (mv ?part ?fin i u)" using path_cong [OF mu] by simp
      show "wp (os_Rename ?part ?fin) (\<lambda>_ s. wp (FsyncFnameAndDir ?fin)
        (\<lambda>_ s. Q () (s\<lparr>m_files := Suc (m_files s)\<rparr>)) R (s\<lparr>walfile := None\<rparr>)) R u"
      proof (rule wp_os_Rename)
        fix j v assume "lookup u ?part = Some j" "env_le (mv ?part ?fin j u) v"
        with lu have v: "env_le (mv ?part ?fin i u) v" by simp
        note h = env_leD [OF v]
        have mv: "world.more v = world.more s" using h(4) mu by simp
        let ?v = "v\<lparr>walfile := None\<rparr>"
        have invv: "store_inv wal ?B N ?v" using store_inv_env [OF v mvB] by simp
        have sv: "w_ino ?v i = \<lparr>i_data = seg_bytes wal ?n q, i_sync = seg_bytes wal ?n q\<rparr>"
          using h(3) su by simp
        have szv: "seg_sz ?v = ?n" using more_fields(5) [OF mv] by simp
        show "wp (FsyncFnameAndDir ?fin) (\<lambda>_ s. Q () (s\<lparr>m_files := Suc (m_files s)\<rparr>)) R ?v"
        proof (rule wp_FsyncFnameAndDir_seg [where q = q and c = ?n, OF invv])
          show l: "lookup ?v ?fin = Some i" using h(1) ne by (simp add: lookup_mv)
          show "?fin \<in> {fin_path ?v q, part_path ?v q}" using path_cong [OF mv] by simp
          show "seg_ok q (walSegSz ?v)" using assms(3) more_fields(5) [OF mv] by simp
          show "covers wal (?B \<union> below_off (seg_sz ?v) q ?n) ?v q (i_data (w_ino ?v i))"
            using covu sv more_fields(5) [OF mu] szv by (auto simp: covers_def)
        next
          fix x
          assume x: "store_inv wal (?B \<union> below_off (seg_sz ?v) q ?n) N x" "world.more x = world.more ?v"
            "lookup x = lookup ?v" "dlookup x ?fin = Some i"
            "w_ino x i = \<lparr>i_data = i_data (w_ino ?v i), i_sync = i_data (w_ino ?v i)\<rparr>"
          have sc: "sc_same s x"
            using sc_same_more [OF mv] sc_same_more [OF x(2)] sc_same_trans sc_same_upd(1) sc_same_refl by metis
          have "archived wal x q"
            using x(3-5) h(1) ne sv sc_same_paths [OF sc] by (auto simp: archived_def lookup_mv)
          moreover have "store_inv wal ?B N x" using x(1) szv by (simp add: Un_assoc)
          ultimately have "store_inv wal ?B (insert q N) x"
            using assms(3) sc_same_paths [OF sc] by (auto simp: store_inv_def all_archived_def)
          moreover have "walfile x = None" using more_fields(1) [OF x(2)] by simp
          ultimately show "Q () (x\<lparr>m_files := Suc (m_files x)\<rparr>)" using assms(5) sc by simp
        next
          fix er x assume x: "\<not> is_abort er" "store_inv wal ?B N x" "world.more x = world.more ?v"
          have "sc_same s x"
            using sc_same_more [OF mv] sc_same_more [OF x(3)] sc_same_trans sc_same_upd(1) sc_same_refl by metis
          moreover have "idle x" using more_fields(1) [OF x(3)] by (simp add: idle_def)
          moreover have "store_inv wal A N x" using store_inv_mono [OF x(2)] by blast
          ultimately show "R er x" using assms(6) x(1) by blast
        qed
      next
        fix er v assume v: "\<not> is_abort er" "env_le u v"
        have "store_inv wal A N v" using store_inv_env [OF v(2) invA] .
        moreover have "idle v"
          using env_leD(4,5,6) [OF v(2)] g(4,5,6) by (intro idl) auto
        moreover have "sc_same s v" using env_leD(4) [OF v(2)] mu by (intro sc_same_more) simp
        ultimately show "R er v" using assms(6) v(1) by blast
      qed
    next
      fix er u assume u: "\<not> is_abort er" "store_inv wal A N u" "world.more u = world.more t"
        "\<forall>f < w_next t. w_fd u f = w_fd t f"
      have "idle u" using u(3,4) by (intro idl) auto
      moreover have "sc_same s u" using u(3) m by (intro sc_same_more) simp
      ultimately show "R er u" using assms(6) u(1,2) by blast
    qed
  next
    fix er t assume t: "\<not> is_abort er" "env_le (close_fd f s) t"
    have "store_inv wal A N t" using store_inv_env [OF t(2) store_inv_close [OF assms(1)]] .
    moreover have "idle t" by (rule closed_idle [OF t(2) o(3,1)]) simp_all
    moreover have "sc_same s t" using env_leD(4) [OF t(2)] by (intro sc_same_more) simp
    ultimately show "R er t" using assms(6) t(1) by blast
  qed
  then show ?thesis by (simp add: closeAndRename_def o(1) Let_def fin)
qed

lemma sc_same_flush: "sc_same s t \<Longrightarrow> sc_same (s\<lparr>lastFlushPosition := l\<rparr>) (t\<lparr>lastFlushPosition := l\<rparr>)"
  by (simp add: sc_same_def)

text \<open>\<open>CloseWalFile\<close>: at the end of a segment it is archived, in the middle its bytes are stored;
  both move the flush position to the block position.\<close>

lemma wp_CloseWalFile_end:
  assumes "store_inv wal A N s" and "open_at wal s q (seg_sz s) i f" and "seg_ok q (walSegSz s)"
    and "q \<notin> N"
    and "\<And>t. store_inv wal (A \<union> below_off (seg_sz s) q (seg_sz s)) (insert q N) t \<Longrightarrow>
      walfile t = None \<Longrightarrow> sc_same (s\<lparr>lastFlushPosition := blockPos s\<rparr>) t \<Longrightarrow> Q () t"
    and "\<And>e t. \<not> is_abort e \<Longrightarrow> store_inv wal A N t \<Longrightarrow> idle t \<Longrightarrow> sc_same s t \<Longrightarrow> R e t"
  shows "wp CloseWalFile Q R s"
proof -
  obtain w where o: "walfile s = Some \<lparr>currpos = w, pathname = part_path s q, fd = Some f\<rparr>"
    "unat w = seg_sz s" using assms(2) unfolding open_at_def by blast
  have sfx: "partialSuffix s = PartialSuffix" using assms(1) by (simp add: store_inv_def cfg_ok_def)
  have w: "w = walSegSz s" using o(2) by (simp add: word_unat_eq_iff)
  have "wp closeAndRename (\<lambda>_ t. Q () (t\<lparr>lastFlushPosition := blockPos s\<rparr>)) (\<lambda>e. R (wrap_err ''could not close file'' e)) s"
    by (rule wp_closeAndRename [OF assms(1-4)]) (auto intro!: assms(5,6) sc_same_flush)
  then show ?thesis
    by (simp add: CloseWalFile_def o(1) w sfx part_fin updateLastFlushPosition_def)
qed

lemma wp_CloseWalFile_mid:
  assumes "store_inv wal A N s" and "open_at wal s q c i f" and "seg_ok q (walSegSz s)"
    and "\<And>x. x \<in> A \<Longrightarrow> x div seg_sz s = q \<Longrightarrow> x mod seg_sz s < c" and "c < seg_sz s"
    and "\<And>t. store_inv wal (A \<union> below_off (seg_sz s) q c) N t \<Longrightarrow>
      walfile t = None \<Longrightarrow> sc_same (s\<lparr>lastFlushPosition := blockPos s\<rparr>) t \<Longrightarrow> Q () t"
    and "\<And>e t. \<not> is_abort e \<Longrightarrow> store_inv wal A N t \<Longrightarrow> idle t \<Longrightarrow> sc_same s t \<Longrightarrow> R e t"
  shows "wp CloseWalFile Q R s"
proof -
  obtain w where o: "walfile s = Some \<lparr>currpos = w, pathname = part_path s q, fd = Some f\<rparr>"
    "unat w = c" using assms(2) unfolding open_at_def by blast
  have sfx: "partialSuffix s = PartialSuffix" using assms(1) by (simp add: store_inv_def cfg_ok_def)
  have w: "w \<noteq> walSegSz s" using o(2) assms(5) by auto
  have "wp closeNoRename (\<lambda>_ t. Q () (t\<lparr>lastFlushPosition := blockPos s\<rparr>)) (\<lambda>e. R (wrap_err ''could not close file'' e)) s"
    by (rule wp_closeNoRename [OF assms(1-4)]) (auto intro!: assms(6,7) sc_same_flush)
  then show ?thesis
    using w by (simp add: CloseWalFile_def o(1) sfx part_fin updateLastFlushPosition_def)
qed

lemma wp_CloseWalFileIfPresentNoRename:
  assumes "store_inv wal A N s"
    and "idle s \<or> (\<exists>q c i f. open_at wal s q c i f \<and> seg_ok q (walSegSz s) \<and>
      (\<forall>x. x \<in> A \<longrightarrow> x div seg_sz s = q \<longrightarrow> x mod seg_sz s < c))"
    and "\<And>t. store_inv wal A N t \<Longrightarrow> idle t \<Longrightarrow> sc_same s t \<Longrightarrow> Q () t"
  shows "wp (CloseWalFileIfPresentNoRename m) Q R s"
proof (cases "walfile s")
  case None
  then show ?thesis using assms by (simp add: CloseWalFileIfPresentNoRename_def idle_def)
next
  case (Some w)
  let ?R = "\<lambda>e t. if is_abort e then R e t else Q () t"
  from assms(2) have "wp closeNoRename (\<lambda>_. Q ()) ?R s"
  proof (elim disjE exE conjE)
    assume i: "idle s"
    show ?thesis
    proof (cases "fd w")
      case None
      then show ?thesis using Some assms(1,3) i by (simp add: closeNoRename_def)
    next
      case f: (Some f)
      then have "w_fd s f = None" using i Some by (simp add: idle_def)
      then show ?thesis using Some f assms(1,3) i by (simp add: closeNoRename_def f_Close_def)
    qed
  next
    fix q c i f
    assume o: "open_at wal s q c i f" "seg_ok q (walSegSz s)"
      "\<forall>x. x \<in> A \<longrightarrow> x div seg_sz s = q \<longrightarrow> x mod seg_sz s < c"
    show ?thesis
    proof (rule wp_closeNoRename [OF assms(1) o(1,2)])
      fix t assume t: "store_inv wal (A \<union> below_off (seg_sz s) q c) N t" "walfile t = None" "sc_same s t"
      have "store_inv wal A N t" using store_inv_mono [OF t(1)] by blast
      with t show "Q () t" by (intro assms(3)) (simp_all add: idle_def)
    qed (use o(3) assms(3) in auto)
  qed
  then show ?thesis using Some by (simp add: CloseWalFileIfPresentNoRename_def)
qed

subsection \<open>Writing and opening\<close>

lemma length_write_at: "off + length xs \<le> length d \<Longrightarrow> length (write_at d off xs) = length d"
  by (simp add: write_at_def)

lemma nth_write_at_below: "k < off \<Longrightarrow> off \<le> length d \<Longrightarrow> write_at d off xs ! k = d ! k"
  by (simp add: write_at_def nth_append)

lemma nth_write_at_mid:
  assumes "off \<le> k" "k < off + length xs" "off \<le> length d"
  shows "write_at d off xs ! k = xs ! (k - off)"
proof -
  have "k - off < length xs" using assms(1,2) by arith
  then show ?thesis using assms by (simp add: write_at_def nth_append)
qed

text \<open>Writing at the offset of the open segment.\<close>

lemma write_open:
  assumes "open_at wal s q c i f" and "c + length xs \<le> seg_sz s"
    and "\<And>k. k < length xs \<Longrightarrow> xs ! k = wal (q * seg_sz s + c + k)"
  shows "length (write_at (i_data (w_ino s i)) c xs) = seg_sz s \<and>
    (\<forall>k. k < c + length xs \<longrightarrow> write_at (i_data (w_ino s i)) c xs ! k = wal (q * seg_sz s + k))"
proof -
  from assms(1) have d: "c \<le> seg_sz s" "length (i_data (w_ino s i)) = seg_sz s"
    "\<And>k. k < c \<Longrightarrow> i_data (w_ino s i) ! k = wal (q * seg_sz s + k)"
    unfolding open_at_def by blast+
  have "write_at (i_data (w_ino s i)) c xs ! k = wal (q * seg_sz s + k)" if "k < c + length xs" for k
  proof (cases "k < c")
    case True
    with d show ?thesis by (simp add: nth_write_at_below)
  next
    case False
    with that d assms(3) [of "k - c"] show ?thesis by (simp add: nth_write_at_mid add.assoc)
  qed
  with assms(2) d(2) show ?thesis by (simp add: length_write_at)
qed

lemma put_inv:
  assumes "store_inv wal A N s" and "lookup s (part_path s q) = Some i" and "seg_ok q (walSegSz s)"
  shows "store_inv wal A N (put_data i d s)"
proof -
  have inv: "cfg_ok s" "dir_ok s" "all_stored wal A s" "all_archived wal N s"
    using assms(1) by (simp_all add: store_inv_def)
  have "lookup s (fin_path s r) \<noteq> Some i" if "r \<in> N" for r
  proof -
    have "seg_ok r (walSegSz s)" using inv(4) that by (simp add: all_archived_def)
    then show ?thesis using path_inj(3) [OF _ assms(3)] assms(2) inv(2) unfolding dir_ok_def by metis
  qed
  note this [rule_format]
  then have "all_archived wal N (put_data i d s)" by (intro put_data_archived [OF inv(4)]) blast
  moreover have "cfg_ok (put_data i d s)" using inv(1) cfg_cong [OF more_simps(1)] by blast
  ultimately show ?thesis using inv assms(1) by (simp add: store_inv_def)
qed

lemma wp_WriteAtWalFile:
  assumes "store_inv wal A N s" and "open_at wal s q (unat off) i f" and "seg_ok q (walSegSz s)"
    and "unat off + length xs \<le> seg_sz s" and "unat off < 2 ^ 63"
    and "\<And>k. k < length xs \<Longrightarrow> xs ! k = wal (q * seg_sz s + unat off + k)"
    and "\<And>t. store_inv wal A N t \<Longrightarrow> open_at wal t q (unat off + length xs) i f \<Longrightarrow> sc_same s t \<Longrightarrow>
      m_bytes t = m_bytes s \<Longrightarrow> Q (length xs) t"
    and "\<And>e t. \<not> is_abort e \<Longrightarrow> store_inv wal A N t \<Longrightarrow> open_at wal t q (unat off) i f \<Longrightarrow> sc_same s t \<Longrightarrow> R e t"
  shows "wp (WriteAtWalFile xs off) Q R s"
proof -
  obtain w where o: "walfile s = Some \<lparr>currpos = w, pathname = part_path s q, fd = Some f\<rparr>"
    "unat w = unat off" "w_fd s f = Some i" "lookup s (part_path s q) = Some i" "f < w_next s"
    using assms(2) unfolding open_at_def by blast
  let ?d = "i_data (w_ino s i)"
  have noff: "Uint64ToInt64 off = Inr off"
    using assms(5) by (auto simp: Uint64ToInt64_def word_less_nat_alt)
  have "wp (f_WriteAt f xs (unat off)) (\<lambda>n. wp (thenE (whenE (0 < n) (modE (\<lambda>s. s\<lparr>walfile :=
              map_option (\<lambda>wf. wf\<lparr>currpos := currpos wf + word_of_nat n\<rparr>) (walfile s)\<rparr>))) (retE n)) Q R) R s"
  proof (rule wp_f_WriteAt [OF o(3)])
    fix t assume t: "env_le (put_data i (write_at ?d (unat off) xs) s) t"
    note e = env_leD [OF t]
    have m: "world.more t = world.more s" using e(4) by simp
    note wr = write_open [OF assms(2,4,6)]
    have wf: "walfile t = walfile s" "m_bytes t = m_bytes s" using more_fields(1,18) [OF m] by simp_all
    have inv: "store_inv wal A N t" using store_inv_env [OF t put_inv [OF assms(1) o(4) assms(3)]] .
    let ?w = "w + word_of_nat (length xs)"
    have uw: "unat ?w = unat off + length xs"
    proof -
      have "unat off + length xs < 2 ^ 64"
        using assms(4) unsigned_less [of "walSegSz s", where ?'a = nat] by simp
      then have "unat (word_of_nat (unat off + length xs) :: u64) = unat off + length xs"
        by (simp only: unat_of_nat) (simp add: take_bit_nat_eq_self)
      moreover have "w = word_of_nat (unat off)" using o(2) by (simp add: word_unat_eq_iff)
      ultimately show ?thesis by (simp only: of_nat_add)
    qed
    let ?t = "t\<lparr>walfile := Some \<lparr>currpos = ?w, pathname = part_path s q, fd = Some f\<rparr>\<rparr>"
    have "open_at wal ?t q (unat off + length xs) i f"
      unfolding open_at_def
      using o(3-5) e(1,3,5,6) uw wr assms(4) path_cong [OF m] more_fields(5) [OF m] by auto
    moreover have "sc_same s ?t" using sc_same_more [OF m] by simp
    ultimately have q: "Q (length xs) ?t" using inv wf by (intro assms(7)) simp_all
    show "wp (thenE (whenE (0 < length xs) (modE (\<lambda>s. s\<lparr>walfile :=
              map_option (\<lambda>wf. wf\<lparr>currpos := currpos wf + word_of_nat (length xs)\<rparr>) (walfile s)\<rparr>)))
              (retE (length xs))) Q R t"
    proof (cases "xs = []")
      case True
      have "?t = t"
        using True wf o(1) by (cases t rule: stream.cases_scheme) simp
      with q have "Q (length xs) t" by (simp only:)
      with True show ?thesis by simp
    next
      case False
      then show ?thesis using q wf o(1) by simp
    qed
  next
    fix k er t
    assume t: "\<not> is_abort er" "env_le (put_data i (write_at ?d (unat off) (take k xs)) s) t"
    note e = env_leD [OF t(2)]
    have m: "world.more t = world.more s" using e(4) by simp
    have wr: "length (write_at ?d (unat off) (take k xs)) = seg_sz s \<and>
       (\<forall>j. j < unat off \<longrightarrow> write_at ?d (unat off) (take k xs) ! j = wal (q * seg_sz s + j))"
      using write_open [OF assms(2), of "take k xs"] assms(4,6) by auto
    have inv: "store_inv wal A N t" using store_inv_env [OF t(2) put_inv [OF assms(1) o(4) assms(3)]] .
    have "open_at wal t q (unat off) i f"
      unfolding open_at_def
      using o e(1,3,5,6) wr assms(4) path_cong [OF m] more_fields(1,5) [OF m] by auto
    then show "R er t" using assms(8) t(1) inv sc_same_more [OF m] by blast
  qed
  then show ?thesis by (simp add: WriteAtWalFile_def noff the_fd_def o(1))
qed

lemma add_file_inv:
  assumes "store_inv wal A N s" and "lookup s p = None"
  shows "store_inv wal A N (add_file p (w_next s) s)"
proof -
  have inv: "cfg_ok s" "dir_ok s" "all_stored wal A s" "all_archived wal N s"
    using assms(1) by (simp_all add: store_inv_def)
  have "cfg_ok (add_file p (w_next s) s)" using inv(1) cfg_cong [OF add_file_simps(4)] by blast
  with inv add_file_keeps [OF assms(2) inv(2)] dir_ok_add_file [OF inv(2)] assms(1)
  show ?thesis by (simp add: store_inv_def)
qed

lemma rm_inv:
  assumes "store_inv wal A N s" and "seg_ok q (walSegSz s)"
    and "\<And>x. x \<in> A \<Longrightarrow> x div seg_sz s \<noteq> q"
  shows "store_inv wal A N (rm (part_path s q) s)"
proof -
  have inv: "cfg_ok s" "dir_ok s" "all_stored wal A s" "all_archived wal N s"
    using assms(1) by (simp_all add: store_inv_def)
  have "cfg_ok (rm (part_path s q) s)" using inv(1) cfg_cong [OF rm_simps(4)] by blast
  with inv rm_keeps [OF assms(2)] dir_ok_rm [OF inv(2)] assms(1,3) store_inv_seg [OF assms(1)]
  show ?thesis by (simp add: store_inv_def)
qed

lemma length_truncate_to [simp]: "length (truncate_to n d) = n"
  by (simp add: truncate_to_def)

text \<open>A file of the segment that is open and has no byte the stream relies on.\<close>

definition raw_open :: "'a stream_scheme \<Rightarrow> nat \<Rightarrow> nat \<Rightarrow> nat \<Rightarrow> bool" where
  "raw_open s q i f = (w_fd s f = Some i \<and> f < w_next s \<and> lookup s (part_path s q) = Some i)"

lemma raw_open_env:
  assumes "env_le s t" and "raw_open s q i f"
  shows "raw_open t q i f"
  using assms(2) env_leD(1,5) [OF assms(1)] env_leD(6) [OF assms(1), of f] path_cong(2) [OF env_leD(4) [OF assms(1)]]
  by (simp add: raw_open_def)

lemma close_le: "env_le s t \<Longrightarrow> store_inv wal A N s \<Longrightarrow> env_le (close_fd f t) u \<Longrightarrow>
    store_inv wal A N u \<and> world.more u = world.more s"
  using store_inv_env store_inv_close env_leD(4) close_fd_simps(5) by metis

lemma wp_Create_seg:
  assumes "store_inv wal A N s" and "seg_ok q (walSegSz s)"
    and "\<And>i f t. store_inv wal A N t \<Longrightarrow> world.more t = world.more s \<Longrightarrow> raw_open t q i f \<Longrightarrow> Q f t"
    and "\<And>e t. \<not> is_abort e \<Longrightarrow> store_inv wal A N t \<Longrightarrow> world.more t = world.more s \<Longrightarrow> R e t"
  shows "wp (os_Create (part_path s q)) Q R s"
proof (rule wp_os_Create)
  fix i f t
  assume c: "lookup s (part_path s q) = Some i" "env_le (put_data i [] s) t" "w_fd t f = Some i" "f < w_next t"
  note e = env_leD [OF c(2)]
  have m: "world.more t = world.more s" using e(4) by simp
  show "Q f t"
    using store_inv_env [OF c(2) put_inv [OF assms(1) c(1) assms(2)]] m c(1,3,4) e(1) path_cong(2) [OF m]
    by (intro assms(3) [of t i]) (simp_all add: raw_open_def)
next
  fix f t
  assume c: "lookup s (part_path s q) = None" "env_le (add_file (part_path s q) (w_next s) s) t"
    "w_fd t f = Some (w_next s)" "f < w_next t"
  note e = env_leD [OF c(2)]
  have m: "world.more t = world.more s" using e(4) by simp
  show "Q f t"
    using store_inv_env [OF c(2) add_file_inv [OF assms(1) c(1)]] m c(3,4) e(1) path_cong(2) [OF m]
    by (intro assms(3) [of t "w_next s"]) (simp_all add: raw_open_def)
next
  fix er t assume t: "\<not> is_abort er" "env_le s t"
  show "R er t" using assms(4) t(1) store_inv_env [OF t(2) assms(1)] env_leD(4) [OF t(2)] by blast
qed

lemma wp_createFileAndTruncate:
  assumes "store_inv wal A N s" and "seg_ok q (walSegSz s)"
    and "\<And>i f t. store_inv wal A N t \<Longrightarrow> world.more t = world.more s \<Longrightarrow> raw_open t q i f \<Longrightarrow>
      length (i_data (w_ino t i)) = seg_sz s \<Longrightarrow> Q f t"
    and "\<And>e t. \<not> is_abort e \<Longrightarrow> store_inv wal A N t \<Longrightarrow> world.more t = world.more s \<Longrightarrow> R e t"
  shows "wp (createFileAndTruncate (part_path s q) (walSegSz s)) Q R s"
proof -
  have "unat (walSegSz s) \<le> 2 ^ 32" using assms(2) by (simp add: seg_ok_def word_le_nat_alt)
  then have n: "Uint64ToInt64 (walSegSz s) = Inr (walSegSz s)"
    by (auto simp: Uint64ToInt64_def word_less_nat_alt)
  show ?thesis
    unfolding createFileAndTruncate_def wp_bindE wp_wrapE n sum.case
  proof (rule wp_Create_seg [OF assms(1,2)])
    fix i f t
    assume t: "store_inv wal A N t" "world.more t = world.more s" "raw_open t q i f"
    from t(3) have fi: "w_fd t f = Some i" "lookup t (part_path t q) = Some i" by (simp_all add: raw_open_def)
    have seg: "seg_ok q (walSegSz t)" using assms(2) more_fields(5) [OF t(2)] by simp
    show "wp (tryE (f_Truncate f (seg_sz s))) (\<lambda>x. wp (case x of
          Inl e \<Rightarrow> thenE (tryE (f_Close f)) (throwE (wrap_err ''could not preallocate file'' e))
        | Inr _ \<Rightarrow> retE f) Q R) R t"
      unfolding wp_tryE
    proof (rule wp_f_Truncate [OF fi(1)])
      fix u assume u: "env_le (put_data i (truncate_to (seg_sz s) (i_data (w_ino t i))) t) u"
      note e = env_leD [OF u]
      have m: "world.more u = world.more t" using e(4) by simp
      have "raw_open u q i f"
        using t(3) e(1,5) e(6) [of f] path_cong(2) [OF m] by (simp add: raw_open_def)
      then have "Q f u"
        using assms(3) store_inv_env [OF u put_inv [OF t(1) fi(2) seg]] m t(2) e(3) by simp
      then show "wp (case Inr () of Inl e \<Rightarrow> thenE (tryE (f_Close f)) (throwE (wrap_err ''could not preallocate file'' e))
        | Inr _ \<Rightarrow> retE f) Q R u" by simp
    next
      fix er u assume u: "\<not> is_abort er" "env_le t u"
      have fu: "w_fd u f = Some i" using raw_open_env [OF u(2) t(3)] by (simp add: raw_open_def)
      have "R (wrap_err ''could not preallocate file'' er) v" if "env_le (close_fd f u) v" for v
        using close_le [OF u(2) t(1) that] u(1) t(2) by (intro assms(4)) simp_all
      then have "wp (f_Close f) (\<lambda>_. R (wrap_err ''could not preallocate file'' er))
          (\<lambda>e. if is_abort e then R e else R (wrap_err ''could not preallocate file'' er)) u"
        by (intro wp_f_Close [OF fu]) auto
      then have "wp (f_Close f) (\<lambda>_. R (wrap_err ''could not preallocate file'' er))
          (\<lambda>e t. if is_abort e then R e t else R (wrap_err ''could not preallocate file'' er) t) u"
        by (rule wp_conseq) (auto split: if_splits)
      then show "if is_abort er then R er u
        else wp (case Inl er of Inl e \<Rightarrow> thenE (tryE (f_Close f)) (throwE (wrap_err ''could not preallocate file'' e))
            | Inr _ \<Rightarrow> retE f) Q R u"
        using u(1) by simp
    qed
  next
    fix er t assume "\<not> is_abort er" "store_inv wal A N t" "world.more t = world.more s"
    then show "R (wrap_err ''could not create file'' er) t" by (intro assms(4)) simp_all
  qed
qed

lemma wp_close_any:
  assumes "store_inv wal A N s" and "w_fd s f = Some i"
    and "\<And>t. store_inv wal A N t \<Longrightarrow> world.more t = world.more s \<Longrightarrow> lookup t = lookup s \<Longrightarrow> P t"
  shows "wp (f_Close f) (\<lambda>_. P) (\<lambda>e t. \<not> is_abort e \<and> P t) s"
proof -
  have "P t" if "env_le (close_fd f s) t" for t
    using assms(3) store_inv_env [OF that store_inv_close [OF assms(1)]] env_leD(1,4) [OF that] by simp
  then show ?thesis by (intro wp_f_Close [OF assms(2)]) auto
qed

lemma wp_openFileAndFsync:
  assumes "store_inv wal A N s" and "seg_ok q (walSegSz s)" and "\<And>x. x \<in> A \<Longrightarrow> x div seg_sz s \<noteq> q"
    and "\<And>i f t. store_inv wal A N t \<Longrightarrow> world.more t = world.more s \<Longrightarrow> raw_open t q i f \<Longrightarrow>
      lookup s (part_path s q) = Some i \<Longrightarrow> i_data (w_ino t i) = i_data (w_ino s i) \<Longrightarrow> Q f t"
    and "\<And>e t. \<not> is_abort e \<Longrightarrow> store_inv wal A N t \<Longrightarrow> world.more t = world.more s \<Longrightarrow> R e t"
  shows "wp (openFileAndFsync (part_path s q)) Q R s"
  unfolding openFileAndFsync_def wp_bindE
proof (rule wp_os_OpenFile)
  fix i f t
  assume t: "lookup s (part_path s q) = Some i" "env_le s t" "w_fd t f = Some i" "f < w_next t"
  note e = env_leD [OF t(2)]
  have inv: "store_inv wal A N t" by (rule store_inv_env [OF t(2) assms(1)])
  have seg: "seg_ok q (walSegSz t)" using assms(2) more_fields(5) [OF e(4)] by simp
  have lt: "lookup t (part_path t q) = Some i" using t(1) e(1) path_cong [OF e(4)] by simp
  have "covers wal (A \<union> below_off (seg_sz t) q 0) t q (i_data (w_ino t i))"
    using assms(3) more_fields(5) [OF e(4)] by (auto simp: covers_def below_off_def)
  note sync_named [OF inv lt _ seg this]
  then have sy: "store_inv wal A N (sync_ino i t)" by (auto intro: store_inv_mono)
  show "wp (tryE (Fsync f)) (\<lambda>x. wp (case x of
        Inl errFsync \<Rightarrow> thenE (tryE (f_Close f)) (thenE (tryE (os_Remove (part_path s q))) (throwE errFsync))
      | Inr _ \<Rightarrow> retE f) Q R) R t"
    unfolding wp_tryE
  proof (rule wp_Fsync [OF t(3)])
    fix u assume u: "env_le (sync_ino i t) u"
    note g = env_leD [OF u]
    have m: "world.more u = world.more s" using g(4) e(4) by simp
    have "raw_open u q i f"
      using t(3,4) lt g(1,5) g(6) [of f] path_cong(2) [OF m] path_cong(2) [OF e(4)] by (simp add: raw_open_def)
    then have "Q f u"
      using store_inv_env [OF u sy] m t(1) g(3) e(3) by (intro assms(4) [of u i]) simp_all
    then show "wp (case Inr () of
        Inl errFsync \<Rightarrow> thenE (tryE (f_Close f)) (thenE (tryE (os_Remove (part_path s q))) (throwE errFsync))
      | Inr _ \<Rightarrow> retE f) Q R u" by simp
  next
    fix er u assume u: "\<not> is_abort er" "env_le t u"
    have iu: "store_inv wal A N u" by (rule store_inv_env [OF u(2) inv])
    have fu: "w_fd u f = Some i" using t(3,4) env_leD(6) [OF u(2)] by simp
    have mu: "world.more u = world.more s" using env_leD(4) [OF u(2)] e(4) by simp
    let ?R = "\<lambda>e v. if is_abort e then R e v else R er v"
    have rm: "wp (os_Remove (part_path s q)) (\<lambda>_. R er) ?R v"
      if v: "store_inv wal A N v" "world.more v = world.more u" for v
    proof (rule wp_os_Remove)
      fix j x assume x: "env_le (rm (part_path s q) v) x"
      have mv: "world.more v = world.more s" using v(2) mu by simp
      have "store_inv wal A N (rm (part_path v q) v)"
        using assms(2,3) more_fields(5) [OF mv] by (intro rm_inv [OF v(1)]) simp_all
      then have "store_inv wal A N x" using store_inv_env [OF x] path_cong [OF mv] by simp
      then show "R er x" using env_leD(4) [OF x] mv u(1) by (intro assms(5)) simp_all
    next
      fix e x assume x: "\<not> is_abort e" "env_le v x"
      have "R er x"
        using store_inv_env [OF x(2) v(1)] env_leD(4) [OF x(2)] v(2) mu u(1) by (intro assms(5)) simp_all
      with x(1) show "?R e x" by simp
    qed
    have "wp (f_Close f) (\<lambda>_. wp (os_Remove (part_path s q)) (\<lambda>_. R er) ?R)
       (\<lambda>e t. \<not> is_abort e \<and> wp (os_Remove (part_path s q)) (\<lambda>_. R er) ?R t) u"
      using rm by (intro wp_close_any [OF iu fu]) auto
    then have "wp (f_Close f) (\<lambda>_. wp (os_Remove (part_path s q)) (\<lambda>_. R er) ?R)
       (\<lambda>e t. if is_abort e then R e t else wp (os_Remove (part_path s q)) (\<lambda>_. R er) ?R t) u"
      by (rule wp_conseq) auto
    then show "if is_abort er then R er u
      else wp (case Inl er of
        Inl errFsync \<Rightarrow> thenE (tryE (f_Close f)) (thenE (tryE (os_Remove (part_path s q))) (throwE errFsync))
      | Inr _ \<Rightarrow> retE f) Q R u"
      using u(1) by simp
  qed
next
  fix er t assume t: "\<not> is_abort er" "env_le s t"
  show "R er t" using assms(5) t(1) store_inv_env [OF t(2) assms(1)] env_leD(4) [OF t(2)] by blast
qed

lemma raw_open_at:
  assumes "raw_open s q i f" and "length (i_data (w_ino s i)) = seg_sz s"
  shows "open_at wal (s\<lparr>walfile := Some \<lparr>currpos = 0, pathname = part_path s q, fd = Some f\<rparr>\<rparr>) q 0 i f"
  using assms by (simp add: open_at_def raw_open_def)

lemma wp_initWalFile:
  assumes "store_inv wal A N s" and "seg_ok q (walSegSz s)" and "walfile s = None"
    and "\<And>i f t. store_inv wal A N t \<Longrightarrow> open_at wal t q 0 i f \<Longrightarrow> sc_same s t \<Longrightarrow> m_bytes t = m_bytes s \<Longrightarrow> Q () t"
    and "\<And>e t. \<not> is_abort e \<Longrightarrow> store_inv wal A N t \<Longrightarrow> idle t \<Longrightarrow> sc_same s t \<Longrightarrow> R e t"
  shows "wp (initWalFile (part_path s q)) Q R s"
  unfolding initWalFile_def wp_bindE wp_getE wp_wrapE set_walfile_def wp_modE
proof (rule wp_createFileAndTruncate [OF assms(1,2)])
  fix i f t
  assume t: "store_inv wal A N t" "world.more t = world.more s" "raw_open t q i f"
    "length (i_data (w_ino t i)) = seg_sz s"
  let ?t = "t\<lparr>walfile := Some \<lparr>currpos = 0, pathname = part_path s q, fd = Some f\<rparr>\<rparr>"
  have "open_at wal ?t q 0 i f"
    using raw_open_at [OF t(3), of wal] t(4) more_fields(5) [OF t(2)] path_cong(2) [OF t(2)] by simp
  then show "Q () ?t"
    using t(1) sc_same_more [OF t(2)] more_fields(18) [OF t(2)] by (intro assms(4)) simp_all
next
  fix e t assume t: "\<not> is_abort e" "store_inv wal A N t" "world.more t = world.more s"
  have "idle t" using more_fields(1) [OF t(3)] assms(3) by (simp add: idle_def)
  then show "R (wrap_err ''could not create WAL file'' e) t"
    using assms(5) t sc_same_more [OF t(3)] by simp
qed

text \<open>\<open>OpenWalFile\<close> at a segment start: a fresh or a resumed file of full size, opened at offset 0.\<close>

lemma wp_OpenWalFile:
  assumes "store_inv wal A N s" and "walfile s = None" and "q = unat p div seg_sz s"
    and "\<And>x. x \<in> A \<Longrightarrow> x div seg_sz s \<noteq> q"
    and "\<And>i f t. store_inv wal A N t \<Longrightarrow> open_at wal t q 0 i f \<Longrightarrow> sc_same s t \<Longrightarrow> m_bytes t = m_bytes s \<Longrightarrow> Q () t"
    and "\<And>e t. store_inv wal A N t \<Longrightarrow> idle t \<Longrightarrow> sc_same s t \<Longrightarrow> R e t"
  shows "wp (OpenWalFile p) Q R s"
proof -
  from assms(1) have cfg: "cfg_ok s" by (simp add: store_inv_def)
  then have w: "IsPowerOf2 (walSegSz s)" "walSegSz s \<le> 0x100000000" by (simp_all add: cfg_ok_def)
  have seg: "seg_ok q (walSegSz s)" using seg_of_pos_ok [OF w, of p] assms(3) by simp
  let ?nm = "wal_name (timeline s) q (walSegSz s)"
  have path: "filepath_Join [receiveDir s, ?nm @ partialSuffix s] = part_path s q"
    using cfg plain_wal_name(2) [OF seg] by (simp add: cfg_ok_def filepath_Join_child part_path_def)
  have nm: "XLogFileName (timeline s) (p div walSegSz s) (walSegSz s) = Inr ?nm"
    using XLogFileName_ok [OF w] assms(3) by (simp add: unat_div)
  have init: "wp (initWalFile (part_path s q)) Q R t" if "env_le s t" for t
  proof -
    have m: "world.more t = world.more s" by (rule env_leD(4) [OF that])
    have "wp (initWalFile (part_path t q)) Q R t"
    proof (rule wp_initWalFile [OF store_inv_env [OF that assms(1)]])
      show "seg_ok q (walSegSz t)" "walfile t = None" using seg assms(2) more_fields(1,5) [OF m] by simp_all
    next
      fix i f u assume "store_inv wal A N u" "open_at wal u q 0 i f" "sc_same t u" "m_bytes u = m_bytes t"
      then show "Q () u"
        using assms(5) sc_same_trans [OF sc_same_more [OF m]] more_fields(18) [OF m] by simp
    next
      fix e u assume "store_inv wal A N u" "idle u" "sc_same t u"
      then show "R e u" using assms(6) sc_same_trans [OF sc_same_more [OF m]] by simp
    qed
    then show ?thesis using path_cong [OF m] by simp
  qed
  have err: "R e t" if "env_le s t" for e t
    using assms(6) store_inv_env [OF that assms(1)] idle_env [OF that assms(2)] sc_same_more [OF env_leD(4) [OF that]]
    by blast
  have opn: "wp (openFileAndFsync (part_path s q)) (\<lambda>f. wp (set_walfile (part_path s q) f) Q R)
      (\<lambda>e u. (is_abort e \<longrightarrow> R e u) \<and> (\<not> is_abort e \<longrightarrow> R (EExit 1) u)) t"
    if t: "lookup s (part_path s q) = Some i" "env_le s t" and sz: "length (i_data (w_ino s i)) = seg_sz s" for i t
  proof -
    note e = env_leD [OF t(2)]
    have "wp (openFileAndFsync (part_path t q)) (\<lambda>f. wp (set_walfile (part_path s q) f) Q R)
      (\<lambda>e u. (is_abort e \<longrightarrow> R e u) \<and> (\<not> is_abort e \<longrightarrow> R (EExit 1) u)) t"
    proof (rule wp_openFileAndFsync [OF store_inv_env [OF t(2) assms(1)]])
      show "seg_ok q (walSegSz t)" using seg more_fields(5) [OF e(4)] by simp
      show "x div seg_sz t \<noteq> q" if "x \<in> A" for x using assms(4) that more_fields(5) [OF e(4)] by simp
    next
      fix j f u
      assume u: "store_inv wal A N u" "world.more u = world.more t" "raw_open u q j f"
        "lookup t (part_path t q) = Some j" "i_data (w_ino u j) = i_data (w_ino t j)"
      have m: "world.more u = world.more s" using u(2) e(4) by simp
      have "j = i" using u(4) t(1) e(1) path_cong [OF e(4)] by simp
      then have "length (i_data (w_ino u j)) = seg_sz u" using u(5) e(3) sz more_fields(5) [OF m] by simp
      from raw_open_at [OF u(3) this, of wal]
      show "wp (set_walfile (part_path s q) f) Q R u"
        using assms(5) u(1) sc_same_more [OF m] more_fields(18) [OF m] path_cong [OF m]
        by (simp add: set_walfile_def)
    next
      fix er u assume u: "\<not> is_abort er" "store_inv wal A N u" "world.more u = world.more t"
      have m: "world.more u = world.more s" using u(3) e(4) by simp
      have "idle u" using more_fields(1) [OF m] assms(2) by (simp add: idle_def)
      then show "(is_abort er \<longrightarrow> R er u) \<and> (\<not> is_abort er \<longrightarrow> R (EExit 1) u)" using assms(6) u(2) sc_same_more [OF m] by simp
    qed
    then show ?thesis using path_cong [OF e(4)] by simp
  qed
  have "wp (os_Stat (part_path s q)) (\<lambda>x. wp (openOrCreate (part_path s q) (Inr x)) Q R)
      (\<lambda>e t. (is_abort e \<longrightarrow> R e t) \<and>
         (\<not> is_abort e \<longrightarrow> wp (openOrCreate (part_path s q) (Inl e)) Q R t)) s"
  proof (rule wp_os_Stat)
    fix i t
    assume t: "lookup s (part_path s q) = Some i" "env_le s t" "length (i_data (w_ino s i)) < 2 ^ 63"
    let ?sz = "word_of_nat (length (i_data (w_ino s i))) :: u64"
    have "length (i_data (w_ino s i)) = seg_sz s" if "ToUint64 ?sz = walSegSz s"
    proof -
      have "unat ?sz = seg_sz s" using that ToUint64_of_nat [OF t(3)] by simp
      then show ?thesis using t(3) by (simp add: unat_of_nat take_bit_nat_eq_self)
    qed
    then show "wp (openOrCreate (part_path s q) (Inr (True, ?sz))) Q R t"
      using opn [OF t(1,2)] init [OF t(2)] err [OF t(2)] more_fields(5) [OF env_leD(4) [OF t(2)]]
      by (cases "ToUint64 ?sz = walSegSz s"; cases "?sz = 0")
        (simp_all del: One_nat_def if_split add: openOrCreate_def if_True if_False)
  qed (use init err in \<open>auto simp: openOrCreate_def\<close>)
  then show ?thesis
    by (simp add: OpenWalFile_def XLByteToSeg_ok [OF w(1)] nm Let_def path)
qed

end
