(* ===== verification/ReceiveSafe.thy ===== *)
theory ReceiveSafe
  imports ReceiveLog WalFileSpec
begin

section \<open>What the server is told is what is on disk\<close>

text \<open>
  The safety of the receiver.  The server sends the WAL of a timeline in order; whatever it sends
  in between, whatever fails and whenever the stream is cancelled, every flush position reported
  to the server is a position up to which the WAL is stored in synced files, and every segment
  that lies below it is archived under its final name.
\<close>

subsection \<open>The server\<close>

text \<open>The data messages among the events are consecutive pieces of \<open>wal\<close>, from position \<open>p\<close> on,
  up to the end of the copy.\<close>

fun server_ok :: "pgapi \<Rightarrow> (nat \<Rightarrow> char) \<Rightarrow> nat \<Rightarrow> event list \<Rightarrow> bool" where
  "server_ok api wal p [] = True"
| "server_ok api wal p (ev # rest) =
     (case ev of
        RMsg CopyDone \<Rightarrow> True
      | RMsg (CopyData (b # body)) \<Rightarrow>
          if b = CHR ''w'' then
            (case ParseXLogData api body of
               Inl e \<Rightarrow> True
             | Inr x \<Rightarrow> unat (xWALStart x) = p \<and> p + length (xWALData x) < 2 ^ 64 \<and>
                 xWALData x = map wal [p ..< p + length (xWALData x)] \<and>
                 server_ok api wal (p + length (xWALData x)) rest)
          else server_ok api wal p rest
      | _ \<Rightarrow> server_ok api wal p rest)"

subsection \<open>The invariants\<close>

definition segs_between :: "nat \<Rightarrow> nat \<Rightarrow> nat \<Rightarrow> nat set" where
  "segs_between sz p0 p = {q. p0 \<le> q * sz \<and> Suc q * sz \<le> p}"

text \<open>\<open>told\<close>: neither the flush position nor one sent since the entry is above \<open>m\<close> (or the flush
  position at entry).\<close>

definition told :: "nat \<Rightarrow> nat \<Rightarrow> nat \<Rightarrow> 'a stream_scheme \<Rightarrow> bool" where
  "told l0 k0 m s = (unat (lastFlushPosition s) \<le> max l0 m \<and>
     (\<forall>fb. SStatus fb \<in> set (drop k0 (c_sent s)) \<longrightarrow> unat (WALFlushPosition fb) \<le> max l0 m) \<and>
     k0 \<le> length (c_sent s))"

definition stream_inv :: "(nat \<Rightarrow> char) \<Rightarrow> nat \<Rightarrow> nat \<Rightarrow> nat \<Rightarrow> nat \<Rightarrow> 'a stream_scheme \<Rightarrow> bool" where
  "stream_inv wal l0 k0 p0 p s = (\<exists>m. p0 \<le> m \<and> m \<le> p \<and> p < 2 ^ 64 \<and> seg_sz s dvd p0 \<and>
     unat (blockPos s) = p \<and> store_inv wal {p0..<m} (segs_between (seg_sz s) p0 p) s \<and> told l0 k0 m s \<and>
     (walfile s = None \<and> seg_sz s dvd p \<or> (\<exists>i f. open_at wal s (p div seg_sz s) (p mod seg_sz s) i f)))"

definition closable :: "(nat \<Rightarrow> char) \<Rightarrow> nat set \<Rightarrow> 'a stream_scheme \<Rightarrow> bool" where
  "closable wal A s = (idle s \<or> (\<exists>q c i f. open_at wal s q c i f \<and> seg_ok q (walSegSz s) \<and>
      (\<forall>x. x \<in> A \<longrightarrow> x div seg_sz s = q \<longrightarrow> x mod seg_sz s < c)))"

definition safe :: "(nat \<Rightarrow> char) \<Rightarrow> nat \<Rightarrow> nat \<Rightarrow> nat \<Rightarrow> 'a stream_scheme \<Rightarrow> bool" where
  "safe wal l0 k0 p0 s = (\<exists>m. store_inv wal {p0..<m} (segs_between (seg_sz s) p0 m) s \<and>
     told l0 k0 m s \<and> closable wal {p0..<m} s)"

lemma open_at_upd [simp]:
  "open_at wal (s\<lparr>lastFlushPosition := l\<rparr>) = open_at wal s"
  "open_at wal (s\<lparr>blockPos := l\<rparr>) = open_at wal s"
  "open_at wal (s\<lparr>stopPos := l\<rparr>) = open_at wal s"
  "open_at wal (s\<lparr>lastStatus := z\<rparr>) = open_at wal s"
  "open_at wal (s\<lparr>c_inbox := e\<rparr>) = open_at wal s"
  "open_at wal (s\<lparr>c_cancelled := b\<rparr>) = open_at wal s"
  "open_at wal (s\<lparr>c_sent := m\<rparr>) = open_at wal s"
  "open_at wal (s\<lparr>m_bytes := n\<rparr>) = open_at wal s"
  "open_at wal (s\<lparr>w_tick := n\<rparr>) = open_at wal s"
  by (simp_all add: open_at_def part_path_def lookup_def fun_eq_iff)

lemma idle_upd [simp]:
  "idle (s\<lparr>lastFlushPosition := l\<rparr>) = idle s" "idle (s\<lparr>blockPos := l\<rparr>) = idle s"
  "idle (s\<lparr>stopPos := l\<rparr>) = idle s" "idle (s\<lparr>lastStatus := z\<rparr>) = idle s"
  "idle (s\<lparr>c_inbox := e\<rparr>) = idle s" "idle (s\<lparr>c_cancelled := b\<rparr>) = idle s"
  "idle (s\<lparr>c_sent := m\<rparr>) = idle s" "idle (s\<lparr>m_bytes := n\<rparr>) = idle s"
  "idle (s\<lparr>w_tick := n\<rparr>) = idle s"
  by (simp_all add: idle_def split: option.split)

lemma store_inv_tick [simp]: "store_inv wal A N (s\<lparr>w_tick := n\<rparr>) = store_inv wal A N s"
  by (simp add: store_inv_def cfg_ok_def dir_ok_def all_stored_def all_archived_def stored_def
      archived_def fin_path_def part_path_def)

lemma told_upd [simp]:
  "told l0 k0 m (s\<lparr>blockPos := l\<rparr>) = told l0 k0 m s" "told l0 k0 m (s\<lparr>stopPos := l\<rparr>) = told l0 k0 m s"
  "told l0 k0 m (s\<lparr>lastStatus := z\<rparr>) = told l0 k0 m s" "told l0 k0 m (s\<lparr>c_inbox := e\<rparr>) = told l0 k0 m s"
  "told l0 k0 m (s\<lparr>c_cancelled := b\<rparr>) = told l0 k0 m s" "told l0 k0 m (s\<lparr>m_bytes := n\<rparr>) = told l0 k0 m s"
  "told l0 k0 m (s\<lparr>w_tick := n\<rparr>) = told l0 k0 m s"
  by (simp_all add: told_def)

lemma told_mono: "told l0 k0 m s \<Longrightarrow> m \<le> m' \<Longrightarrow> told l0 k0 m' s"
  by (auto simp: told_def le_max_iff_disj)

lemma told_same: "sc_same s t \<Longrightarrow> told l0 k0 m t = told l0 k0 m s"
  by (simp add: told_def sc_same_def)

lemma stream_inv_upd [simp]:
  "stream_inv wal l0 k0 p0 p (s\<lparr>stopPos := l\<rparr>) = stream_inv wal l0 k0 p0 p s"
  "stream_inv wal l0 k0 p0 p (s\<lparr>lastStatus := z\<rparr>) = stream_inv wal l0 k0 p0 p s"
  "stream_inv wal l0 k0 p0 p (s\<lparr>c_inbox := e\<rparr>) = stream_inv wal l0 k0 p0 p s"
  "stream_inv wal l0 k0 p0 p (s\<lparr>c_cancelled := b\<rparr>) = stream_inv wal l0 k0 p0 p s"
  "stream_inv wal l0 k0 p0 p (s\<lparr>m_bytes := n\<rparr>) = stream_inv wal l0 k0 p0 p s"
  "stream_inv wal l0 k0 p0 p (s\<lparr>w_tick := n\<rparr>) = stream_inv wal l0 k0 p0 p s"
  by (simp_all add: stream_inv_def)

lemma safe_upd [simp]:
  "safe wal l0 k0 p0 (s\<lparr>blockPos := l\<rparr>) = safe wal l0 k0 p0 s"
  "safe wal l0 k0 p0 (s\<lparr>stopPos := l\<rparr>) = safe wal l0 k0 p0 s"
  "safe wal l0 k0 p0 (s\<lparr>lastStatus := z\<rparr>) = safe wal l0 k0 p0 s"
  "safe wal l0 k0 p0 (s\<lparr>c_inbox := e\<rparr>) = safe wal l0 k0 p0 s"
  "safe wal l0 k0 p0 (s\<lparr>c_cancelled := b\<rparr>) = safe wal l0 k0 p0 s"
  "safe wal l0 k0 p0 (s\<lparr>m_bytes := n\<rparr>) = safe wal l0 k0 p0 s"
  "safe wal l0 k0 p0 (s\<lparr>w_tick := n\<rparr>) = safe wal l0 k0 p0 s"
  by (simp_all add: safe_def closable_def)

lemma seg_pos: "cfg_ok s \<Longrightarrow> 0 < seg_sz s"
  using IsPowerOf2_pos by (simp add: cfg_ok_def)

lemma below_current:
  fixes sz :: nat
  assumes "x < m" and "m \<le> p" and "x div sz = p div sz"
  shows "x mod sz < p mod sz"
proof (cases "sz = 0")
  case True
  with assms show ?thesis by simp
next
  case False
  then show ?thesis using assms div_mod_lex [of sz x p] by simp
qed

lemma stream_inv_safe:
  assumes "stream_inv wal l0 k0 p0 p s"
  shows "safe wal l0 k0 p0 s"
proof -
  let ?n = "seg_sz s"
  from assms obtain m where m: "p0 \<le> m" "m \<le> p" "p < 2 ^ 64"
    "store_inv wal {p0..<m} (segs_between ?n p0 p) s" "told l0 k0 m s"
    "walfile s = None \<and> ?n dvd p \<or> (\<exists>i f. open_at wal s (p div ?n) (p mod ?n) i f)"
    unfolding stream_inv_def by blast
  have "segs_between ?n p0 m \<subseteq> segs_between ?n p0 p"
    using m(2) by (auto simp: segs_between_def)
  then have inv: "store_inv wal {p0..<m} (segs_between ?n p0 m) s"
    using store_inv_mono [OF m(4)] by blast
  have "seg_ok (p div ?n) (walSegSz s)"
    using m(3,4) by (intro seg_of_ok) (simp_all add: store_inv_def)
  note ok = this
  from m(6) have "closable wal {p0..<m} s"
  proof (elim disjE exE conjE)
    assume "walfile s = None"
    then show ?thesis by (simp add: closable_def idle_def)
  next
    fix i f assume "open_at wal s (p div ?n) (p mod ?n) i f"
    moreover have "x mod ?n < p mod ?n" if "x \<in> {p0..<m}" "x div ?n = p div ?n" for x
      using below_current [OF _ m(2) that(2)] that(1) by simp
    ultimately show ?thesis using ok unfolding closable_def by blast
  qed
  with inv m(5) show ?thesis unfolding safe_def by blast
qed

lemma told_send:
  assumes "told l0 k0 m s" and "WALFlushPosition fb \<in> {lastFlushPosition s, 0}"
  shows "told l0 k0 m (s\<lparr>c_sent := c_sent s @ [SStatus fb]\<rparr>)"
  using assms by (auto simp: told_def)

lemma wp_sendFeedback:
  assumes "stream_inv wal l0 k0 p0 p s"
  shows "wp (sendFeedback now r) (\<lambda>_. stream_inv wal l0 k0 p0 p) (\<lambda>e. safe wal l0 k0 p0) s"
proof -
  have "stream_inv wal l0 k0 p0 p (s\<lparr>c_sent := c_sent s @ [SStatus fb]\<rparr>)"
    if "WALFlushPosition fb \<in> {lastFlushPosition s, 0}" for fb
    using assms told_send [OF _ that] unfolding stream_inv_def by auto
  moreover have "stream_inv wal l0 k0 p0 p (s\<lparr>w_tick := n, c_sent := e\<rparr>) =
      stream_inv wal l0 k0 p0 p (s\<lparr>c_sent := e\<rparr>)" for n e
  proof -
    have "s\<lparr>w_tick := n, c_sent := e\<rparr> = s\<lparr>c_sent := e, w_tick := n\<rparr>" by simp
    then show ?thesis using stream_inv_upd(6) by metis
  qed
  ultimately show ?thesis
    using stream_inv_safe [OF assms] by (auto simp: sendFeedback_def split: option.split)
qed

subsection \<open>Archived segments are stored\<close>

lemma archived_stored:
  assumes "archived wal s q" and "x div seg_sz s = q" and "0 < seg_sz s"
  shows "stored wal s x"
proof -
  from assms(1) obtain i where i: "lookup s (fin_path s q) = Some i"
    "i_sync (w_ino s i) = seg_bytes wal (seg_sz s) q" unfolding archived_def by blast
  have "q * seg_sz s + x mod seg_sz s = x" by (simp flip: assms(2))
  moreover have "x mod seg_sz s < seg_sz s" using assms(3) by simp
  ultimately have "x mod seg_sz s < length (seg_bytes wal (seg_sz s) q)"
    "seg_bytes wal (seg_sz s) q ! (x mod seg_sz s) = wal x"
    by (simp_all add: seg_bytes_def del: upt_Suc)
  with i assms(2) show ?thesis unfolding stored_def by auto
qed

text \<open>Once the open segment is stored up to the position, everything from the start is.\<close>

lemma store_inv_extend:
  assumes "store_inv wal (A \<union> below_off (seg_sz s) (p div seg_sz s) c) N s"
    and "segs_between (seg_sz s) p0 p \<subseteq> N" and "seg_sz s dvd p0" and "p < 2 ^ 64"
    and "p' \<le> p" and "\<And>x. x < p' \<Longrightarrow> x div seg_sz s = p div seg_sz s \<Longrightarrow> x mod seg_sz s < c"
  shows "store_inv wal {p0..<p'} N s"
proof -
  let ?n = "seg_sz s"
  have pos: "0 < ?n" using assms(1) by (intro seg_pos) (simp add: store_inv_def)
  have "stored wal s x" if x: "p0 \<le> x" "x < p'" for x
  proof (cases "x div ?n = p div ?n")
    case True
    with x assms(1,6) show ?thesis
      by (auto simp: store_inv_def all_stored_def below_off_def)
  next
    case False
    have "x div ?n \<le> p div ?n" using x assms(5) by (intro div_le_mono) simp
    with False have "Suc (x div ?n) \<le> p div ?n" by simp
    then have "Suc (x div ?n) * ?n \<le> p div ?n * ?n" by (rule mult_le_mono1)
    also have "\<dots> \<le> p" by simp
    finally have "Suc (x div ?n) * ?n \<le> p" .
    moreover have "p0 \<le> x div ?n * ?n"
      using assms(3) x(1) by (metis div_le_mono dvd_div_mult_self mult_le_mono1)
    ultimately have "x div ?n \<in> N" using assms(2) by (auto simp: segs_between_def)
    then have "archived wal s (x div ?n)" using assms(1) by (simp add: store_inv_def all_archived_def)
    from archived_stored [OF this refl pos] show ?thesis .
  qed
  then show ?thesis using assms(1,4,5) by (auto simp: store_inv_def all_stored_def)
qed

lemma segs_between_step:
  assumes "0 < sz" and "sz dvd p0" and "p0 \<le> p" and "p' = Suc (p div sz) * sz"
  shows "segs_between sz p0 p' \<subseteq> insert (p div sz) (segs_between sz p0 p)"
proof
  fix q assume q: "q \<in> segs_between sz p0 p'"
  then have "Suc q * sz \<le> Suc (p div sz) * sz" using assms(4) by (simp add: segs_between_def)
  with assms(1) have "q \<le> p div sz" by simp
  moreover have "Suc q * sz \<le> p" if "q < p div sz"
  proof -
    have "Suc q * sz \<le> p div sz * sz" using that by (intro mult_le_mono1) simp
    also have "\<dots> \<le> p" by simp
    finally show ?thesis .
  qed
  ultimately show "q \<in> insert (p div sz) (segs_between sz p0 p)"
    using q by (auto simp: segs_between_def le_less)
qed

lemma segs_between_same:
  assumes "0 < sz" and "p \<le> p'" and "p' div sz = p div sz"
  shows "segs_between sz p0 p' = segs_between sz p0 p"
proof -
  have "Suc q * sz \<le> p' \<longleftrightarrow> Suc q * sz \<le> p" for q
    using assms by (metis less_eq_div_iff_mult_less_eq)
  then show ?thesis by (simp add: segs_between_def)
qed

subsection \<open>Syncing\<close>

lemma stream_invE:
  assumes "stream_inv wal l0 k0 p0 p s"
  obtains m where "p0 \<le> m" "m \<le> p" "p < 2 ^ 64" "seg_sz s dvd p0" "unat (blockPos s) = p"
    "store_inv wal {p0..<m} (segs_between (seg_sz s) p0 p) s" "told l0 k0 m s" "0 < seg_sz s"
    "seg_ok (p div seg_sz s) (walSegSz s)"
    "walfile s = None \<and> seg_sz s dvd p \<or> (\<exists>i f. open_at wal s (p div seg_sz s) (p mod seg_sz s) i f)"
proof -
  from assms obtain m where m: "p0 \<le> m" "m \<le> p" "p < 2 ^ 64" "seg_sz s dvd p0" "unat (blockPos s) = p"
    "store_inv wal {p0..<m} (segs_between (seg_sz s) p0 p) s" "told l0 k0 m s"
    "walfile s = None \<and> seg_sz s dvd p \<or> (\<exists>i f. open_at wal s (p div seg_sz s) (p mod seg_sz s) i f)"
    unfolding stream_inv_def by blast
  have "cfg_ok s" using m(6) by (simp add: store_inv_def)
  then have "0 < seg_sz s" "seg_ok (p div seg_sz s) (walSegSz s)"
    using seg_pos m(3) by (auto intro: seg_of_ok)
  with m that show thesis by blast
qed

lemma stream_inv_openI:
  assumes "p0 \<le> m" "m \<le> p" "p < 2 ^ 64" "seg_sz s dvd p0" "unat (blockPos s) = p"
    "store_inv wal {p0..<m} (segs_between (seg_sz s) p0 p) s" "told l0 k0 m s"
    "open_at wal s (p div seg_sz s) (p mod seg_sz s) i f"
  shows "stream_inv wal l0 k0 p0 p s"
  using assms unfolding stream_inv_def by blast

lemma stream_inv_noneI:
  assumes "p0 \<le> m" "m \<le> p" "p < 2 ^ 64" "seg_sz s dvd p0" "unat (blockPos s) = p"
    "store_inv wal {p0..<m} (segs_between (seg_sz s) p0 p) s" "told l0 k0 m s"
    "walfile s = None" "seg_sz s dvd p"
  shows "stream_inv wal l0 k0 p0 p s"
  using assms unfolding stream_inv_def by blast

lemma told_advance: "told l0 k0 m s \<Longrightarrow> m \<le> p \<Longrightarrow> unat l = p \<Longrightarrow> told l0 k0 p (s\<lparr>lastFlushPosition := l\<rparr>)"
  by (auto simp: told_def le_max_iff_disj)

lemma wp_syncAndAdvance:
  assumes "stream_inv wal l0 k0 p0 p s" and "walfile s \<noteq> None"
  shows "wp syncAndAdvance (\<lambda>_. stream_inv wal l0 k0 p0 p) (\<lambda>e. safe wal l0 k0 p0) s"
proof -
  let ?n = "seg_sz s"
  obtain m where m: "p0 \<le> m" "m \<le> p" "p < 2 ^ 64" "?n dvd p0" "unat (blockPos s) = p"
    "store_inv wal {p0..<m} (segs_between ?n p0 p) s" "told l0 k0 m s" "0 < ?n"
    "seg_ok (p div ?n) (walSegSz s)"
    "walfile s = None \<and> ?n dvd p \<or> (\<exists>i f. open_at wal s (p div ?n) (p mod ?n) i f)"
    using stream_invE [OF assms(1)] .
  from m(10) assms(2) obtain i f where o: "open_at wal s (p div ?n) (p mod ?n) i f" by auto
  have bel: "x mod ?n < p mod ?n" if "x \<in> {p0..<m}" "x div ?n = p div ?n" for x
    using below_current [OF _ m(2) that(2)] that(1) by simp
  have "wp SyncWalFile (\<lambda>_ t. stream_inv wal l0 k0 p0 p (t\<lparr>lastFlushPosition := blockPos t\<rparr>))
      (\<lambda>e. safe wal l0 k0 p0) s"
  proof (rule wp_SyncWalFile [OF m(6) o m(9) bel])
    fix t
    assume t: "store_inv wal ({p0..<m} \<union> below_off ?n (p div ?n) (p mod ?n)) (segs_between ?n p0 p) t"
      "open_at wal t (p div ?n) (p mod ?n) i f" "sc_same s t"
    have sz: "seg_sz t = ?n" using sc_same_paths(3) [OF t(3)] by simp
    have bp: "blockPos t = blockPos s" using t(3) by (simp add: sc_same_def)
    have "store_inv wal {p0..<p} (segs_between ?n p0 p) t"
    proof (rule store_inv_extend)
      show "store_inv wal ({p0..<m} \<union> below_off (seg_sz t) (p div seg_sz t) (p mod ?n)) (segs_between ?n p0 p) t"
        using t(1) sz by simp
      show "x mod seg_sz t < p mod ?n" if "x < p" "x div seg_sz t = p div seg_sz t" for x
        using below_current [of x p p ?n] that sz by simp
    qed (use m sz in auto)
    moreover have "told l0 k0 p (t\<lparr>lastFlushPosition := blockPos t\<rparr>)"
      using m(5,7) bp by (intro told_advance [OF _ m(2)]) (simp_all add: told_same [OF t(3)])
    ultimately show "stream_inv wal l0 k0 p0 p (t\<lparr>lastFlushPosition := blockPos t\<rparr>)"
      using m t(2) sz bp by (intro stream_inv_openI [of p0 p]) simp_all
  next
    fix e t
    assume t: "store_inv wal {p0..<m} (segs_between ?n p0 p) t"
      "open_at wal t (p div ?n) (p mod ?n) i f" "sc_same s t"
    have sz: "seg_sz t = ?n" using sc_same_paths(3) [OF t(3)] by simp
    have bp: "blockPos t = blockPos s" using t(3) by (simp add: sc_same_def)
    have "stream_inv wal l0 k0 p0 p t"
      using m t(1,2) sz bp by (intro stream_inv_openI [of p0 m]) (simp_all add: told_same [OF t(3)])
    then show "safe wal l0 k0 p0 t" by (rule stream_inv_safe)
  qed
  then show ?thesis by (simp add: syncAndAdvance_def updateLastFlushPosition_def)
qed

subsection \<open>One turn of the write loop\<close>

definition written :: "(nat \<Rightarrow> char) \<Rightarrow> nat \<Rightarrow> nat \<Rightarrow> nat \<Rightarrow> nat \<Rightarrow> nat \<Rightarrow> 'a stream_scheme \<Rightarrow> bool" where
  "written wal l0 k0 p0 p k s = (\<exists>m i f. p0 \<le> m \<and> m \<le> p \<and> p + k < 2 ^ 64 \<and> seg_sz s dvd p0 \<and>
     unat (blockPos s) = p + k \<and> store_inv wal {p0..<m} (segs_between (seg_sz s) p0 p) s \<and> told l0 k0 m s \<and>
     p mod seg_sz s + k \<le> seg_sz s \<and> 0 < seg_sz s \<and>
     open_at wal s (p div seg_sz s) (p mod seg_sz s + k) i f)"

lemma written_upd [simp]:
  "written wal l0 k0 p0 p k (s\<lparr>m_bytes := n\<rparr>) = written wal l0 k0 p0 p k s"
  by (simp add: written_def)

lemma wp_ensure_open:
  assumes "stream_inv wal l0 k0 p0 p s"
  shows "wp (bindE (getE (\<lambda>s. (walfile s, blockPos s))) (\<lambda>(h, pos). whenE (h = None) (OpenWalFile pos)))
    (\<lambda>_ t. stream_inv wal l0 k0 p0 p t \<and> walfile t \<noteq> None \<and> walSegSz t = walSegSz s)
    (\<lambda>e. safe wal l0 k0 p0) s"
proof (cases "walfile s = None")
  case False
  then obtain h where "walfile s = Some h" by blast
  then show ?thesis using assms by simp
next
  case True
  let ?n = "seg_sz s"
  obtain m where m: "p0 \<le> m" "m \<le> p" "p < 2 ^ 64" "?n dvd p0" "unat (blockPos s) = p"
    "store_inv wal {p0..<m} (segs_between ?n p0 p) s" "told l0 k0 m s" "0 < ?n"
    "seg_ok (p div ?n) (walSegSz s)"
    "walfile s = None \<and> ?n dvd p \<or> (\<exists>i f. open_at wal s (p div ?n) (p mod ?n) i f)"
    using stream_invE [OF assms] .
  have "\<not> open_at wal s q c i f" for q c i f using True by (simp add: open_at_def)
  with m(10) have dv: "?n dvd p" by blast
  have ne: "x div ?n \<noteq> p div ?n" if "x \<in> {p0..<m}" for x
  proof -
    have "x < p div ?n * ?n" using dv m(2) that by simp
    then have "x div ?n < p div ?n" by (simp add: less_mult_imp_div_less)
    then show ?thesis by simp
  qed
  have "wp (OpenWalFile (blockPos s))
     (\<lambda>_ t. stream_inv wal l0 k0 p0 p t \<and> walfile t \<noteq> None \<and> walSegSz t = walSegSz s)
     (\<lambda>e. safe wal l0 k0 p0) s"
  proof (rule wp_OpenWalFile [OF m(6) True _ ne])
    show "p div ?n = unat (blockPos s) div ?n" using m(5) by simp
  next
    fix i f t
    assume t: "store_inv wal {p0..<m} (segs_between ?n p0 p) t" "open_at wal t (p div ?n) 0 i f" "sc_same s t"
    have sz: "walSegSz t = walSegSz s" using sc_same_paths(3) [OF t(3)] .
    have bp: "blockPos t = blockPos s" using t(3) by (simp add: sc_same_def)
    have "p mod ?n = 0" using dv by simp
    then have "stream_inv wal l0 k0 p0 p t"
      using m t(1,2) sz bp by (intro stream_inv_openI [of p0 m]) (simp_all add: told_same [OF t(3)])
    moreover have "walfile t \<noteq> None" using t(2) by (auto simp: open_at_def)
    ultimately show "stream_inv wal l0 k0 p0 p t \<and> walfile t \<noteq> None \<and> walSegSz t = walSegSz s"
      using sz by blast
  next
    fix e t
    assume t: "store_inv wal {p0..<m} (segs_between ?n p0 p) t" "idle t" "sc_same s t"
    have "segs_between (seg_sz t) p0 m \<subseteq> segs_between ?n p0 p"
      using m(2) sc_same_paths(3) [OF t(3)] by (auto simp: segs_between_def)
    then have "store_inv wal {p0..<m} (segs_between (seg_sz t) p0 m) t"
      using store_inv_mono [OF t(1)] by blast
    then show "safe wal l0 k0 p0 t"
      using t(2) m(7) told_same [OF t(3)] unfolding safe_def closable_def by blast
  qed
  then show ?thesis using True by simp
qed

lemma wp_write_piece:
  assumes "stream_inv wal l0 k0 p0 p s" and "walfile s \<noteq> None"
    and "unat off = p mod seg_sz s" and "p mod seg_sz s + length xs \<le> seg_sz s" and "p + length xs < 2 ^ 64"
    and "xs = map wal [p ..< p + length xs]"
  shows "wp (WriteAtWalFile xs off)
    (\<lambda>n t. n = length xs \<and> walSegSz t = walSegSz s \<and> blockPos t = blockPos s \<and>
       written wal l0 k0 p0 p (length xs) (t\<lparr>blockPos := blockPos t + word_of_nat (length xs)\<rparr>))
    (\<lambda>e. safe wal l0 k0 p0) s"
proof -
  let ?n = "seg_sz s"
  obtain m where m: "p0 \<le> m" "m \<le> p" "p < 2 ^ 64" "?n dvd p0" "unat (blockPos s) = p"
    "store_inv wal {p0..<m} (segs_between ?n p0 p) s" "told l0 k0 m s" "0 < ?n"
    "seg_ok (p div ?n) (walSegSz s)"
    "walfile s = None \<and> ?n dvd p \<or> (\<exists>i f. open_at wal s (p div ?n) (p mod ?n) i f)"
    using stream_invE [OF assms(1)] .
  from m(10) assms(2) obtain i f where o: "open_at wal s (p div ?n) (p mod ?n) i f" by auto
  have pm: "p div ?n * ?n + p mod ?n = p" by simp
  show ?thesis
  proof (rule wp_WriteAtWalFile [OF m(6) _ m(9)])
    show "open_at wal s (p div ?n) (unat off) i f" using o assms(3) by simp
    show "unat off + length xs \<le> ?n" using assms(3,4) by simp
    have "?n \<le> 2 ^ 32" using m(9) by (simp add: seg_ok_def word_le_nat_alt)
    moreover have "p mod ?n < ?n" using m(8) by simp
    ultimately show "unat off < 2 ^ 63" using assms(3) by simp
    show "xs ! k = wal (p div ?n * ?n + unat off + k)" if "k < length xs" for k
      using that assms(3) pm by (subst assms(6)) simp
  next
    fix t
    assume t: "store_inv wal {p0..<m} (segs_between ?n p0 p) t"
      "open_at wal t (p div ?n) (unat off + length xs) i f" "sc_same s t"
    have sz: "walSegSz t = walSegSz s" using sc_same_paths(3) [OF t(3)] .
    have bp: "blockPos t = blockPos s" using t(3) by (simp add: sc_same_def)
    have "unat (word_of_nat (p + length xs) :: u64) = p + length xs"
      using assms(5) by (simp only: unat_of_nat) (simp add: take_bit_nat_eq_self)
    moreover have "blockPos s = word_of_nat p" using m(5) by (simp flip: m(5))
    ultimately have ub: "unat (blockPos s + word_of_nat (length xs)) = p + length xs"
      by (simp only: of_nat_add)
    have "written wal l0 k0 p0 p (length xs) (t\<lparr>blockPos := blockPos t + word_of_nat (length xs)\<rparr>)"
      unfolding written_def using m t(1,2) sz bp assms(3-5) ub told_same [OF t(3), of l0 k0 m]
      by (intro exI [of _ m] exI [of _ i] exI [of _ f]) simp
    then show "length xs = length xs \<and> walSegSz t = walSegSz s \<and> blockPos t = blockPos s \<and>
       written wal l0 k0 p0 p (length xs) (t\<lparr>blockPos := blockPos t + word_of_nat (length xs)\<rparr>)"
      using sz bp by blast
  next
    fix e t
    assume t: "store_inv wal {p0..<m} (segs_between ?n p0 p) t"
      "open_at wal t (p div ?n) (unat off) i f" "sc_same s t"
    have sz: "walSegSz t = walSegSz s" using sc_same_paths(3) [OF t(3)] .
    have bp: "blockPos t = blockPos s" using t(3) by (simp add: sc_same_def)
    have "stream_inv wal l0 k0 p0 p t"
      using m t(1,2) sz bp assms(3) by (intro stream_inv_openI [of p0 m]) (simp_all add: told_same [OF t(3)])
    then show "safe wal l0 k0 p0 t" by (rule stream_inv_safe)
  qed
qed

lemma written_mid:
  assumes "written wal l0 k0 p0 p k s" and "p mod seg_sz s + k < seg_sz s"
  shows "stream_inv wal l0 k0 p0 (p + k) s"
proof -
  let ?n = "seg_sz s"
  from assms(1) obtain m i f where m: "p0 \<le> m" "m \<le> p" "p + k < 2 ^ 64" "?n dvd p0"
    "unat (blockPos s) = p + k" "store_inv wal {p0..<m} (segs_between ?n p0 p) s" "told l0 k0 m s"
    "0 < ?n" "open_at wal s (p div ?n) (p mod ?n + k) i f"
    unfolding written_def by blast
  have "p + k = p div ?n * ?n + (p mod ?n + k)" by simp
  then have d: "(p + k) div ?n = p div ?n" "(p + k) mod ?n = p mod ?n + k"
    using assms(2) by (metis div_mult_self3 add.commute div_less add_0 less_nat_zero_code linorder_not_le,
      metis mod_mult_self3 mod_less)
  show ?thesis
  proof (rule stream_inv_openI [of p0 m])
    show "store_inv wal {p0..<m} (segs_between ?n p0 (p + k)) s"
      using m(6) segs_between_same [OF m(8), of p "p + k" p0] d(1) by simp
    show "open_at wal s ((p + k) div ?n) ((p + k) mod ?n) i f" using m(9) d by simp
  qed (use m in auto)
qed

lemma wp_written_end:
  assumes "written wal l0 k0 p0 p k s" and "p mod seg_sz s + k = seg_sz s"
  shows "wp CloseWalFile (\<lambda>_ t. stream_inv wal l0 k0 p0 (p + k) t \<and> walSegSz t = walSegSz s)
    (\<lambda>e. safe wal l0 k0 p0) s"
proof -
  let ?n = "seg_sz s" and ?q = "p div seg_sz s"
  from assms(1) obtain m i f where m: "p0 \<le> m" "m \<le> p" "p + k < 2 ^ 64" "?n dvd p0"
    "unat (blockPos s) = p + k" "store_inv wal {p0..<m} (segs_between ?n p0 p) s" "told l0 k0 m s"
    "0 < ?n" "open_at wal s ?q (p mod ?n + k) i f"
    unfolding written_def by blast
  have "p + k = ?q * ?n + (p mod ?n + k)" by simp
  then have pk: "p + k = Suc ?q * ?n" using assms(2) by simp
  have seg: "seg_ok ?q (walSegSz s)"
    using m(3,6) by (intro seg_of_ok) (simp_all add: store_inv_def)
  have o: "open_at wal s ?q ?n i f" using m(9) assms(2) by simp
  have nq: "?q \<notin> segs_between ?n p0 p"
    using m(8) by (simp add: segs_between_def not_le) (metis dividend_less_div_times)
  show ?thesis
  proof (rule wp_CloseWalFile_end [OF m(6) o seg nq])
    fix t
    assume t: "store_inv wal ({p0..<m} \<union> below_off ?n ?q ?n) (insert ?q (segs_between ?n p0 p)) t"
      "walfile t = None" "sc_same (s\<lparr>lastFlushPosition := blockPos s\<rparr>) t"
    have sz: "seg_sz t = ?n" using sc_same_paths(3) [OF t(3)] by simp
    have bp: "blockPos t = blockPos s" using t(3) by (simp add: sc_same_def)
    have sub: "segs_between ?n p0 (p + k) \<subseteq> insert ?q (segs_between ?n p0 p)"
      using m(1,2) pk by (intro segs_between_step [OF m(8,4)]) simp_all
    have all: "store_inv wal {p0..<p + k} (insert ?q (segs_between ?n p0 p)) t"
    proof -
      have "stored wal t x" if x: "p0 \<le> x" "x < p + k" for x
      proof -
        have "x div ?n < Suc ?q" using x(2) pk by (simp add: less_mult_imp_div_less)
        then have "Suc (x div ?n) * ?n \<le> p + k" using pk by (metis Suc_leI mult_le_mono1)
        moreover have "p0 \<le> x div ?n * ?n"
          using m(4) x(1) by (metis div_le_mono dvd_div_mult_self mult_le_mono1)
        ultimately have "x div ?n \<in> segs_between ?n p0 (p + k)" by (simp add: segs_between_def)
        then have "archived wal t (x div seg_sz t)"
          using sub t(1) sz by (auto simp: store_inv_def all_archived_def)
        from archived_stored [OF this refl] show ?thesis using m(8) sz by simp
      qed
      then show ?thesis using t(1) m(3) by (auto simp: store_inv_def all_stored_def)
    qed
    have "stream_inv wal l0 k0 p0 (p + k) t"
    proof (rule stream_inv_noneI [of p0 "p + k"])
      show "store_inv wal {p0..<p + k} (segs_between (seg_sz t) p0 (p + k)) t"
        using store_inv_mono [OF all] sub sz by simp
      show "told l0 k0 (p + k) t"
        unfolding told_same [OF t(3)] using m(5) m(2) by (intro told_advance [OF m(7)]) simp_all
      show "seg_sz t dvd p + k" using pk sz by simp
    qed (use m sz bp t(2) in auto)
    then show "stream_inv wal l0 k0 p0 (p + k) t \<and> walSegSz t = walSegSz s"
      using sc_same_paths(3) [OF t(3)] by simp
  next
    fix e t
    assume t: "store_inv wal {p0..<m} (segs_between ?n p0 p) t" "idle t" "sc_same s t"
    have "segs_between (seg_sz t) p0 m \<subseteq> segs_between ?n p0 p"
      using m(2) sc_same_paths(3) [OF t(3)] by (auto simp: segs_between_def)
    then have "store_inv wal {p0..<m} (segs_between (seg_sz t) p0 m) t"
      using store_inv_mono [OF t(1)] by blast
    then show "safe wal l0 k0 p0 t"
      using t(2) m(7) told_same [OF t(3)] unfolding safe_def closable_def by blast
  qed
qed

lemma wp_writePiece:
  fixes s :: "'a stream_scheme"
  assumes "stream_inv wal l0 k0 p0 p s" and "data \<noteq> []" and "unat off = p mod seg_sz s"
    and "p + length data < 2 ^ 64" and "data = map wal [p ..< p + length data]"
  shows "wp (writePiece data off)
    (\<lambda>w t. \<exists>k. w = word_of_nat k \<and> unat w = k \<and> 0 < k \<and> k \<le> length data \<and>
       unat (off + w) = p mod seg_sz s + k \<and>
       written wal l0 k0 p0 p k t \<and> walSegSz t = walSegSz s) (\<lambda>e. safe wal l0 k0 p0) s"
proof -
  let ?n = "seg_sz s" and ?left = "word_of_nat (length data) :: u64"
  define w where "w = pieceLen (walSegSz s) off ?left"
  have pos: "0 < ?n" by (rule stream_invE [OF assms(1)])
  have lt: "p mod ?n < ?n" using pos by simp
  have "length data < 2 ^ 64" using assms(4) by simp
  then have ul: "unat ?left = length data"
    by (simp only: unat_of_nat) (simp add: take_bit_nat_eq_self)
  have "p mod ?n + length data < 2 ^ 64" using assms(4) mod_less_eq_dividend [of p ?n] by linarith
  then have us: "unat (off + ?left) = p mod ?n + length data"
    using assms(3) ul by (subst unat_add_lem [THEN iffD1]) simp_all
  define k where "k = min (length data) (?n - p mod ?n)"
  have uk: "unat w = k"
    using us ul assms(3) lt by (auto simp: w_def pieceLen_def k_def word_less_nat_alt unat_sub word_le_nat_alt)
  have wk: "w = word_of_nat k" unfolding uk [symmetric] by simp
  have k: "0 < k" "k \<le> length data" "p mod ?n + k \<le> ?n" using assms(2) lt by (auto simp: k_def)
  have uo: "unat (off + w) = p mod ?n + k"
    using assms(3) uk k(3) unsigned_less [of "walSegSz s", where ?'a = nat]
    by (subst unat_add_lem [THEN iffD1]) simp_all
  let ?xs = "take k data"
  have lx: "length ?xs = k" using k by simp
  have xs: "?xs = map wal [p ..< p + length ?xs]"
    using k(2) by (subst assms(5)) (simp add: take_map min_def)
  let ?Q = "\<lambda>w t. \<exists>k. w = word_of_nat k \<and> unat w = k \<and> 0 < k \<and> k \<le> length data \<and>
       unat (off + w) = p mod seg_sz s + k \<and>
       written wal l0 k0 p0 p k t \<and> walSegSz t = walSegSz s"
  have piece: "wp (WriteAtWalFile ?xs off) (\<lambda>j t. j = k \<and>
       ?Q w (t\<lparr>blockPos := blockPos t + w, m_bytes := m_bytes t + k\<rparr>)) (\<lambda>e. safe wal l0 k0 p0) u"
    if u: "stream_inv wal l0 k0 p0 p u" "walfile u \<noteq> None" "walSegSz u = walSegSz s" for u :: "'a stream_scheme"
  proof (rule wp_conseq [OF wp_write_piece [OF u(1,2)]])
    show "unat off = p mod seg_sz u" using assms(3) u(3) by simp
    show "p mod seg_sz u + length ?xs \<le> seg_sz u" using k(3) lx u(3) by simp
    show "p + length ?xs < 2 ^ 64" using lx k(2) assms(4) by linarith
    show "?xs = map wal [p ..< p + length ?xs]" by (rule xs)
  next
    fix j and t :: "'a stream_scheme"
    assume t: "j = length ?xs \<and> walSegSz t = walSegSz u \<and> blockPos t = blockPos u \<and>
      written wal l0 k0 p0 p (length ?xs) (t\<lparr>blockPos := blockPos t + word_of_nat (length ?xs)\<rparr>)"
    then have "written wal l0 k0 p0 p k (t\<lparr>blockPos := blockPos t + word_of_nat k\<rparr>)"
      unfolding lx by blast
    then have "written wal l0 k0 p0 p k (t\<lparr>blockPos := blockPos t + w, m_bytes := m_bytes t + k\<rparr>)"
      unfolding wk written_upd .
    then show "j = k \<and> ?Q w (t\<lparr>blockPos := blockPos t + w, m_bytes := m_bytes t + k\<rparr>)"
      using t lx uk wk k(1,2) u(3) uo by auto
  qed
  let ?piece = "bindE (wrapE ''could not write bytes to WAL file'' (WriteAtWalFile ?xs off)) (\<lambda>j.
       thenE (if j \<noteq> k then throwE (EMsg ''could not write bytes to WAL file'') else retE ())
      (thenE (modE (\<lambda>s. s\<lparr>blockPos := blockPos s + w, m_bytes := m_bytes s + k\<rparr>)) (retE w)))"
  have piece': "wp ?piece ?Q (\<lambda>e. safe wal l0 k0 p0) u"
    if u: "stream_inv wal l0 k0 p0 p u" "walfile u \<noteq> None" "walSegSz u = walSegSz s" for u :: "'a stream_scheme"
    unfolding wp_bindE wp_wrapE by (rule wp_conseq [OF piece [OF u]]) auto
  have "wp (thenE (bindE (getE (\<lambda>s. (walfile s, blockPos s))) (\<lambda>(h, pos). whenE (h = None) (OpenWalFile pos))) ?piece)
     ?Q (\<lambda>e. safe wal l0 k0 p0) s"
    unfolding wp_thenE [of "bindE (getE (\<lambda>s. (walfile s, blockPos s))) f" for f]
    by (rule wp_conseq [OF wp_ensure_open [OF assms(1)]]) (use piece' in blast)+
  then show ?thesis
    unfolding writePiece_def wp_bindE [of "getE f" for f] wp_getE w_def [symmetric] uk .
qed

lemma wp_write_loop:
  fixes s :: "'a stream_scheme"
  assumes "stream_inv wal l0 k0 p0 p s" and "length data < n" and "unat off = p mod seg_sz s"
    and "p + length data < 2 ^ 64" and "data = map wal [p ..< p + length data]"
  shows "wp (write_loop n data off) (\<lambda>_. stream_inv wal l0 k0 p0 (p + length data)) (\<lambda>e. safe wal l0 k0 p0) s"
  using assms
proof (induction n arbitrary: data off p s)
  case 0
  then show ?case by simp
next
  case (Suc n)
  show ?case
  proof (cases "data = []")
    case True
    then show ?thesis using Suc.prems by simp
  next
    case False
    let ?Q = "\<lambda>_. stream_inv wal l0 k0 p0 (p + length data)" and ?R = "\<lambda>e. safe wal l0 k0 p0"
    let ?rest = "\<lambda>w. bindE (getE (\<lambda>s. XLogSegmentOffset (blockPos s) (walSegSz s))) (\<lambda>xlSegOff.
          if xlSegOff = 0
          then thenE CloseWalFile (write_loop n (drop (unat w) data) 0)
          else write_loop n (drop (unat w) data) (off + w))"
    have "wp (writePiece data off) (\<lambda>w. wp (?rest w) ?Q ?R) ?R s"
    proof (rule wp_conseq [OF wp_writePiece [OF Suc.prems(1) False Suc.prems(3-5)]])
      fix w and t :: "'a stream_scheme"
      assume "\<exists>k. w = word_of_nat k \<and> unat w = k \<and> 0 < k \<and> k \<le> length data \<and>
         unat (off + w) = p mod seg_sz s + k \<and>
         written wal l0 k0 p0 p k t \<and> walSegSz t = walSegSz s"
      then obtain k where k: "unat w = k" "0 < k" "k \<le> length data" "unat (off + w) = p mod seg_sz s + k"
        and wr: "written wal l0 k0 p0 p k t" and sz: "walSegSz t = walSegSz s" by blast
      let ?n = "seg_sz s"
      have pw: "IsPowerOf2 (walSegSz t)" and bp: "unat (blockPos t) = p + k"
        and kn: "p mod ?n + k \<le> ?n" and pos: "0 < ?n"
        using wr sz unfolding written_def store_inv_def cfg_ok_def by auto
      have so: "unat (XLogSegmentOffset (blockPos t) (walSegSz t)) = (p mod ?n + k) mod ?n"
        using unat_XLogSegmentOffset [OF pw, of "blockPos t"] bp sz by (simp add: mod_add_left_eq)
      have e: "p + k + length (drop k data) = p + length data" using k(3) by simp
      have ds: "drop k data = map wal [p + k ..< p + k + length (drop k data)]"
        using k(3) by (subst Suc.prems(5)) (simp add: drop_map)
      have shorter: "length (drop k data) < n" using k(2,3) Suc.prems(2) by simp
      show "wp (?rest w) ?Q ?R t"
      proof (cases "p mod ?n + k = ?n")
        case True
        then have z: "XLogSegmentOffset (blockPos t) (walSegSz t) = 0" using so by (simp add: unat_eq_0)
        have dv: "?n dvd p + k"
        proof -
          have "p + k = p div ?n * ?n + (p mod ?n + k)" by simp
          then show ?thesis using True by (metis dvd_add_triv_right_iff dvd_triv_right)
        qed
        have "wp CloseWalFile (\<lambda>_. wp (write_loop n (drop k data) 0) ?Q ?R) ?R t"
        proof (rule wp_conseq [OF wp_written_end [OF wr]])
          show "p mod seg_sz t + k = seg_sz t" using True sz by simp
        next
          fix x and u :: "'a stream_scheme"
          assume u: "stream_inv wal l0 k0 p0 (p + k) u \<and> walSegSz u = walSegSz t"
          have "unat (0 :: u64) = (p + k) mod seg_sz u" using dv u sz by simp
          from Suc.IH [OF conjunct1 [OF u] shorter this]
          show "wp (write_loop n (drop k data) 0) ?Q ?R u"
            using e ds Suc.prems(4) by simp
        qed
        then show ?thesis using z k(1) by simp
      next
        case False
        then have l: "p mod ?n + k < ?n" using kn by simp
        then have nz: "XLogSegmentOffset (blockPos t) (walSegSz t) \<noteq> 0" using so k(2) by auto
        have "p mod ?n + k = (p + k) mod ?n" using l by (metis mod_add_left_eq mod_less)
        then have uo: "unat (off + w) = (p + k) mod seg_sz t" using k(4) sz by simp
        have "stream_inv wal l0 k0 p0 (p + k) t" using written_mid [OF wr] l sz by simp
        from Suc.IH [OF this shorter uo] show ?thesis
          using nz e ds Suc.prems(4) k(1) by simp
      qed
    qed
    then show ?thesis using False by simp
  qed
qed

subsection \<open>Messages\<close>

lemma blockPos_self: "unat (blockPos s) = p \<Longrightarrow> unat x = p \<Longrightarrow> s\<lparr>blockPos := x\<rparr> = s"
  for s :: "'a stream_scheme"
  by (cases s rule: stream.cases_scheme) (simp add: word_unat_eq_iff)

lemma wp_processXLogDataMsg:
  fixes s :: "'a stream_scheme"
  assumes "stream_inv wal l0 k0 p0 p s" and "unat (xWALStart x) = p"
    and "p + length (xWALData x) < 2 ^ 64" and "xWALData x = map wal [p ..< p + length (xWALData x)]"
  shows "wp (processXLogDataMsg x) (\<lambda>_. stream_inv wal l0 k0 p0 (p + length (xWALData x)))
    (\<lambda>e. safe wal l0 k0 p0) s"
proof -
  obtain m where bp: "unat (blockPos s) = p" and inv: "store_inv wal {p0..<m} (segs_between (seg_sz s) p0 p) s"
    using stream_invE [OF assms(1)] by metis
  have self: "s\<lparr>blockPos := xWALStart x\<rparr> = s" by (rule blockPos_self [OF bp assms(2)])
  have pw: "IsPowerOf2 (walSegSz s)" using inv by (simp add: store_inv_def cfg_ok_def)
  have so: "unat (XLogSegmentOffset (xWALStart x) (walSegSz s)) = p mod seg_sz s"
    using unat_XLogSegmentOffset [OF pw, of "xWALStart x"] assms(2) by simp
  let ?Q = "\<lambda>_. stream_inv wal l0 k0 p0 (p + length (xWALData x))" and ?R = "\<lambda>e. safe wal l0 k0 p0"
  have loop: "wp (write_loop (Suc (length (xWALData x))) (xWALData x)
      (XLogSegmentOffset (xWALStart x) (walSegSz s))) ?Q ?R s"
    by (rule wp_write_loop [OF assms(1) _ so assms(3,4)]) simp
  have safe: "safe wal l0 k0 p0 s" by (rule stream_inv_safe [OF assms(1)])
  have bpx: "blockPos s = xWALStart x" using bp assms(2) by (simp add: word_unat_eq_iff)
  show ?thesis
    using loop safe
    by (auto simp: processXLogDataMsg_def self bpx simp del: write_loop.simps split: option.split)
qed

lemma wp_processKeepaliveMsg:
  fixes s :: "'a stream_scheme"
  assumes "stream_inv wal l0 k0 p0 p s"
  shows "wp (processKeepaliveMsg k) (\<lambda>_. stream_inv wal l0 k0 p0 p) (\<lambda>e. safe wal l0 k0 p0) s"
proof -
  have fb: "wp (wrapE m (sendFeedback now False)) (\<lambda>_ t. stream_inv wal l0 k0 p0 p (t\<lparr>lastStatus := now\<rparr>))
      (\<lambda>e. safe wal l0 k0 p0) (t\<lparr>w_tick := n\<rparr>)"
    if "stream_inv wal l0 k0 p0 p t" for t :: "'a stream_scheme" and now m n
    using wp_sendFeedback [of wal l0 k0 p0 p "t\<lparr>w_tick := n\<rparr>" now False] that by simp
  have sy: "wp syncAndAdvance (\<lambda>_ t. wp (wrapE m (sendFeedback (w_clock t (w_tick t)) False))
        (\<lambda>_ u. stream_inv wal l0 k0 p0 p (u\<lparr>lastStatus := w_clock t (w_tick t)\<rparr>))
        (\<lambda>e. safe wal l0 k0 p0) (t\<lparr>w_tick := Suc (w_tick t)\<rparr>))
      (\<lambda>e. safe wal l0 k0 p0) s" if "walfile s \<noteq> None" for m
    by (rule wp_conseq [OF wp_syncAndAdvance [OF assms that]]) (use fb in blast)+
  show ?thesis
    using sy fb [OF assms] assms
    by (cases "walfile s") (simp_all add: processKeepaliveMsg_def)
qed

lemma told_done: "told l0 k0 m s \<Longrightarrow> told l0 k0 m (s\<lparr>c_sent := c_sent s @ [SCopyDone]\<rparr>)"
  by (auto simp: told_def)

lemma closable_sent [simp]: "closable wal A (s\<lparr>c_sent := m\<rparr>) = closable wal A s"
  by (simp add: closable_def)

lemma safe_send_done: "safe wal l0 k0 p0 s \<Longrightarrow> safe wal l0 k0 p0 (s\<lparr>c_sent := c_sent s @ [SCopyDone]\<rparr>)"
  unfolding safe_def by (elim exE conjE) (rule exI, intro conjI told_done, simp_all)

lemma wp_copyDone_loop:
  fixes s :: "'a stream_scheme"
  assumes "safe wal l0 k0 p0 s" and "walfile s = None"
  shows "wp (copyDone_loop api c evs) (\<lambda>_ t. safe wal l0 k0 p0 t \<and> walfile t = None)
    (\<lambda>e. safe wal l0 k0 p0) s"
  using assms
proof (induction api c evs arbitrary: s rule: copyDone_loop.induct)
  case (1 api c)
  then show ?case by simp
next
  case (2 api c ev rest)
  show ?case
  proof (cases ev)
    case (RMsg m)
    with 2 show ?thesis by (cases m) simp_all
  qed (use 2 in simp_all)
qed

lemma wp_SendStandbyCopyDone:
  fixes s :: "'a stream_scheme"
  assumes "safe wal l0 k0 p0 s" and "walfile s = None"
  shows "wp (SendStandbyCopyDone api) (\<lambda>_ t. safe wal l0 k0 p0 t \<and> walfile t = None)
    (\<lambda>e. safe wal l0 k0 p0) s"
proof -
  have "safe wal l0 k0 p0 (s\<lparr>w_tick := n, c_sent := c_sent s @ [SCopyDone]\<rparr>)" for n
    using safe_send_done [of wal l0 k0 p0 "s\<lparr>w_tick := n\<rparr>"] assms(1) by simp
  then show ?thesis
    using assms by (auto simp: SendStandbyCopyDone_def split: option.split intro!: wp_copyDone_loop)
qed

lemma wp_CloseWalFile_stream:
  fixes s :: "'a stream_scheme"
  assumes "stream_inv wal l0 k0 p0 p s"
  shows "wp CloseWalFile (\<lambda>_ t. safe wal l0 k0 p0 t \<and> walfile t = None) (\<lambda>e. safe wal l0 k0 p0) s"
proof (cases "walfile s = None")
  case True
  then show ?thesis using stream_inv_safe [OF assms] by (simp add: CloseWalFile_def)
next
  case False
  let ?n = "seg_sz s"
  obtain m where m: "p0 \<le> m" "m \<le> p" "p < 2 ^ 64" "?n dvd p0" "unat (blockPos s) = p"
    "store_inv wal {p0..<m} (segs_between ?n p0 p) s" "told l0 k0 m s" "0 < ?n"
    "seg_ok (p div ?n) (walSegSz s)"
    "walfile s = None \<and> ?n dvd p \<or> (\<exists>i f. open_at wal s (p div ?n) (p mod ?n) i f)"
    using stream_invE [OF assms] .
  from m(10) False obtain i f where o: "open_at wal s (p div ?n) (p mod ?n) i f" by auto
  have bel: "x mod ?n < p mod ?n" if "x \<in> {p0..<m}" "x div ?n = p div ?n" for x
    using below_current [OF _ m(2) that(2)] that(1) by simp
  show ?thesis
  proof (rule wp_CloseWalFile_mid [OF m(6) o m(9) bel])
    show "p mod ?n < ?n" using m(8) by simp
  next
    fix t :: "'a stream_scheme"
    assume t: "store_inv wal ({p0..<m} \<union> below_off ?n (p div ?n) (p mod ?n)) (segs_between ?n p0 p) t"
      "walfile t = None" "sc_same (s\<lparr>lastFlushPosition := blockPos s\<rparr>) t"
    have sz: "seg_sz t = ?n" using sc_same_paths(3) [OF t(3)] by simp
    have "store_inv wal {p0..<p} (segs_between (seg_sz t) p0 p) t"
    proof (rule store_inv_extend)
      show "store_inv wal ({p0..<m} \<union> below_off (seg_sz t) (p div seg_sz t) (p mod ?n)) (segs_between (seg_sz t) p0 p) t"
        using t(1) sz by simp
      show "x mod seg_sz t < p mod ?n" if "x < p" "x div seg_sz t = p div seg_sz t" for x
        using below_current [of x p p ?n] that sz by simp
    qed (use m sz in auto)
    moreover have "told l0 k0 p t"
      unfolding told_same [OF t(3)] using m(5,7) by (intro told_advance [OF _ m(2)]) simp_all
    ultimately show "safe wal l0 k0 p0 t \<and> walfile t = None"
      using t(2) unfolding safe_def closable_def idle_def by auto
  next
    fix e and t :: "'a stream_scheme"
    assume t: "store_inv wal {p0..<m} (segs_between ?n p0 p) t" "idle t" "sc_same s t"
    have "segs_between (seg_sz t) p0 m \<subseteq> segs_between ?n p0 p"
      using m(2) sc_same_paths(3) [OF t(3)] by (auto simp: segs_between_def)
    then have "store_inv wal {p0..<m} (segs_between (seg_sz t) p0 m) t"
      using store_inv_mono [OF t(1)] by blast
    then show "safe wal l0 k0 p0 t"
      using t(2) m(7) told_same [OF t(3)] unfolding safe_def closable_def by blast
  qed
qed

lemma wp_handleEndOfCopyStream:
  fixes s :: "'a stream_scheme"
  assumes "stream_inv wal l0 k0 p0 p s"
  shows "wp (handleEndOfCopyStream api) (\<lambda>r t. r \<noteq> None \<and> safe wal l0 k0 p0 t \<and> walfile t = None)
    (\<lambda>e. safe wal l0 k0 p0) s"
  unfolding handleEndOfCopyStream_def wp_thenE wp_wrapE
proof (rule wp_conseq [OF wp_CloseWalFile_stream [OF assms]])
  fix x and t :: "'a stream_scheme"
  assume "safe wal l0 k0 p0 t \<and> walfile t = None"
  then have "wp (SendStandbyCopyDone api) (\<lambda>_ t. safe wal l0 k0 p0 t \<and> walfile t = None)
    (\<lambda>e. safe wal l0 k0 p0) t"
    by (intro wp_SendStandbyCopyDone) auto
  then show "wp (bindE (wrapE ''failed to send client CopyDone'' (SendStandbyCopyDone api))
        (\<lambda>c. thenE (modE (\<lambda>s. s\<lparr>stopPos := blockPos s\<rparr>)) (retE (Some c))))
      (\<lambda>r t. r \<noteq> None \<and> safe wal l0 k0 p0 t \<and> walfile t = None) (\<lambda>e. safe wal l0 k0 p0) t"
    by simp
qed

lemma wp_processOneMsg:
  fixes s :: "'a stream_scheme"
  assumes "stream_inv wal l0 k0 p0 p s" and "server_ok api wal p (RMsg msg # rest)"
  shows "wp (processOneMsg api msg)
    (\<lambda>r t. if r = None then \<exists>p'. stream_inv wal l0 k0 p0 p' t \<and> server_ok api wal p' rest
           else safe wal l0 k0 p0 t \<and> walfile t = None)
    (\<lambda>e. safe wal l0 k0 p0) s"
proof -
  note safe = stream_inv_safe [OF assms(1)]
  let ?Q = "\<lambda>r t. if r = None then \<exists>p'. stream_inv wal l0 k0 p0 p' t \<and> server_ok api wal p' rest
           else safe wal l0 k0 p0 t \<and> walfile t = None"
  show ?thesis
  proof (cases msg)
    case (CopyData d)
    show ?thesis
    proof (cases d)
      case Nil
      then show ?thesis using CopyData safe by (simp add: processOneMsg_def)
    next
      case (Cons b body)
      consider "b = CHR ''k''" | "b = CHR ''w''" | "b \<noteq> CHR ''k''" "b \<noteq> CHR ''w''" by blast
      then show ?thesis
      proof cases
        case 1
        then have srv: "server_ok api wal p rest" using assms(2) CopyData Cons by simp
        have "wp (processKeepaliveMsg k) (\<lambda>_. ?Q None) (\<lambda>e. safe wal l0 k0 p0) s" for k
          by (rule wp_conseq [OF wp_processKeepaliveMsg [OF assms(1)]]) (use srv in auto)
        then show ?thesis
          using 1 CopyData Cons safe by (simp add: processOneMsg_def split: sum.split)
      next
        case 2
        show ?thesis
        proof (cases "ParseXLogData api body")
          case (Inl e)
          then show ?thesis using 2 CopyData Cons safe by (simp add: processOneMsg_def)
        next
          case (Inr x)
          then have x: "unat (xWALStart x) = p" "p + length (xWALData x) < 2 ^ 64"
            "xWALData x = map wal [p ..< p + length (xWALData x)]"
            "server_ok api wal (p + length (xWALData x)) rest"
            using assms(2) CopyData Cons 2 by simp_all
          have "wp (processXLogDataMsg x) (\<lambda>_. ?Q None) (\<lambda>e. safe wal l0 k0 p0) s"
            by (rule wp_conseq [OF wp_processXLogDataMsg [OF assms(1) x(1-3)]]) (use x(4) in auto)
          then show ?thesis
            using 2 Inr CopyData Cons by (simp add: processOneMsg_def)
        qed
      next
        case 3
        then show ?thesis using CopyData Cons safe by (simp add: processOneMsg_def)
      qed
    qed
  next
    case CopyDone
    have "wp (handleEndOfCopyStream api) ?Q (\<lambda>e. safe wal l0 k0 p0) s"
      by (rule wp_conseq [OF wp_handleEndOfCopyStream [OF assms(1)]]) auto
    then show ?thesis using CopyDone by (simp add: processOneMsg_def)
  next
    case CommandComplete
    then show ?thesis using assms by (auto simp: processOneMsg_def)
  next
    case ReadyForQuery
    then show ?thesis using assms by (auto simp: processOneMsg_def)
  qed (use safe in \<open>simp_all add: processOneMsg_def\<close>)
qed

subsection \<open>The loops\<close>

lemma wp_syncStep:
  fixes s :: "'a stream_scheme"
  assumes "stream_inv wal l0 k0 p0 p s"
  shows "wp (syncStep now) (\<lambda>_. stream_inv wal l0 k0 p0 p) (\<lambda>e. safe wal l0 k0 p0) s"
proof (cases "walfile s = None")
  case True
  then show ?thesis using assms by (simp add: syncStep_def)
next
  case False
  have "wp syncAndAdvance (\<lambda>_. wp (wrapE m (sendFeedback now False))
        (\<lambda>_ u. stream_inv wal l0 k0 p0 p (u\<lparr>lastStatus := now\<rparr>)) (\<lambda>e. safe wal l0 k0 p0))
      (\<lambda>e. safe wal l0 k0 p0) s" for m
    by (rule wp_conseq [OF wp_syncAndAdvance [OF assms False]]) (simp_all add: wp_sendFeedback)
  then show ?thesis using assms by (simp add: syncStep_def)
qed

lemma wp_statusStep:
  fixes s :: "'a stream_scheme"
  assumes "stream_inv wal l0 k0 p0 p s"
  shows "wp (statusStep now) (\<lambda>_. stream_inv wal l0 k0 p0 p) (\<lambda>e. safe wal l0 k0 p0) s"
proof -
  have "wp (wrapE m (sendFeedback now False)) (\<lambda>_ u. stream_inv wal l0 k0 p0 p (u\<lparr>lastStatus := now\<rparr>))
      (\<lambda>e. safe wal l0 k0 p0) (s\<lparr>w_tick := n\<rparr>)" for m n
    using wp_sendFeedback [of wal l0 k0 p0 p "s\<lparr>w_tick := n\<rparr>" now False] assms by simp
  then show ?thesis using assms by (simp add: statusStep_def)
qed

lemma wp_cancel_ctx: "safe wal l0 k0 p0 s \<Longrightarrow> wp cancel_ctx Q (\<lambda>e. safe wal l0 k0 p0) s"
  by (simp add: cancel_ctx_def)

lemma wp_steps:
  fixes s :: "'a stream_scheme"
  assumes "stream_inv wal l0 k0 p0 p s"
    and "\<And>t :: 'a stream_scheme. stream_inv wal l0 k0 p0 p t \<Longrightarrow> wp f Q (\<lambda>e. safe wal l0 k0 p0) t"
  shows "wp (bindE time_Now (\<lambda>now. thenE (syncStep now) (thenE (statusStep now) f))) Q
    (\<lambda>e. safe wal l0 k0 p0) s"
proof -
  have "wp (statusStep now) (\<lambda>_. wp f Q (\<lambda>e. safe wal l0 k0 p0)) (\<lambda>e. safe wal l0 k0 p0) t"
    if "stream_inv wal l0 k0 p0 p t" for now and t :: "'a stream_scheme"
    by (rule wp_conseq [OF wp_statusStep [OF that]]) (use assms(2) in auto)
  then have "wp (syncStep now) (\<lambda>_. wp (statusStep now) (\<lambda>_. wp f Q (\<lambda>e. safe wal l0 k0 p0)) (\<lambda>e. safe wal l0 k0 p0))
      (\<lambda>e. safe wal l0 k0 p0) t" if "stream_inv wal l0 k0 p0 p t" for now and t :: "'a stream_scheme"
    by (rule wp_conseq [OF wp_syncStep [OF that]]) auto
  then show ?thesis using assms(1) by simp
qed

lemma wp_copy:
  fixes s :: "'a stream_scheme"
  shows "stream_inv wal l0 k0 p0 p s \<Longrightarrow> server_ok api wal p evs \<Longrightarrow>
      wp (copy_outer api evs) (\<lambda>r t. safe wal l0 k0 p0 t \<and> walfile t = None) (\<lambda>e. safe wal l0 k0 p0) s"
    and "stream_inv wal l0 k0 p0 p s \<Longrightarrow> server_ok api wal p (RMsg msg # evs) \<Longrightarrow>
      wp (copy_inner api msg evs) (\<lambda>r t. safe wal l0 k0 p0 t \<and> walfile t = None) (\<lambda>e. safe wal l0 k0 p0) s"
proof (induction api evs and api msg evs arbitrary: p s and p s rule: copy_outer_copy_inner.induct)
  case (1 api)
  show ?case unfolding copy_outer.simps
    by (rule wp_steps [OF "1.prems"(1)]) (rule wp_cancel_ctx, rule stream_inv_safe)
next
  case (2 api ev rest)
  show ?case unfolding copy_outer.simps
  proof (rule wp_steps [OF "2.prems"(1)])
    fix t :: "'a stream_scheme"
    assume t: "stream_inv wal l0 k0 p0 p t"
    note safe = stream_inv_safe [OF t]
    show "wp (bindE (getE c_cancelled) (\<lambda>c.
        if c then cancel_ctx
        else case ev of
            RCancel \<Rightarrow> cancel_ctx
          | RTimeout \<Rightarrow> thenE (set_inbox rest) (copy_outer api rest)
          | RErr e \<Rightarrow> thenE (set_inbox rest) (throwE (wrap_err ''receive message failed'' e))
          | RMsg m \<Rightarrow> thenE (set_inbox rest) (copy_inner api m rest)))
       (\<lambda>r t. safe wal l0 k0 p0 t \<and> walfile t = None) (\<lambda>e. safe wal l0 k0 p0) t"
    proof (cases ev)
      case (RMsg m)
      then show ?thesis
        using "2.IH" "2.prems"(2) t safe by (auto simp: set_inbox_def intro!: wp_cancel_ctx)
    qed (use "2.IH" "2.prems"(2) t safe in \<open>auto simp: set_inbox_def intro!: wp_cancel_ctx\<close>)
  qed
next
  case (3 api m)
  show ?case unfolding copy_inner.simps wp_bindE
    by (rule wp_conseq [OF wp_processOneMsg [OF "3.prems"]])
      (auto split: if_splits option.splits intro!: wp_cancel_ctx dest: stream_inv_safe)
next
  case (4 api m ev rest)
  show ?case unfolding copy_inner.simps wp_bindE
  proof (rule wp_conseq [OF wp_processOneMsg [OF "4.prems"]])
    fix r :: "cdr option" and t :: "'a stream_scheme"
    assume rt: "if r = None then \<exists>p'. stream_inv wal l0 k0 p0 p' t \<and> server_ok api wal p' (ev # rest)
           else safe wal l0 k0 p0 t \<and> walfile t = None"
    show "wp (case r of
         Some c \<Rightarrow> retE (Some c)
       | None \<Rightarrow>
           (case ev of
              RCancel \<Rightarrow> cancel_ctx
            | RTimeout \<Rightarrow> thenE (set_inbox rest) (copy_outer api rest)
            | RErr e \<Rightarrow> thenE (set_inbox rest) (throwE e)
            | RMsg m' \<Rightarrow> thenE (set_inbox rest) (copy_inner api m' rest)))
       (\<lambda>r t. safe wal l0 k0 p0 t \<and> walfile t = None) (\<lambda>e. safe wal l0 k0 p0) t"
    proof (cases r)
      case (Some c)
      then show ?thesis using rt by simp
    next
      case None
      then obtain p' where p': "stream_inv wal l0 k0 p0 p' t" "server_ok api wal p' (ev # rest)"
        using rt by auto
      note safe = stream_inv_safe [OF p'(1)]
      show ?thesis
      proof (cases ev)
        case (RMsg m')
        then show ?thesis using None "4.IH" p' by (simp add: set_inbox_def)
      next
        case RTimeout
        then show ?thesis using None "4.IH" p' by (simp add: set_inbox_def)
      qed (use None safe in \<open>auto simp: set_inbox_def intro!: wp_cancel_ctx\<close>)
    qed
  qed
qed

subsection \<open>Properties\<close>

lemma stream_inv_start:
  fixes s :: "'a stream_scheme"
  assumes "cfg_ok s" "dir_ok s" "walfile s = None" "seg_sz s dvd unat (startPos s)"
  shows "stream_inv wal (unat (lastFlushPosition s)) (length (c_sent s)) (unat (startPos s)) (unat (startPos s))
    (s\<lparr>lastStatus := z, blockPos := startPos s\<rparr>)"
proof -
  let ?n = "seg_sz s" and ?p = "unat (startPos s)"
  have "segs_between ?n ?p ?p = {}"
    using seg_pos [OF assms(1)] by (auto simp: segs_between_def)
  then have "store_inv wal {?p..<?p} (segs_between ?n ?p ?p) s"
    using assms(1,2) by (simp add: store_inv_def all_stored_def all_archived_def)
  moreover have "?p < 2 ^ 64" using unsigned_less [of "startPos s", where ?'a = nat] by simp
  ultimately show ?thesis
    using assms by (intro stream_inv_noneI [of _ ?p]) (simp_all add: told_def)
qed

lemma handleCopyStream_safe:
  fixes s :: "'a stream_scheme"
  assumes "cfg_ok s" "dir_ok s" "walfile s = None" "seg_sz s dvd unat (startPos s)"
    and "server_ok api wal (unat (startPos s)) (c_inbox s)"
  shows "wp (handleCopyStream api) (\<lambda>r. safe wal (unat (lastFlushPosition s)) (length (c_sent s)) (unat (startPos s)))
    (\<lambda>e. safe wal (unat (lastFlushPosition s)) (length (c_sent s)) (unat (startPos s))) s"
proof -
  let ?t = "s\<lparr>lastStatus := time_zero, blockPos := startPos s\<rparr>"
  have "wp (copy_outer api (c_inbox s)) (\<lambda>r. safe wal (unat (lastFlushPosition s)) (length (c_sent s)) (unat (startPos s)))
     (\<lambda>e. safe wal (unat (lastFlushPosition s)) (length (c_sent s)) (unat (startPos s))) ?t"
    by (rule wp_conseq [OF wp_copy(1) [OF stream_inv_start [OF assms(1-4)] assms(5)]]) auto
  then show ?thesis by (simp add: handleCopyStream_def)
qed

lemma wp_result: "wp f (\<lambda>_. P) (\<lambda>_. P) s \<Longrightarrow> f s = (r, t) \<Longrightarrow> P t"
  by (auto simp: wp_def split: sum.splits)

text \<open>C1: Every flush position that is reported to the server is true.  Whatever messages come in
  between, whatever system calls fail and however the copy ends, a byte of the server's WAL below
  a flush position sent in this copy (and not below the start or the position already flushed
  before it) is in the synced contents of its segment's file.\<close>

theorem acked_wal_is_stored:
  assumes "cfg_ok s" and "dir_ok s" and "walfile s = None" and "seg_sz s dvd unat (startPos s)"
    and "server_ok api wal (unat (startPos s)) (c_inbox s)"
    and "handleCopyStream api s = (r, t)"
    and "SStatus fb \<in> set (drop (length (c_sent s)) (c_sent t))"
    and "unat (startPos s) \<le> x" and "unat (lastFlushPosition s) \<le> x" and "x < unat (WALFlushPosition fb)"
  shows "stored wal t x"
proof -
  have "safe wal (unat (lastFlushPosition s)) (length (c_sent s)) (unat (startPos s)) t"
    using wp_result [OF handleCopyStream_safe [OF assms(1-5)] assms(6)] .
  then obtain m where m: "store_inv wal {unat (startPos s)..<m} (segs_between (seg_sz t) (unat (startPos s)) m) t"
    "told (unat (lastFlushPosition s)) (length (c_sent s)) m t" unfolding safe_def by blast
  have "unat (WALFlushPosition fb) \<le> max (unat (lastFlushPosition s)) m"
    using m(2) assms(7) by (simp add: told_def)
  then have "x < m" using assms(9,10) by simp
  with m(1) assms(8) show ?thesis by (simp add: store_inv_def all_stored_def)
qed

text \<open>C2: Every complete segment below a reported flush position is archived: its file has its final
  name, in the directory as the program sees it and in the directory as it is after a power loss,
  and its contents, volatile and synced, are exactly the bytes of the segment.\<close>

theorem acked_segment_is_archived:
  assumes "cfg_ok s" and "dir_ok s" and "walfile s = None" and "seg_sz s dvd unat (startPos s)"
    and "server_ok api wal (unat (startPos s)) (c_inbox s)"
    and "handleCopyStream api s = (r, t)"
    and "SStatus fb \<in> set (drop (length (c_sent s)) (c_sent t))"
    and "unat (startPos s) \<le> q * seg_sz t" and "unat (lastFlushPosition s) \<le> q * seg_sz t"
    and "0 < seg_sz t" and "Suc q * seg_sz t \<le> unat (WALFlushPosition fb)"
  shows "archived wal t q"
proof -
  have "safe wal (unat (lastFlushPosition s)) (length (c_sent s)) (unat (startPos s)) t"
    using wp_result [OF handleCopyStream_safe [OF assms(1-5)] assms(6)] .
  then obtain m where m: "store_inv wal {unat (startPos s)..<m} (segs_between (seg_sz t) (unat (startPos s)) m) t"
    "told (unat (lastFlushPosition s)) (length (c_sent s)) m t" unfolding safe_def by blast
  have "unat (WALFlushPosition fb) \<le> max (unat (lastFlushPosition s)) m"
    using m(2) assms(7) by (simp add: told_def)
  then have "Suc q * seg_sz t \<le> m" using assms(9-11) by simp
  then have "q \<in> segs_between (seg_sz t) (unat (startPos s)) m"
    using assms(8) by (simp add: segs_between_def)
  with m(1) show ?thesis by (simp add: store_inv_def all_archived_def)
qed

subsection \<open>A concrete run\<close>

text \<open>
  For the witnesses: a server that sends one data message and asks for a status, and segments of
  one byte, so that the message fills a segment.  The names are constants with their facts, so that a
  run can be evaluated without looking at their letters.
\<close>

definition demo_api :: pgapi where
  "demo_api = \<lparr>ParsePrimaryKeepaliveMessage = (\<lambda>b. Inr \<lparr>pkServerWALEnd = 0, pkReplyRequested = True\<rparr>),
     ParseXLogData = (\<lambda>b. Inr \<lparr>xWALStart = 0, xServerWALEnd = 0, xWALData = b\<rparr>),
     ParseLSN = (\<lambda>s. Inr 0), ExecReadAll = (\<lambda>n q. Inr []),
     TimelineHistory = (\<lambda>n t. Inl EEOF), IdentifySystem = (\<lambda>n. Inr (0, 1)),
     CreateReplicationSlot = (\<lambda>n s. Inr ())\<rparr>"

definition demo_dir :: string where "demo_dir = ''/w''"
definition demo_name :: string where "demo_name = ''000000010000000000000000''"
definition demo_fin :: string where "demo_fin = demo_dir @ ''/'' @ demo_name"
definition demo_part :: string where "demo_part = demo_fin @ PartialSuffix"

definition demo_stream :: "event list \<Rightarrow> stream" where
  "demo_stream evs = \<lparr>w_dir = [], w_ddir = [], w_dirs = [demo_dir], w_ino = (\<lambda>_. \<lparr>i_data = [], i_sync = []\<rparr>),
     w_fd = (\<lambda>_. None), w_next = 0, w_tick = 0, w_fault = (\<lambda>_. None), w_clock = (\<lambda>n. 0),
     startPos = 0, timeline = 1, standbyMessageTimeout = 10 * Second, synchronous = True,
     partialSuffix = PartialSuffix, replicationSlot = [], walSegSz = 1, receiveDir = demo_dir,
     reportFlushPosition = True, lastStatus = 0, lastFlushPosition = 0, blockPos = 0, stopPos = 0,
     walfile = None, startedAt = 0, c_inbox = evs, c_cancelled = False, c_sent = [], m_bytes = 0, m_files = 0\<rparr>"

definition demo_events :: "event list" where
  "demo_events = [RMsg (CopyData [CHR ''w'', CHR ''a'']), RMsg (CopyData [CHR ''k''])]"

lemma demo_names:
  "XLogFileName 1 0 1 = Inr demo_name"
  "filepath_Join [demo_dir, demo_name @ PartialSuffix] = demo_part"
  "trim_suffix demo_part PartialSuffix = demo_fin" "has_suffix demo_part PartialSuffix"
  "filepath_Dir demo_fin = demo_dir" "filepath_Dir demo_part = demo_dir" "filepath_Clean demo_dir = demo_dir"
  "demo_fin \<noteq> demo_part" "demo_part \<noteq> demo_fin" "demo_part \<noteq> demo_dir" "demo_fin \<noteq> demo_dir"
  "demo_dir \<noteq> demo_part" "demo_dir \<noteq> demo_fin"
  "XLByteToSeg 0 1 = Inr 0" "Uint64ToInt64 0 = Inr 0" "Uint64ToInt64 1 = Inr 1"
  "XLogSegmentOffset 0 1 = 0" "XLogSegmentOffset 1 1 = 0" "pieceLen 1 0 1 = 1"
  "CHR ''w'' \<noteq> CHR ''k''"
  by (code_simp | simp add: demo_part_def)+

lemmas run_model =
  handleCopyStream_def syncStep_def statusStep_def cancel_ctx_def set_inbox_def processOneMsg_def
  processXLogDataMsg_def writePiece_def OpenWalFile_def openOrCreate_def initWalFile_def
  createFileAndTruncate_def openFileAndFsync_def set_walfile_def WriteAtWalFile_def the_fd_def
  CloseWalFile_def closeAndRename_def closeNoRename_def updateLastFlushPosition_def SyncWalFile_def
  syncAndAdvance_def sendFeedback_def processKeepaliveMsg_def

lemmas run_world =
  os_Stat_def os_OpenFile_def os_Create_def os_Rename_def os_Remove_def f_WriteAt_def f_Truncate_def
  f_Close_def Fsync_def syscall_Fsync_def FsyncFname_def FsyncDir_def FsyncFnameAndDir_def os_OpenDir_def
  sync_dir_def fd_ino_def new_fd_def fresh_def set_data_def failing_def syscall_def time_Now_def
  lookup_def entries_in_def entries_out_def write_at_def truncate_to_def


definition demo_result :: stream where
  "demo_result = snd (handleCopyStream demo_api (demo_stream demo_events))"

lemma demo_sent:
  "c_sent demo_result =
     [SStatus \<lparr>WALWritePosition = 0, WALFlushPosition = 0, WALApplyPosition = 0, ClientTime = 0, ReplyRequested = False\<rparr>,
      SStatus \<lparr>WALWritePosition = 1, WALFlushPosition = 1, WALApplyPosition = 0, ClientTime = 0, ReplyRequested = False\<rparr>]"
  by (simp add: demo_result_def run_model run_world exec_simps demo_stream_def demo_names demo_events_def demo_api_def
      Let_def Second_def time_Sub_def time_zero_def)

lemma demo_seg: "walSegSz demo_result = 1"
  by (simp add: demo_result_def run_model run_world exec_simps demo_stream_def demo_names demo_events_def demo_api_def
      Let_def Second_def time_Sub_def time_zero_def)

lemma demo_ok:
  "cfg_ok (demo_stream evs)" "dir_ok (demo_stream evs)" "walfile (demo_stream evs) = None"
  "unat (startPos (demo_stream evs)) = 0" "c_inbox (demo_stream evs) = evs" "c_sent (demo_stream evs) = []"
  "seg_sz (demo_stream evs) = 1" "unat (lastFlushPosition (demo_stream evs)) = 0"
  "server_ok demo_api (\<lambda>_. CHR ''a'') 0 demo_events"
  by (simp_all add: demo_stream_def cfg_ok_def dir_ok_def lookup_def demo_dir_def IsPowerOf2_def
      demo_events_def demo_api_def word_le_nat_alt)

theorem acked_wal_is_stored_witness:
  "stored (\<lambda>_. CHR ''a'') demo_result 0"
proof (rule acked_wal_is_stored [where s = "demo_stream demo_events" and api = demo_api and t = demo_result])
  show "handleCopyStream demo_api (demo_stream demo_events) =
      (fst (handleCopyStream demo_api (demo_stream demo_events)), demo_result)"
    by (simp add: demo_result_def)
  show "SStatus \<lparr>WALWritePosition = 1, WALFlushPosition = 1, WALApplyPosition = 0, ClientTime = 0, ReplyRequested = False\<rparr>
      \<in> set (drop (length (c_sent (demo_stream demo_events))) (c_sent demo_result))"
    by (simp add: demo_sent demo_ok)
qed (simp_all add: demo_ok)

theorem acked_segment_is_archived_witness:
  "archived (\<lambda>_. CHR ''a'') demo_result 0"
proof (rule acked_segment_is_archived [where s = "demo_stream demo_events" and api = demo_api and t = demo_result])
  show "handleCopyStream demo_api (demo_stream demo_events) =
      (fst (handleCopyStream demo_api (demo_stream demo_events)), demo_result)"
    by (simp add: demo_result_def)
  show "SStatus \<lparr>WALWritePosition = 1, WALFlushPosition = 1, WALApplyPosition = 0, ClientTime = 0, ReplyRequested = False\<rparr>
      \<in> set (drop (length (c_sent (demo_stream demo_events))) (c_sent demo_result))"
    by (simp add: demo_sent demo_ok)
qed (simp_all add: demo_ok demo_seg)

end
