(* ===== verification/ArchiveStore.thy ===== *)
theory ArchiveStore
  imports VariadicSpec
begin

section \<open>The compressing and encrypting storage is itself a backend\<close>

text \<open>
  Over a reliable backend that holds every object under the write extension only, the storage of
  \<open>dynstor.go\<close> keeps the contract of the storage interface: its table of files is the decoded contents of the
  variants.  Whatever was proved of the contract's clients, the uploader first, then holds of the whole stack.
\<close>

subsection \<open>The table of logical files\<close>

definition dyn_good :: "Algorithms \<Rightarrow> (string \<Rightarrow> bool) \<Rightarrow> string \<Rightarrow> bool" where
  "dyn_good a good p \<longleftrightarrow> \<not> has_known_ext a p \<and> (\<forall>e \<in> set (supportedExts a). good (p @ e))"

definition dyn_read :: "cryptenv \<Rightarrow> Algorithms \<Rightarrow> string \<Rightarrow> bytes \<Rightarrow> gerr + io_reader" where
  "dyn_read E a n raw = DecryptAndDecompressOptional E (raw, EEOF) (tr_crypter (transformsFromName a n))
     (tr_decompressor (transformsFromName a n))"

definition dyn_inv :: "cryptenv \<Rightarrow> 's VariadicStorage \<Rightarrow> ('s \<Rightarrow> bool) \<Rightarrow> ('s \<Rightarrow> string \<Rightarrow> bytes option) \<Rightarrow> (string \<Rightarrow> bool) \<Rightarrow>
    's \<Rightarrow> bool" where
  "dyn_inv E vs ok files good s \<longleftrightarrow> ok s \<and> (\<forall>p. dyn_good (alg vs) good p \<longrightarrow>
     (\<forall>e \<in> set (supportedExts (alg vs)). e \<noteq> writeExt vs \<longrightarrow> files s (p @ e) = None) \<and>
     (\<forall>raw. files s (p @ writeExt vs) = Some raw \<longrightarrow> (\<exists>d. dyn_read E (alg vs) (p @ writeExt vs) raw = Inr (d, EEOF))))"

definition dyn_files :: "cryptenv \<Rightarrow> 's VariadicStorage \<Rightarrow> ('s \<Rightarrow> string \<Rightarrow> bytes option) \<Rightarrow> (string \<Rightarrow> bool) \<Rightarrow>
    's \<Rightarrow> string \<Rightarrow> bytes option" where
  "dyn_files E vs files good s p =
     (if dyn_good (alg vs) good p
      then map_option (\<lambda>raw. case dyn_read E (alg vs) (p @ writeExt vs) raw of Inr r \<Rightarrow> fst r | Inl _ \<Rightarrow> [])
        (files s (p @ writeExt vs))
      else None)"

lemma known_ext_append: "x \<in> set (supportedExts a) \<Longrightarrow> x \<noteq> '''' \<Longrightarrow> has_known_ext a (u @ x)"
  by (auto simp: has_known_ext_def)

lemma ext_suffixes:
  "list_all (\<lambda>x. list_all (\<lambda>y. x = y \<or> drop (length x - length y) x \<noteq> y \<or> y = '''' \<or> y = ''.aes'' \<and> (x = ''.gz.aes'' \<or> x = ''.zst.aes''))
     ['''', ''.gz'', ''.zst'', ''.aes'', ''.gz.aes'', ''.zst.aes'']) ['''', ''.gz'', ''.zst'', ''.aes'', ''.gz.aes'', ''.zst.aes'']"
  by code_simp

lemma ext_split:
  assumes "x \<in> set (supportedExts a)" and "y \<in> set (supportedExts a)" and "x = u @ y" and "x \<noteq> y"
  shows "u \<in> set (supportedExts a) \<and> u \<noteq> ''''"
proof -
  have u: "u = take (length x - length y) x" "drop (length x - length y) x = y" using assms(3) by simp_all
  have c: "z \<in> set ['''', ''.gz'', ''.zst'', ''.aes'', ''.gz.aes'', ''.zst.aes'']" if "z \<in> set (supportedExts a)" for z
    using that by (auto simp: supportedExts_def split: if_splits)
  from bspec [OF bspec [OF ext_suffixes [unfolded list_all_iff] c [OF assms(1)]] c [OF assms(2)]] u(2) assms(4)
  have "y = '''' \<or> y = ''.aes'' \<and> (x = ''.gz.aes'' \<or> x = ''.zst.aes'')" by argo
  then show ?thesis
  proof (elim disjE conjE)
    assume "y = ''''"
    with u(1) assms(1,4) show ?thesis by simp
  next
    assume "y = ''.aes''" "x = ''.gz.aes''"
    with u(1) have "u = ''.gz''" by simp
    with assms(1) \<open>x = ''.gz.aes''\<close> show ?thesis by (auto simp: supportedExts_def split: if_splits)
  next
    assume "y = ''.aes''" "x = ''.zst.aes''"
    with u(1) have "u = ''.zst''" by simp
    with assms(1) \<open>x = ''.zst.aes''\<close> show ?thesis by (auto simp: supportedExts_def split: if_splits)
  qed
qed

lemma ext_clash:
  assumes "isSupportedWriteExt a ext" and "e \<in> set (supportedExts a)" and "e \<noteq> ext" and "p @ e = q @ ext"
  shows "has_known_ext a p \<or> has_known_ext a q"
proof -
  have m: "ext \<in> set (supportedExts a)" by (rule writeExt_supported [OF assms(1)])
  from assms(4) consider u where "p = q @ u" "ext = u @ e" | u where "q = p @ u" "e = u @ ext"
    by (auto simp: append_eq_append_conv2)
  then show ?thesis
  proof cases
    case (1 u)
    with ext_split [OF m assms(2) 1(2)] assms(3) show ?thesis by (auto intro: known_ext_append)
  next
    case (2 u)
    with ext_split [OF assms(2) m 2(2)] assms(3) show ?thesis by (auto intro: known_ext_append)
  qed
qed

lemma has_suffix_ext:
  "has_suffix (p @ ''.gz'') ''.aes'' = False" "has_suffix (p @ ''.zst'') ''.aes'' = False" "has_suffix (p @ ''.zst'') ''.gz'' = False"
  "has_suffix (p @ ''.gz.aes'') ''.aes''" "trim_suffix (p @ ''.gz.aes'') ''.aes'' = p @ ''.gz''"
  "has_suffix (p @ ''.zst.aes'') ''.aes''" "trim_suffix (p @ ''.zst.aes'') ''.aes'' = p @ ''.zst''"
proof -
  have a: "p @ ''.gz.aes'' = (p @ ''.gz'') @ ''.aes''" "p @ ''.zst.aes'' = (p @ ''.zst'') @ ''.aes''" by simp_all
  show "has_suffix (p @ ''.gz.aes'') ''.aes''" "trim_suffix (p @ ''.gz.aes'') ''.aes'' = p @ ''.gz''"
    unfolding a(1) by (rule has_suffix_append, rule trim_suffix_append)
  show "has_suffix (p @ ''.zst.aes'') ''.aes''" "trim_suffix (p @ ''.zst.aes'') ''.aes'' = p @ ''.zst''"
    unfolding a(2) by (rule has_suffix_append, rule trim_suffix_append)
qed (simp_all add: has_suffix_def)

lemma transforms_of_ext:
  assumes "isSupportedWriteExt a ext" and "\<not> has_known_ext a p" and "\<not> has_known_ext a q"
  shows "transformsFromName a (p @ ext) = transformsFromName a (q @ ext)"
proof -
  have k: "AES a \<noteq> None \<Longrightarrow> \<not> has_suffix n ''.aes''" "Gzip a \<noteq> None \<Longrightarrow> \<not> has_suffix n ''.gz''" "Zstd a \<noteq> None \<Longrightarrow> \<not> has_suffix n ''.zst''"
    if "\<not> has_known_ext a n" for n
    using that by (auto simp: has_known_ext_def supportedExts_def)
  have "ext = '''' \<or> ext = ''.gz'' \<or> ext = ''.zst'' \<or> ext = ''.gz.aes'' \<or> ext = ''.zst.aes'' \<or> ext = ''.aes''"
    using assms(1) by (auto simp: isSupportedWriteExt_def split: if_splits)
  then show ?thesis
    using assms(1) k [OF assms(2)] k [OF assms(3)]
    by (elim disjE; cases "AES a"; cases "Gzip a"; cases "Zstd a")
      (simp_all add: transformsFromName_def isSupportedWriteExt_def has_suffix_ext Let_def)
qed

lemma decodePath_plain:
  assumes "\<not> has_known_ext a p"
  shows "decodePath a p = p"
proof -
  have "strip_first exts p = p" if "\<forall>x \<in> set exts. x \<noteq> '''' \<longrightarrow> \<not> has_suffix p x" for exts
    using that by (induction exts) auto
  with assms show ?thesis by (auto simp: decodePath_def has_known_ext_def)
qed

subsection \<open>A backend without surprises\<close>

text \<open>Deleting a file that is not there fails in no other way, and a put that fails leaves the old file.\<close>

locale storage_strict = storage_reliable +
  assumes delete_absent: "inv s \<Longrightarrow> good p \<Longrightarrow> files s p = None \<Longrightarrow>
      wp (st_Delete B p) (\<lambda>_ _. True) (\<lambda>e _. not_exist e) s"
    and put_atomic: "inv s \<Longrightarrow> good p \<Longrightarrow> wp (st_Put B p r) (\<lambda>_ _. True) (\<lambda>_ t. files t p = files s p) s"

context storage_strict
begin

lemma not_exist_real: "not_exist e \<Longrightarrow> \<not> is_abort e"
  by (cases e) (auto simp: not_exist_def)

lemma delete_none:
  assumes "inv s" and "good p" and "files s p = None"
  shows "wp (st_Delete B p) (\<lambda>_ t. inv t \<and> files t = files s) (\<lambda>e t. inv t \<and> files t = files s \<and> not_exist e) s"
  by (rule wp_conseq [OF wp_conj [OF delete_law [OF assms(1,2)] delete_absent [OF assms]]])
    (use assms(3) in \<open>auto simp: fun_upd_idem\<close>)

lemma exists_exact:
  assumes "inv s" and "good p"
  shows "wp (st_Exists B p) (\<lambda>b t. inv t \<and> files t = files s \<and> b = (files s p \<noteq> None)) (\<lambda>_ _. False) s"
  by (rule wp_conseq [OF wp_conj [OF exists_law [OF assms] exists_total [OF assms]]]) auto

lemma delete_loop_absent:
  "inv s \<Longrightarrow> \<forall>e \<in> set exts. good (p @ e) \<and> files s (p @ e) = None \<Longrightarrow>
   wp (delete_loop B p le exts) (\<lambda>_ t. inv t \<and> files t = files s \<and> le = None)
     (\<lambda>x t. inv t \<and> files t = files s \<and> le = Some x) s"
proof (induction exts arbitrary: s)
  case Nil
  then show ?case by (simp split: option.split)
next
  case (Cons e exts)
  have IH: "wp (delete_loop B p le exts) (\<lambda>_ t. inv t \<and> files t = files s \<and> le = None)
     (\<lambda>x t. inv t \<and> files t = files s \<and> le = Some x) t" if "inv t" "files t = files s" for t
    using Cons.IH [OF that(1)] Cons.prems(2) that(2) by simp
  show ?case
    by (simp, rule wp_conseq [OF delete_none [OF Cons.prems(1)]]) (use Cons.prems(2) in \<open>auto simp del: fun_upd_apply intro: IH dest: not_exist_real\<close>)
qed

lemma delete_loop_one:
  "inv s \<Longrightarrow> \<forall>e \<in> set exts. good (p @ e) \<and> (e \<noteq> x \<longrightarrow> files s (p @ e) = None) \<Longrightarrow> distinct exts \<Longrightarrow> x \<in> set exts \<Longrightarrow>
   wp (delete_loop B p None exts) (\<lambda>_ t. inv t \<and> files t = (files s)(p @ x := None))
     (\<lambda>e t. inv t \<and> files t = files s \<and> \<not> not_exist e) s"
proof (induction exts arbitrary: s)
  case (Cons e exts)
  show ?case
  proof (cases "e = x")
    case False
    have IH: "wp (delete_loop B p None exts) (\<lambda>_ t. inv t \<and> files t = (files s)(p @ x := None))
       (\<lambda>e t. inv t \<and> files t = files s \<and> \<not> not_exist e) t" if "inv t" "files t = files s" for t
      by (rule wp_conseq [OF Cons.IH [OF that(1)]]) (use Cons.prems(2-4) that(2) False in auto)
    show ?thesis
      by (simp del: fun_upd_apply, rule wp_conseq [OF delete_none [OF Cons.prems(1)]]) (use Cons.prems(2) False in \<open>auto simp del: fun_upd_apply intro: IH dest: not_exist_real\<close>)
  next
    case True
    have rest: "\<forall>e \<in> set exts. good (p @ e) \<and> files s (p @ e) = None" using Cons.prems(2,3) True by auto
    have gone: "wp (delete_loop B p None exts) (\<lambda>_ t. inv t \<and> files t = (files s)(p @ x := None))
       (\<lambda>e t. inv t \<and> files t = files s \<and> \<not> not_exist e) t" if "inv t" "files t = (files s)(p @ x := None)" for t
      by (rule wp_conseq [OF delete_loop_absent [OF that(1)]]) (use rest that(2) in auto)
    have kept: "wp (delete_loop B p (Some y) exts) (\<lambda>_ t. inv t \<and> files t = (files s)(p @ x := None))
       (\<lambda>e t. inv t \<and> files t = files s \<and> \<not> not_exist e) t" if "inv t" "files t = files s" "\<not> not_exist y" for t y
      by (rule wp_conseq [OF delete_loop_absent [OF that(1)]]) (use rest that(2,3) in auto)
    have absent: "wp (delete_loop B p None exts) (\<lambda>_ t. inv t \<and> files t = (files s)(p @ x := None))
       (\<lambda>e t. inv t \<and> files t = files s \<and> \<not> not_exist e) t" if "inv t" "files t = files s" "files s (p @ x) = None" for t
      by (rule gone [OF that(1)]) (simp add: that(2,3) fun_upd_idem)
    show ?thesis
      by (simp del: fun_upd_apply, rule wp_conseq [OF delete_law [OF Cons.prems(1)]])
        (use Cons.prems(2) True in \<open>auto simp del: fun_upd_apply intro: gone kept absent dest: not_exist_real\<close>)
  qed
qed simp

lemma rename_loop_absent:
  "inv s \<Longrightarrow> \<forall>e \<in> set exts. good (old @ e) \<and> files s (old @ e) = None \<Longrightarrow>
   wp (rename_loop B old new le exts) (\<lambda>_ t. inv t \<and> files t = files s \<and> le = None)
     (\<lambda>x t. inv t \<and> files t = files s \<and> le = Some x) s"
proof (induction exts arbitrary: s)
  case Nil
  then show ?case by (simp split: option.split)
next
  case (Cons e exts)
  have IH: "wp (rename_loop B old new le exts) (\<lambda>_ t. inv t \<and> files t = files s \<and> le = None)
     (\<lambda>x t. inv t \<and> files t = files s \<and> le = Some x) t" if "inv t" "files t = files s" for t
    using Cons.IH [OF that(1)] Cons.prems(2) that(2) by simp
  show ?case
    by (simp, rule wp_conseq [OF exists_exact [OF Cons.prems(1)]]) (use Cons.prems(2) in \<open>auto intro: IH\<close>)
qed

lemma rename_loop_one:
  "inv s \<Longrightarrow> \<forall>e \<in> set exts. good (old @ e) \<and> good (new @ e) \<and> old @ e \<noteq> new @ x \<and> (e \<noteq> x \<longrightarrow> files s (old @ e) = None) \<Longrightarrow>
   distinct exts \<Longrightarrow> x \<in> set exts \<Longrightarrow> files s (old @ x) \<noteq> None \<Longrightarrow>
   wp (rename_loop B old new None exts) (\<lambda>_ t. inv t \<and> files t = (files s)(old @ x := None, new @ x := files s (old @ x)))
     (\<lambda>_ t. inv t \<and> files t = files s) s"
proof (induction exts arbitrary: s)
  case (Cons e exts)
  let ?Q = "\<lambda>_ t. inv t \<and> files t = (files s)(old @ x := None, new @ x := files s (old @ x))"
    and ?R = "\<lambda>_ t. inv t \<and> files t = files s"
  have ex: "wp (st_Exists B (old @ e)) (\<lambda>b t. inv t \<and> files t = files s \<and> b = (files s (old @ e) \<noteq> None)) (\<lambda>_ _. False) s"
    using exists_exact [OF Cons.prems(1)] Cons.prems(2) by simp
  show ?case
  proof (cases "e = x")
    case False
    have IH: "wp (rename_loop B old new None exts) ?Q ?R t" if "inv t" "files t = files s" for t
      by (rule wp_conseq [OF Cons.IH [OF that(1)]]) (use Cons.prems(2-5) that(2) False in auto)
    show ?thesis
      by (simp del: fun_upd_apply, rule wp_conseq [OF ex]) (use Cons.prems(2) False in \<open>auto simp del: fun_upd_apply intro: IH dest: not_exist_real\<close>)
  next
    case True
    have rest: "\<forall>e \<in> set exts. good (old @ e) \<and> files s (old @ e) = None \<and> old @ e \<noteq> new @ x \<and> e \<noteq> x" using Cons.prems(2,3) True by auto
    have ok: "wp (rename_loop B old new None exts) ?Q ?R t"
      if "inv t" "files t = (files u)(old @ x := None, new @ x := files u (old @ x))" "files u = files s" for t u
      by (rule wp_conseq [OF rename_loop_absent [OF that(1)]]) (use rest that(2,3) in auto)
    have fail: "wp (rename_loop B old new (Some y) exts) ?Q ?R t" if "inv t" "files t = files u" "files u = files s" for t u y
      by (rule wp_conseq [OF rename_loop_absent [OF that(1)]]) (use rest that(2,3) in auto)
    have g: "good (old @ x)" "good (new @ x)" "old @ x \<noteq> new @ x" using Cons.prems(2) True by auto
    have ren: "wp (bindE (tryE (st_Rename B (old @ x) (new @ x))) (\<lambda>r'.
        rename_loop B old new (case r' of Inl e \<Rightarrow> Some e | Inr _ \<Rightarrow> None) exts)) ?Q ?R u"
      if "inv u" "files u = files s" for u
    proof -
      have n: "files u (old @ x) \<noteq> None" using that(2) Cons.prems(5) by simp
      show ?thesis
        by (simp only: wp_bindE wp_tryE, rule wp_conseq [OF rename_law [OF that(1) g n]])
          (use that(2) in \<open>auto intro: ok fail\<close>)
    qed
    show ?thesis
      by (simp only: rename_loop.simps wp_bindE wp_tryE, rule wp_conseq [OF ex])
        (use True Cons.prems(5) in \<open>auto simp del: wp_bindE wp_tryE intro!: ren\<close>)
  qed
qed simp

end

subsection \<open>The contract\<close>

context storage_strict
begin

lemma open_stored_law:
  assumes "inv s" and "good n" and "files s n = Some raw" and "Backend vs = B"
  shows "wp (open_stored E vs n) (\<lambda>r t. inv t \<and> files t = files s \<and> dyn_read E (alg vs) n raw = Inr r)
    (\<lambda>_ t. inv t \<and> files t = files s) s"
  unfolding open_stored_def Let_def wp_bindE assms(4)
  by (rule wp_conseq [OF wp_conj [OF get_law [OF assms(1,2)] get_total [OF assms(1-3)]]])
    (auto simp: dyn_read_def split: sum.split)

lemma dyn_only:
  "dyn_inv E vs inv files good s \<Longrightarrow> dyn_good (alg vs) good p \<Longrightarrow> e \<in> set (supportedExts (alg vs)) \<Longrightarrow> files s (p @ e) \<noteq> None \<Longrightarrow> e = writeExt vs"
  by (rule ccontr) (auto simp: dyn_inv_def)

lemma dyn_stored:
  assumes "dyn_inv E vs inv files good s" and "dyn_good (alg vs) good p" and "first_ext (supportedExts (alg vs)) (files s) p = Some e"
  shows "e = writeExt vs \<and> files s (p @ writeExt vs) \<noteq> None"
proof -
  have e: "e \<in> set (supportedExts (alg vs))" "files s (p @ e) \<noteq> None"
    using assms(3) by (auto simp: first_ext_def find_Some_iff)
  with dyn_only [OF assms(1,2) e] show ?thesis by simp
qed

lemma dyn_inv_upd:
  assumes "dyn_inv E vs inv files good s" and "isSupportedWriteExt (alg vs) (writeExt vs)" and "dyn_good (alg vs) good p"
    and "inv t" and "\<And>q. good q \<Longrightarrow> q \<noteq> p @ writeExt vs \<Longrightarrow> files t q = files s q"
    and "\<And>raw. files t (p @ writeExt vs) = Some raw \<Longrightarrow> \<exists>d. dyn_read E (alg vs) (p @ writeExt vs) raw = Inr (d, EEOF)"
  shows "dyn_inv E vs inv files good t"
  unfolding dyn_inv_def
proof (intro conjI allI impI ballI)
  fix q e assume q: "dyn_good (alg vs) good q" "e \<in> set (supportedExts (alg vs))" "e \<noteq> writeExt vs"
  then have "q @ e \<noteq> p @ writeExt vs" using ext_clash [OF assms(2) q(2,3)] assms(3) by (auto simp: dyn_good_def)
  moreover have "good (q @ e)" using q by (auto simp: dyn_good_def)
  ultimately show "files t (q @ e) = None" using assms(1,5) q by (auto simp: dyn_inv_def)
next
  fix q raw assume q: "dyn_good (alg vs) good q" "files t (q @ writeExt vs) = Some raw"
  show "\<exists>d. dyn_read E (alg vs) (q @ writeExt vs) raw = Inr (d, EEOF)"
  proof (cases "q = p")
    case True
    with assms(6) q(2) show ?thesis by blast
  next
    case False
    then have "files t (q @ writeExt vs) = files s (q @ writeExt vs)"
      using assms(5) q(1) writeExt_supported [OF assms(2)] by (auto simp: dyn_good_def)
    with assms(1) q show ?thesis by (simp add: dyn_inv_def)
  qed
qed (rule assms(4))

lemma dyn_files_upd:
  assumes "dyn_good (alg vs) good p" and "files t = (files s)(p @ writeExt vs := r)"
  shows "dyn_files E vs files good t = (dyn_files E vs files good s)(p :=
    map_option (\<lambda>raw. case dyn_read E (alg vs) (p @ writeExt vs) raw of Inr r \<Rightarrow> fst r | Inl _ \<Rightarrow> []) r)"
  using assms by (auto simp: dyn_files_def fun_eq_iff)

lemma dyn_same:
  "dyn_inv E vs inv files good s \<Longrightarrow> inv t \<Longrightarrow> files t = files s \<Longrightarrow>
   dyn_inv E vs inv files good t \<and> dyn_files E vs files good t = dyn_files E vs files good s"
  by (simp add: dyn_inv_def dyn_files_def fun_eq_iff)

lemma dyn_exists:
  assumes "dyn_inv E vs inv files good s" and "dyn_good (alg vs) good p" and "isSupportedWriteExt (alg vs) (writeExt vs)"
    and "Backend vs = B"
  shows "wp (var_Exists vs p)
    (\<lambda>b t. dyn_inv E vs inv files good t \<and> dyn_files E vs files good t = dyn_files E vs files good s \<and> b = (dyn_files E vs files good s p \<noteq> None))
    (\<lambda>e t. dyn_inv E vs inv files good t \<and> dyn_files E vs files good t = dyn_files E vs files good s \<and> \<not> not_exist e) s"
proof -
  have i: "inv s" and g: "\<forall>e \<in> set (supportedExts (alg vs)). good (p @ e)" using assms(1,2) by (auto simp: dyn_inv_def dyn_good_def)
  have f: "wp (find_first B p (supportedExts (alg vs)))
     (\<lambda>n t. inv t \<and> files t = files s \<and> files s (p @ writeExt vs) \<noteq> None)
     (\<lambda>x t. inv t \<and> files t = files s \<and> (not_exist x \<longrightarrow> files s (p @ writeExt vs) = None)) s"
  proof (rule wp_conseq [OF find_first_wp [OF i g]])
    fix n t assume "inv t \<and> files t = files s \<and> (\<exists>e. first_ext (supportedExts (alg vs)) (files s) p = Some e \<and> n = p @ e)"
    then show "inv t \<and> files t = files s \<and> files s (p @ writeExt vs) \<noteq> None" using dyn_stored [OF assms(1,2)] by blast
  next
    fix x t assume a: "inv t \<and> files t = files s \<and> (not_exist x \<longrightarrow> first_ext (supportedExts (alg vs)) (files s) p = None)"
    have "first_ext (supportedExts (alg vs)) (files s) p = None \<Longrightarrow> files s (p @ writeExt vs) = None"
      using writeExt_supported [OF assms(3)] by (auto simp: first_ext_def find_None_iff)
    with a show "inv t \<and> files t = files s \<and> (not_exist x \<longrightarrow> files s (p @ writeExt vs) = None)" by blast
  qed
  have d: "dyn_files E vs files good s p = None \<longleftrightarrow> files s (p @ writeExt vs) = None" using assms(2) by (simp add: dyn_files_def)
  have "wp (var_Exists vs p) (\<lambda>b t. inv t \<and> files t = files s \<and> b = (dyn_files E vs files good s p \<noteq> None))
    (\<lambda>e t. inv t \<and> files t = files s \<and> \<not> not_exist e) s"
    unfolding var_Exists_def findExistingName_def wp_bindE wp_tryE assms(4)
    by (rule wp_conseq [OF f]) (auto simp: d simp del: not_None_eq dest: not_exist_real)
  then show ?thesis by (rule wp_conseq) (elim conjE, drule (1) dyn_same [OF assms(1)], simp)+
qed

lemma dyn_get:
  assumes "dyn_inv E vs inv files good s" and "dyn_good (alg vs) good p" and "Backend vs = B"
  shows "wp (var_Get E vs p)
    (\<lambda>r t. dyn_inv E vs inv files good t \<and> dyn_files E vs files good t = dyn_files E vs files good s \<and>
       (snd r = EEOF \<longrightarrow> dyn_files E vs files good s p = Some (fst r)))
    (\<lambda>e t. dyn_inv E vs inv files good t \<and> dyn_files E vs files good t = dyn_files E vs files good s) s"
proof -
  have i: "inv s" and g: "\<forall>e \<in> set (supportedExts (alg vs)). good (p @ e)" and k: "\<not> has_known_ext (alg vs) p"
    using assms(1,2) by (auto simp: dyn_inv_def dyn_good_def)
  have f: "wp (find_first B p (supportedExts (alg vs)))
     (\<lambda>n t. inv t \<and> files t = files s \<and> n = p @ writeExt vs \<and> (\<exists>raw. files s n = Some raw) \<and> good n)
     (\<lambda>x t. inv t \<and> files t = files s) s"
  proof (rule wp_conseq [OF find_first_wp [OF i g]])
    fix n t assume "inv t \<and> files t = files s \<and> (\<exists>e. first_ext (supportedExts (alg vs)) (files s) p = Some e \<and> n = p @ e)"
    then show "inv t \<and> files t = files s \<and> n = p @ writeExt vs \<and> (\<exists>raw. files s n = Some raw) \<and> good n"
      using dyn_stored [OF assms(1,2)] g by (auto simp: first_ext_def find_Some_iff)
  qed auto
  have o: "wp (open_stored E vs n)
    (\<lambda>r t. inv t \<and> files t = files s \<and> (snd r = EEOF \<longrightarrow> dyn_files E vs files good s p = Some (fst r)))
    (\<lambda>e t. inv t \<and> files t = files s) t"
    if "inv t" "files t = files s" "n = p @ writeExt vs" "files s n = Some raw" "good n" for n t raw
    by (rule wp_conseq [OF open_stored_law [OF that(1,5) _ assms(3), of raw]])
      (use that assms(2) in \<open>auto simp: dyn_files_def\<close>)
  have "wp (var_Get E vs p)
    (\<lambda>r t. inv t \<and> files t = files s \<and> (snd r = EEOF \<longrightarrow> dyn_files E vs files good s p = Some (fst r)))
    (\<lambda>e t. inv t \<and> files t = files s) s"
    unfolding var_Get_def findExistingName_def assms(3)
    by (simp only: k if_False wp_bindE, rule wp_conseq [OF f]) (elim conjE exE, rule o, assumption+)
  then show ?thesis by (rule wp_conseq) (elim conjE, drule (1) dyn_same [OF assms(1)], simp)+
qed

end

context storage_strict
begin

lemma dyn_put:
  assumes "dyn_inv E vs inv files good s" and "dyn_good (alg vs) good p" and "isSupportedWriteExt (alg vs) (writeExt vs)"
    and "Backend vs = B" and "env_ok E" and "alg_ok (alg vs)"
  shows "wp (var_Put E vs p r)
    (\<lambda>_ t. dyn_inv E vs inv files good t \<and> snd r = EEOF \<and>
       dyn_files E vs files good t = (dyn_files E vs files good s)(p \<mapsto> fst r))
    (\<lambda>e t. dyn_inv E vs inv files good t \<and>
       (\<forall>q. q \<noteq> p \<longrightarrow> dyn_good (alg vs) good q \<longrightarrow> dyn_files E vs files good t q = dyn_files E vs files good s q)) s"
proof -
  let ?n = "p @ writeExt vs"
  let ?tr = "transformsFromName (alg vs) ?n"
  let ?raw = "CompressAndEncryptOptional E r (tr_compressor ?tr) (tr_crypter ?tr)"
  have i: "inv s" "good ?n" using assms(1,2) writeExt_supported [OF assms(3)] by (auto simp: dyn_inv_def dyn_good_def)
  have rd: "snd r = EEOF \<and> dyn_read E (alg vs) ?n (fst ?raw) = Inr r" if "snd ?raw = EEOF"
  proof -
    obtain d e where r: "r = (d, e)" by (cases r)
    have e: "e = EEOF" using pipe_error [OF assms(5) transforms_ok [OF assms(6)], of e d] that r by fastforce
    have "?raw = (fst ?raw, EEOF)" using that by (metis prod.collapse)
    then show ?thesis
      using pipe_roundtrip [OF assms(5) transforms_ok [OF assms(6)], of d ?n "tr_crypter ?tr"] by (simp add: r e dyn_read_def)
  qed
  show ?thesis
    unfolding var_Put_def encodePath_def Let_def assms(4)
  proof (rule wp_conseq [OF wp_conj [OF put_law [OF i] put_atomic [OF i]]])
    fix u t assume "(inv t \<and> snd ?raw = EEOF \<and> files t = (files s)(?n \<mapsto> fst ?raw)) \<and> True"
    then have a: "inv t" "snd ?raw = EEOF" "files t = (files s)(?n \<mapsto> fst ?raw)" by blast+
    from rd [OF a(2)] have r: "snd r = EEOF" "dyn_read E (alg vs) ?n (fst ?raw) = Inr r" by blast+
    have "dyn_inv E vs inv files good t"
      by (rule dyn_inv_upd [OF assms(1,3,2) a(1)]) (use a(3) r in \<open>auto intro!: exI [of _ "fst r"] simp: prod_eq_iff\<close>)
    moreover have "dyn_files E vs files good t = (dyn_files E vs files good s)(p :=
        map_option (\<lambda>raw. case dyn_read E (alg vs) ?n raw of Inr r \<Rightarrow> fst r | Inl _ \<Rightarrow> []) (Some (fst ?raw)))"
      by (rule dyn_files_upd [OF assms(2)]) (use a(3) in simp)
    ultimately show "dyn_inv E vs inv files good t \<and> snd r = EEOF \<and>
       dyn_files E vs files good t = (dyn_files E vs files good s)(p \<mapsto> fst r)" using r by simp
  next
    fix e t assume a: "(inv t \<and> (\<forall>q. q \<noteq> ?n \<longrightarrow> good q \<longrightarrow> files t q = files s q)) \<and> files t ?n = files s ?n"
    have "dyn_inv E vs inv files good t"
      by (rule dyn_inv_upd [OF assms(1,3,2)]) (use a assms(1,2) in \<open>auto simp: dyn_inv_def\<close>)
    moreover have "dyn_files E vs files good t q = dyn_files E vs files good s q" if "q \<noteq> p" for q
      using a that writeExt_supported [OF assms(3)] by (auto simp: dyn_files_def dyn_good_def)
    ultimately show "dyn_inv E vs inv files good t \<and>
       (\<forall>q. q \<noteq> p \<longrightarrow> dyn_good (alg vs) good q \<longrightarrow> dyn_files E vs files good t q = dyn_files E vs files good s q)" by blast
  qed
qed

lemma dyn_delete:
  assumes "dyn_inv E vs inv files good s" and "dyn_good (alg vs) good p" and "isSupportedWriteExt (alg vs) (writeExt vs)"
    and "Backend vs = B"
  shows "wp (var_Delete vs p)
    (\<lambda>_ t. dyn_inv E vs inv files good t \<and> dyn_files E vs files good t = (dyn_files E vs files good s)(p := None))
    (\<lambda>e t. dyn_inv E vs inv files good t \<and> dyn_files E vs files good t = dyn_files E vs files good s \<and>
       (not_exist e \<longrightarrow> dyn_files E vs files good s p = None)) s"
proof -
  have i: "inv s" and w: "writeExt vs \<in> set (supportedExts (alg vs))"
    and g: "\<forall>e \<in> set (supportedExts (alg vs)). good (p @ e) \<and> (e \<noteq> writeExt vs \<longrightarrow> files s (p @ e) = None)"
    using assms(1,2) writeExt_supported [OF assms(3)] by (auto simp: dyn_inv_def dyn_good_def)
  show ?thesis
    unfolding var_Delete_def assms(4)
  proof (rule wp_conseq [OF delete_loop_one [OF i g distinct_supportedExts w]])
    fix u t assume a: "inv t \<and> files t = (files s)(p @ writeExt vs := None)"
    have "dyn_inv E vs inv files good t" by (rule dyn_inv_upd [OF assms(1,3,2)]) (use a in auto)
    with a dyn_files_upd [OF assms(2), of t s None E]
    show "dyn_inv E vs inv files good t \<and> dyn_files E vs files good t = (dyn_files E vs files good s)(p := None)" by simp
  next
    fix e t assume a: "inv t \<and> files t = files s \<and> \<not> not_exist e"
    then show "dyn_inv E vs inv files good t \<and> dyn_files E vs files good t = dyn_files E vs files good s \<and>
       (not_exist e \<longrightarrow> dyn_files E vs files good s p = None)"
      using dyn_same [OF assms(1), of t] by blast
  qed
qed

lemma dyn_rename:
  assumes "dyn_inv E vs inv files good s" and p: "dyn_good (alg vs) good p" and q: "dyn_good (alg vs) good q"
    and "isSupportedWriteExt (alg vs) (writeExt vs)" and "Backend vs = B" and "p \<noteq> q" and "dyn_files E vs files good s p \<noteq> None"
  shows "wp (var_Rename vs p q)
    (\<lambda>_ t. dyn_inv E vs inv files good t \<and>
       dyn_files E vs files good t = (dyn_files E vs files good s)(p := None, q := dyn_files E vs files good s p))
    (\<lambda>e t. dyn_inv E vs inv files good t \<and> dyn_files E vs files good t = dyn_files E vs files good s) s"
proof -
  let ?w = "writeExt vs"
  let ?c = "\<lambda>n. map_option (\<lambda>raw. case dyn_read E (alg vs) n raw of Inr r \<Rightarrow> fst r | Inl _ \<Rightarrow> [])"
  have i: "inv s" and w: "?w \<in> set (supportedExts (alg vs))" using assms(1) writeExt_supported [OF assms(4)] by (auto simp: dyn_inv_def)
  have ne: "p @ e \<noteq> q @ ?w" if "e \<in> set (supportedExts (alg vs))" for e
    using ext_clash [OF assms(4) that] p q assms(6) by (cases "e = ?w") (auto simp: dyn_good_def)
  have g: "\<forall>e \<in> set (supportedExts (alg vs)). good (p @ e) \<and> good (q @ e) \<and> p @ e \<noteq> q @ ?w \<and> (e \<noteq> ?w \<longrightarrow> files s (p @ e) = None)"
    using assms(1) p q ne by (auto simp: dyn_inv_def dyn_good_def)
  have f: "files s (p @ ?w) \<noteq> None" using assms(7) p by (simp add: dyn_files_def)
  have d: "decodePath (alg vs) p = p" "decodePath (alg vs) q = q" using p q by (auto simp: dyn_good_def decodePath_plain)
  have tr: "transformsFromName (alg vs) (q @ ?w) = transformsFromName (alg vs) (p @ ?w)"
    by (rule transforms_of_ext [OF assms(4)]) (use p q in \<open>auto simp: dyn_good_def\<close>)
  have c: "?c (q @ ?w) r = ?c (p @ ?w) r" for r by (simp add: dyn_read_def tr)
  show ?thesis
    unfolding var_Rename_def Let_def d assms(5) if_not_P [OF assms(6)]
  proof (rule wp_conseq [OF rename_loop_one [OF i g distinct_supportedExts w f]])
    fix u t assume a: "inv t \<and> files t = (files s)(p @ ?w := None, q @ ?w := files s (p @ ?w))"
    let ?m = "(files s)(p @ ?w := None)"
    have "dyn_inv E vs inv files good t"
      unfolding dyn_inv_def
    proof (intro conjI allI impI ballI)
      fix x e assume x: "dyn_good (alg vs) good x" "e \<in> set (supportedExts (alg vs))" "e \<noteq> ?w"
      then have "x @ e \<noteq> q @ ?w" using ext_clash [OF assms(4) x(2,3)] q by (auto simp: dyn_good_def)
      then show "files t (x @ e) = None" using a assms(1) x by (simp add: dyn_inv_def)
    next
      fix x raw assume x: "dyn_good (alg vs) good x" "files t (x @ ?w) = Some raw"
      then show "\<exists>d. dyn_read E (alg vs) (x @ ?w) raw = Inr (d, EEOF)"
        using a assms(1) p by (cases "x = q") (auto simp: dyn_inv_def dyn_read_def tr split: if_splits)
    qed (use a in simp)
    moreover have "dyn_files E vs files good t x =
        ((dyn_files E vs files good s)(p := None, q := dyn_files E vs files good s p)) x" for x
      using a p q c [of "files s (p @ ?w)"] by (auto simp: dyn_files_def)
    ultimately show "dyn_inv E vs inv files good t \<and>
       dyn_files E vs files good t = (dyn_files E vs files good s)(p := None, q := dyn_files E vs files good s p)" by blast
  next
    fix e t assume "inv t \<and> files t = files s"
    then show "dyn_inv E vs inv files good t \<and> dyn_files E vs files good t = dyn_files E vs files good s"
      using dyn_same [OF assms(1), of t] by blast
  qed
qed

text \<open>The whole contract, for any environment, codecs that invert each other and a supported write extension.\<close>

lemma var_backend:
  assumes "env_ok E" and "alg_ok (alg vs)" and "isSupportedWriteExt (alg vs) (writeExt vs)" and "Backend vs = B"
  shows "storage_backend (var_storage E vs) (dyn_inv E vs inv files good) (dyn_files E vs files good) (dyn_good (alg vs) good)"
  by unfold_locales
    (simp_all add: var_storage_def dyn_exists [OF _ _ assms(3,4)] dyn_put [OF _ _ assms(3,4,1,2)] dyn_get [OF _ _ assms(4)]
      dyn_delete [OF _ _ assms(3,4)] dyn_rename [OF _ _ _ assms(3,4)] del: not_None_eq)

end

subsection \<open>Properties\<close>

interpretation mems: storage_strict mem_storage "\<lambda>_. True" mem_files "\<lambda>_. True"
proof unfold_locales
  fix s :: InMemoryStorage and p r
  show "mem_files s p = None \<Longrightarrow> wp (st_Delete mem_storage p) (\<lambda>_ _. True) (\<lambda>e _. not_exist e) s"
    by (simp add: mem_storage_def mem_Delete_def mem_files_def not_exist_def split: option.split)
  show "wp (st_Put mem_storage p r) (\<lambda>_ _. True) (\<lambda>_ t. mem_files t p = mem_files s p) s"
    by (simp add: mem_storage_def mem_Put_def io_ReadAll_def split: prod.split)
qed

text \<open>The logical files of a storage over the in-memory backend, and its states in which every object is stored under
  the write extension and complete.\<close>

definition logical_files :: "cryptenv \<Rightarrow> InMemoryStorage VariadicStorage \<Rightarrow> InMemoryStorage \<Rightarrow> string \<Rightarrow> bytes option" where
  "logical_files E vs = dyn_files E vs mem_files (\<lambda>_. True)"

definition one_variant :: "cryptenv \<Rightarrow> InMemoryStorage VariadicStorage \<Rightarrow> InMemoryStorage \<Rightarrow> bool" where
  "one_variant E vs = dyn_inv E vs (\<lambda>_. True) mem_files (\<lambda>_. True)"

lemma dyn_good_all: "dyn_good a (\<lambda>_. True) = (\<lambda>p. \<not> has_known_ext a p)"
  by (simp add: dyn_good_def fun_eq_iff)

lemma one_variant_empty: "one_variant E vs (NewInMemoryStorage n)"
  by (simp add: one_variant_def dyn_inv_def mem_files_def NewInMemoryStorage_def)

lemma mem_var_backend:
  assumes "env_ok E" and "alg_ok (alg vs)" and "isSupportedWriteExt (alg vs) (writeExt vs)" and "Backend vs = mem_storage"
  shows "storage_backend (var_storage E vs) (one_variant E vs) (logical_files E vs) (\<lambda>p. \<not> has_known_ext (alg vs) p)"
  using mems.var_backend [OF assms] by (simp add: one_variant_def logical_files_def dyn_good_all)

lemma stored_logical:
  assumes "one_variant E vs s" and "isSupportedWriteExt (alg vs) (writeExt vs)" and "Backend vs = mem_storage"
    and "\<not> has_known_ext (alg vs) p" and "logical_files E vs s p = Some d"
  shows "fst (var_Get E vs p s) = Inr (d, EEOF)"
proof -
  have g: "dyn_good (alg vs) (\<lambda>_. True) p" using assms(4) by (simp add: dyn_good_all)
  obtain raw where raw: "mem_files s (p @ writeExt vs) = Some raw"
    "(case dyn_read E (alg vs) (p @ writeExt vs) raw of Inr r \<Rightarrow> fst r | Inl _ \<Rightarrow> []) = d"
    using assms(5) g by (auto simp: logical_files_def dyn_files_def)
  then have rd: "dyn_read E (alg vs) (p @ writeExt vs) raw = Inr (d, EEOF)"
    using assms(1) g unfolding one_variant_def dyn_inv_def by fastforce
  have "first_ext (supportedExts (alg vs)) (mem_files s) p = Some (writeExt vs)"
    unfolding first_ext_def
  proof (rule find_prefix [OF writeExt_supported [OF assms(2)]])
    show "\<forall>e \<in> set (takeWhile (\<lambda>e. e \<noteq> writeExt vs) (supportedExts (alg vs))). \<not> mem_files s (p @ e) \<noteq> None"
      using assms(1) g by (auto simp: one_variant_def dyn_inv_def dest!: set_takeWhileD)
  qed (simp add: raw(1))
  from mem_var_Get [OF assms(3,4) this raw(1)] rd show ?thesis by (simp add: dyn_read_def)
qed



end
