(* ===== verification/UploadSpec.thy ===== *)
theory UploadSpec
  imports Upload
begin

section \<open>No received segment is lost by the uploader\<close>

text \<open>
  The workers' calls interleave freely, the context is cancelled at any time, every call may fail, and the
  receiver goes on changing the files that are not being uploaded.  The invariant says that every file
  chosen for upload is still in the receive directory as it was, or is in the storage with exactly its
  contents.
\<close>

text \<open>One move of a worker, or of the receiver.\<close>

inductive pool_step :: "'st uploader \<Rightarrow> string list \<Rightarrow> 'st pool \<Rightarrow> 'st pool \<Rightarrow> bool" for u files where
  work: "pool_live P i \<Longrightarrow> pool_step u files P (pool_exec u i c P)"
| receive: "\<forall>p \<in> set files. file_content w p = file_content (fst (pl_state P)) p \<Longrightarrow>
    pool_step u files P (P\<lparr>pl_state := (w, snd (pl_state P))\<rparr>)"

inductive_cases pool_stepE: "pool_step u files P Q"

lemma run_pool_workers: "run_pool u sched P = Some Q \<Longrightarrow> length (pl_workers Q) = length (pl_workers P)"
proof (induction sched arbitrary: P)
  case Nil
  then show ?case by (simp add: run_pool.simps [of u "[]"] split: if_splits)
next
  case (Cons m sched)
  obtain i c where m: "m = (i, c)" by (cases m)
  show ?case
  proof (cases "pool_over P")
    case True
    with Cons.prems show ?thesis by (simp add: run_pool_over)
  next
    case False
    with Cons.prems Cons.IH [of P] Cons.IH [of "pool_exec u i c P"] show ?thesis
      by (simp add: m run_pool_step pool_exec_workers split: if_splits)
  qed
qed

context storage_backend
begin

text \<open>What one call of a job does to the disk and to the storage.\<close>

definition call_effect :: "stage \<Rightarrow> world \<Rightarrow> 's \<Rightarrow> gerr + outcome \<Rightarrow> world \<Rightarrow> 's \<Rightarrow> bool" where
  "call_effect st w x r w' x' \<longleftrightarrow>
     (\<forall>q. file_content w' q = file_content w q \<or> q = stage_path st \<and> st = Removing q \<and> r = Inr (Finished None) \<and> file_content w' q = None) \<and>
     inv x' \<and> (\<forall>q. good q \<longrightarrow> q \<noteq> filepath_Base (stage_path st) \<longrightarrow> files x' q = files x q) \<and>
     ((\<forall>p r'. st \<noteq> Putting p r') \<longrightarrow> files x' = files x) \<and>
     (\<forall>st'. r = Inr (Continue st') \<longrightarrow> stage_path st' = stage_path st) \<and>
     (\<forall>p r'. r = Inr (Continue (Putting p r')) \<longrightarrow> st = Opening p \<and> (snd r' = EEOF \<longrightarrow> file_content w p = Some (fst r'))) \<and>
     (\<forall>p. r = Inr (Continue (Closing p)) \<longrightarrow>
        (\<exists>r'. st = Putting p r' \<and> snd r' = EEOF \<and> files x' (filepath_Base p) = Some (fst r'))) \<and>
     (\<forall>p. r = Inr (Continue (Removing p)) \<longrightarrow> st = Closing p) \<and>
     (r = Inr (Finished None) \<longrightarrow> file_content w' (stage_path st) = None)"

lemma upload_step_effect:
  assumes "inv (snd s)" and "good (filepath_Base (stage_path st))" and "up_stor u = B"
  shows "wp (upload_step u st) (\<lambda>o' t. call_effect st (fst s) (snd s) (Inr o') (fst t) (snd t))
     (\<lambda>e t. call_effect st (fst s) (snd s) (Inl e) (fst t) (snd t)) s"
proof (cases st)
  case (Opening p)
  then show ?thesis
    using assms(1) by (simp add: after_def os_Open_def call_effect_def file_content_def EISDIR_def split: option.split)
next
  case (Putting p r)
  with assms(2) have g: "good (filepath_Base p)" by simp
  have "wp (on_snd (st_Put B (filepath_Base p) r))
      (\<lambda>_ t. fst t = fst s \<and> inv (snd t) \<and> snd r = EEOF \<and> files (snd t) = (files (snd s))(filepath_Base p \<mapsto> fst r))
      (\<lambda>e t. fst t = fst s \<and> inv (snd t) \<and> (\<forall>q. q \<noteq> filepath_Base p \<longrightarrow> good q \<longrightarrow> files (snd t) q = files (snd s) q)) s"
    by simp (rule wp_conseq [OF put_law [OF assms(1) g]]; simp)
  then show ?thesis
    unfolding Putting upload_step.simps after_def wp_bindE wp_tryE assms(3)
    by (rule wp_conseq) (auto simp: call_effect_def)
next
  case (Removing p)
  then show ?thesis
    using assms(1) by (simp add: after_def os_Remove_def call_effect_def file_content_def lookup_def delete_conv' split: option.split)
qed (use assms(1) in \<open>simp_all add: after_def call_effect_def split: option.split\<close>)

text \<open>The invariant: \<open>orig\<close> is what the files held when they were chosen.\<close>

definition held :: "'s pool \<Rightarrow> nat \<Rightarrow> stage \<Rightarrow> bool" where
  "held P i st \<longleftrightarrow> i < length (pl_workers P) \<and> pl_workers P ! i = Busy st"

definition waiting :: "'s pool \<Rightarrow> string \<Rightarrow> bool" where
  "waiting P p \<longleftrightarrow> p \<in> set (pl_queue P) \<or> (\<exists>i st. held P i st \<and> stage_path st = p)"

definition stage_ok :: "(string \<Rightarrow> bytes option) \<Rightarrow> 's pool \<Rightarrow> stage \<Rightarrow> bool" where
  "stage_ok orig P st \<longleftrightarrow>
     (case st of
        Putting p r \<Rightarrow> snd r = EEOF \<longrightarrow> orig p = Some (fst r)
      | Closing p \<Rightarrow> orig p \<noteq> None \<and> files (snd (pl_state P)) (filepath_Base p) = orig p
      | Removing p \<Rightarrow> orig p \<noteq> None \<and> files (snd (pl_state P)) (filepath_Base p) = orig p
      | _ \<Rightarrow> True)"

definition kept_or_stored :: "(string \<Rightarrow> bytes option) \<Rightarrow> 's pool \<Rightarrow> string \<Rightarrow> bool" where
  "kept_or_stored orig P p \<longleftrightarrow>
     file_content (fst (pl_state P)) p = orig p \<or>
     file_content (fst (pl_state P)) p = None \<and> \<not> waiting P p \<and> files (snd (pl_state P)) (filepath_Base p) = orig p"

definition pool_inv :: "(string \<Rightarrow> bytes option) \<Rightarrow> string list \<Rightarrow> 's pool \<Rightarrow> bool" where
  "pool_inv orig fs P \<longleftrightarrow>
     inv (snd (pl_state P)) \<and> distinct (pl_queue P) \<and> (\<forall>p. waiting P p \<longrightarrow> p \<in> set fs) \<and>
     (\<forall>i st. held P i st \<longrightarrow> stage_path st \<notin> set (pl_queue P) \<and> stage_ok orig P st \<and>
        (\<forall>j st'. held P j st' \<longrightarrow> stage_path st' = stage_path st \<longrightarrow> j = i)) \<and>
     (\<forall>p \<in> set fs. kept_or_stored orig P p)"

lemma pool_call:
  assumes I: "pool_inv orig fs P" and h: "held P i st"
    and eff: "call_effect st (fst (pl_state P)) (snd (pl_state P)) r w' x'"
    and P': "pl_state P' = (w', x')" "pl_queue P' = pl_queue P"
    and held': "\<And>j st'. held P' j st' \<longleftrightarrow> (if j = i then st_new = Some st' else held P j st')"
    and st_new: "\<And>st'. st_new = Some st' \<Longrightarrow> r = Inr (Continue st') \<or> st' = st \<and> (\<exists>e. r = Inl e)"
    and inj: "inj_on filepath_Base (set fs)" and good: "\<forall>p \<in> set fs. good (filepath_Base p)"
  shows "pool_inv orig fs P'"
proof -
  let ?w = "fst (pl_state P)" and ?x = "snd (pl_state P)"
  note E = eff [unfolded call_effect_def]
  have path: "stage_path st' = stage_path st" if "st_new = Some st'" for st' using st_new [OF that] E by blast
  have wp_st: "waiting P (stage_path st)" using h by (auto simp: waiting_def)
  have I': "distinct (pl_queue P)" "\<And>p. waiting P p \<Longrightarrow> p \<in> set fs" "\<And>p. p \<in> set fs \<Longrightarrow> kept_or_stored orig P p"
    using I by (auto simp: pool_inv_def)
  have H: "\<And>j sj. held P j sj \<Longrightarrow> stage_path sj \<notin> set (pl_queue P) \<and> stage_ok orig P sj"
    and U: "\<And>j sj k sk. held P j sj \<Longrightarrow> held P k sk \<Longrightarrow> stage_path sk = stage_path sj \<Longrightarrow> k = j"
    using I unfolding pool_inv_def by blast+
  have wait: "waiting P p" if "waiting P' p" for p
    using that h path unfolding waiting_def held' P'(2) by (auto split: if_splits)
  have other: "files x' (filepath_Base p) = files ?x (filepath_Base p)" if "p \<in> set fs" "p \<noteq> stage_path st" for p
  proof -
    have "filepath_Base p \<noteq> filepath_Base (stage_path st)"
      using inj_onD [OF inj] that I'(2) [OF wp_st] by blast
    with E good that(1) show ?thesis by blast
  qed
  have orig_st: "file_content ?w (stage_path st) = orig (stage_path st)"
    using I'(3) [OF I'(2) [OF wp_st]] wp_st by (simp add: kept_or_stored_def)
  have ok_new: "stage_ok orig P' st'" if n: "st_new = Some st'" for st'
  proof (cases "st' = st \<and> (\<exists>e. r = Inl e)")
    case True
    show ?thesis
    proof (cases "\<exists>p b. st = Putting p b")
      case True
      with H [OF h] \<open>st' = st \<and> (\<exists>e. r = Inl e)\<close> show ?thesis by (auto simp: stage_ok_def)
    next
      case False
      with E have "files x' = files ?x" by blast
      with H [OF h] \<open>st' = st \<and> (\<exists>e. r = Inl e)\<close> show ?thesis by (cases st) (simp_all add: stage_ok_def P'(1))
    qed
  next
    case False
    with st_new [OF n] have r: "r = Inr (Continue st')" by blast
    show ?thesis
    proof (cases st')
      case (Putting p b)
      with E r have "st = Opening p" "snd b = EEOF \<longrightarrow> file_content ?w p = Some (fst b)" by blast+
      with Putting orig_st show ?thesis by (auto simp: stage_ok_def)
    next
      case (Closing p)
      with E r obtain b where "st = Putting p b" "snd b = EEOF" "files x' (filepath_Base p) = Some (fst b)" by blast
      with Closing H [OF h] show ?thesis by (simp add: stage_ok_def P'(1))
    next
      case (Removing p)
      with E r have st: "st = Closing p" by blast
      with E have "files x' = files ?x" by blast
      with st Removing H [OF h] show ?thesis by (simp add: stage_ok_def P'(1))
    qed (simp_all add: stage_ok_def)
  qed
  have ok_old: "stage_ok orig P' sj" if j: "held P j sj" "j \<noteq> i" for j sj
  proof -
    have "stage_path sj \<noteq> stage_path st" using U [OF j(1) h] j(2) by auto
    moreover have "stage_path sj \<in> set fs" using I'(2) j(1) by (auto simp: waiting_def)
    ultimately have "files x' (filepath_Base (stage_path sj)) = files ?x (filepath_Base (stage_path sj))" by (rule other [rotated])
    with H [OF j(1)] show ?thesis by (cases sj) (simp_all add: stage_ok_def P'(1))
  qed
  have keep: "kept_or_stored orig P' p" if p: "p \<in> set fs" for p
  proof (cases "file_content w' p = orig p")
    case True
    then show ?thesis by (simp add: kept_or_stored_def P'(1))
  next
    case False
    show ?thesis
    proof (cases "file_content w' p = file_content ?w p")
      case True
      with False I'(3) [OF p] have k: "file_content ?w p = None" "\<not> waiting P p" "files ?x (filepath_Base p) = orig p"
        by (auto simp: kept_or_stored_def)
      then have "p \<noteq> stage_path st" using wp_st by blast
      with k True wait other [OF p] show ?thesis by (auto simp: kept_or_stored_def P'(1))
    next
      case False
      then have rm: "p = stage_path st" "st = Removing p" "r = Inr (Finished None)" "file_content w' p = None"
        using E by blast+
      have "files x' = files ?x" using E rm(2) by blast
      then have f: "files x' (filepath_Base p) = orig p" using H [OF h] rm(2) by (simp add: stage_ok_def)
      have "\<not> waiting P' p"
        unfolding waiting_def P'(2) held' using H [OF h] U [OF _ h] rm(1,3) st_new by (auto split: if_splits)
      with f rm(4) show ?thesis by (simp add: kept_or_stored_def P'(1))
    qed
  qed
  have hl: "stage_path sj \<notin> set (pl_queue P') \<and> stage_ok orig P' sj \<and>
      (\<forall>k sk. held P' k sk \<longrightarrow> stage_path sk = stage_path sj \<longrightarrow> k = j)" if hj: "held P' j sj" for j sj
  proof -
    have q: "\<exists>s0. held P j s0 \<and> stage_path s0 = stage_path sj" if "held P' j sj" for j sj
      using that h path unfolding held' by (auto split: if_splits)
    from q [OF hj] obtain s0 where s0: "held P j s0" "stage_path s0 = stage_path sj" by blast
    have "stage_path sj \<notin> set (pl_queue P')" using H [OF s0(1)] s0(2) by (simp add: P'(2))
    moreover have "stage_ok orig P' sj" using hj ok_new ok_old unfolding held' by (auto split: if_splits)
    moreover have "k = j" if hk: "held P' k sk" "stage_path sk = stage_path sj" for k sk
    proof -
      from q [OF hk(1)] obtain s1 where "held P k s1" "stage_path s1 = stage_path sk" by blast
      with U [OF s0(1)] s0(2) hk(2) show ?thesis by simp
    qed
    ultimately show ?thesis by blast
  qed
  show ?thesis
    unfolding pool_inv_def P' snd_conv using E I'(1,2) wait hl [unfolded P'] keep by blast
qed

lemma pool_inv_idle:
  assumes I: "pool_inv orig fs P" and i: "pl_workers P ! i = Idle" "i < length (pl_workers P)"
    and P': "pl_state P' = pl_state P" "distinct (pl_queue P')" "set (pl_queue P') \<subseteq> set (pl_queue P)"
    and held': "\<And>j st'. held P' j st' \<longleftrightarrow> (if j = i then st_new = Some st' else held P j st')"
    and st_new: "\<And>st'. st_new = Some st' \<Longrightarrow> \<exists>p. st' = Opening p \<and> p \<in> set (pl_queue P) \<and> p \<notin> set (pl_queue P')"
  shows "pool_inv orig fs P'"
proof -
  have I': "inv (snd (pl_state P))" "\<And>p. waiting P p \<Longrightarrow> p \<in> set fs" "\<And>p. p \<in> set fs \<Longrightarrow> kept_or_stored orig P p"
    using I by (auto simp: pool_inv_def)
  have H: "\<And>j sj. held P j sj \<Longrightarrow> stage_path sj \<notin> set (pl_queue P) \<and> stage_ok orig P sj"
    and U: "\<And>j sj k sk. held P j sj \<Longrightarrow> held P k sk \<Longrightarrow> stage_path sk = stage_path sj \<Longrightarrow> k = j"
    using I unfolding pool_inv_def by blast+
  have wait: "waiting P p" if "waiting P' p" for p
    using that P'(3) st_new unfolding waiting_def held' by (auto split: if_splits)
  have ok: "stage_ok orig P' sj = stage_ok orig P sj" for sj
    by (simp add: stage_ok_def P'(1) split: stage.split)
  have keep: "kept_or_stored orig P' p" if "p \<in> set fs" for p
    using I'(3) [OF that] wait by (auto simp: kept_or_stored_def P'(1))
  have "stage_path sj \<notin> set (pl_queue P') \<and> stage_ok orig P' sj \<and>
      (\<forall>k sk. held P' k sk \<longrightarrow> stage_path sk = stage_path sj \<longrightarrow> k = j)" if hj: "held P' j sj" for j sj
  proof (cases "j = i")
    case True
    with hj held' st_new obtain p where p: "sj = Opening p" "p \<in> set (pl_queue P)" "p \<notin> set (pl_queue P')" by metis
    have "k = j" if "held P' k sk" "stage_path sk = stage_path sj" for k sk
      using that H [of k sk] p(1,2) unfolding held' True by (auto split: if_splits)
    with p show ?thesis by (auto simp: stage_ok_def)
  next
    case False
    with hj have hj': "held P j sj" by (simp add: held')
    have "k = j" if hk: "held P' k sk" "stage_path sk = stage_path sj" for k sk
    proof (cases "k = i")
      case True
      with hk held' st_new obtain p where "sk = Opening p" "p \<in> set (pl_queue P)" by metis
      with hk(2) H [OF hj'] show ?thesis by auto
    next
      case False
      with hk U [OF hj'] show ?thesis by (simp add: held')
    qed
    with H [OF hj'] P'(3) show ?thesis by (auto simp: ok)
  qed
  with I'(1,2) P'(1,2) wait keep show ?thesis by (auto simp: pool_inv_def)
qed

lemma pool_inv_exec:
  assumes I: "pool_inv orig fs P" and i: "pool_live P i" and B: "up_stor u = B"
    and inj: "inj_on filepath_Base (set fs)" and good: "\<forall>p \<in> set fs. good (filepath_Base p)"
  shows "pool_inv orig fs (pool_exec u i c P)"
proof -
  have len: "i < length (pl_workers P)" using i by (simp add: pool_live_def)
  have d: "distinct (pl_queue P)" and inv: "inv (snd (pl_state P))"
    using I by (auto simp: pool_inv_def)
  show ?thesis
  proof (cases "pl_workers P ! i")
    case Idle
    note idle = pool_inv_idle [OF I Idle len]
    show ?thesis
    proof (cases "pl_queue P")
      case Nil
      then show ?thesis
        using Idle by (intro idle [of _ None]) (auto simp: pool_exec_def held_def nth_list_update)
    next
      case (Cons p ps)
      then show ?thesis
        using Idle d len
        by (cases c; intro idle [of _ "if c then None else Some (Opening p)"])
          (auto simp: pool_exec_def held_def nth_list_update)
    qed
  next
    case (Busy st)
    then have h: "held P i st" using len by (simp add: held_def)
    have "stage_path st \<in> set fs" using I h by (auto simp: pool_inv_def waiting_def)
    with good have g: "good (filepath_Base (stage_path st))" by blast
    obtain r w' x' where r: "upload_step u st (pl_state P) = (r, (w', x'))" by (metis surj_pair)
    have eff: "call_effect st (fst (pl_state P)) (snd (pl_state P)) r w' x'"
      using upload_step_effect [OF inv g B] r by (cases r) (auto simp: wp_def)
    note call = pool_call [OF I h eff _ _ _ _ inj good]
    show ?thesis
    proof (cases r)
      case (Inl e)
      then show ?thesis
        using Busy r len by (intro call [where st_new = "Some st"]) (auto simp: pool_exec_def held_def)
    next
      case (Inr o')
      show ?thesis
      proof (cases o')
        case (Continue st')
        then show ?thesis
          using Busy r len Inr by (intro call [where st_new = "Some st'"]) (auto simp: pool_exec_def held_def nth_list_update)
      next
        case (Finished x)
        then show ?thesis
          using Busy r len Inr
          by (cases x; intro call [where st_new = None]) (auto simp: pool_exec_def held_def nth_list_update)
      qed
    qed
  qed (use i in \<open>simp add: pool_live_def\<close>)
qed

lemma pool_inv_receive:
  assumes I: "pool_inv orig fs P" and "\<forall>p \<in> set fs. file_content w p = file_content (fst (pl_state P)) p"
  shows "pool_inv orig fs (P\<lparr>pl_state := (w, snd (pl_state P))\<rparr>)"
  using assms unfolding pool_inv_def kept_or_stored_def stage_ok_def waiting_def held_def
  by (simp add: Ball_def cong: stage.case_cong)

lemma pool_inv_start:
  assumes "inv (snd s)" and "distinct fs"
  shows "pool_inv (file_content (fst s)) fs (uploadFiles_start u fs s)"
  using assms by (auto simp: pool_inv_def uploadFiles_start_def held_def waiting_def kept_or_stored_def Let_def)

theorem upload_safe:
  assumes "(pool_step u fs)\<^sup>*\<^sup>* (uploadFiles_start u fs s) P" and "up_stor u = B"
    and "inv (snd s)" and "distinct fs" and "inj_on filepath_Base (set fs)" and "\<forall>p \<in> set fs. good (filepath_Base p)"
  shows "pool_inv (file_content (fst s)) fs P"
  using assms(1)
proof (induction rule: rtranclp_induct)
  case base
  show ?case by (rule pool_inv_start [OF assms(3,4)])
next
  case (step P Q)
  from step.hyps(2) step.IH assms(2,5,6) show ?case
    by (auto elim!: pool_stepE intro: pool_inv_exec pool_inv_receive)
qed

text \<open>Without cancellation no file is forgotten: it waits, has been removed, or an error is reported.\<close>

definition progress_inv :: "string list \<Rightarrow> 's pool \<Rightarrow> bool" where
  "progress_inv fs P \<longleftrightarrow>
     (\<forall>p \<in> set fs. waiting P p \<or> pl_errs P \<noteq> [] \<or> pl_crash P \<noteq> None \<or> file_content (fst (pl_state P)) p = None) \<and>
     (Exited \<in> set (pl_workers P) \<longrightarrow> pl_queue P = [])"

lemma progress_exec:
  assumes I: "pool_inv orig fs P" and G: "progress_inv fs P" and i: "pool_live P i" and B: "up_stor u = B"
    and good: "\<forall>p \<in> set fs. good (filepath_Base p)"
  shows "progress_inv fs (pool_exec u i False P)"
proof -
  have len: "i < length (pl_workers P)" using i by (simp add: pool_live_def)
  have inv: "inv (snd (pl_state P))" using I by (simp add: pool_inv_def)
  have ex: "Exited \<in> set ((pl_workers P)[i := w]) \<Longrightarrow> w \<noteq> Exited \<Longrightarrow> Exited \<in> set (pl_workers P)" for w
    using set_update_subset_insert [of "pl_workers P" i w] by auto
  show ?thesis
  proof (cases "pl_workers P ! i")
    case Idle
    have w: "waiting (pool_exec u i False P) p" if "waiting P p" for p
    proof (cases "pl_queue P")
      case Nil
      with that obtain j st where j: "held P j st" "stage_path st = p" by (auto simp: waiting_def)
      then have "j \<noteq> i" using Idle by (auto simp: held_def)
      with j Idle Nil have "held (pool_exec u i False P) j st" by (simp add: held_def pool_exec_def)
      with j show ?thesis by (auto simp: waiting_def)
    next
      case (Cons q qs)
      from that consider "p \<in> set qs" | "p = q" | j st where "held P j st" "stage_path st = p"
        unfolding waiting_def Cons by auto
      then show ?thesis
      proof cases
        case 1
        then show ?thesis using Idle Cons by (simp add: waiting_def pool_exec_def)
      next
        case 2
        then have "held (pool_exec u i False P) i (Opening p)" using Idle Cons len by (simp add: held_def pool_exec_def)
        then show ?thesis by (auto simp: waiting_def intro!: exI [of _ i] exI [of _ "Opening p"])
      next
        case 3
        then have "j \<noteq> i" using Idle by (auto simp: held_def)
        with 3 Idle Cons have "held (pool_exec u i False P) j st" by (simp add: held_def pool_exec_def)
        with 3 show ?thesis by (auto simp: waiting_def)
      qed
    qed
    show ?thesis
    proof (cases "pl_queue P")
      case Nil
      with w G Idle show ?thesis by (auto simp: progress_inv_def pool_exec_def)
    next
      case (Cons q qs)
      with w G Idle ex [of "Busy (Opening q)"] show ?thesis by (auto simp: progress_inv_def pool_exec_def)
    qed
  next
    case (Busy st)
    then have h: "held P i st" using len by (simp add: held_def)
    have "stage_path st \<in> set fs" using I h by (auto simp: pool_inv_def waiting_def)
    with good have g: "good (filepath_Base (stage_path st))" by blast
    obtain r w' x' where r: "upload_step u st (pl_state P) = (r, (w', x'))" by (metis surj_pair)
    have eff: "call_effect st (fst (pl_state P)) (snd (pl_state P)) r w' x'"
      using upload_step_effect [OF inv g B] r by (cases r) (auto simp: wp_def)
    note E = eff [unfolded call_effect_def]
    let ?Q = "pool_exec u i False P"
    have oth: "waiting ?Q p" if "waiting P p" "p \<noteq> stage_path st" for p
    proof -
      have q: "pl_queue ?Q = pl_queue P" and wk: "j \<noteq> i \<Longrightarrow> pl_workers ?Q ! j = pl_workers P ! j" for j
        using Busy r by (auto simp: pool_exec_def split: sum.split outcome.split option.split)
      from that consider "p \<in> set (pl_queue P)" | j sj where "held P j sj" "stage_path sj = p" unfolding waiting_def by blast
      then show ?thesis
      proof cases
        case 2
        with that(2) Busy have "j \<noteq> i" by (auto simp: held_def)
        with 2 wk have "held ?Q j sj" by (simp add: held_def pool_exec_workers)
        with 2 show ?thesis by (auto simp: waiting_def)
      qed (simp add: waiting_def q)
    qed
    have none: "file_content w' p = None" if "file_content (fst (pl_state P)) p = None" for p
      using E that by metis
    have fin: "Exited \<in> set (pl_workers ?Q) \<longrightarrow> pl_queue ?Q = []"
      using G Busy r ex by (auto simp: progress_inv_def pool_exec_def split: sum.split outcome.split option.split)
    have st: "fst (pl_state ?Q) = w'" and errs: "pl_errs P \<noteq> [] \<Longrightarrow> pl_errs ?Q \<noteq> []"
      and crash: "pl_crash P \<noteq> None \<Longrightarrow> pl_crash ?Q \<noteq> None"
      using Busy r by (auto simp: pool_exec_def split: sum.split outcome.split option.split)
    have mine: "waiting ?Q (stage_path st) \<or> pl_errs ?Q \<noteq> [] \<or> pl_crash ?Q \<noteq> None \<or> file_content w' (stage_path st) = None"
    proof (cases r)
      case (Inr o')
      show ?thesis
      proof (cases o')
        case (Continue st')
        with Inr E have p: "stage_path st' = stage_path st" by blast
        have "held ?Q i st'" using Busy r Inr Continue len by (simp add: held_def pool_exec_def)
        with p show ?thesis by (auto simp: waiting_def)
      next
        case (Finished x)
        with Inr E Busy r show ?thesis by (cases x) (auto simp: pool_exec_def)
      qed
    qed (use Busy r in \<open>simp add: pool_exec_def\<close>)
    show ?thesis
      unfolding progress_inv_def st
    proof (intro conjI ballI fin)
      fix p assume p: "p \<in> set fs"
      show "waiting ?Q p \<or> pl_errs ?Q \<noteq> [] \<or> pl_crash ?Q \<noteq> None \<or> file_content w' p = None"
        using G p mine oth none errs crash unfolding progress_inv_def by metis
    qed
  qed (use i in \<open>simp add: pool_live_def\<close>)
qed

lemma run_pool_invs:
  assumes "up_stor u = B" and "inj_on filepath_Base (set fs)" and "\<forall>p \<in> set fs. good (filepath_Base p)"
  shows "pool_inv orig fs P \<Longrightarrow> progress_inv fs P \<Longrightarrow> \<forall>m \<in> set sched. \<not> snd m \<Longrightarrow> run_pool u sched P = Some Q \<Longrightarrow>
     pool_inv orig fs Q \<and> progress_inv fs Q \<and> pool_over Q"
proof (induction sched arbitrary: P)
  case Nil
  then show ?case by (auto simp: run_pool.simps [of u "[]"] pool_over_def split: if_splits)
next
  case (Cons m sched)
  obtain i c where m: "m = (i, c)" by (cases m)
  show ?case
  proof (cases "pool_over P")
    case True
    with Cons.prems show ?thesis by (simp add: run_pool_over)
  next
    case over: False
    have c: "\<not> c" "\<forall>m \<in> set sched. \<not> snd m" using Cons.prems(3) by (auto simp: m)
    show ?thesis
    proof (cases "pool_live P i")
      case False
      with over Cons.prems(4) have "run_pool u sched P = Some Q" by (simp add: m run_pool_step)
      from Cons.IH [OF Cons.prems(1,2) c(2) this] show ?thesis .
    next
      case True
      with over c(1) Cons.prems(4) have r: "run_pool u sched (pool_exec u i False P) = Some Q" by (simp add: m run_pool_step)
      show ?thesis
        by (rule Cons.IH [OF pool_inv_exec [OF Cons.prems(1) True assms]
              progress_exec [OF Cons.prems(1,2) True assms(1,3)] c(2) r])
    qed
  qed
qed

theorem upload_complete:
  assumes "up_stor u = B" and "inj_on filepath_Base (set fs)" and "\<forall>p \<in> set fs. good (filepath_Base p)"
    and "inv (snd s)" and "distinct fs" and "\<forall>m \<in> set sched. \<not> snd m"
    and "uploadFiles u sched fs s = Some (Inr (), t)" and "p \<in> set fs" and "file_content (fst s) p = Some d"
  shows "file_content (fst t) p = None \<and> files (snd t) (filepath_Base p) = Some d"
proof -
  obtain Q where Q: "run_pool u sched (uploadFiles_start u fs s) = Some Q" "uploadFiles_result Q = Inr ()" "pl_state Q = t"
    using assms(7) by (auto simp: uploadFiles_def)
  have "progress_inv fs (uploadFiles_start u fs s)"
    by (auto simp: progress_inv_def uploadFiles_start_def waiting_def Let_def)
  from run_pool_invs [OF assms(1-3) pool_inv_start [OF assms(4,5)] this assms(6) Q(1)]
  have I: "pool_inv (file_content (fst s)) fs Q" "progress_inv fs Q" "pool_over Q" by auto
  have ok: "pl_crash Q = None" "pl_errs Q = []"
    using Q(2) by (auto simp: uploadFiles_result_def split: option.splits if_splits)
  with I(3) have d: "\<forall>w \<in> set (pl_workers Q). w = Exited" by (simp add: pool_over_def pool_done_def)
  have "length (pl_workers Q) = length (pl_workers (uploadFiles_start u fs s))"
    by (rule run_pool_workers [OF Q(1)])
  then have "length (pl_workers Q) \<noteq> 0" by (simp add: uploadFiles_start_def Let_def)
  then have "pl_workers Q \<noteq> []" by simp
  with d have "Exited \<in> set (pl_workers Q)" by (cases "pl_workers Q") auto
  with I(2) have q: "pl_queue Q = []" by (simp add: progress_inv_def)
  have "pl_workers Q ! i = Exited" if "i < length (pl_workers Q)" for i using d nth_mem [OF that] by blast
  then have "\<not> waiting Q p" using q by (auto simp: waiting_def held_def)
  with I(2) ok assms(8) have "file_content (fst t) p = None" by (auto simp: progress_inv_def Q(3))
  moreover from I(1) assms(8) have "kept_or_stored (file_content (fst s)) Q p" by (auto simp: pool_inv_def)
  ultimately show ?thesis using assms(9) by (simp add: kept_or_stored_def Q(3))
qed

end

subsection \<open>Properties\<close>

text \<open>C4: No received file is lost by the uploader. In every interleaving of the workers' system calls and storage operations, with failures and cancellation anywhere and the receiver changing other files meanwhile, each file chosen for upload is at every moment still in the receive directory with its contents, or in the storage under its name with exactly these contents: it is removed only after a successful put.\<close>
theorem uploader_never_loses:
  assumes "(pool_step u files)\<^sup>*\<^sup>* (uploadFiles_start u files s) P"
    and "up_stor u = mem_storage" and "distinct files" and "inj_on filepath_Base (set files)"
    and "p \<in> set files" and "file_content (fst s) p = Some d"
  shows "file_content (fst (pl_state P)) p = Some d \<or> mem_files (snd (pl_state P)) (filepath_Base p) = Some d"
proof -
  have "mem.pool_inv (file_content (fst s)) files P"
    by (rule mem.upload_safe [OF assms(1,2) _ assms(3,4)]) simp_all
  with assms(5,6) show ?thesis by (auto simp: mem.pool_inv_def mem.kept_or_stored_def)
qed

text \<open>A round that reports success is complete. If the context is not cancelled and uploadFiles returns nil, under any schedule of its workers, then every chosen file is gone from the receive directory and is in the storage with exactly the contents it had.\<close>
theorem uploader_success_complete:
  assumes "up_stor u = mem_storage" and "distinct files" and "inj_on filepath_Base (set files)"
    and "\<forall>m \<in> set sched. \<not> snd m" and "uploadFiles u sched files s = Some (Inr (), t)"
    and "p \<in> set files" and "file_content (fst s) p = Some d"
  shows "file_content (fst t) p = None \<and> mem_files (snd t) (filepath_Base p) = Some d"
  by (rule mem.upload_complete [OF assms(1,3) _ _ assms(2,4-7)]) simp_all

definition demo_up :: "InMemoryStorage uploader" where
  "demo_up = \<lparr>up_ReceiveDirectory = ''/w'', up_MaxConcurrency = 2, up_stor = mem_storage,
     up_CurrentOpenWALFileName = (\<lambda>_. '''')\<rparr>"

definition demo_disks :: "InMemoryStorage disks" where
  "demo_disks = (\<lparr>w_dir = [(''/w/a'', 0), (''/w/b'', 1)], w_ddir = [], w_dirs = [''/w''],
     w_ino = (\<lambda>i. \<lparr>i_data = (if i = 0 then ''x'' else ''yy''), i_sync = []\<rparr>), w_fd = (\<lambda>_. None),
     w_next = 2, w_tick = 0, w_fault = (\<lambda>_. None), w_clock = (\<lambda>_. 0)\<rparr>, NewInMemoryStorage 0)"

lemma demo_files: "distinct [''/w/a'', ''/w/b'']" "inj_on filepath_Base (set [''/w/a'', ''/w/b''])"
  "file_content (fst demo_disks) ''/w/b'' = Some ''yy''"
proof -
  have "filepath_Base ''/w/a'' = ''a''" "filepath_Base ''/w/b'' = ''b''" by (code_simp, code_simp)
  then show "inj_on filepath_Base (set [''/w/a'', ''/w/b''])" by (simp add: inj_on_def)
qed (simp_all add: file_content_def lookup_def demo_disks_def)

theorem uploader_never_loses_witness:
  "let P = pool_exec demo_up 1 False (pool_exec demo_up 0 False (uploadFiles_start demo_up [''/w/a'', ''/w/b''] demo_disks)) in
   file_content (fst (pl_state P)) ''/w/b'' = Some ''yy'' \<or> mem_files (snd (pl_state P)) (filepath_Base ''/w/b'') = Some ''yy''"
proof -
  let ?P0 = "uploadFiles_start demo_up [''/w/a'', ''/w/b''] demo_disks"
  have l: "pool_live ?P0 0" "pool_live (pool_exec demo_up 0 False ?P0) 1"
    by (simp_all add: pool_live_def uploadFiles_start_def demo_up_def pool_exec_def)
  have "(pool_step demo_up [''/w/a'', ''/w/b''])\<^sup>*\<^sup>* ?P0 (pool_exec demo_up 1 False (pool_exec demo_up 0 False ?P0))"
    using pool_step.work [OF l(1)] pool_step.work [OF l(2)] by (blast intro: rtranclp.rtrancl_into_rtrancl rtranclp.rtrancl_refl)
  from uploader_never_loses [OF this _ demo_files(1,2) _ demo_files(3)] show ?thesis
    by (simp add: demo_up_def Let_def)
qed

theorem uploader_success_complete_witness:
  "\<exists>t. uploadFiles demo_up (concat (replicate 12 [(0, False), (1, False)])) [''/w/a'', ''/w/b''] demo_disks = Some (Inr (), t) \<and>
     file_content (fst t) ''/w/b'' = None \<and> mem_files (snd t) (filepath_Base ''/w/b'') = Some ''yy''"
proof -
  have "map_option fst (uploadFiles demo_up (concat (replicate 12 [(0, False), (1, False)])) [''/w/a'', ''/w/b''] demo_disks) = Some (Inr ())"
    by code_simp
  then obtain t where t: "uploadFiles demo_up (concat (replicate 12 [(0, False), (1, False)])) [''/w/a'', ''/w/b''] demo_disks = Some (Inr (), t)"
    by auto
  have "file_content (fst t) ''/w/b'' = None \<and> mem_files (snd t) (filepath_Base ''/w/b'') = Some ''yy''"
    by (rule uploader_success_complete [OF _ demo_files(1,2) _ t _ demo_files(3)]) (auto simp: demo_up_def)
  with t show ?thesis by blast
qed

end
