(* ===== verification/ServeApi.thy ===== *)
theory ServeApi
  imports Http RestoreSpec
begin

section \<open>Serving WAL and fetching it (api/serveapi, cmd/cmd\_restore\_command.go, shared/x/cmdx)\<close>

text \<open>
  The server's state is the file system of the receive directory and the state of the storage.  Reading the body
  of an answer is reading a reader; the request's path is the list of its unescaped segments, as the patterns of
  \<open>http.ServeMux\<close> see it.  The logging middleware, which only logs, is left out.
\<close>

subsection \<open>The service and its handler\<close>

record 'st serve_svc =
  sv_baseDir :: string
  sv_storage :: "'st VariadicStorage option"

definition GetWalFile :: "cryptenv \<Rightarrow> 'st serve_svc \<Rightarrow> string \<Rightarrow> ('st disks, io_reader) m" where
  "GetWalFile E sv filename =
     (let filePath = filepath_Join [sv_baseDir sv, filename];
          partialFilePath = filePath @ PartialSuffix
      in bindE (on_fst (FileExists filePath)) (\<lambda>b.
           if b then on_fst (os_Open filePath)
           else bindE (on_fst (FileExists partialFilePath)) (\<lambda>b.
             if b then on_fst (os_Open partialFilePath)
             else case sv_storage sv of
                 Some vs \<Rightarrow> on_snd (var_Get E vs filename)
               | None \<Rightarrow> throwE (EMsg ''cannot fetch file''))))"

definition WalFileDownloadHandler :: "cryptenv \<Rightarrow> 'st serve_svc \<Rightarrow> 'st disks Handler" where
  "WalFileDownloadHandler E sv rq =
     (case PathValueString rq ''filename'' of
        Inl e \<Rightarrow> on_snd (http_Error ''expect filename path-param'' StatusBadRequest)
      | Inr filename \<Rightarrow>
          bindE (tryE (on_fst (GetWalFile E sv filename))) (\<lambda>r.
            case r of
              Inl e \<Rightarrow> on_snd (http_Error ''file not found'' StatusNotFound)
            | Inr file \<Rightarrow>
                bindE (tryE (on_snd (io_Copy rs_Write file))) (\<lambda>c.
                  case c of
                    Inl e \<Rightarrow> on_snd (http_Error ''cannot read file'' StatusInternalServerError)
                  | Inr _ \<Rightarrow> retE ())))"

definition with_filename :: "string \<Rightarrow> request \<Rightarrow> request" where
  "with_filename f rq = rq\<lparr>rq_PathValue := (\<lambda>n. if n = ''filename'' then f else '''')\<rparr>"

definition serve_initHandlers :: "cryptenv \<Rightarrow> 'st serve_svc \<Rightarrow> 'st disks Handler" where
  "serve_initHandlers E sv rq =
     (if rq_Path rq = [''healthz''] then on_snd (WriteHeader StatusOK)
      else if length (rq_Path rq) = 4 \<and> take 3 (rq_Path rq) = [''api'', ''v1'', ''wal''] \<and> rq_Path rq ! 3 \<noteq> '''' then
        Chain [SafeHandlerMiddleware] (WalFileDownloadHandler E sv) (with_filename (rq_Path rq ! 3) rq)
      else on_snd (http_Error ''404 page not found'' StatusNotFound))"

subsection \<open>The restore command\<close>

text \<open>\<open>net.SplitHostPort\<close>.\<close>

definition last_index :: "char \<Rightarrow> string \<Rightarrow> nat option" where
  "last_index c s = (if c \<in> set s then Some (length s - Suc (length (takeWhile (\<lambda>x. x \<noteq> c) (rev s)))) else None)"

definition first_index :: "char \<Rightarrow> string \<Rightarrow> nat option" where
  "first_index c s = (if c \<in> set s then Some (length (takeWhile (\<lambda>x. x \<noteq> c) s)) else None)"

definition split_checked :: "string \<Rightarrow> string \<Rightarrow> nat \<Rightarrow> nat \<Rightarrow> nat \<Rightarrow> gerr + string \<times> string" where
  "split_checked hostport host j k i =
     (if CHR ''['' \<in> set (drop j hostport) then Inl (EMsg ''unexpected '[' in address'')
      else if CHR '']'' \<in> set (drop k hostport) then Inl (EMsg ''unexpected ']' in address'')
      else Inr (host, drop (i + 1) hostport))"

definition SplitHostPort :: "string \<Rightarrow> gerr + string \<times> string" where
  "SplitHostPort hostport =
     (case last_index (CHR '':'') hostport of
        None \<Rightarrow> Inl (EMsg ''missing port in address'')
      | Some i \<Rightarrow>
          if hd hostport = CHR ''['' then
            (case first_index (CHR '']'') hostport of
               None \<Rightarrow> Inl (EMsg ''missing ']' in address'')
             | Some en \<Rightarrow>
                 if en + 1 = length hostport then Inl (EMsg ''missing port in address'')
                 else if en + 1 \<noteq> i then
                   Inl (EMsg (if hostport ! (en + 1) = CHR '':'' then ''too many colons in address'' else ''missing port in address''))
                 else split_checked hostport (drop 1 (take en hostport)) 1 (en + 1) i)
          else if CHR '':'' \<in> set (take i hostport) then Inl (EMsg ''too many colons in address'')
          else split_checked hostport (take i hostport) 0 0 i)"

definition Addr :: "string \<Rightarrow> gerr + string" where
  "Addr fr =
     (if has_prefix fr ''http://'' \<or> has_prefix fr ''https://'' then Inr fr
      else case SplitHostPort fr of
          Inl e \<Rightarrow> Inl e
        | Inr (host, port) \<Rightarrow> Inr (''http://'' @ (if host = '''' then ''127.0.0.1'' else host) @ '':'' @ port))"

text \<open>\<open>os.OpenFile\<close> with \<open>O_CREATE|O_TRUNC|O_EXCL\<close>.\<close>

definition EEXIST :: gerr where [go_defs]: "EEXIST = EOS 17"

definition os_CreateExcl :: "string \<Rightarrow> ('a world_scheme, nat) m" where
  "os_CreateExcl p = failing (bindE (getE (\<lambda>s. p \<in> set (w_dirs s) \<or> lookup s p \<noteq> None)) (\<lambda>b.
     if b then throwE EEXIST
     else bindE fresh (\<lambda>i.
       thenE (modE (\<lambda>s. s\<lparr>w_dir := AList.update p i (w_dir s), w_ino := (w_ino s)(i := \<lparr>i_data = [], i_sync = []\<rparr>)\<rparr>))
         (new_fd i))))"

text \<open>\<open>get\<close> is the HTTP client: it sends a GET request to a URL and returns the status and the body.\<close>

definition save_body :: "string \<Rightarrow> io_reader \<Rightarrow> ('a world_scheme, unit) m" where
  "save_body walFilePath body =
     bindE (os_CreateExcl walFilePath) (\<lambda>fileDst.
     bindE (tryE (copy_file fileDst body)) (\<lambda>r.
       thenE (tryE (f_Close fileDst)) (case r of Inl e \<Rightarrow> throwE e | Inr _ \<Rightarrow> retE ())))"

definition ExecRestoreCommand ::
    "(string \<Rightarrow> ('a world_scheme, nat \<times> io_reader) m) \<Rightarrow> string \<Rightarrow> string \<Rightarrow> string \<Rightarrow> ('a world_scheme, unit) m" where
  "ExecRestoreCommand get walFileName walFilePath addr0 =
     bindE (liftE (Addr addr0)) (\<lambda>addr.
     bindE (get (addr @ ''/api/v1/wal/'' @ walFileName)) (\<lambda>(status, body).
       if status \<noteq> StatusOK then throwE (EMsg ''server error'')
       else save_body walFilePath body))"

end
