(* ===== verification/ServeSpec.thy ===== *)
theory ServeSpec
  imports ServeApi
begin

section \<open>What a WAL request answers and what the restore command stores\<close>

subsection \<open>The answer\<close>

definition wal_request :: "string \<Rightarrow> request" where
  "wal_request name = \<lparr>rq_Method = ''GET'', rq_Path = [''api'', ''v1'', ''wal'', name], rq_Header = (\<lambda>_. ''''),
     rq_PathValue = (\<lambda>_. '''')\<rparr>"

text \<open>What the download of \<open>name\<close> sends when its file is the reader \<open>(d, e)\<close>.\<close>

definition download :: "bytes \<Rightarrow> gerr \<Rightarrow> nat \<times> io_reader" where
  "download d e =
     (if e = EEOF then (200, (d, EEOF))
      else (if d = [] then 500 else 200, (d @ ''cannot read file'' @ [CHR 0x0A], EEOF)))"

lemma wp_handler:
  assumes get: "GetWalFile E sv f s = (Inr (d, e), t)" and nm: "rq_PathValue rq ''filename'' = f" "f \<noteq> ''''"
    and ab: "\<not> is_abort e"
  shows "wp (WalFileDownloadHandler E sv rq)
     (\<lambda>_ (u, r). u = t \<and> answer_of r = download d e) (\<lambda>_ _. False) (s, new_response (\<lambda>_. None))"
proof -
  have g: "wp (GetWalFile E sv f) Q R s = Q (d, e) t" for Q R using get by (simp add: wp_def)
  have st: "steady (new_response (\<lambda>_. None))" by (simp add: steady_def new_response_def)
  have c: "wp (io_Copy rs_Write (d, e))
      (\<lambda>_ r. e = EEOF \<and> steady r \<and> rs_body r = d \<and> rs_status r = (if d = [] then None else Some 200))
      (\<lambda>x r. e \<noteq> EEOF \<and> x = e \<and> steady r \<and> rs_body r = d \<and> rs_status r = (if d = [] then None else Some 200))
      (new_response (\<lambda>_. None))"
    by (rule wp_copy_out [OF st]) (simp_all add: new_response_def)
  show ?thesis
    unfolding WalFileDownloadHandler_def PathValueString_def nm(1)
    apply (simp add: nm(2) g ab)
    apply (rule wp_conseq [OF c])
    apply (auto simp: answer_of_def download_def ab sent_status_def StatusInternalServerError_def intro!: wp_http_Error)
    done
qed

lemma handler_runs:
  assumes "GetWalFile E sv f s = (Inr (d, e), t)" and "f \<noteq> ''''" and "\<not> is_abort e"
  shows "\<exists>r. serve_initHandlers E sv (wal_request f) (s, new_response (\<lambda>_. None)) = (Inr (), (t, r)) \<and> answer_of r = download d e"
proof -
  let ?s = "(s, new_response (\<lambda>_. None))" and ?rq = "with_filename f (wal_request f)"
  have "wp (WalFileDownloadHandler E sv ?rq) (\<lambda>_ (u, r). u = t \<and> answer_of r = download d e) (\<lambda>_ _. False) ?s"
    by (rule wp_handler [OF assms(1) _ assms(2,3)]) (simp add: with_filename_def)
  then obtain r where "WalFileDownloadHandler E sv ?rq ?s = (Inr (), (t, r))" "answer_of r = download d e"
    by (auto simp: wp_def split: prod.splits sum.splits)
  then show ?thesis
    using assms(2) by (auto simp: serve_initHandlers_def Chain_def SafeHandlerMiddleware_def wal_request_def)
qed

subsection \<open>Saving\<close>

lemma create_excl_wp:
  assumes inv: "loc_inv s"
  shows "wp (os_CreateExcl p)
     (\<lambda>f t. loc_inv t \<and> file_content s p = None \<and> file_content t = (file_content s)(p \<mapsto> []) \<and> f < w_next t \<and>
        (\<exists>i. lookup t p = Some i \<and> w_fd t f = Some i \<and> i_data (w_ino t i) = []))
     (\<lambda>_ t. loc_inv t \<and> file_content t = file_content s) s"
proof -
  have pre: "wp (os_CreateExcl p)
     (\<lambda>f t. lookup s p = None \<and> p \<notin> set (w_dirs s) \<and> env_le (add_file p (w_next s) s) t \<and> w_fd t f = Some (w_next s) \<and> f < w_next t)
     (\<lambda>_ t. env_le s t) s"
    by (auto simp: os_CreateExcl_def new_fd_def add_file_def env_le_def lookup_def failing_def syscall_def EEXIST_def wp_def exec_simps fresh_def
        split: option.split prod.split)
  show ?thesis
  proof (rule wp_conseq [OF pre])
    fix f t
    assume t: "lookup s p = None \<and> p \<notin> set (w_dirs s) \<and> env_le (add_file p (w_next s) s) t \<and> w_fd t f = Some (w_next s) \<and> f < w_next t"
    then have l: "lookup s p = None" "p \<notin> set (w_dirs s)" and e: "env_le (add_file p (w_next s) s) t" by auto
    show "loc_inv t \<and> file_content s p = None \<and> file_content t = (file_content s)(p \<mapsto> []) \<and> f < w_next t \<and>
        (\<exists>i. lookup t p = Some i \<and> w_fd t f = Some i \<and> i_data (w_ino t i) = [])"
      using t loc_inv_env [OF loc_inv_add_file(1) [OF inv l(2,1)] e]
      by (simp add: content_env [OF e] loc_inv_add_file(2) [OF inv l(2,1)] env_leD [OF e] file_content_def [of s] l)
  next
    fix e t assume "env_le s t"
    then show "loc_inv t \<and> file_content t = file_content s" using loc_inv_env [OF inv] content_env by blast
  qed
qed

lemma save_body_wp:
  fixes s :: "'a world_scheme"
  assumes inv: "loc_inv s"
  shows "wp (save_body p r)
     (\<lambda>_ t. loc_inv t \<and> file_content s p = None \<and> snd r = EEOF \<and> file_content t = (file_content s)(p \<mapsto> fst r))
     (\<lambda>_ t. same_outside {p} s t) s"
proof -
  let ?Q = "\<lambda>_ t. loc_inv t \<and> file_content s p = None \<and> snd r = EEOF \<and> file_content t = (file_content s)(p \<mapsto> fst r)"
  let ?R = "\<lambda>(_ :: gerr) t. same_outside {p} s t"
  have cl: "wp (f_Close f) Q R t"
    if "loc_inv t" "w_fd t f = Some i" "\<And>x u. loc_inv u \<Longrightarrow> file_content u = file_content t \<Longrightarrow> Q x u"
      "\<And>e u. loc_inv u \<Longrightarrow> file_content u = file_content t \<Longrightarrow> R e u" for f i Q R t
    by (rule wp_conseq [OF close_wp [OF that(1,2)]]) (auto intro: that(3,4))
  have body: "wp (bindE (tryE (copy_file f r)) (\<lambda>c. thenE (tryE (f_Close f)) (case c of Inl e \<Rightarrow> throwE e | Inr _ \<Rightarrow> retE ()))) ?Q ?R t"
    if t: "loc_inv t" "lookup t p = Some i" "w_fd t f = Some i" "f < w_next t" "i_data (w_ino t i) = []"
      "file_content t = (file_content s)(p \<mapsto> [])" "file_content s p = None" for f i t
    unfolding wp_bindE wp_tryE wp_thenE
    by (rule wp_conseq [OF copy_wp [OF t(1-5)]])
      (auto simp: t(6,7) same_outside_def outside_def intro!: cl)
  have cr: "wp (os_CreateExcl p)
      (\<lambda>f. wp (bindE (tryE (copy_file f r)) (\<lambda>c. thenE (tryE (f_Close f)) (case c of Inl e \<Rightarrow> throwE e | Inr _ \<Rightarrow> retE ()))) ?Q ?R) ?R s"
  proof (rule wp_conseq [OF create_excl_wp [OF inv]])
    fix f and t :: "'a world_scheme"
    assume "loc_inv t \<and> file_content s p = None \<and> file_content t = (file_content s)(p \<mapsto> []) \<and> f < w_next t \<and>
        (\<exists>i. lookup t p = Some i \<and> w_fd t f = Some i \<and> i_data (w_ino t i) = [])"
    then obtain i where t: "loc_inv t" "lookup t p = Some i" "w_fd t f = Some i" "f < w_next t" "i_data (w_ino t i) = []"
      "file_content t = (file_content s)(p \<mapsto> [])" "file_content s p = None" by auto
    show "wp (bindE (tryE (copy_file f r)) (\<lambda>c. thenE (tryE (f_Close f)) (case c of Inl e \<Rightarrow> throwE e | Inr _ \<Rightarrow> retE ()))) ?Q ?R t"
      by (rule body [OF t])
  next
    fix t :: "'a world_scheme" assume "loc_inv t \<and> file_content t = file_content s"
    then show "same_outside {p} s t" by (simp add: same_outside_def)
  qed
  show ?thesis unfolding save_body_def wp_bindE [of "os_CreateExcl p"] by (rule cr)
qed

subsection \<open>From the archive to the restored file\<close>

text \<open>The client's \<open>get\<close> reaches the server that runs in state \<open>s\<close>, and the connection holds.\<close>

definition reaches :: "(string \<Rightarrow> ('a world_scheme, nat \<times> io_reader) m) \<Rightarrow> string \<Rightarrow> cryptenv \<Rightarrow> 'st serve_svc \<Rightarrow> 'st disks \<Rightarrow> bool" where
  "reaches get addr E sv s \<longleftrightarrow> (\<forall>name. get (addr @ ''/api/v1/wal/'' @ name) =
     retE (answer_of (snd (snd (serve_initHandlers E sv (wal_request name) (s, new_response (\<lambda>_. None)))))))"

lemma fetch_wp:
  fixes c :: "'a world_scheme"
  assumes inv: "loc_inv c" and addr: "Addr a = Inr u" and net: "reaches get u E sv s"
    and gw: "GetWalFile E sv name s = (Inr (d, e), t)" "name \<noteq> ''''" "\<not> is_abort e"
  shows "wp (ExecRestoreCommand get name path a)
     (\<lambda>_ w. loc_inv w \<and> (e = EEOF \<or> d \<noteq> []) \<and> file_content c path = None \<and> file_content w = (file_content c)(path \<mapsto> fst (snd (download d e))))
     (\<lambda>_ w. same_outside {path} c w) c"
proof -
  obtain r where "serve_initHandlers E sv (wal_request name) (s, new_response (\<lambda>_. None)) = (Inr (), (t, r))" "answer_of r = download d e"
    using handler_runs [OF gw] by blast
  then have g: "get (u @ ''/api/v1/wal/'' @ name) = retE (download d e)" using net by (simp add: reaches_def)
  have sv: "wp (save_body path (snd (download d e)))
     (\<lambda>_ w. loc_inv w \<and> file_content c path = None \<and> file_content w = (file_content c)(path \<mapsto> fst (snd (download d e))))
     (\<lambda>_ w. same_outside {path} c w) c"
    by (rule wp_conseq [OF save_body_wp [OF inv]]) auto
  have ok: "fst (download d e) = StatusOK \<Longrightarrow> e = EEOF \<or> d \<noteq> []" by (auto simp: download_def StatusOK_def)
  obtain st b where dl: "download d e = (st, b)" by (cases "download d e")
  have same: "same_outside {path} c c" using inv by (simp add: same_outside_refl)
  show ?thesis
    unfolding ExecRestoreCommand_def
    by (simp add: addr g [unfolded dl, simplified] same) (use sv ok dl in \<open>auto elim: wp_conseq\<close>)
qed

lemma FileExists_none:
  assumes "lookup w p = None"
  shows "\<exists>n. FileExists p w = (Inr False, w\<lparr>w_tick := n\<rparr>)"
  using assms
  by (auto simp: FileExists_def os_Stat_def failing_def syscall_def exec_simps split: option.split)

lemma GetWalFile_remote:
  assumes "lookup (fst s) (filepath_Join [sv_baseDir sv, name]) = None"
    and "lookup (fst s) (filepath_Join [sv_baseDir sv, name] @ PartialSuffix) = None"
    and "sv_storage sv = Some vs" and "fst (var_Get E vs name (snd s)) = Inr r"
  shows "\<exists>t. GetWalFile E sv name s = (Inr r, t)"
proof -
  obtain n where a: "FileExists (filepath_Join [sv_baseDir sv, name]) (fst s) = (Inr False, (fst s)\<lparr>w_tick := n\<rparr>)"
    using FileExists_none [OF assms(1)] by blast
  obtain k where b: "FileExists (filepath_Join [sv_baseDir sv, name] @ PartialSuffix) ((fst s)\<lparr>w_tick := n\<rparr>) = (Inr False, (fst s)\<lparr>w_tick := k\<rparr>)"
    using FileExists_none [of "(fst s)\<lparr>w_tick := n\<rparr>"] assms(2) by (force simp: lookup_tick)
  obtain st where c: "var_Get E vs name (snd s) = (Inr r, st)" using assms(4) by (cases "var_Get E vs name (snd s)") auto
  show ?thesis by (simp add: GetWalFile_def Let_def bindE_def on_fst_def on_snd_def a b assms(3) c)
qed

text \<open>An archived segment can be fetched.  When a segment was put into the storage as a complete stream, under any
  supported compression and encryption, and the serving host has no local copy, then the restore command either
  fails and changes nothing but its destination, or its destination, which did not exist, holds exactly the bytes
  that were archived and every other file is unchanged, whatever system calls fail on either side.\<close>

theorem archived_wal_restored:
  assumes env: "env_ok E" "alg_ok (alg vs)" "isSupportedWriteExt (alg vs) (writeExt vs)" "Backend vs = mem_storage"
      "\<not> has_known_ext (alg vs) name"
    and first: "\<forall>e \<in> set (takeWhile (\<lambda>e. e \<noteq> writeExt vs) (supportedExts (alg vs))). mem_files st0 (name @ e) = None"
    and put: "var_Put E vs name (d, EEOF) st0 = (Inr (), st)"
    and host: "sv_storage sv = Some vs" "lookup w (filepath_Join [sv_baseDir sv, name]) = None"
      "lookup w (filepath_Join [sv_baseDir sv, name] @ PartialSuffix) = None"
    and net: "Addr a = Inr u" "reaches get u E sv (w, st)" "name \<noteq> ''''" and c: "loc_inv c"
  shows "wp (ExecRestoreCommand get name path a)
     (\<lambda>_ t. file_content c path = None \<and> file_content t = (file_content c)(path \<mapsto> d))
     (\<lambda>_ t. same_outside {path} c t) c"
proof -
  obtain raw where raw: "mem_files st = (mem_files st0)(name @ writeExt vs \<mapsto> raw)"
    "DecryptAndDecompressOptional E (raw, EEOF) (tr_crypter (transformsFromName (alg vs) (name @ writeExt vs)))
      (tr_decompressor (transformsFromName (alg vs) (name @ writeExt vs))) = Inr (d, EEOF)"
    using mem_var_Put [OF env(4) put env(1,2)] by blast
  have "first_ext (supportedExts (alg vs)) (mem_files st) name = Some (writeExt vs)"
    unfolding first_ext_def
    by (rule find_prefix) (use first raw(1) writeExt_supported [OF env(3)] in \<open>auto dest: set_takeWhileD\<close>)
  then have get: "fst (var_Get E vs name st) = Inr (d, EEOF)"
    by (rule mem_var_Get [OF env(4,5) _ _ raw(2)]) (simp add: raw(1))
  obtain t where "GetWalFile E sv name (w, st) = (Inr (d, EEOF), t)"
    using GetWalFile_remote [of "(w, st)" sv name vs E] host get by auto
  from fetch_wp [OF c net(1,2) this net(3), of path] show ?thesis
    by (rule wp_conseq) (auto simp: download_def)
qed

text \<open>C37: a read that breaks off is not noticed.  When the server's reader of the segment fails after some bytes, the
  status 200 is already sent: the restore command that returns without an error has stored those bytes and the
  text of the server's error message as the WAL segment.\<close>

theorem broken_read_restored:
  assumes gw: "GetWalFile E sv name s = (Inr (d, e), t)" "name \<noteq> ''''" "\<not> is_abort e" "e \<noteq> EEOF"
    and net: "Addr a = Inr u" "reaches get u E sv s" and c: "loc_inv c"
    and ok: "ExecRestoreCommand get name path a c = (Inr (), c')"
  shows "file_content c' path = Some (d @ ''cannot read file'' @ [CHR 0x0A])"
  using fetch_wp [OF c net gw(1-3), of path] gw(4) by (simp add: wp_def ok download_def)

subsection \<open>Witnesses\<close>

definition wire :: "string \<Rightarrow> cryptenv \<Rightarrow> 'st serve_svc \<Rightarrow> 'st disks \<Rightarrow> string \<Rightarrow> ('a world_scheme, nat \<times> io_reader) m" where
  "wire u E sv s url = retE (answer_of (snd (snd (serve_initHandlers E sv
     (wal_request (drop (length (u @ ''/api/v1/wal/'')) url)) (s, new_response (\<lambda>_. None))))))"

lemma reaches_wire: "reaches (wire u E sv s) u E sv s"
  by (simp add: reaches_def wire_def fun_eq_iff)

definition demo_sv :: "InMemoryStorage VariadicStorage option \<Rightarrow> InMemoryStorage serve_svc" where
  "demo_sv st = \<lparr>sv_baseDir = ''/wal'', sv_storage = st\<rparr>"

definition demo_host :: world where
  "demo_host = \<lparr>w_dir = [(''/wal/seg'', 0)], w_ddir = [], w_dirs = [''/wal''], w_ino = (\<lambda>_. \<lparr>i_data = ''waldata'', i_sync = []\<rparr>),
     w_fd = (\<lambda>_. None), w_next = 1, w_tick = 0, w_fault = (\<lambda>n. if n = 2 then Some 3 else None), w_clock = (\<lambda>_. 0)\<rparr>"

lemma demo_addr: "Addr ''h:1'' = Inr ''http://h:1''"
  by code_simp

theorem archived_wal_restored_witness:
  "wp (ExecRestoreCommand (wire ''http://h:1'' toy_env (demo_sv (Some (toy_var ''.aes'')))
        (demo_disk, toy_put ''.aes'' ''wal'' (NewInMemoryStorage 0))) ''seg'' ''/pg/wal'' ''h:1'')
     (\<lambda>_ t. file_content demo_disk ''/pg/wal'' = None \<and> file_content t = (file_content demo_disk)(''/pg/wal'' \<mapsto> ''wal''))
     (\<lambda>_ t. same_outside {''/pg/wal''} demo_disk t) demo_disk"
  by (rule archived_wal_restored [OF toy_env_ok(1) _ _ _ _ _ toy_put_ok _ _ _ demo_addr reaches_wire _ demo_disk_ok(1)])
    (simp_all add: toy_var_def toy_alg_ok toy_path toy_empty demo_sv_def demo_disk_def lookup_def, simp add: toy_alg_def isSupportedWriteExt_def)

lemma demo_get:
  "GetWalFile toy_env (demo_sv None) ''seg'' (demo_host, NewInMemoryStorage 0) =
     (Inr (''wal'', EOS 3), (demo_host\<lparr>w_tick := 3\<rparr>, NewInMemoryStorage 0))"
proof -
  have p: "filepath_Join [''/wal'', ''seg''] = ''/wal/seg''" by code_simp
  show ?thesis
    by (simp add: GetWalFile_def Let_def demo_sv_def p)
      (simp add: demo_host_def tryE_def FileExists_def os_Stat_def os_Open_def failing_def syscall_def on_fst_def lookup_def exec_simps)
qed

lemma demo_save: "fst (save_body ''/pg/wal'' (''wal'' @ ''cannot read file'' @ [CHR 0x0A], EEOF) demo_disk) = Inr ()"
proof -
  have p: "pieces copyBufSize (''wal'' @ ''cannot read file'' @ [CHR 0x0A]) = [''wal'' @ ''cannot read file'' @ [CHR 0x0A]]"
    by (simp add: copyBufSize_def pieces.simps)
  show ?thesis
    unfolding save_body_def copy_file_def prod.case p
    by (simp add: demo_disk_def os_CreateExcl_def new_fd_def fresh_def failing_def syscall_def set_data_def f_WriteAt_def
        fd_ino_def f_Close_def lookup_def write_at_def exec_simps Let_def)
qed

text \<open>A file name may lead out of the served directory: a segment of the request's path is unescaped after it was matched.\<close>

lemma served_outside:
  "GetWalFile E \<lparr>sv_baseDir = ''/wal/served'', sv_storage = None\<rparr> ''../seg'' (demo_host\<lparr>w_fault := (\<lambda>_. None)\<rparr>, st) =
     (Inr (''waldata'', EEOF), (demo_host\<lparr>w_fault := (\<lambda>_. None), w_tick := 3\<rparr>, st))"
proof -
  have p: "filepath_Join [''/wal/served'', ''../seg''] = ''/wal/seg''" by code_simp
  show ?thesis
    by (simp add: GetWalFile_def Let_def p)
      (simp add: demo_host_def tryE_def FileExists_def os_Stat_def os_Open_def failing_def syscall_def on_fst_def lookup_def exec_simps)
qed

theorem broken_read_restored_witness:
  "\<exists>c'. ExecRestoreCommand (wire ''http://h:1'' toy_env (demo_sv None) (demo_host, NewInMemoryStorage 0)) ''seg'' ''/pg/wal'' ''h:1'' demo_disk =
     (Inr (), c') \<and> file_content c' ''/pg/wal'' = Some (''wal'' @ ''cannot read file'' @ [CHR 0x0A])"
proof -
  obtain r where "serve_initHandlers toy_env (demo_sv None) (wal_request ''seg'') ((demo_host, NewInMemoryStorage 0), new_response (\<lambda>_. None)) =
      (Inr (), (demo_host\<lparr>w_tick := 3\<rparr>, NewInMemoryStorage 0), r)" and r: "answer_of r = download ''wal'' (EOS 3)"
    using handler_runs [OF demo_get] by auto
  then have "wire ''http://h:1'' toy_env (demo_sv None) (demo_host, NewInMemoryStorage 0) (''http://h:1'' @ ''/api/v1/wal/'' @ ''seg'') =
      (retE (200, (''wal'' @ ''cannot read file'' @ [CHR 0x0A], EEOF)) :: (world, _) m)"
    by (simp add: wire_def download_def)
  then have "fst (ExecRestoreCommand (wire ''http://h:1'' toy_env (demo_sv None) (demo_host, NewInMemoryStorage 0)) ''seg'' ''/pg/wal'' ''h:1'' demo_disk) = Inr ()"
    using demo_save by (simp add: ExecRestoreCommand_def demo_addr StatusOK_def bindE_def liftE_def retE_def)
  then obtain c' where c': "ExecRestoreCommand (wire ''http://h:1'' toy_env (demo_sv None) (demo_host, NewInMemoryStorage 0))
      ''seg'' ''/pg/wal'' ''h:1'' demo_disk = (Inr (), c')" by (metis prod.collapse)
  have "file_content c' ''/pg/wal'' = Some (''wal'' @ ''cannot read file'' @ [CHR 0x0A])"
    by (rule broken_read_restored [OF demo_get _ _ _ demo_addr reaches_wire demo_disk_ok(1) c']) simp_all
  with c' show ?thesis by blast
qed

end
