(* ===== verification/ArchiveSpec.thy ===== *)
theory ArchiveSpec
  imports ArchiveStore UploadSpec ServeSpec
begin

section \<open>From the receive directory to the restore command, through the archive\<close>







subsection \<open>Concrete runs\<close>









end
