(* ===== verification/RetentionSpec.thy ===== *)
theory RetentionSpec
  imports Retention
begin

section \<open>A whole retention run\<close>

text \<open>
  The backups and the WAL live in two storages, the two parts of a pair of states; the contract of a WAL
  archive is kept by the lifting to the pair, so the lemmas about the cleaner apply to it.
\<close>

type_synonym stores = "InMemoryStorage \<times> InMemoryStorage"

interpretation pair_archive: wal_archive "storage_snd mem_storage :: stores Storage" "\<lambda>_. True"
    "\<lambda>s. mem_files (snd s)" "\<lambda>_. True"
  by unfold_locales
    (use mem.exists_law mem.put_law mem.get_law mem.delete_law mem.rename_law mem_archive.list_law in \<open>simp_all add: storage_snd_def lift_storage_def\<close>)

subsection \<open>Reading the backups changes nothing\<close>

lemma ReadManifest_pure:
  assumes "rt_BasebackupStor rt = storage_fst mem_storage"
  shows "snd (ReadManifest rt b s) = s"
  using assms by (auto simp: ReadManifest_def storage_fst_def lift_storage_def mem_storage_def mem_Get_def on_fst_def
      exec_simps Let_def split: option.split prod.splits sum.splits)

text \<open>What is known of a backup the retention works with: it is one of the directories, and its base name is its id.\<close>

definition from_dirs :: "string list \<Rightarrow> recoveryWindowBackup \<Rightarrow> bool" where
  "from_dirs dirs b \<longleftrightarrow> rb_path b \<in> set dirs \<and> rb_name b = filepath_Base (rb_path b)"

lemma load_loop_wp:
  assumes "rt_BasebackupStor rt = storage_fst mem_storage" and "\<forall>b \<in> set acc. from_dirs all b" and "set dirs \<subseteq> set all"
  shows "wp (load_loop rt acc dirs) (\<lambda>bs t. t = s \<and> (\<forall>b \<in> set bs. from_dirs all b)) (\<lambda>e t. t = s) s"
  using assms(2,3)
proof (induction dirs arbitrary: acc)
  case (Cons d dirs)
  have ds: "set dirs \<subseteq> set all" "d \<in> set all" using Cons.prems(2) by simp_all
  have r: "wp (ReadManifest rt b) (\<lambda>_ t. t = s) (\<lambda>_ t. t = s) s" for b
    using ReadManifest_pure [OF assms(1), of b s] by (auto simp: wp_def split: prod.splits sum.splits)
  have ih: "wp (load_loop rt acc' dirs) (\<lambda>bs t. t = s \<and> (\<forall>b \<in> set bs. from_dirs all b)) (\<lambda>e t. t = s) s"
    if "acc' = acc \<or> (\<exists>b. acc' = acc @ [b] \<and> from_dirs all b)" for acc'
    using that Cons.prems(1) by (intro Cons.IH ds(1)) auto
  have new: "from_dirs all \<lparr>rb_name = filepath_Base d, rb_path = d, rb_startedAt = z, rb_beginWAL = w\<rparr>" for z w
    using ds(2) by (simp add: from_dirs_def)
  have cont: "wp (case q of Inl e \<Rightarrow> load_loop rt acc dirs
      | Inr info \<Rightarrow> if rs_StartedAt info = zero_time then load_loop rt acc dirs
          else bindE (liftE (backupBeginWAL rt info)) (\<lambda>beginWAL.
            if beginWAL = '''' then load_loop rt acc dirs
            else load_loop rt (acc @ [\<lparr>rb_name = filepath_Base d, rb_path = d, rb_startedAt = rs_StartedAt info,
                     rb_beginWAL = beginWAL\<rparr>]) dirs))
      (\<lambda>bs t. t = s \<and> (\<forall>b \<in> set bs. from_dirs all b)) (\<lambda>e t. t = s) s" for q
    using ih [of acc] ih [OF disjI2, OF exI, OF conjI, OF refl new] by (simp split: sum.split)
  show ?case
    unfolding load_loop.simps Let_def backupBaseName_def wp_bindE wp_tryE
    by (rule wp_conseq [OF r]) (simp_all only: cont [unfolded wp_bindE] simp_thms split: if_split)
qed simp

subsection \<open>Deleting backups\<close>

definition in_dir :: "string \<Rightarrow> string \<Rightarrow> bool" where
  "in_dir d q \<longleftrightarrow> q = d \<or> has_prefix q (d @ ''/'')"

definition top_name :: "string \<Rightarrow> bool" where
  "top_name d \<longleftrightarrow> d \<noteq> '''' \<and> CHR ''/'' \<notin> set d"

lemma top_name_Base: "top_name d \<Longrightarrow> filepath_Base d = d"
proof -
  assume d: "top_name d"
  then have "trim_right_char (CHR ''/'') d = d"
    by (cases d rule: rev_cases) (auto simp: trim_right_char_def top_name_def)
  with d show ?thesis by (simp add: filepath_Base_def top_name_def split_on_plain)
qed

lemma top_dir_name: "top_dir p q = Some d \<Longrightarrow> top_name d"
  by (auto simp: top_dir_def top_name_def Let_def split: if_splits dest: set_takeWhileD)

lemma mem_dirs_wp:
  "wp (mem_ListTopLevelDirs p) (\<lambda>ds t. t = s \<and> (\<forall>d \<in> set ds. top_name d)) (\<lambda>e t. t = s) s"
  by (auto simp: mem_ListTopLevelDirs_def map_filter_def dest: top_dir_name)

lemma mem_DeleteDir_loop_wp:
  assumes "top_name d"
  shows "wp (mem_DeleteDir_loop d keys) (\<lambda>_ t. lost_only (in_dir d) (mem_files s) (mem_files t))
     (\<lambda>_ t. lost_only (in_dir d) (mem_files s) (mem_files t)) s"
proof (induction keys arbitrary: s)
  case (Cons k keys)
  have p: "storagePrefix d = d @ ''/''"
    using assms by (auto simp: storagePrefix_def trim_suffix_def has_suffix_iff top_name_def)
  have step: "wp (mem_DeleteDir_loop d keys) (\<lambda>_ t. lost_only (in_dir d) (mem_files s) (mem_files t))
     (\<lambda>_ t. lost_only (in_dir d) (mem_files s) (mem_files t)) u"
    if "lost_only (in_dir d) (mem_files s) (mem_files u)" for u
    by (rule wp_conseq [OF Cons.IH]) (use lost_only_trans [OF that] in blast)+
  have "lost_only (in_dir d) (mem_files s) (mem_files (s\<lparr>Files := AList.delete k (Files s)\<rparr>))" if "in_dir d k"
    using that by (auto simp: lost_only_def mem_files_def delete_conv')
  then show ?case using step by (auto simp: p in_dir_def [symmetric] disj_commute)
qed simp

lemma wp_after_pure:
  assumes "wp f (\<lambda>_ t. t = s) (\<lambda>_ t. t = s) s" and "wp g Q R s" and "\<And>e. R e s"
  shows "wp (thenE (tryE f) g) Q R s"
  unfolding wp_thenE wp_tryE by (rule wp_conseq [OF assms(1)]) (use assms(2,3) in auto)

lemma delete_dirs_wp:
  assumes "rt_BasebackupStor rt = storage_fst mem_storage" and "\<forall>d \<in> set dirs. top_name d"
  shows "wp (delete_dirs rt S dirs)
     (\<lambda>_ t. snd t = snd s \<and> lost_only (\<lambda>q. \<exists>d \<in> set dirs. d \<in> S \<and> in_dir d q) (mem_files (fst s)) (mem_files (fst t)))
     (\<lambda>_ t. snd t = snd s \<and> lost_only (\<lambda>q. \<exists>d \<in> set dirs. d \<in> S \<and> in_dir d q) (mem_files (fst s)) (mem_files (fst t))) s"
  using assms(2)
proof (induction dirs arbitrary: s)
  case (Cons d dirs)
  define D where "D = (\<lambda>q. \<exists>d' \<in> set (d # dirs). d' \<in> S \<and> in_dir d' q)"
  have d: "top_name d" "filepath_Base d = d" using Cons.prems top_name_Base by simp_all
  have ih: "wp (delete_dirs rt S dirs)
     (\<lambda>_ t. snd t = snd s \<and> lost_only D (mem_files (fst s)) (mem_files (fst t)))
     (\<lambda>_ t. snd t = snd s \<and> lost_only D (mem_files (fst s)) (mem_files (fst t))) u"
    if u: "snd u = snd s" "lost_only D (mem_files (fst s)) (mem_files (fst u))" for u
  proof -
    have m: "lost_only D (mem_files (fst s)) g"
      if "lost_only (\<lambda>q. \<exists>d \<in> set dirs. d \<in> S \<and> in_dir d q) (mem_files (fst u)) g" for g
      by (rule lost_only_trans [OF u(2)], rule lost_only_mono [OF that]) (auto simp: D_def)
    show ?thesis by (rule wp_conseq [OF Cons.IH]) (use Cons.prems u(1) m in auto)
  qed
  have r: "wp (ReadManifest rt b) (\<lambda>_ t. t = s) (\<lambda>_ t. t = s) s" for b
    using ReadManifest_pure [OF assms(1), of b s] by (auto simp: wp_def split: prod.splits sum.splits)
  have del: "wp (st_DeleteDir (rt_BasebackupStor rt) d)
     (\<lambda>_ t. snd t = snd s \<and> lost_only D (mem_files (fst s)) (mem_files (fst t)))
     (\<lambda>_ t. snd t = snd s \<and> lost_only D (mem_files (fst s)) (mem_files (fst t))) s" if "d \<in> S"
    unfolding assms(1)
    by (simp add: storage_fst_def lift_storage_def mem_storage_def mem_DeleteDir_def,
        rule wp_conseq [OF mem_DeleteDir_loop_wp [OF d(1), of "map fst (Files (fst s))" "fst s"]])
      (auto intro: lost_only_mono simp: D_def that)
  have "wp (delete_dirs rt S (d # dirs))
     (\<lambda>_ t. snd t = snd s \<and> lost_only D (mem_files (fst s)) (mem_files (fst t)))
     (\<lambda>_ t. snd t = snd s \<and> lost_only D (mem_files (fst s)) (mem_files (fst t))) s"
  proof (cases "d \<in> S")
    case True
    have t: "wp (thenE (wrapE ''delete backup'' (st_DeleteDir (rt_BasebackupStor rt) d)) (delete_dirs rt S dirs))
     (\<lambda>_ t. snd t = snd s \<and> lost_only D (mem_files (fst s)) (mem_files (fst t)))
     (\<lambda>_ t. snd t = snd s \<and> lost_only D (mem_files (fst s)) (mem_files (fst t))) s"
      unfolding wp_thenE wp_wrapE by (rule wp_conseq [OF del [OF True]]) (use ih in blast)+
    have "delete_dirs rt S (d # dirs) = thenE (tryE (ReadManifest rt d))
        (thenE (wrapE ''delete backup'' (st_DeleteDir (rt_BasebackupStor rt) d)) (delete_dirs rt S dirs))"
      using True by (simp add: backupBaseName_def d(2))
    then show ?thesis using wp_after_pure [OF r t] by simp
  next
    case False
    then show ?thesis using ih [of s] by (simp add: backupBaseName_def d(2))
  qed
  then show ?case by (simp only: D_def)
qed simp

lemma keeps_ctx: "ctx_pure f \<Longrightarrow> keeps v f"
  by (simp add: keeps_def)

lemma keeps_delete_loop: "keeps fst (delete_loop (storage_snd mem_storage) p le exts)"
  by (induction exts arbitrary: le)
    (auto simp: storage_snd_def lift_storage_def intro!: keeps_intros keeps_on_snd)

lemma keeps_delete_wals:
  assumes "Backend (rt_WalStor rt) = storage_snd mem_storage" and "ctx_pure (rt_ctx rt)"
  shows "keeps fst (delete_wals rt keep ws)"
  by (induction ws)
    (auto simp: var_Delete_def assms(1) intro!: keeps_intros keeps_delete_loop keeps_ctx [OF assms(2)])

lemma keeps_DeleteBefore:
  assumes "Backend (rt_WalStor rt) = storage_snd mem_storage" and "ctx_pure (rt_ctx rt)"
  shows "keeps fst (DeleteBefore rt keep)"
  using keeps_delete_wals [OF assms]
  by (auto simp: DeleteBefore_def var_ListInfoRaw_def assms(1) storage_snd_def lift_storage_def
      intro!: keeps_intros keeps_on_snd)

subsection \<open>The run\<close>

lemma load_wp:
  assumes "rt_BasebackupStor rt = storage_fst mem_storage"
  shows "wp (loadSuccessfulBackups rt)
     (\<lambda>bs t. t = s \<and> (\<forall>b \<in> set bs. top_name (rb_path b) \<and> rb_name b = rb_path b)) (\<lambda>e t. t = s) s"
proof -
  have l: "wp (load_loop rt [] ds) (\<lambda>bs t. t = s \<and> (\<forall>b \<in> set bs. top_name (rb_path b) \<and> rb_name b = rb_path b)) (\<lambda>e t. t = s) s"
    if ds: "\<forall>d \<in> set ds. top_name d" for ds
    by (rule wp_conseq [OF load_loop_wp [OF assms, of "[]" ds ds]])
      (use ds in \<open>auto simp: from_dirs_def top_name_Base\<close>)
  show ?thesis
    unfolding loadSuccessfulBackups_def ListBackupDirs_def assms
    by (simp add: storage_fst_def lift_storage_def mem_storage_def, rule wp_conseq [OF mem_dirs_wp])
      (use l in \<open>auto simp: mem_storage_def\<close>)
qed

text \<open>What a run that has chosen the anchor \<open>a\<close> may lose.\<close>

definition spares :: "recoveryWindowBackup list \<Rightarrow> recoveryWindowBackup \<Rightarrow> stores \<Rightarrow> stores \<Rightarrow> bool" where
  "spares bs a s t \<longleftrightarrow>
     lost_only (\<lambda>q. \<exists>b \<in> set bs. rb_startedAt b < rb_startedAt a \<and> in_dir (rb_path b) q)
       (mem_files (fst s)) (mem_files (fst t)) \<and>
     lost_only (expendable (rb_beginWAL a)) (mem_files (snd s)) (mem_files (snd t))"

lemma DeleteBackups_wp:
  assumes "rt_BasebackupStor rt = storage_fst mem_storage"
    and "\<forall>b \<in> set bs. top_name (rb_path b) \<and> rb_name b = rb_path b"
  shows "wp (DeleteBackups rt (backupsOlderThanAnchor bs (Some a))) (\<lambda>_ t. snd t = snd s \<and> spares bs a s t)
     (\<lambda>_ t. snd t = snd s \<and> spares bs a s t) s"
proof (cases "backupsOlderThanAnchor bs (Some a) = []")
  case True
  then show ?thesis by (simp add: DeleteBackups_def spares_def)
next
  case False
  let ?S = "set (map backupBaseName (backupsOlderThanAnchor bs (Some a)))"
  have S: "\<exists>b \<in> set bs. rb_startedAt b < rb_startedAt a \<and> in_dir (rb_path b) q"
    if d: "d \<in> ?S" "in_dir d q" for d q
  proof -
    from d(1) obtain b where "b \<in> set bs" "rb_startedAt b < rb_startedAt a" "d = filepath_Base (rb_name b)"
      by (auto simp: backupsOlderThanAnchor_def backupBaseName_def)
    with assms(2) d(2) top_name_Base show ?thesis by auto
  qed
  have del: "wp (delete_dirs rt ?S ds) (\<lambda>_ t. snd t = snd s \<and> spares bs a s t) (\<lambda>_ t. snd t = snd s \<and> spares bs a s t) s"
    if "\<forall>d \<in> set ds. top_name d" for ds
    by (rule wp_conseq [OF delete_dirs_wp [OF assms(1) that]])
      (auto simp: spares_def simp del: set_map elim!: lost_only_mono intro: S)
  show ?thesis
    unfolding DeleteBackups_def using False
    by (simp add: assms(1) storage_fst_def lift_storage_def mem_storage_def del: set_map, intro wp_conseq [OF mem_dirs_wp])
      (use del in \<open>auto simp: spares_def simp del: set_map\<close>)
qed

lemma purge_wp:
  assumes base: "rt_BasebackupStor rt = storage_fst mem_storage"
    and wal: "Backend (rt_WalStor rt) = storage_snd mem_storage" and ctx: "ctx_pure (rt_ctx rt)"
    and bs: "\<forall>b \<in> set bs. top_name (rb_path b) \<and> rb_name b = rb_path b"
  shows "wp (purge rt bs (Some a)) (\<lambda>_ t. spares bs a s t) (\<lambda>_ t. spares bs a s t) s"
proof -
  have clean: "wp (DeleteBefore rt (rb_beginWAL a)) (\<lambda>_ t. spares bs a s t) (\<lambda>_ t. spares bs a s t) u"
    if u: "snd u = snd s" "spares bs a s u" for u
  proof -
    have c: "wp (rt_ctx rt) (\<lambda>_ t. True \<and> mem_files (snd t) = mem_files (snd v)) (\<lambda>_ t. True \<and> mem_files (snd t) = mem_files (snd v)) v" for v
      by (rule ctx_pure_wp [OF ctx]) simp
    have f: "wp (DeleteBefore rt (rb_beginWAL a)) (\<lambda>_ t. fst t = fst u) (\<lambda>_ t. fst t = fst u) u"
      by (rule keeps_wp [OF keeps_DeleteBefore [OF wal ctx]])
    show ?thesis
      by (rule wp_conseq [OF wp_conj [OF pair_archive.DeleteBefore_wp [OF c wal] f]])
        (use u in \<open>auto simp: spares_def\<close>)
  qed
  show ?thesis
    by (auto simp: purge_def Let_def spares_def [of _ _ s s] simp del: spares_def
        intro!: clean wp_conseq [OF DeleteBackups_wp [OF base bs]])
qed

lemma run_spares:
  assumes "rt_BasebackupStor rt = storage_fst mem_storage" and "Backend (rt_WalStor rt) = storage_snd mem_storage"
    and "ctx_pure (rt_ctx rt)" and "keeps (\<lambda>s. s) (rt_now rt)" and "recoveryWindow_RunBeforeBackup rt cfg s = (r, t)"
    and "fst (loadSuccessfulBackups rt s) = Inr bs" and "fst (rt_now rt s) = Inr now" and "retention_plan rt cfg bs now = Some a"
  shows "spares bs a s t"
proof -
  obtain u where l: "loadSuccessfulBackups rt s = (Inr bs, u)" using assms(6) by (cases "loadSuccessfulBackups rt s") auto
  from load_wp [OF assms(1), of s] l have u: "u = s" and ok: "\<forall>b \<in> set bs. top_name (rb_path b) \<and> rb_name b = rb_path b"
    by (auto simp: wp_def)
  obtain v where n: "rt_now rt s = (Inr now, v)" using assms(7) by (cases "rt_now rt s") auto
  with keepsD [OF assms(4) n] have v: "v = s" by simp
  have "bs \<noteq> []" using assms(8) by (auto simp: retention_plan_def chooseRecoveryWindowAnchor_def Let_def)
  then have "purge rt bs (Some a) s = (r, t)"
    using assms(5,8) l u n v by (simp add: recoveryWindow_RunBeforeBackup_def bindE_def)
  with purge_wp [OF assms(1-3) ok, of a s] show ?thesis by (auto simp: wp_def split: sum.splits)
qed

text \<open>C8: A retention run is safe as a whole. Whatever happens during it (an operation that fails, a cancelled context, a run cut short), if it got as far as a plan then there is an anchor with the guarantees of the recovery window among the backups it could read, and every file that is gone is either inside the directory of a backup that started before the anchor, or a segment of the WAL archive from before the anchor's first segment; the files that stay are unchanged. When it could read no backup, nothing is deleted at all.\<close>
theorem retention_run_safe:
  assumes "rt_BasebackupStor rt = storage_fst mem_storage"
    and "Backend (rt_WalStor rt) = storage_snd mem_storage"
    and "ctx_pure (rt_ctx rt)" and "keeps (\<lambda>s. s) (rt_now rt)"
    and "recoveryWindow_RunBeforeBackup rt cfg s = (r, t)"
  shows "t = s \<or>
    (\<exists>bs now a. fst (loadSuccessfulBackups rt s) = Inr bs \<and> fst (rt_now rt s) = Inr now \<and>
       anchor_ok bs (now + sint (- rc_KeepDurationParsed cfg))
         (max 1 (case rc_KeepLast cfg of Some n \<Rightarrow> n | None \<Rightarrow> 1)) a \<and>
       spares bs a s t)"
proof -
  obtain q u where l: "loadSuccessfulBackups rt s = (q, u)" by (rule prod.exhaust)
  from load_wp [OF assms(1), of s] l have u: "u = s"
    by (auto simp: wp_def split: sum.splits)
  show ?thesis
  proof (cases q)
    case (Inl e)
    with l u assms(5) show ?thesis by (simp add: recoveryWindow_RunBeforeBackup_def bindE_def)
  next
    case (Inr bs)
    show ?thesis
    proof (cases "bs = []")
      case True
      with Inr l u assms(5) show ?thesis by (simp add: recoveryWindow_RunBeforeBackup_def bindE_def retE_def)
    next
      case False
      obtain n v where n: "rt_now rt s = (n, v)" by (rule prod.exhaust)
      with keepsD [OF assms(4) n] have v: "v = s" by simp
      show ?thesis
      proof (cases n)
        case (Inl e)
        with Inr l u n v False assms(5) show ?thesis by (simp add: recoveryWindow_RunBeforeBackup_def bindE_def)
      next
        case now: (Inr now)
        let ?m = "case rc_KeepLast cfg of Some n \<Rightarrow> n | None \<Rightarrow> 1"
        obtain a where a: "retention_plan rt cfg bs now = Some a"
          using False by (simp add: retention_plan_def chooseRecoveryWindowAnchor_def Let_def)
        have ok: "anchor_ok bs (now + sint (- rc_KeepDurationParsed cfg)) (max 1 ?m) a"
          using anchor_ok_chosen [where clock = now and backups = bs and recoveryWindow = "rc_KeepDurationParsed cfg" and minimumBackups = ?m and now = now] a
          by (simp add: retention_plan_def Let_def)
        have "spares bs a s t" by (rule run_spares [OF assms _ _ a]) (simp_all add: l Inr n now)
        with ok l Inr n now show ?thesis by auto
      qed
    qed
  qed
qed

subsection \<open>A concrete run\<close>

text \<open>Two backups and their segments; the window starts after the second backup, so the first goes.\<close>

definition demo_json :: "io_reader \<Rightarrow> gerr + Result" where
  "demo_json r = (let n = length (fst r) in
     Inr \<lparr>rs_StartLSN = word_of_nat n * 0x1000000, rs_StopLSN = 0, rs_TimelineID = 1, rs_Tablespaces = [],
       rs_BytesTotal = 0, rs_StartedAt = int n * 100, rs_FinishedAt = 0, rs_Manifest = None\<rparr>)"

definition demo_alg :: Algorithms where
  "demo_alg = \<lparr>Gzip = None, Zstd = None, AES = None\<rparr>"

definition demo_rt :: "stores retention" where
  "demo_rt = \<lparr>rt_BasebackupStor = storage_fst mem_storage,
     rt_WalStor = \<lparr>Backend = storage_snd mem_storage, alg = demo_alg, writeExt = ''''\<rparr>,
     rt_Cfg = None, rt_WalSegSz = 0x1000000, rt_ctx = retE (), rt_now = retE 300,
     rt_decode = demo_json, rt_ParseLSN = (\<lambda>s. Inr 0)\<rparr>"

definition demo_cfg :: BackupRetentionConfig where
  "demo_cfg = \<lparr>rc_Enable = True, rc_Type = RetentionTypeRecoveryWindow, rc_KeepDurationParsed = 50, rc_KeepLast = None\<rparr>"

definition demo_stores :: stores where
  "demo_stores =
     (\<lparr>Files = [(''b1/b1.json'', ''x''), (''b2/b2.json'', ''xx'')], ctxDone = False, nowTime = 0\<rparr>,
      \<lparr>Files = [(''000000010000000000000001'', ''w''), (''000000010000000000000002'', ''w'')], ctxDone = False, nowTime = 0\<rparr>)"

theorem retention_run_safe_witness:
  "mem_files (fst (snd (recoveryWindow_RunBeforeBackup demo_rt demo_cfg demo_stores))) ''b1/b1.json'' = None \<and>
   mem_files (snd (snd (recoveryWindow_RunBeforeBackup demo_rt demo_cfg demo_stores))) ''000000010000000000000001'' = None \<and>
   (\<exists>bs now a. fst (loadSuccessfulBackups demo_rt demo_stores) = Inr bs \<and> fst (rt_now demo_rt demo_stores) = Inr now \<and>
       anchor_ok bs (now + sint (- rc_KeepDurationParsed demo_cfg)) (max 1 (case rc_KeepLast demo_cfg of Some n \<Rightarrow> n | None \<Rightarrow> 1)) a \<and>
       spares bs a demo_stores (snd (recoveryWindow_RunBeforeBackup demo_rt demo_cfg demo_stores)))"
proof -
  let ?t = "snd (recoveryWindow_RunBeforeBackup demo_rt demo_cfg demo_stores)"
  have gone: "mem_files (fst ?t) ''b1/b1.json'' = None" "mem_files (snd ?t) ''000000010000000000000001'' = None"
    by (code_simp, code_simp)
  then have "?t \<noteq> demo_stores" by (auto simp: demo_stores_def mem_files_def)
  moreover have "?t = demo_stores \<or>
    (\<exists>bs now a. fst (loadSuccessfulBackups demo_rt demo_stores) = Inr bs \<and> fst (rt_now demo_rt demo_stores) = Inr now \<and>
       anchor_ok bs (now + sint (- rc_KeepDurationParsed demo_cfg)) (max 1 (case rc_KeepLast demo_cfg of Some n \<Rightarrow> n | None \<Rightarrow> 1)) a \<and>
       spares bs a demo_stores ?t)"
    by (rule retention_run_safe [OF _ _ _ _ prod.collapse [symmetric]])
      (simp_all add: demo_rt_def keeps_basic)
  ultimately show ?thesis using gone by blast
qed

end
