(* ===== verification/RecoverySpec.thy ===== *)
theory RecoverySpec
  imports ArchiveSpec RetentionSpec
begin

section \<open>Recovery after a retention run\<close>







end
