(* ===== verification/PgReceiveWal.thy ===== *)
theory PgReceiveWal
  imports ReceiveLog FileTree
begin

section \<open>The receiver (internal/core/xlog/pg\_receivewal.go, stats.go)\<close>

text \<open>
  The outer loop: connect, make sure the replication slot exists, find where to start from the files
  of the receive directory, the slot or the server, and stream until the stream ends; then again.  The
  receiver's record extends the state of the stream it owns.  \<open>pgconn.Connect\<close> is a call that can fail.
\<close>

subsection \<open>State\<close>

record pgReceiveWal = stream +
  receiveDirectory :: string
  pgWalSegSz :: u64
  hasConn :: bool
  connStrRepl :: string
  slotName :: string
  noLoop :: bool
  hasStream :: bool

record PgReceiveWalOpts =
  oDir :: string
  oSlot :: string
  oNoLoop :: bool

definition ErrNoWalEntries :: gerr where
  "ErrNoWalEntries = EMsg ''no valid WAL segments found''"

definition pgconn_Connect :: "string \<Rightarrow> ('a pgReceiveWal_scheme, unit) m" where
  "pgconn_Connect connStr = failing (modE (\<lambda>s. s\<lparr>hasConn := True\<rparr>))"

definition NewPgReceiver :: "pgapi \<Rightarrow> PgReceiveWalOpts \<Rightarrow> ('a pgReceiveWal_scheme, unit) m" where
  "NewPgReceiver api opts =
     (let connStr = ''application_name='' @ oSlot opts @ '' replication=yes'' in
      thenE (pgconn_Connect connStr)
     (bindE (GetStartupInfo api) (\<lambda>wss.
      thenE (os_MkdirAll (oDir opts))
       (modE (\<lambda>s. s\<lparr>receiveDirectory := oDir opts, pgWalSegSz := wss, connStrRepl := connStr,
          slotName := oSlot opts, noLoop := oNoLoop opts, hasStream := False\<rparr>)))))"

definition SetStream :: "('a pgReceiveWal_scheme, unit) m" where
  "SetStream = modE (\<lambda>s. s\<lparr>hasStream := True\<rparr>)"

definition WalSegSz :: "'a pgReceiveWal_scheme \<Rightarrow> u64" where
  "WalSegSz s = pgWalSegSz s"

definition CurrentOpenWALFileName :: "'a pgReceiveWal_scheme \<Rightarrow> string" where
  "CurrentOpenWALFileName s =
     (if \<not> hasStream s then ''''
      else case walfile s of
          None \<Rightarrow> ''''
        | Some f \<Rightarrow> (case fd f of None \<Rightarrow> '''' | Some n \<Rightarrow> pathname f))"

subsection \<open>Where to start\<close>

record walEntry =
  e_tli :: u32
  e_segNo :: u64
  e_isPartial :: bool
  e_basename :: string

definition entry_less :: "walEntry \<Rightarrow> walEntry \<Rightarrow> bool" where
  "entry_less a b =
     (if e_segNo a \<noteq> e_segNo b then e_segNo b < e_segNo a
      else if e_tli a \<noteq> e_tli b then e_tli b < e_tli a
      else \<not> e_isPartial a \<and> e_isPartial b)"

text \<open>The callback of the walk: the path of a segment or partial segment gives an entry, unless it is
  a complete segment's name on a file of another size.\<close>

definition walk_entry :: "u64 \<Rightarrow> string \<Rightarrow> gerr + bool \<Rightarrow> walEntry list \<Rightarrow> ('a world_scheme, walEntry list) m" where
  "walk_entry seg path err entries =
     (case err of
        Inl e \<Rightarrow> throwE e
      | Inr _ \<Rightarrow>
          let base = filepath_Base path; isPartial = IsPartialXLogFileName base in
          if \<not> IsXLogFileName base \<and> \<not> isPartial then retE entries
          else
            bindE (liftE (XLogFromFileName base seg)) (\<lambda>(tli, segNo).
            bindE (if isPartial then retE True
                   else bindE (wrapE ''could not stat file'' (os_Stat path)) (\<lambda>(regular, sz). retE (ToUint64 sz = seg)))
              (\<lambda>keep. retE (if keep then entries @ [\<lparr>e_tli = tli, e_segNo = segNo, e_isPartial = isPartial, e_basename = base\<rparr>]
                            else entries))))"

definition bestStart :: "u64 \<Rightarrow> walEntry list \<Rightarrow> gerr + lsn \<times> u32" where
  "bestStart seg entries =
     (case sort_Slice entry_less entries of
        [] \<Rightarrow> Inl ErrNoWalEntries
      | best # _ \<Rightarrow>
          Inr (if e_isPartial best then XLogSegNoToRecPtr (e_segNo best) seg
               else XLogSegNoToRecPtr (e_segNo best + 1) seg, e_tli best))"

definition findStreamingStart :: "('a pgReceiveWal_scheme, lsn \<times> u32) m" where
  "findStreamingStart =
     bindE (getE (\<lambda>s. (receiveDirectory s, pgWalSegSz s))) (\<lambda>(dir, seg).
     bindE (wrapE ''could not read directory'' (filepath_WalkDir dir (walk_entry seg) [])) (\<lambda>entries.
       liftE (bestStart seg entries)))"

subsection \<open>One stream, and the loop of streams\<close>

text \<open>The slot is created when it does not exist; its restart position is read again afterwards.\<close>

definition ensureSlot :: "pgapi \<Rightarrow> ('a pgReceiveWal_scheme, slotInfo) m" where
  "ensureSlot api =
     bindE (getE slotName) (\<lambda>slot.
     bindE (tryE (GetSlotInformation api slot)) (\<lambda>r.
     thenE (case r of
              Inr _ \<Rightarrow> retE ()
            | Inl e \<Rightarrow>
                if errors_Is e ErrSlotDoesNotExist
                then wrapE ''cannot create replication slot'' (request (\<lambda>n. CreateReplicationSlot api n slot))
                else throwE (wrap_err ''cannot get slot information when checking existence'' e))
       (wrapE ''cannot get slot information'' (GetSlotInformation api slot))))"

text \<open>The three sources of the start position, in their order of preference.\<close>

definition chooseStart :: "gerr + lsn \<times> u32 \<Rightarrow> slotInfo \<Rightarrow> lsn \<times> 32 word \<Rightarrow> lsn \<times> u32" where
  "chooseStart found slot ident =
     (let (lsn0, tli0) = (case found of Inl e \<Rightarrow> (0, 0) | Inr p \<Rightarrow> p);
          (lsn1, tli1) = (if lsn0 = 0 \<and> RestartLSN slot \<noteq> 0 then (RestartLSN slot, RestartTLI slot) else (lsn0, tli0))
      in if lsn1 = 0 then (fst ident, ToUint32 (snd ident)) else (lsn1, tli1))"

definition finishStream :: "('a pgReceiveWal_scheme, unit) m" where
  "finishStream =
     bindE (getE receiveDirectory) (\<lambda>dir.
     bindE (tryE (FsyncDir dir)) (\<lambda>r.
       case r of
         Inl e \<Rightarrow> retE ()
       | Inr _ \<Rightarrow> bindE (getE hasConn) (\<lambda>c. whenE c
           (thenE (tryE (failing (retE ()))) (modE (\<lambda>s. s\<lparr>hasConn := False\<rparr>))))))"

definition startStream :: "pgapi \<Rightarrow> lsn \<times> u32 \<Rightarrow> ('a pgReceiveWal_scheme, unit) m" where
  "startStream api = (\<lambda>(lsn, tli).
     if lsn = 0 \<or> tli = 0 then throwE (EMsg ''cannot find start LSN for streaming'')
     else
       bindE (getE (\<lambda>s. (pgWalSegSz s, slotName s, receiveDirectory s))) (\<lambda>(seg, slot, dir).
       thenE (NewStream \<lparr>oStartPos = lsn - XLogSegmentOffset lsn seg, oTimeline = tli, oReplicationSlot = slot,
                oWalSegSz = seg, oReceiveDirectory = dir\<rparr>)
      (thenE SetStream
      (thenE (tryE (ReceiveXlogStream api)) finishStream))))"

definition streamLog :: "pgapi \<Rightarrow> ('a pgReceiveWal_scheme, unit) m" where
  "streamLog api =
     bindE (getE (\<lambda>s. (hasConn s, connStrRepl s))) (\<lambda>(c, connStr).
     bindE (if c then retE True else bindE (tryE (pgconn_Connect connStr)) (\<lambda>r. retE (\<not> isl r))) (\<lambda>connected.
     if \<not> connected then retE ()
     else
       bindE (ensureSlot api) (\<lambda>slot.
       bindE (wrapE ''cannot identify system'' (request (IdentifySystem api))) (\<lambda>ident.
       bindE (tryE findStreamingStart) (\<lambda>found.
         startStream api (chooseStart found slot ident))))))"

text \<open>\<open>Run\<close>: \<open>None\<close> when the given number of streams did not end it, otherwise what it returned.\<close>

fun Run :: "pgapi \<Rightarrow> nat \<Rightarrow> 'a pgReceiveWal_scheme \<Rightarrow> (gerr + unit) option \<times> 'a pgReceiveWal_scheme" where
  "Run api 0 s = (None, s)"
| "Run api (Suc n) s =
     (case streamLog api s of
        (Inl err, t) \<Rightarrow> (Some (if errors_Is err ECanceled then Inr () else Inl err), t)
      | (Inr _, t) \<Rightarrow>
          if c_cancelled t then (Some (Inr ()), t)
          else if noLoop t then (Some (Inl (EMsg ''disconnected'')), t)
          else Run api n t)"

subsection \<open>Status\<close>

record StreamStatus =
  st_Slot :: string
  st_Timeline :: u32
  st_LastFlushLSN :: lsn
  st_Uptime :: int
  st_Running :: bool

definition streamStatus :: "int \<Rightarrow> 'a stream_scheme \<Rightarrow> StreamStatus" where
  "streamStatus now s = \<lparr>st_Slot = replicationSlot s, st_Timeline = timeline s,
     st_LastFlushLSN = lastFlushPosition s,
     st_Uptime = (let d = time_Sub now (startedAt s) in d - (if d < 0 then - ((- d) mod 1000000) else d mod 1000000)),
     st_Running = True\<rparr>"

definition Status :: "int \<Rightarrow> 'a pgReceiveWal_scheme \<Rightarrow> StreamStatus" where
  "Status now s =
     (if \<not> hasStream s
      then \<lparr>st_Slot = '''', st_Timeline = 0, st_LastFlushLSN = 0, st_Uptime = 0, st_Running = False\<rparr>
      else streamStatus now s)"

end
