(* ===== verification/ResumeSpec.thy ===== *)
theory ResumeSpec
  imports PgReceiveWal
begin

section \<open>Where the receiver resumes\<close>

text \<open>
  What \<open>findStreamingStart\<close> returns, stated over the files of the receive directory: the entry of a path
  is what its name and size say, and the position returned is that of the greatest entry.
\<close>

definition entry_of :: "u64 \<Rightarrow> 'a world_scheme \<Rightarrow> string \<Rightarrow> walEntry option" where
  "entry_of seg s p =
     (let base = filepath_Base p; partial = IsPartialXLogFileName base;
          keep = (partial \<or> IsXLogFileName base \<and> p \<notin> set (w_dirs s) \<and>
             (case lookup s p of None \<Rightarrow> False | Some i \<Rightarrow> length (i_data (w_ino s i)) = unat seg))
      in if keep then
           (case XLogFromFileName base seg of
              Inl e \<Rightarrow> None
            | Inr (tli, n) \<Rightarrow> Some \<lparr>e_tli = tli, e_segNo = n, e_isPartial = partial, e_basename = base\<rparr>)
         else None)"

definition wal_entries :: "'a pgReceiveWal_scheme \<Rightarrow> walEntry list" where
  "wal_entries s = List.map_filter (entry_of (pgWalSegSz s) s) (tree_paths (receiveDirectory s) s)"

definition entry_start :: "u64 \<Rightarrow> walEntry \<Rightarrow> lsn" where
  "entry_start seg e = XLogSegNoToRecPtr (e_segNo e + (if e_isPartial e then 0 else 1)) seg"

definition entry_le :: "walEntry \<Rightarrow> walEntry \<Rightarrow> bool" where
  "entry_le a b = (e_segNo a < e_segNo b \<or> e_segNo a = e_segNo b \<and>
     (e_tli a < e_tli b \<or> e_tli a = e_tli b \<and> (e_isPartial b \<longrightarrow> e_isPartial a)))"

lemma wp_os_Stat_full:
  assumes "\<And>i t. lookup s p = Some i \<Longrightarrow> p \<notin> set (w_dirs s) \<Longrightarrow> env_le s t \<Longrightarrow> length (i_data (w_ino s i)) < 2 ^ 63 \<Longrightarrow>
      Q (True, word_of_nat (length (i_data (w_ino s i)))) t"
    and "\<And>t. p \<in> set (w_dirs s) \<Longrightarrow> env_le s t \<Longrightarrow> Q (False, 4096) t"
    and "\<And>e t. \<not> is_abort e \<Longrightarrow> env_le s t \<Longrightarrow> R e t"
  shows "wp (os_Stat p) Q R s"
  unfolding os_Stat_def
  by (rule wp_failingI) (use assms in \<open>auto simp: wp_def not_le split: option.split\<close>)

lemma entry_of_cong: "env_le s t \<Longrightarrow> entry_of seg t = entry_of seg s"
  by (simp add: entry_of_def env_leD fun_eq_iff cong: option.case_cong)

lemma valid_seg_not_page: "IsValidWalSegSize seg \<Longrightarrow> ToUint64 4096 \<noteq> seg \<and> unat seg < 2 ^ 63"
  by (auto simp: IsValidWalSegSize_def WalSegMinSize_def WalSegMaxSize_def ToUint64_def word_le_nat_alt)

lemma wp_walk_entry:
  assumes "IsValidWalSegSize seg"
  shows "wp (walk_entry seg p (Inr d) acc)
    (\<lambda>r t. env_le s t \<and> r = acc @ (case entry_of seg s p of None \<Rightarrow> [] | Some e \<Rightarrow> [e])) (\<lambda>_ t. env_le s t) s"
proof (cases "IsXLogFileName (filepath_Base p) \<or> IsPartialXLogFileName (filepath_Base p)")
  case False
  then show ?thesis by (simp add: walk_entry_def entry_of_def Let_def)
next
  case True
  have sz: "word_of_nat n = seg \<longleftrightarrow> n = unat seg" if "n < 2 ^ 63" for n :: nat
    using that valid_seg_not_page [OF assms] by (auto simp: word_unat_eq_iff unat_of_nat take_bit_nat_eq_self)
  show ?thesis
  proof (cases "IsPartialXLogFileName (filepath_Base p)")
    case partial: True
    then show ?thesis
      by (auto simp: walk_entry_def entry_of_def Let_def split: sum.split prod.split)
  next
    case full: False
    with True show ?thesis
      apply (simp add: walk_entry_def Let_def split: sum.split prod.split)
      apply (intro allI impI conjI)
      apply (rule wp_os_Stat_full)
        apply (use valid_seg_not_page [OF assms] full in \<open>auto simp: entry_of_def Let_def ToUint64_of_nat sz\<close>)
      done
  qed
qed

lemma wp_walk_each_entry:
  assumes "IsValidWalSegSize seg"
  shows "env_le s0 s \<Longrightarrow> wp (walk_each (walk_entry seg) acc ps)
    (\<lambda>r t. env_le s0 t \<and> r = acc @ List.map_filter (entry_of seg s0) ps) (\<lambda>_ t. env_le s0 t) s"
proof (induction ps arbitrary: acc s)
  case Nil
  then show ?case by (simp add: map_filter_simps)
next
  case (Cons p ps)
  have mf: "List.map_filter (entry_of seg s0) (p # ps) =
      (case entry_of seg s0 p of None \<Rightarrow> [] | Some e \<Rightarrow> [e]) @ List.map_filter (entry_of seg s0) ps"
    by (simp add: map_filter_simps split: option.split)
  have ok: "wp (walk_each (walk_entry seg) a ps)
    (\<lambda>r t. env_le s0 t \<and> r = acc @ List.map_filter (entry_of seg s0) (p # ps)) (\<lambda>_ t. env_le s0 t) t"
    if "env_le s0 t" "a = acc @ (case entry_of seg s0 p of None \<Rightarrow> [] | Some e \<Rightarrow> [e])" for t a
    using Cons.IH [OF that(1), of a] unfolding mf that(2) by simp
  have bad: "wp (walk_entry seg p (Inl e) a) Q (\<lambda>_ t. env_le s0 t) t" if "env_le s0 t" for t e a Q
    using that by (simp add: walk_entry_def)
  show ?case
    by (rule wp_walk_Cons, rule wp_conseq [OF wp_walk_entry [OF assms]])
      (use Cons.prems in \<open>auto simp: entry_of_cong [OF Cons.prems] intro!: ok bad intro: env_le_trans simp del: map_filter_simps\<close>)
qed

lemma in_treeI: "in_tree d d"
  by (simp add: in_tree_def)

lemma findStreamingStart_entries:
  assumes "IsValidWalSegSize (pgWalSegSz s)"
  shows "wp findStreamingStart
    (\<lambda>r t. bestStart (pgWalSegSz s) (wal_entries s) = Inr r)
    (\<lambda>e t. e = ErrNoWalEntries \<longrightarrow> wal_entries s = []) s"
proof -
  let ?seg = "pgWalSegSz s"
  have walk: "wp (filepath_WalkDir dir (walk_entry ?seg) [])
      (\<lambda>r t. r = List.map_filter (entry_of ?seg s) (tree_paths dir s)) (\<lambda>_ _. True) s" for dir
  proof -
    have "wp (walk_each (walk_entry ?seg) [] (tree_paths dir t))
        (\<lambda>r t. r = List.map_filter (entry_of ?seg s) (tree_paths dir s)) (\<lambda>_ _. True) t" if "env_le s t" for t
    proof -
      have "tree_paths dir t = tree_paths dir s"
        using that by (simp add: tree_paths_def env_le_def)
      then show ?thesis
        using wp_walk_each_entry [OF assms that, of "[]" "tree_paths dir s"]
        by (auto elim: wp_conseq)
    qed
    note tail = this
    show ?thesis
      by (auto simp: filepath_WalkDir_def walk_entry_def intro!: tail split: option.split)
  qed
  show ?thesis
    apply (simp add: findStreamingStart_def)
    apply (rule wp_conseq [OF walk])
    apply (auto simp: wal_entries_def ErrNoWalEntries_def wrap_err_def bestStart_def sort_Slice_Nil split: sum.split list.split)
    done
qed

lemma entry_less_iff: "entry_less a b \<longleftrightarrow> \<not> entry_le a b"
  by (auto simp: entry_less_def entry_le_def)

lemma best_is_greatest:
  assumes "sort_Slice entry_less es = best # rest" and "e \<in> set es"
  shows "entry_le e best"
proof -
  have "sorted_wrt (\<lambda>a b. \<not> entry_less b a) (sort_Slice entry_less es)"
    by (rule sorted_sort_Slice) (auto simp: entry_less_def split: if_splits)
  moreover have "e \<in> set (sort_Slice entry_less es)" using assms(2) by simp
  ultimately show ?thesis using assms(1) by (auto simp: entry_less_iff) (auto simp: entry_le_def)
qed

text \<open>C16: The position at which streaming resumes is that of the greatest segment file of the receive
  directory, by segment number, then timeline, a complete file above a partial one: its end when the
  file is complete and of full size, its start when it is partial.  Every other such file is below.\<close>

theorem resume_position:
  assumes "IsValidWalSegSize (pgWalSegSz s)" and "findStreamingStart s = (Inr (start, tli), t)"
  shows "\<exists>best \<in> set (wal_entries s). start = entry_start (pgWalSegSz s) best \<and> tli = e_tli best \<and>
    (\<forall>e \<in> set (wal_entries s). entry_le e best)"
proof -
  have b: "bestStart (pgWalSegSz s) (wal_entries s) = Inr (start, tli)"
    using wpD_ok [OF findStreamingStart_entries [OF assms(1)] assms(2)] .
  then obtain best rest where s: "sort_Slice entry_less (wal_entries s) = best # rest"
    by (auto simp: bestStart_def split: list.splits)
  have "best \<in> set (wal_entries s)"
    by (metis s list.set_intros(1) set_sort_Slice)
  with b s show ?thesis
    by (intro bexI [of _ best]) (auto simp: bestStart_def entry_start_def dest: best_is_greatest)
qed

text \<open>A directory with a complete segment, a partial one after it, and a complete one of wrong size.\<close>

definition demo_receiver :: "unit pgReceiveWal_scheme" where
  "demo_receiver = \<lparr>w_dir = [(''/w/000000010000000000000002.partial'', 0), (''/w/000000010000000000000001'', 1),
       (''/w/000000010000000000000003'', 0)],
     w_ddir = [], w_dirs = [''/w''],
     w_ino = (\<lambda>i. \<lparr>i_data = (if i = 1 then replicate 0x1000000 CHR ''a'' else []), i_sync = []\<rparr>),
     w_fd = (\<lambda>_. None), w_next = 2, w_tick = 0, w_fault = (\<lambda>_. None), w_clock = (\<lambda>n. 0),
     startPos = 0, timeline = 1, standbyMessageTimeout = 0, synchronous = True,
     partialSuffix = PartialSuffix, replicationSlot = [], walSegSz = 0x1000000, receiveDir = ''/w'',
     reportFlushPosition = True, lastStatus = 0, lastFlushPosition = 0, blockPos = 0, stopPos = 0,
     walfile = None, startedAt = 0, c_inbox = [], c_cancelled = False, c_sent = [], m_bytes = 0, m_files = 0,
     receiveDirectory = ''/w'', pgWalSegSz = 0x1000000, hasConn = True, connStrRepl = '''', slotName = ''s'',
     noLoop = False, hasStream = False\<rparr>"

lemma demo_tree:
  "tree_paths ''/w'' demo_receiver =
     [''/w'', ''/w/000000010000000000000001'', ''/w/000000010000000000000002.partial'', ''/w/000000010000000000000003'']"
proof -
  have "sort_key path_elems (remdups (filter (in_tree ''/w'') [''/w'',
      ''/w/000000010000000000000002.partial'', ''/w/000000010000000000000001'', ''/w/000000010000000000000003''])) =
    [''/w'', ''/w/000000010000000000000001'', ''/w/000000010000000000000002.partial'', ''/w/000000010000000000000003'']"
    by code_simp
  then show ?thesis by (simp add: tree_paths_def demo_receiver_def)
qed

lemma demo_base:
  "filepath_Base ''/w'' = ''w''" "filepath_Clean ''/w'' = ''/w''"
  "filepath_Base ''/w/000000010000000000000001'' = ''000000010000000000000001''"
  "filepath_Base ''/w/000000010000000000000002.partial'' = ''000000010000000000000002.partial''"
  "filepath_Base ''/w/000000010000000000000003'' = ''000000010000000000000003''"
  by code_simp+

lemma demo_kind:
  "\<not> IsXLogFileName ''w''" "\<not> IsPartialXLogFileName ''w''"
  "IsXLogFileName ''000000010000000000000001''" "\<not> IsPartialXLogFileName ''000000010000000000000001''"
  "IsXLogFileName ''000000010000000000000003''" "\<not> IsPartialXLogFileName ''000000010000000000000003''"
  "IsPartialXLogFileName ''000000010000000000000002.partial''"
  by code_simp+

lemma demo_parse:
  "XLogFromFileName ''000000010000000000000001'' 0x1000000 = Inr (1, 1)"
  "XLogFromFileName ''000000010000000000000003'' 0x1000000 = Inr (1, 3)"
  "XLogFromFileName ''000000010000000000000002.partial'' 0x1000000 = Inr (1, 2)"
  by (simp_all add: XLogFromFileName_def go_defs Uint64ToUint32_def XLogSegmentsPerXLogId_def)

lemma demo_size:
  "w_ino demo_receiver (Suc 0) = \<lparr>i_data = replicate 0x1000000 CHR ''a'', i_sync = []\<rparr>"
  "w_ino demo_receiver 0 = \<lparr>i_data = [], i_sync = []\<rparr>"
  by (simp_all add: demo_receiver_def)

lemma demo_dirs:
  "receiveDirectory demo_receiver = ''/w''" "pgWalSegSz demo_receiver = 0x1000000"
  "w_fault demo_receiver = (\<lambda>_. None)" "w_dirs demo_receiver = [''/w'']"
  "lookup demo_receiver ''/w/000000010000000000000001'' = Some 1"
  "lookup demo_receiver ''/w/000000010000000000000003'' = Some 0"
  by (simp_all add: demo_receiver_def lookup_def)

lemma demo_found: "fst (findStreamingStart demo_receiver) = Inr (2 * 0x1000000, 1)"
proof -
  have w: "tree_paths ''/w'' (demo_receiver\<lparr>w_tick := n\<rparr>) = tree_paths ''/w'' demo_receiver" for n
    by (simp add: tree_paths_def)
  have sz: "ToUint64 0x1000000 = 0x1000000" "ToUint64 0 \<noteq> 0x1000000"
    by code_simp+
  show ?thesis
    by (simp add: findStreamingStart_def filepath_WalkDir_def exec_simps failing_def syscall_def demo_dirs w demo_tree
        walk_entry_def demo_base demo_kind demo_parse os_Stat_def Let_def demo_size sz
        bestStart_def sort_Slice_def entry_less_def XLogSegNoToRecPtr_def)
qed

theorem resume_position_witness:
  "\<exists>best \<in> set (wal_entries demo_receiver). (2 * 0x1000000 :: lsn) = entry_start (pgWalSegSz demo_receiver) best \<and>
    1 = e_tli best \<and> (\<forall>e \<in> set (wal_entries demo_receiver). entry_le e best)"
proof (rule resume_position)
  have "IsValidWalSegSize 0x1000000" by code_simp
  then show "IsValidWalSegSize (pgWalSegSz demo_receiver)" by (simp add: demo_dirs)
  show "findStreamingStart demo_receiver = (Inr (2 * 0x1000000, 1), snd (findStreamingStart demo_receiver))"
    using demo_found by (metis prod.collapse)
qed

end
