(* ===== verification/Retry.thy ===== *)
theory Retry
  imports Prelude
begin

section \<open>Retrying and queueing (internal/opt/shared: retry, jobq)\<close>

subsection \<open>Package retry\<close>

text \<open>
  \<open>Do\<close> may run forever, so it is a partial function: \<open>None\<close> is a call that never returns.  The context is a
  computation: its error at that moment, if any; sleeping is a computation too, which ends with the
  context's error when it is interrupted.  A panic of the operation is not caught.
\<close>

record Policy =
  MaxAttempts :: int
  Delay :: int
  RetryIf :: "(gerr \<Rightarrow> bool) option"

definition ErrNilOperation :: gerr where
  "ErrNilOperation = EMsg ''retry operation is nil''"

definition withDefaults :: "Policy \<Rightarrow> Policy" where
  "withDefaults p = (if Delay p \<le> 0 then p\<lparr>Delay := 100 * 1000000\<rparr> else p)"

record 's clock_ctx =
  ctx_Err :: "'s \<Rightarrow> gerr option \<times> 's"
  ctx_wait :: "int \<Rightarrow> 's \<Rightarrow> gerr option \<times> 's"

definition sleepContext :: "'s clock_ctx \<Rightarrow> int \<Rightarrow> 's \<Rightarrow> gerr option \<times> 's" where
  "sleepContext c delay s = (if delay \<le> 0 then (None, s) else ctx_wait c delay s)"

text \<open>After a failed attempt: the error to return, or to go on.\<close>

definition after_failure :: "'s clock_ctx \<Rightarrow> Policy \<Rightarrow> int \<Rightarrow> gerr \<Rightarrow> 's \<Rightarrow> gerr option \<times> 's" where
  "after_failure c policy attempt err s =
     (case ctx_Err c s of
        (Some e, t) \<Rightarrow> (Some e, t)
      | (None, t) \<Rightarrow>
          if (case RetryIf policy of Some f \<Rightarrow> \<not> f err | None \<Rightarrow> False) then (Some err, t)
          else if MaxAttempts policy > 0 \<and> attempt \<ge> MaxAttempts policy then (Some (EWrap ''retry failed'' err), t)
          else sleepContext c (Delay policy) t)"

partial_function (option) do_loop :: "'s clock_ctx \<Rightarrow> Policy \<Rightarrow> ('s, 'a) m \<Rightarrow> int \<Rightarrow> 's \<Rightarrow> ((gerr + 'a) \<times> 's) option" where
  "do_loop c policy op attempt s =
     (case op s of
        (Inr result, t) \<Rightarrow> Some (Inr result, t)
      | (Inl err, t) \<Rightarrow>
          if is_abort err then Some (Inl err, t)
          else case after_failure c policy attempt err t of
              (Some e, u) \<Rightarrow> Some (Inl e, u)
            | (None, u) \<Rightarrow> do_loop c policy op (attempt + 1) u)"

definition retry_Do :: "'s clock_ctx \<Rightarrow> Policy \<Rightarrow> ('s, 'a) m option \<Rightarrow> 's \<Rightarrow> ((gerr + 'a) \<times> 's) option" where
  "retry_Do c policy op s =
     (case op of
        None \<Rightarrow> Some (Inl ErrNilOperation, s)
      | Some f \<Rightarrow> do_loop c (withDefaults policy) f 1 s)"

text \<open>The operation with a counter of its calls.\<close>

definition counted_op :: "('s, 'a) m \<Rightarrow> (nat \<times> 's, 'a) m" where
  "counted_op f s = (case f (snd s) of (r, t) \<Rightarrow> (r, (Suc (fst s), t)))"

definition counted_ctx :: "'s clock_ctx \<Rightarrow> (nat \<times> 's) clock_ctx" where
  "counted_ctx c = \<lparr>ctx_Err = (\<lambda>s. case ctx_Err c (snd s) of (e, t) \<Rightarrow> (e, (fst s, t))),
     ctx_wait = (\<lambda>d s. case ctx_wait c d (snd s) of (e, t) \<Rightarrow> (e, (fst s, t)))\<rparr>"

lemma after_failure_counted:
  "snd (after_failure (counted_ctx c) p a e s) = (fst s, snd (after_failure c p a e (snd s)))"
  "fst (after_failure (counted_ctx c) p a e s) = fst (after_failure c p a e (snd s))"
  by (auto simp: after_failure_def counted_ctx_def sleepContext_def split: prod.split option.split)

lemma do_loop_bounded:
  assumes "0 < MaxAttempts p" and "1 \<le> attempt" and "attempt \<le> MaxAttempts p"
  shows "\<exists>r n t. do_loop (counted_ctx c) p (counted_op f) attempt s = Some (r, (n, t)) \<and>
     int n \<le> int (fst s) + (MaxAttempts p - attempt + 1) \<and> fst s < n \<and>
     (\<forall>x. r = Inr x \<longrightarrow> (\<exists>u. f u = (Inr x, t)))"
  using assms(2,3)
proof (induction "nat (MaxAttempts p - attempt)" arbitrary: attempt s)
  case 0
  then have a: "attempt = MaxAttempts p" by simp
  obtain r t where f: "f (snd s) = (r, t)" by fastforce
  show ?case
  proof (cases r)
    case (Inr x)
    then show ?thesis using f 0 by (subst do_loop.simps) (auto simp: counted_op_def)
  next
    case (Inl e)
    have "fst (after_failure c p attempt e t) \<noteq> None"
      using a assms(1) by (auto simp: after_failure_def split: prod.split option.split)
    then obtain e' where "fst (after_failure c p attempt e t) = Some e'" by blast
    with f Inl 0 show ?thesis
      using after_failure_counted [of c p attempt e "(Suc (fst s), t)"]
      by (subst do_loop.simps) (cases "after_failure (counted_ctx c) p attempt e (Suc (fst s), t)"; auto simp: counted_op_def)
  qed
next
  case (Suc k)
  obtain r t where f: "f (snd s) = (r, t)" by fastforce
  show ?case
  proof (cases r)
    case (Inr x)
    then show ?thesis using f Suc.prems by (subst do_loop.simps) (auto simp: counted_op_def)
  next
    case (Inl e)
    obtain g v where v: "after_failure (counted_ctx c) p attempt e (Suc (fst s), t) = (g, v)" by (rule prod.exhaust)
    have fv: "fst v = Suc (fst s)" using after_failure_counted(1) [of c p attempt e "(Suc (fst s), t)"] v by simp
    show ?thesis
    proof (cases "is_abort e \<or> g \<noteq> None")
      case True
      have "do_loop (counted_ctx c) p (counted_op f) attempt s =
          Some (if is_abort e then (Inl e, (Suc (fst s), t)) else (Inl (the g), v))"
        using f Inl v True by (subst do_loop.simps) (auto simp: counted_op_def)
      with fv Suc.prems show ?thesis by (cases v) (auto simp: split: if_splits)
    next
      case False
      have "\<exists>r n t. do_loop (counted_ctx c) p (counted_op f) (attempt + 1) v = Some (r, (n, t)) \<and>
        int n \<le> int (fst v) + (MaxAttempts p - (attempt + 1) + 1) \<and> fst v < n \<and> (\<forall>x. r = Inr x \<longrightarrow> (\<exists>u. f u = (Inr x, t)))"
        using Suc.hyps(2) Suc.prems by (intro Suc.hyps(1)) auto
      moreover have "do_loop (counted_ctx c) p (counted_op f) attempt s = do_loop (counted_ctx c) p (counted_op f) (attempt + 1) v"
        using f Inl v False by (subst do_loop.simps) (simp add: counted_op_def)
      ultimately show ?thesis using fv by auto
    qed
  qed
qed

text \<open>A bounded retry returns. With MaxAttempts positive, Do returns whatever the operation, the context and the retry filter do; it has called the operation at least once and at most MaxAttempts times, and a result it returns is that of the last call.\<close>
theorem retry_Do_returns:
  assumes "0 < MaxAttempts policy"
  shows "\<exists>r n t. retry_Do (counted_ctx c) policy (Some (counted_op f)) (0, s) = Some (r, (n, t)) \<and>
     0 < n \<and> int n \<le> MaxAttempts policy \<and> (\<forall>x. r = Inr x \<longrightarrow> (\<exists>u. f u = (Inr x, t)))"
proof -
  have "MaxAttempts (withDefaults policy) = MaxAttempts policy" by (simp add: withDefaults_def)
  with do_loop_bounded [of "withDefaults policy" 1 c f "(0, s)"] assms show ?thesis
    by (auto simp: retry_Do_def)
qed

theorem retry_Do_returns_witness:
  "\<exists>r n t. retry_Do (counted_ctx \<lparr>ctx_Err = (\<lambda>s. (None, s)), ctx_wait = (\<lambda>d s. (None, s + d))\<rparr>)
       \<lparr>MaxAttempts = 3, Delay = 5, RetryIf = None\<rparr> (Some (counted_op (throwE EEOF :: (int, nat) m))) (0, 0) = Some (r, (n, t)) \<and>
     0 < n \<and> int n \<le> MaxAttempts \<lparr>MaxAttempts = 3, Delay = 5, RetryIf = None\<rparr> \<and> (\<forall>x. r = Inr x \<longrightarrow> (\<exists>u. (throwE EEOF :: (int, nat) m) u = (Inr x, t)))"
  by (rule retry_Do_returns) simp

subsection \<open>Package jobq\<close>

text \<open>The channel is the list of waiting jobs; one worker takes them in order.\<close>

record JobQueue =
  jq_cap :: nat
  jq_jobs :: "string list"

definition ErrJobQueueFull :: gerr where
  "ErrJobQueueFull = EMsg ''job queue full''"

definition NewJobQueue :: "int \<Rightarrow> JobQueue" where
  "NewJobQueue bufferSize = \<lparr>jq_cap = nat (if bufferSize \<le> 0 then 1 else bufferSize), jq_jobs = []\<rparr>"

definition Submit :: "string \<Rightarrow> JobQueue \<Rightarrow> (gerr + unit) \<times> JobQueue" where
  "Submit name q =
     (if length (jq_jobs q) < jq_cap q then (Inr (), q\<lparr>jq_jobs := jq_jobs q @ [name]\<rparr>)
      else (Inl (EWrap name ErrJobQueueFull), q))"

definition take_job :: "JobQueue \<Rightarrow> string option \<times> JobQueue" where
  "take_job q = (case jq_jobs q of [] \<Rightarrow> (None, q) | j # js \<Rightarrow> (Some j, q\<lparr>jq_jobs := js\<rparr>))"

datatype jq_event = Submitted string | WorkerFree

text \<open>The jobs accepted and the jobs run, for a sequence of submissions and of moments the worker is free.\<close>

fun run_queue :: "jq_event list \<Rightarrow> JobQueue \<times> string list \<times> string list \<Rightarrow> JobQueue \<times> string list \<times> string list" where
  "run_queue [] s = s"
| "run_queue (Submitted n # es) (q, accepted, started) =
     (case Submit n q of
        (Inr _, q') \<Rightarrow> run_queue es (q', accepted @ [n], started)
      | (Inl e, q') \<Rightarrow> run_queue es (q', accepted, started))"
| "run_queue (WorkerFree # es) (q, accepted, started) =
     (case take_job q of
        (Some j, q') \<Rightarrow> run_queue es (q', accepted, started @ [j])
      | (None, q') \<Rightarrow> run_queue es (q', accepted, started))"

lemma run_queue_inv:
  "accepted = started @ jq_jobs q \<Longrightarrow> length (jq_jobs q) \<le> jq_cap q \<Longrightarrow> run_queue es (q, accepted, started) = (q', accepted', started') \<Longrightarrow>
   accepted' = started' @ jq_jobs q' \<and> length (jq_jobs q') \<le> jq_cap q' \<and> jq_cap q' = jq_cap q"
proof (induction es arbitrary: q accepted started)
  case (Cons e es)
  show ?case
  proof (cases e)
    case (Submitted n)
    with Cons.prems show ?thesis
      using Cons.IH [of "accepted @ [n]" started "q\<lparr>jq_jobs := jq_jobs q @ [n]\<rparr>"] Cons.IH [of accepted started q]
      by (auto simp: Submit_def split: if_splits)
  next
    case WorkerFree
    show ?thesis
    proof (cases "jq_jobs q")
      case Nil
      with WorkerFree Cons.prems Cons.IH [of accepted started q] show ?thesis by (simp add: take_job_def)
    next
      case (Cons j js)
      with WorkerFree Cons.prems Cons.IH [of accepted "started @ [j]" "q\<lparr>jq_jobs := js\<rparr>"] show ?thesis
        by (simp add: take_job_def)
    qed
  qed
qed simp

text \<open>The job queue is bounded and keeps the order. After any sequence of submissions and moments the worker is free, at most bufferSize jobs (at least one) wait, and the jobs that were run are, in order, the first of the accepted ones, the rest waiting in order: none is lost, none runs twice.\<close>
theorem jobq_fifo:
  "case run_queue events (NewJobQueue bufferSize, [], []) of
     (q, accepted, started) \<Rightarrow> accepted = started @ jq_jobs q \<and> int (length (jq_jobs q)) \<le> max 1 bufferSize"
proof -
  obtain q a r where q: "run_queue events (NewJobQueue bufferSize, [], []) = (q, a, r)" by (metis prod_cases3)
  have "a = r @ jq_jobs q \<and> length (jq_jobs q) \<le> jq_cap q \<and> jq_cap q = jq_cap (NewJobQueue bufferSize)"
    by (rule run_queue_inv [OF _ _ q]) (simp_all add: NewJobQueue_def)
  moreover have "int (jq_cap (NewJobQueue bufferSize)) = max 1 bufferSize" by (simp add: NewJobQueue_def max_def)
  ultimately show ?thesis by (simp add: q del: run_queue.simps)
qed

end
