(* ===== verification/S3Spec.thy ===== *)
theory S3Spec
  imports S3
begin

section \<open>An upload to S3 stores the stream exactly\<close>

text \<open>
  What the documentation of S3 promises of the calls an upload makes, as a predicate on a client: a table of
  objects, and the parts of each upload.  Part numbers run from 1 to 10000, and every part but the last has at
  least 5 MiB.  A request that fails changes at most the object it was about.
\<close>

definition valid_part_size :: "64 word \<Rightarrow> bool" where
  "valid_part_size ps \<longleftrightarrow> MinS3PartSize \<le>s ps \<and> ps \<le>s MaxS3PartSize"

definition completable :: "(32 word \<Rightarrow> bytes option) \<Rightarrow> (string \<times> 32 word) list \<Rightarrow> bool" where
  "completable parts cs \<longleftrightarrow> cs \<noteq> [] \<and> sorted_wrt (<) (map (unat \<circ> snd) cs) \<and>
     (\<forall>c \<in> set cs. 1 \<le> unat (snd c) \<and> unat (snd c) \<le> 10000 \<and> parts (snd c) \<noteq> None) \<and>
     (\<forall>c \<in> set (butlast cs). unat MinS3PartSize \<le> length (the (parts (snd c))))"

definition s3_lawful :: "'s s3_client \<Rightarrow> string \<Rightarrow> ('s \<Rightarrow> string \<Rightarrow> bytes option) \<Rightarrow>
    ('s \<Rightarrow> string \<Rightarrow> 32 word \<Rightarrow> bytes option) \<Rightarrow> bool" where
  "s3_lawful C b objs parts \<longleftrightarrow>
     (\<forall>s k ps conc r. valid_part_size ps \<longrightarrow> 0 < conc \<longrightarrow>
        wp (c_UploadObject C b k ps conc r) (\<lambda>_ t. snd r = EEOF \<and> objs t = (objs s)(k \<mapsto> fst r))
          (\<lambda>_ t. outside {k} (objs s) (objs t)) s) \<and>
     (\<forall>s k. wp (c_CreateMultipartUpload C b k) (\<lambda>u t. objs t = objs s) (\<lambda>_ t. objs t = objs s) s) \<and>
     (\<forall>s k u n d. 1 \<le> unat n \<longrightarrow> unat n \<le> 10000 \<longrightarrow>
        wp (c_UploadPart C b k u n d) (\<lambda>_ t. objs t = objs s \<and> parts t u = (parts s u)(n \<mapsto> d)) (\<lambda>_ t. objs t = objs s) s) \<and>
     (\<forall>s k u cs. completable (parts s u) cs \<longrightarrow>
        wp (c_CompleteMultipartUpload C b k u cs)
          (\<lambda>_ t. objs t = (objs s)(k \<mapsto> concat (map (\<lambda>c. the (parts s u (snd c))) cs)))
          (\<lambda>_ t. outside {k} (objs s) (objs t)) s) \<and>
     (\<forall>s k u. wp (c_AbortMultipartUpload C b k u) (\<lambda>_ t. objs t = objs s) (\<lambda>_ t. objs t = objs s) s) \<and>
     (\<forall>s k d. wp (c_PutObject C b k d) (\<lambda>_ t. objs t = (objs s)(k \<mapsto> d)) (\<lambda>_ t. outside {k} (objs s) (objs t)) s) \<and>
     (\<forall>s k. wp (c_GetObject C b k) (\<lambda>r t. objs t = objs s \<and> (snd r = EEOF \<longrightarrow> objs s k = Some (fst r))) (\<lambda>_ t. objs t = objs s) s)"

lemma s3_lawfulD:
  assumes "s3_lawful C b objs parts"
  shows "valid_part_size ps \<Longrightarrow> 0 < conc \<Longrightarrow> wp (c_UploadObject C b k ps conc r)
      (\<lambda>_ t. snd r = EEOF \<and> objs t = (objs s)(k \<mapsto> fst r)) (\<lambda>_ t. outside {k} (objs s) (objs t)) s"
    and "wp (c_CreateMultipartUpload C b k) (\<lambda>u t. objs t = objs s) (\<lambda>_ t. objs t = objs s) s"
    and "1 \<le> unat n \<Longrightarrow> unat n \<le> 10000 \<Longrightarrow> wp (c_UploadPart C b k u n d)
      (\<lambda>_ t. objs t = objs s \<and> parts t u = (parts s u)(n \<mapsto> d)) (\<lambda>_ t. objs t = objs s) s"
    and "completable (parts s u) cs \<Longrightarrow> wp (c_CompleteMultipartUpload C b k u cs)
      (\<lambda>_ t. objs t = (objs s)(k \<mapsto> concat (map (\<lambda>c. the (parts s u (snd c))) cs)))
      (\<lambda>_ t. outside {k} (objs s) (objs t)) s"
    and "wp (c_AbortMultipartUpload C b k u) (\<lambda>_ t. objs t = objs s) (\<lambda>_ t. objs t = objs s) s"
    and "wp (c_PutObject C b k d) (\<lambda>_ t. objs t = (objs s)(k \<mapsto> d)) (\<lambda>_ t. outside {k} (objs s) (objs t)) s"
    and "wp (c_GetObject C b k) (\<lambda>r t. objs t = objs s \<and> (snd r = EEOF \<longrightarrow> objs s k = Some (fst r))) (\<lambda>_ t. objs t = objs s) s"
proof -
  note L = assms [unfolded s3_lawful_def]
  show "valid_part_size ps \<Longrightarrow> 0 < conc \<Longrightarrow> wp (c_UploadObject C b k ps conc r)
      (\<lambda>_ t. snd r = EEOF \<and> objs t = (objs s)(k \<mapsto> fst r)) (\<lambda>_ t. outside {k} (objs s) (objs t)) s"
    by (rule L [THEN conjunct1, rule_format]; assumption)
  show "wp (c_CreateMultipartUpload C b k) (\<lambda>u t. objs t = objs s) (\<lambda>_ t. objs t = objs s) s"
    by (rule L [THEN conjunct2, THEN conjunct1, rule_format])
  show "1 \<le> unat n \<Longrightarrow> unat n \<le> 10000 \<Longrightarrow> wp (c_UploadPart C b k u n d)
      (\<lambda>_ t. objs t = objs s \<and> parts t u = (parts s u)(n \<mapsto> d)) (\<lambda>_ t. objs t = objs s) s"
    by (rule L [THEN conjunct2, THEN conjunct2, THEN conjunct1, rule_format]; assumption)
  show "completable (parts s u) cs \<Longrightarrow> wp (c_CompleteMultipartUpload C b k u cs)
      (\<lambda>_ t. objs t = (objs s)(k \<mapsto> concat (map (\<lambda>c. the (parts s u (snd c))) cs)))
      (\<lambda>_ t. outside {k} (objs s) (objs t)) s"
    by (rule L [THEN conjunct2, THEN conjunct2, THEN conjunct2, THEN conjunct1, rule_format]; assumption)
  show "wp (c_AbortMultipartUpload C b k u) (\<lambda>_ t. objs t = objs s) (\<lambda>_ t. objs t = objs s) s"
    by (rule L [THEN conjunct2, THEN conjunct2, THEN conjunct2, THEN conjunct2, THEN conjunct1, rule_format])
  show "wp (c_PutObject C b k d) (\<lambda>_ t. objs t = (objs s)(k \<mapsto> d)) (\<lambda>_ t. outside {k} (objs s) (objs t)) s"
    by (rule L [THEN conjunct2, THEN conjunct2, THEN conjunct2, THEN conjunct2, THEN conjunct2, THEN conjunct1, rule_format])
  show "wp (c_GetObject C b k) (\<lambda>r t. objs t = objs s \<and> (snd r = EEOF \<longrightarrow> objs s k = Some (fst r))) (\<lambda>_ t. objs t = objs s) s"
    by (rule L [THEN conjunct2, THEN conjunct2, THEN conjunct2, THEN conjunct2, THEN conjunct2, THEN conjunct2, rule_format])
qed

subsection \<open>Sizes\<close>

lemmas s3_sizes = MinS3PartSize_def MaxS3PartSize_def DefaultS3PartSize_def MaxS3UploadParts_def MultipartDefaultPartSizeBytes_def

lemma valid_normalized: "valid_part_size (normalizeS3PartSize ps)"
  by (auto simp: valid_part_size_def normalizeS3PartSize_def s3_sizes word_sle_eq word_sless_alt)

lemma part_size_min: "unat MinS3PartSize \<le> unat (normalizeS3PartSize ps)"
proof -
  have "sint MinS3PartSize \<le> sint (normalizeS3PartSize ps)"
    using valid_normalized [of ps] by (simp add: valid_part_size_def word_sle_eq)
  moreover have "sint MinS3PartSize = int (unat MinS3PartSize)" by (simp add: MinS3PartSize_def)
  ultimately have "int (unat MinS3PartSize) \<le> int (unat (normalizeS3PartSize ps))"
    using uint_eq_sint [of "normalizeS3PartSize ps"] by (simp add: MinS3PartSize_def)
  then show ?thesis by (simp only: of_nat_le_iff)
qed

lemma conc_pos: "0 < normalizeConcurrency c"
  by (simp add: normalizeConcurrency_def DefaultS3Conc_def MaxS3Conc_def)

subsection \<open>The loop over the parts\<close>

lemma small_number:
  assumes "n \<le> 10001"
  shows "unat (word_of_nat n :: 32 word) = n" and "scast (word_of_nat n :: 32 word) = (word_of_nat n :: 64 word)"
proof -
  have "n < 2 ^ 32" using assms by simp
  then show u: "unat (word_of_nat n :: 32 word) = n" by (simp add: unat_of_nat take_bit_nat_eq_self)
  then have "uint (word_of_nat n :: 32 word) = int n" by (metis uint_nat)
  then have "sint (word_of_nat n :: 32 word) = int n"
    using assms by (subst sint_eq_uint_small) simp_all
  then show "scast (word_of_nat n :: 32 word) = (word_of_nat n :: 64 word)"
    by (metis of_int_of_nat_eq scast_eq)
qed

lemma max_parts_iff: "n \<le> 10001 \<Longrightarrow> MaxS3UploadParts <s word_of_nat n \<longleftrightarrow> 10000 < n"
proof -
  assume n: "n \<le> 10001"
  then have "uint (word_of_nat n :: 64 word) = int n" by (simp add: unsigned_of_nat take_bit_nat_eq_self nat_less_le)
  then have "sint (word_of_nat n :: 64 word) = int n"
    using n by (subst sint_eq_uint_small) simp_all
  then show ?thesis by (simp add: MaxS3UploadParts_def word_sless_alt)
qed

text \<open>\<open>uploaded parts cs ds ps\<close>: the parts with the numbers from 1 on hold \<open>ds\<close>, all but the last \<open>ps\<close> bytes long.\<close>

definition uploaded :: "(32 word \<Rightarrow> bytes option) \<Rightarrow> (string \<times> 32 word) list \<Rightarrow> bytes list \<Rightarrow> nat \<Rightarrow> bool" where
  "uploaded parts cs ds ps \<longleftrightarrow> length ds \<le> 10000 \<and> map snd cs = map (\<lambda>i. word_of_nat (Suc i)) [0..<length ds] \<and>
     (\<forall>i < length ds. parts (word_of_nat (Suc i)) = Some (ds ! i)) \<and> (\<forall>d \<in> set (butlast ds). length d = ps)"

lemma uploaded_snoc:
  assumes "uploaded parts cs ds ps" and "length ds < 10000" and "\<forall>d \<in> set ds. length d = ps"
  shows "uploaded (parts(word_of_nat (Suc (length ds)) \<mapsto> d)) (cs @ [(e, word_of_nat (Suc (length ds)))]) (ds @ [d]) ps"
proof -
  have "word_of_nat (Suc i) \<noteq> (word_of_nat (Suc (length ds)) :: 32 word)" if "i < length ds" for i
  proof
    assume "word_of_nat (Suc i) = (word_of_nat (Suc (length ds)) :: 32 word)"
    then have "unat (word_of_nat (Suc i) :: 32 word) = unat (word_of_nat (Suc (length ds)) :: 32 word)" by (rule arg_cong)
    then show False using that assms(2) small_number(1) [of "Suc i"] small_number(1) [of "Suc (length ds)"] by linarith
  qed
  with assms show ?thesis by (auto simp: uploaded_def nth_append less_Suc_eq)
qed

lemma uploaded_completable:
  assumes "uploaded parts cs ds ps" and "ds \<noteq> []" and "unat MinS3PartSize \<le> ps"
  shows "completable parts cs" and "concat (map (\<lambda>c. the (parts (snd c))) cs) = concat ds"
proof -
  have l: "length cs = length ds" using assms(1) by (auto simp: uploaded_def dest: map_eq_imp_length_eq)
  have n: "snd (cs ! i) = word_of_nat (Suc i)" if "i < length ds" for i
    using assms(1) that l unfolding uploaded_def by (metis (no_types, lifting) add_0 diff_zero length_upt nth_map nth_upt)
  have p: "parts (snd (cs ! i)) = Some (ds ! i)" if "i < length ds" for i
    using assms(1) that n by (simp add: uploaded_def)
  have "map (\<lambda>c. the (parts (snd c))) cs = ds" by (rule nth_equalityI) (simp_all add: l p)
  then show "concat (map (\<lambda>c. the (parts (snd c))) cs) = concat ds" by simp
  have u: "unat (snd (cs ! i)) = Suc i" if "i < length ds" for i
    using that n [OF that] assms(1) small_number(1) [of "Suc i"] by (simp add: uploaded_def)
  have "\<forall>c \<in> set (butlast cs). unat MinS3PartSize \<le> length (the (parts (snd c)))"
  proof
    fix c assume "c \<in> set (butlast cs)"
    then obtain i where i: "i < length ds - 1" "c = cs ! i" by (metis in_set_conv_nth l length_butlast nth_butlast)
    then have "ds ! i \<in> set (butlast ds)" by (metis length_butlast nth_butlast nth_mem)
    with i p [of i] assms(1,3) show "unat MinS3PartSize \<le> length (the (parts (snd c)))" by (auto simp: uploaded_def)
  qed
  moreover have "sorted_wrt (<) (map (unat \<circ> snd) cs)" by (auto simp: sorted_wrt_iff_nth_less l u)
  moreover have "1 \<le> unat (snd c) \<and> unat (snd c) \<le> 10000 \<and> parts (snd c) \<noteq> None" if "c \<in> set cs" for c
  proof -
    from that l obtain i where "i < length ds" "c = cs ! i" by (metis in_set_conv_nth)
    with u p assms(1) show ?thesis by (simp add: uploaded_def)
  qed
  ultimately show "completable parts cs"
    using assms(2) l by (auto simp: completable_def)
qed

lemma abortOnError_wp:
  assumes "s3_lawful (s3_client st) (s3_bucket st) objs parts" and "outside {k} f (objs s)"
  shows "wp (abortOnError st key u e) Q (\<lambda>_ t. outside {k} f (objs t)) s"
  unfolding abortOnError_def abortMultipartUpload_def wp_thenE wp_tryE
  by (rule wp_conseq [OF s3_lawfulD(5) [OF assms(1)]]) (use assms(2) in auto)

lemma upload_part_wp:
  assumes law: "s3_lawful (s3_client st) (s3_bucket st) objs parts"
    and up: "uploaded (parts s u) cs ds ps" "\<forall>d \<in> set ds. length d = ps" and num: "num = word_of_nat (Suc (length ds))"
    and out: "outside {k} f (objs s)"
  shows "wp (upload_part st key u num cs d)
     (\<lambda>(num', cs') t. objs t = objs s \<and> num' = word_of_nat (Suc (length (ds @ [d]))) \<and> uploaded (parts t u) cs' (ds @ [d]) ps)
     (\<lambda>_ t. outside {k} f (objs t)) s"
proof -
  have l: "length ds \<le> 10000" using up(1) by (simp add: uploaded_def)
  have sc: "MaxS3UploadParts <s scast num \<longleftrightarrow> length ds = 10000"
    using l small_number(2) [of "Suc (length ds)"] max_parts_iff [of "Suc (length ds)"] unfolding num by auto
  have "unat num = Suc (length ds)" using l small_number(1) [of "Suc (length ds)"] unfolding num by simp
  note part = s3_lawfulD(3) [OF law, of num key u d s]
  show ?thesis
  proof (cases "length ds = 10000")
    case True
    then show ?thesis unfolding upload_part_def using sc by (simp add: abortOnError_wp [OF law out])
  next
    case False
    with l \<open>unat num = Suc (length ds)\<close> have "wp (c_UploadPart (s3_client st) (s3_bucket st) key u num d)
      (\<lambda>_ t. objs t = objs s \<and> parts t u = (parts s u)(num \<mapsto> d)) (\<lambda>_ t. objs t = objs s) s" by (intro part) auto
    moreover have "uploaded ((parts s u)(num \<mapsto> d)) (cs @ [(e, num)]) (ds @ [d]) ps" for e
      using uploaded_snoc [OF up(1) _ up(2), of d e] False l unfolding num by simp
    ultimately show ?thesis
      unfolding upload_part_def using sc False out
      by (auto simp: num add.commute elim!: wp_conseq intro!: abortOnError_wp [OF law] simp del: of_nat_Suc)
        (simp_all add: add.commute)
  qed
qed

definition clean_end :: "gerr \<Rightarrow> bool" where
  "clean_end e \<longleftrightarrow> e = EEOF \<or> \<not> is_end (Some e)"

lemma parts_loop_wp:
  assumes law: "s3_lawful (s3_client st) (s3_bucket st) objs parts"
  shows "clean_end (snd r) \<Longrightarrow> ps = unat (normalizeS3PartSize partSize) \<Longrightarrow> uploaded (parts s u) cs ds ps \<Longrightarrow>
    \<forall>d \<in> set ds. length d = ps \<Longrightarrow> num = word_of_nat (Suc (length ds)) \<Longrightarrow> outside {k} f (objs s) \<Longrightarrow>
    wp (parts_loop st key u partSize num cs r)
     (\<lambda>cs' t. objs t = objs s \<and> snd r = EEOF \<and> (\<exists>ds'. uploaded (parts t u) cs' ds' ps \<and> concat ds' = concat ds @ fst r))
     (\<lambda>_ t. outside {k} f (objs t)) s"
proof (induction "length (fst r)" arbitrary: r s cs ds num rule: less_induct)
  case less
  obtain d e where r: "r = (d, e)" by (cases r)
  note up = upload_part_wp [OF law less.prems(3,4,5,6)]
  have ps: "0 < ps" using part_size_pos less.prems(2) by simp
  show ?case
  proof (cases "ps \<le> length d")
    case True
    have full: "io_ReadFull ps r = ((take ps d, None), (drop ps d, e))" using True by (simp add: r io_ReadFull_def)
    have rest: "wp (parts_loop st key u partSize num' cs' (drop ps d, e))
        (\<lambda>cs' t. objs t = objs s \<and> snd r = EEOF \<and> (\<exists>ds'. uploaded (parts t u) cs' ds' ps \<and> concat ds' = concat ds @ fst r))
        (\<lambda>_ t. outside {k} f (objs t)) t"
      if "objs t = objs s" "num' = word_of_nat (Suc (length (ds @ [take ps d])))" "uploaded (parts t u) cs' (ds @ [take ps d]) ps" for t num' cs'
    proof -
      have dec: "length (fst (drop ps d, e)) < length (fst r)" using ps True by (simp add: r)
      have "wp (parts_loop st key u partSize num' cs' (drop ps d, e))
        (\<lambda>cs' v. objs v = objs t \<and> snd (drop ps d, e) = EEOF \<and>
          (\<exists>ds'. uploaded (parts v u) cs' ds' ps \<and> concat ds' = concat (ds @ [take ps d]) @ fst (drop ps d, e)))
        (\<lambda>_ v. outside {k} f (objs v)) t"
        by (rule less.hyps [OF dec]) (use less.prems that True in \<open>auto simp: r\<close>)
      then show ?thesis by (rule wp_conseq) (auto simp: that(1) r)
    qed
    have ne: "take ps d \<noteq> []" using ps True by auto
    show ?thesis
      unfolding parts_loop.simps [of st key u partSize num cs r] less.prems(2) [symmetric] full
      using ne by (simp add: is_end_def part_data_def del: of_nat_Suc, intro wp_conseq [OF up [of key "take ps d"]]) (auto intro!: rest)
  next
    case False
    let ?err = "if e = EEOF \<and> d \<noteq> [] then EUnexpectedEOF else e"
    have part: "io_ReadFull ps r = ((d, Some ?err), ([], e))" using False by (simp add: r io_ReadFull_def)
    show ?thesis
    proof (cases "e = EEOF")
      case True
      have fin: "is_end (Some ?err)" "part_data (Some ?err) d = d" using True by (simp_all add: is_end_def part_data_def)
      have last: "wp (upload_part st key u num cs d) (\<lambda>x. wp (case x of (n, c) \<Rightarrow> retE c)
          (\<lambda>cs' t. objs t = objs s \<and> (\<exists>ds'. uploaded (parts t u) cs' ds' ps \<and> concat ds' = concat ds @ d))
          (\<lambda>_ t. outside {k} f (objs t))) (\<lambda>_ t. outside {k} f (objs t)) s"
        by (rule wp_conseq [OF up [of key d]]) (auto intro!: exI [of _ "ds @ [d]"])
      show ?thesis
        unfolding parts_loop.simps [of st key u partSize num cs r] less.prems(2) [symmetric] part
        using fin less.prems(3) last by (cases "d = []") (auto simp: r True)
    next
      case False
      then have "\<not> is_end (Some ?err)" using less.prems(1) by (simp add: clean_end_def r)
      then show ?thesis
        unfolding parts_loop.simps [of st key u partSize num cs r] less.prems(2) [symmetric] part
        by (simp add: abortOnError_wp [OF law less.prems(6)])
    qed
  qed
qed

lemma putMultipartStream_wp:
  assumes law: "s3_lawful (s3_client st) (s3_bucket st) objs parts" and r: "clean_end (snd r)"
  shows "wp (putMultipartStream st key r partSize) (\<lambda>_ t. snd r = EEOF \<and> objs t = (objs s)(key \<mapsto> fst r))
     (\<lambda>_ t. outside {key} (objs s) (objs t)) s"
proof -
  let ?ps = "unat (normalizeS3PartSize partSize)"
  let ?Q = "\<lambda>_ t. snd r = EEOF \<and> objs t = (objs s)(key \<mapsto> fst r)" and ?R = "\<lambda>(_ :: gerr) t. outside {key} (objs s) (objs t)"
  have empty: "wp (abortMultipartUpload st key u) (\<lambda>_. wp (c_PutObject (s3_client st) (s3_bucket st) key []) ?Q (\<lambda>e. ?R (wrap_err ''put empty object'' e))) ?R t"
    if "objs t = objs s" "snd r = EEOF" "fst r = []" for u t
  proof -
    have put: "wp (c_PutObject (s3_client st) (s3_bucket st) key []) ?Q (\<lambda>e. ?R (wrap_err ''put empty object'' e)) v" if "objs v = objs s" for v
      by (rule wp_conseq [OF s3_lawfulD(6) [OF law]]) (auto simp: \<open>snd r = EEOF\<close> \<open>fst r = []\<close> that)
    show ?thesis
      unfolding abortMultipartUpload_def wp_thenE wp_tryE
      by (rule wp_conseq [OF s3_lawfulD(5) [OF law]]) (auto simp: that(1) intro: put)
  qed
  have complete: "wp (c_CompleteMultipartUpload (s3_client st) (s3_bucket st) key u cs)
      (\<lambda>_ t. ?Q () t) (\<lambda>e t. (is_abort e \<longrightarrow> ?R e t) \<and> (\<not> is_abort e \<longrightarrow> wp (abortOnError st key u (EWrap ''complete multipart upload'' e)) ?Q ?R t)) t"
    if t: "objs t = objs s" "snd r = EEOF" "uploaded (parts t u) cs ds ?ps" "concat ds = fst r" "cs \<noteq> []" for u cs ds t
  proof -
    have "ds \<noteq> []" using t(3,5) by (auto simp: uploaded_def)
    note c = uploaded_completable [OF t(3) this part_size_min]
    show ?thesis
      by (rule wp_conseq [OF s3_lawfulD(4) [OF law c(1)]]) (auto simp: t c(2) intro!: abortOnError_wp [OF law])
  qed
  have finish: "wp (if cs = [] then thenE (abortMultipartUpload st key u) (wrapE ''put empty object'' (c_PutObject (s3_client st) (s3_bucket st) key []))
      else bindE (tryE (c_CompleteMultipartUpload (s3_client st) (s3_bucket st) key u cs)) (\<lambda>r. case r of
             Inl e \<Rightarrow> abortOnError st key u (EWrap ''complete multipart upload'' e) | Inr _ \<Rightarrow> retE ())) ?Q ?R t"
    if t: "objs t = objs s" "snd r = EEOF" "uploaded (parts t u) cs ds ?ps" "concat ds = fst r" for u cs ds t
  proof (cases "cs = []")
    case True
    with t(3) have "ds = []" by (auto simp: uploaded_def)
    with True empty [OF t(1,2)] t(4) show ?thesis by simp
  next
    case False
    then show ?thesis
      by (simp add: wp_bindE, intro wp_conseq [OF complete [OF t False]]) auto
  qed
  have loop: "wp (parts_loop st key u partSize 1 [] r) (\<lambda>cs t. objs t = objs s \<and> snd r = EEOF \<and>
       (\<exists>ds'. uploaded (parts t u) cs ds' ?ps \<and> concat ds' = fst r)) ?R t" if t: "objs t = objs s" for u t
    using parts_loop_wp [OF law r refl, where s = t and u = u and cs = "[]" and ds = "[]" and num = 1 and k = key and key = key and f = "objs s" and partSize = partSize] t by (simp add: uploaded_def)
  show ?thesis
    unfolding putMultipartStream_def wp_bindE [of "wrapE ''create multipart upload'' _"] wp_wrapE
  proof (rule wp_conseq [OF s3_lawfulD(2) [OF law]])
    fix u t assume t: "objs t = objs s"
    show "wp (bindE (parts_loop st key u partSize 1 [] r) (\<lambda>cs. if cs = []
        then thenE (abortMultipartUpload st key u) (wrapE ''put empty object'' (c_PutObject (s3_client st) (s3_bucket st) key []))
        else bindE (tryE (c_CompleteMultipartUpload (s3_client st) (s3_bucket st) key u cs)) (\<lambda>r. case r of
             Inl e \<Rightarrow> abortOnError st key u (EWrap ''complete multipart upload'' e) | Inr _ \<Rightarrow> retE ()))) ?Q ?R t"
      unfolding wp_bindE [of "parts_loop st key u partSize 1 [] r"]
      by (rule wp_conseq [OF loop [OF t]], elim conjE exE, rule finish)
  qed simp
qed

lemma s3_Put_wp:
  assumes law: "s3_lawful (s3_client st) (s3_bucket st) objs parts" and r: "clean_end (snd r)"
  shows "wp (s3_Put st p r) (\<lambda>_ t. snd r = EEOF \<and> objs t = (objs s)(s3_fullPath st p \<mapsto> fst r))
     (\<lambda>_ t. outside {s3_fullPath st p} (objs s) (objs t)) s"
  unfolding s3_Put_def Let_def
  by (auto split: option.split sum.split
      intro!: putMultipartStream_wp [OF law r] wp_conseq [OF s3_lawfulD(1) [OF law valid_normalized conc_pos]])

subsection \<open>Part sizes\<close>

lemma sint_small: "0 \<le> n \<Longrightarrow> n < 2 ^ 63 \<Longrightarrow> sint (word_of_int n :: 64 word) = n"
  by (subst sint_eq_uint_small) (simp_all add: uint_word_of_int_eq take_bit_int_eq_self)

lemma sint_quot64: "0 \<le> sint a \<Longrightarrow> 0 < sint b \<Longrightarrow> sint (quot64 a b) = sint a div sint b"
proof -
  assume a: "0 \<le> sint a" "0 < sint b"
  have "sint a div sint b \<le> sint a" using zdiv_mono2 [of "sint a" 1 "sint b"] a by simp
  moreover have "sint a < 2 ^ 63" using sint_lt [of a] by simp
  ultimately have "sint a div sint b < 2 ^ 63" by linarith
  moreover have "0 \<le> sint a div sint b" using a by (simp add: pos_imp_zdiv_nonneg_iff)
  moreover have "sint a sdiv sint b = sint a div sint b" using a by (cases "sint a = 0") (simp_all add: signed_divide_int_def)
  ultimately show ?thesis unfolding quot64_def by (simp only: sint_small)
qed

lemma sint_rem64: "0 \<le> sint a \<Longrightarrow> 0 < sint b \<Longrightarrow> sint (rem64 a b) = sint a mod sint b"
proof -
  assume a: "0 \<le> sint a" "0 < sint b"
  have "sint a mod sint b \<le> sint a" using a by (simp add: zmod_le_nonneg_dividend)
  moreover have "sint a < 2 ^ 63" using sint_lt [of a] by simp
  ultimately have "sint a mod sint b < 2 ^ 63" by linarith
  moreover have "0 \<le> sint a mod sint b" using a by simp
  moreover have "sint a smod sint b = sint a mod sint b" using a by (cases "sint a = 0") (simp_all add: signed_modulo_int_def signed_divide_int_def minus_div_mult_eq_mod)
  ultimately show ?thesis unfolding rem64_def by (simp only: sint_small)
qed

lemma sint_add_small: "0 \<le> sint a \<Longrightarrow> 0 \<le> sint b \<Longrightarrow> sint a + sint b < 2 ^ 63 \<Longrightarrow> sint (a + b :: 64 word) = sint a + sint b"
  by (simp add: signed_take_bit_int_eq_self sint_word_ariths)

lemma normalizeS3PartSize_max: "0 < sint ps \<Longrightarrow> sint (normalizeS3PartSize ps) = min (5 * 1024 * 1024 * 1024) (max (5 * 1024 * 1024) (sint ps))"
  by (simp add: normalizeS3PartSize_def s3_sizes word_sle_eq word_sless_alt)

subsection \<open>Properties\<close>

text \<open>C32: An upload to S3 stores the stream exactly. For a client that behaves as S3 is documented, and a stream whose error, if it ends with one, is not an end of file in disguise: when Put returns without an error the stream ended normally and the object holds exactly its bytes, whichever of the three ways of uploading was taken; no part had a number above 10000 and none but the last was below 5 MiB. When it fails, no other object has changed.\<close>
theorem s3_put_exact:
  assumes "s3_lawful (s3_client st) (s3_bucket st) objs parts" and "clean_end (snd r)"
  shows "case s3_Put st p r s of
     (Inr _, t) \<Rightarrow> snd r = EEOF \<and> objs t = (objs s)(s3_fullPath st p \<mapsto> fst r)
   | (Inl _, t) \<Rightarrow> outside {s3_fullPath st p} (objs s) (objs t)"
  using s3_Put_wp [OF assms] by (simp add: wp_def split: prod.splits sum.splits)

text \<open>C23: The part size chosen for a file fits. It is always one that S3 accepts, and for a file of at most 10000 times 5 GiB, 10000 parts of that size hold the file; the arithmetic does not wrap around.\<close>
theorem part_size_fits:
  "valid_part_size (chooseUploadPartSize sz) \<and>
     (0 < sint sz \<and> sint sz \<le> 10000 * (5 * 1024 * 1024 * 1024) \<longrightarrow> sint sz \<le> 10000 * sint (chooseUploadPartSize sz))"
proof (intro conjI impI)
  show "valid_part_size (chooseUploadPartSize sz)"
    using valid_normalized [of 0] valid_normalized
    by (auto simp: chooseUploadPartSize_def Let_def normalizeS3PartSize_def [of 0] word_sle_eq)
next
  assume sz: "0 < sint sz \<and> sint sz \<le> 10000 * (5 * 1024 * 1024 * 1024)"
  define a where "a = sz + 9999"
  have a: "sint a = sint sz + 9999" unfolding a_def using sz by (subst sint_add_small) simp_all
  have aw: "sz + MaxS3UploadParts - 1 = a" by (simp add: a_def MaxS3UploadParts_def)
  define q where "q = quot64 a MaxS3UploadParts"
  have q: "sint q = (sint sz + 9999) div 10000"
    unfolding q_def using sz by (subst sint_quot64) (simp_all add: a MaxS3UploadParts_def)
  define m where "m = (if q <s MinS3PartSize then MinS3PartSize else q)"
  have m: "sint m = max (sint q) (5 * 1024 * 1024)" by (auto simp: m_def MinS3PartSize_def word_sless_alt)
  have mub: "sint m \<le> 5 * 1024 * 1024 * 1024" 
  proof -
    have "(sint sz + 9999) div 10000 \<le> (53687091200000 + 9999) div 10000" using sz by (intro zdiv_mono1) simp_all
    then show ?thesis by (simp add: m q)
  qed
  define k where "k = rem64 m (1024 * 1024)"
  have k: "sint k = sint m mod (1024 * 1024)" unfolding k_def by (subst sint_rem64) (simp_all add: m)
  have k': "0 \<le> sint k" "sint k < 1024 * 1024" by (simp_all add: k)
  define u where "u = (if k \<noteq> 0 then m + (1024 * 1024 - k) else m)"
  have d: "sint (1024 * 1024 - k) = 1024 * 1024 - sint k"
    using k' by (simp add: sint_word_ariths signed_take_bit_int_eq_self)
  have "sint (m + (1024 * 1024 - k)) = sint m + (1024 * 1024 - sint k)"
    using k' mub d m by (subst sint_add_small) simp_all
  then have u: "sint m \<le> sint u" using k' by (simp add: u_def)
  have c: "chooseUploadPartSize sz = normalizeS3PartSize u"
    using sz unfolding chooseUploadPartSize_def Let_def aw q_def [symmetric] m_def [symmetric] k_def [symmetric] u_def [symmetric]
    by (simp add: word_sle_eq)
  have "0 < sint u" using u m by simp
  then have "sint (chooseUploadPartSize sz) = min (5 * 1024 * 1024 * 1024) (max (5 * 1024 * 1024) (sint u))"
    unfolding c by (rule normalizeS3PartSize_max)
  then have "min (5 * 1024 * 1024 * 1024) (sint q) \<le> sint (chooseUploadPartSize sz)" using u m by (auto simp: min_def)
  with sz q show "sint sz \<le> 10000 * sint (chooseUploadPartSize sz)" by linarith
qed

text \<open>A source that breaks off with \<open>io.ErrUnexpectedEOF\<close> is stored as if it had ended there.\<close>

lemma truncated_source_stored:
  assumes "d \<noteq> []" and "length d < unat (normalizeS3PartSize partSize)"
  shows "putMultipartStream st key (d, EUnexpectedEOF) partSize = putMultipartStream st key (d, EEOF) partSize"
proof -
  have "io_ReadFull (unat (normalizeS3PartSize partSize)) (d, EUnexpectedEOF) = ((d, Some EUnexpectedEOF), ([], EUnexpectedEOF))"
    "io_ReadFull (unat (normalizeS3PartSize partSize)) (d, EEOF) = ((d, Some EUnexpectedEOF), ([], EEOF))"
    using assms by (simp_all add: io_ReadFull_def)
  then have "parts_loop st key u partSize n cs (d, EUnexpectedEOF) = parts_loop st key u partSize n cs (d, EEOF)" for u n cs
    by (simp add: parts_loop.simps [of st key u partSize n cs "(d, _)"] is_end_def)
  then show ?thesis by (simp add: putMultipartStream_def)
qed

subsection \<open>Witnesses\<close>

type_synonym demo_s3 = "(string \<Rightarrow> bytes option) \<times> (string \<Rightarrow> 32 word \<Rightarrow> bytes option)"

definition demo_client :: "demo_s3 s3_client" where
  "demo_client = \<lparr>c_UploadObject = (\<lambda>b k ps n r. if snd r = EEOF then modE (\<lambda>(o1, p). (o1(k \<mapsto> fst r), p)) else throwE (snd r)),
     c_CreateMultipartUpload = (\<lambda>b k. retE ''u1''),
     c_UploadPart = (\<lambda>b k u n d. thenE (modE (\<lambda>(o1, p). (o1, p(u := (p u)(n \<mapsto> d))))) (retE ''etag'')),
     c_CompleteMultipartUpload = (\<lambda>b k u cs. modE (\<lambda>(o1, p). (o1(k \<mapsto> concat (map (\<lambda>c. the (p u (snd c))) cs)), p))),
     c_AbortMultipartUpload = (\<lambda>b k u. retE ()),
     c_PutObject = (\<lambda>b k d. modE (\<lambda>(o1, p). (o1(k \<mapsto> d), p))),
     c_GetObject = (\<lambda>b k. bindE (getE (\<lambda>s. fst s k)) (\<lambda>r. case r of None \<Rightarrow> throwE ENotExist | Some d \<Rightarrow> retE (d, EEOF))),
     c_ListObjectsV2 = (\<lambda>b d p. retE ([], None)), c_ListObjectVersions = (\<lambda>b p. retE ([], None)),
     c_DeleteObject = (\<lambda>b k. modE (\<lambda>(o1, p). (o1(k := None), p))), c_DeleteObjects = (\<lambda>b vs. retE ()),
     c_HeadObject = (\<lambda>b k. getE (\<lambda>s. if fst s k = None then Some S3NotFound else None)),
     c_CopyObject = (\<lambda>b src k. retE ())\<rparr>"

definition demo_s3 :: "demo_s3 s3Storage" where
  "demo_s3 = NewS3Storage demo_client (\<lambda>r. None) ''bucket'' ''/backups''"

lemma demo_lawful: "s3_lawful demo_client b fst snd"
  by (auto simp: s3_lawful_def demo_client_def wp_bindE split: option.split prod.split)

theorem s3_put_exact_witness:
  "\<exists>t. s3_Put demo_s3 ''x'' (''wal'', EEOF) (Map.empty, \<lambda>_. Map.empty) = (Inr (), t) \<and> fst t (s3_fullPath demo_s3 ''x'') = Some ''wal''"
proof -
  have c: "s3_client demo_s3 = demo_client" "s3_bucket demo_s3 = ''bucket''" "s3_asFile demo_s3 = (\<lambda>r. None)"
    by (simp_all add: demo_s3_def NewS3Storage_def NewS3StorageWithOptions_def Let_def)
  have l: "length ''wal'' < unat (normalizeS3PartSize ps)" for ps
    using part_size_min [of ps] by (simp add: MinS3PartSize_def)
  have rd: "io_ReadFull (unat (normalizeS3PartSize ps)) (''wal'', EEOF) = ((''wal'', Some EUnexpectedEOF), ([], EEOF))" for ps
    using l [of ps] by (simp add: io_ReadFull_def)
  have part: "\<not> MaxS3UploadParts <s scast (1 :: 32 word)"
    using small_number(2) [of 1] max_parts_iff [of 1] by simp
  have loop: "parts_loop demo_s3 k u ps 1 [] (''wal'', EEOF) = bindE (upload_part demo_s3 k u 1 [] ''wal'') (\<lambda>(n, cs). retE cs)" for k u ps
    by (subst parts_loop.simps) (simp add: rd is_end_def part_data_def)
  have "fst (s3_Put demo_s3 ''x'' (''wal'', EEOF) (Map.empty, \<lambda>_. Map.empty)) = Inr ()"
    by (simp add: s3_Put_def Let_def c putMultipartStream_def loop upload_part_def part [simplified] demo_client_def exec_simps wrapE_def tryE_def)
  then obtain t where t: "s3_Put demo_s3 ''x'' (''wal'', EEOF) (Map.empty, \<lambda>_. Map.empty) = (Inr (), t)" by (metis prod.collapse)
  have "s3_lawful (s3_client demo_s3) (s3_bucket demo_s3) fst snd" using demo_lawful by (simp add: c)
  from s3_put_exact [OF this, of "(''wal'', EEOF)" "''x''" "(Map.empty, \<lambda>_. Map.empty)"] t show ?thesis
    by (simp add: clean_end_def)
qed

theorem part_size_fits_witness:
  "valid_part_size (chooseUploadPartSize 53687091200) \<and> sint (53687091200 :: 64 word) \<le> 10000 * sint (chooseUploadPartSize 53687091200)"
  using part_size_fits [of 53687091200] by simp

end
