(* ===== verification/Sizes.thy ===== *)
theory Sizes
  imports Restore
begin

section \<open>Printed sizes (shared/x/fsx/fsutils.go)\<close>

text \<open>
  \<open>ByteCountIEC\<close> divides by 1024 until less than that is left and indexes the letters with the number of divisions.
  The printing of \<open>float64(b) / float64(div)\<close> is a parameter; an index out of range panics.
\<close>

fun iec_loop :: "nat \<Rightarrow> nat \<Rightarrow> nat \<Rightarrow> nat \<times> nat" where
  "iec_loop n dv ex = (if 1024 \<le> n then iec_loop (n div 1024) (dv * 1024) (ex + 1) else (dv, ex))"

declare iec_loop.simps [simp del]

definition ByteCountIEC :: "(int \<Rightarrow> int \<Rightarrow> string) \<Rightarrow> int \<Rightarrow> gerr + string" where
  "ByteCountIEC fmt1 b =
     (if b < 1024 then Inr (fmt_d b @ '' B'')
      else case iec_loop (nat b div 1024) 1024 0 of (dv, ex) \<Rightarrow>
        if length ''KMGTPE'' \<le> ex then Inl (EPanic ''index out of range'')
        else Inr (fmt1 b (int dv) @ '' '' @ [''KMGTPE'' ! ex] @ ''iB''))"

lemma iec_loop_spec:
  "iec_loop n dv ex = (dv', ex') \<Longrightarrow> \<exists>k. dv' = dv * 1024 ^ k \<and> ex' = ex + k \<and> n div 1024 ^ k < 1024 \<and> (n \<noteq> 0 \<longrightarrow> 1024 ^ k \<le> n)"
proof (induction n dv ex rule: iec_loop.induct)
  case (1 n dv ex)
  show ?case
  proof (cases "1024 \<le> n")
    case True
    with 1 obtain k where k: "dv' = dv * 1024 * 1024 ^ k" "ex' = ex + 1 + k" "n div 1024 div 1024 ^ k < 1024"
      "n div 1024 \<noteq> 0 \<longrightarrow> 1024 ^ k \<le> n div 1024"
      by (auto simp: iec_loop.simps [of n dv ex])
    moreover have "1024 ^ k \<le> n div 1024" using True k(4) by auto
    then have "1024 ^ Suc k \<le> n" by (simp add: less_eq_div_iff_mult_less_eq mult.commute)
    ultimately show ?thesis by (intro exI [of _ "Suc k"]) (simp add: div_mult2_eq)
  next
    case False
    with 1(2) show ?thesis by (intro exI [of _ 0]) (simp add: iec_loop.simps [of n dv ex])
  qed
qed

text \<open>
  For every \<open>int64\<close> from 1024 on the unit is at most exbibytes, so that the letters suffice; the divisor does not
  overflow and the printed number is from 1 to less than 1024.
\<close>

lemma ByteCountIEC_bounds:
  assumes "1024 \<le> b" and "b < 2 ^ 63"
  shows "\<exists>k < 6. ByteCountIEC fmt1 b = Inr (fmt1 b (1024 ^ Suc k) @ '' '' @ [''KMGTPE'' ! k] @ ''iB'') \<and>
    (1024 :: int) ^ Suc k \<le> b \<and> b < 1024 * 1024 ^ Suc k \<and> (1024 :: int) ^ Suc k < 2 ^ 63"
proof -
  define n where "n = nat b div 1024"
  have n: "n \<noteq> 0" "n < 2 ^ 53" using assms by (auto simp: n_def div_eq_0_iff less_mult_imp_div_less)
  obtain dv ex where r: "iec_loop n 1024 0 = (dv, ex)" by fastforce
  from iec_loop_spec [OF r] n obtain k where k: "dv = 1024 * 1024 ^ k" "ex = k" "n div 1024 ^ k < 1024" "1024 ^ k \<le> n" by auto
  have "(1024 :: nat) ^ k < 1024 ^ 6" using k(4) n(2) by simp
  then have k6: "k < 6" by (metis nat_power_less_imp_less zero_less_numeral)
  have lo: "1024 ^ Suc k \<le> nat b"
    using k(4) by (simp add: n_def less_eq_div_iff_mult_less_eq mult.commute)
  have "nat b div (1024 * 1024 ^ k) < 1024" using k(3) by (simp add: n_def div_mult2_eq)
  then have hi: "nat b < 1024 * 1024 ^ Suc k" by (simp add: div_less_iff_less_mult mult.assoc)
  have "int (1024 ^ Suc k) \<le> b" "b < int (1024 * 1024 ^ Suc k)" using lo hi assms(1) by linarith+
  then have b: "(1024 :: int) ^ Suc k \<le> b" "b < 1024 * 1024 ^ Suc k" by simp_all
  then have "(1024 :: int) ^ Suc k < 2 ^ 63" using assms(2) by linarith
  moreover have "ByteCountIEC fmt1 b = Inr (fmt1 b (1024 ^ Suc k) @ '' '' @ [''KMGTPE'' ! k] @ ''iB'')"
    using assms(1) k6 r by (simp add: ByteCountIEC_def n_def [symmetric] k(1,2))
  ultimately show ?thesis using k6 b by blast
qed

end
