(* ===== verification/StreamApi.thy ===== *)
theory StreamApi
  imports Http SetupSpec BackupRun PgReceiveWal
begin

section \<open>The API of the receiver (api/streamapi: receiveapi, backupapi, app.go)\<close>

text \<open>
  The services over the state they read, and the handlers that write their results.  The JSON encoder is a
  parameter; sizes are kept in bytes and positions as words, which it renders.
\<close>

subsection \<open>The receiver's service (receiveapi/service.go)\<close>

definition rcv_Status :: "int \<Rightarrow> 'a pgReceiveWal_scheme option \<Rightarrow> StreamStatus option" where
  "rcv_Status now pgrw = map_option (Status now) pgrw"

definition BriefConfig :: "cfg_globals \<Rightarrow> gerr + bool" where
  "BriefConfig g = (case Cfg g of Inl e \<Rightarrow> Inl e | Inr cfg \<Rightarrow> Inr (rt_Enable (cf_Retention cfg)))"

definition FullRedactedConfig :: "cfg_globals \<Rightarrow> Config" where
  "FullRedactedConfig g = RedactedCopy (g_config g)"

record WALFile =
  wl_Name :: string
  wl_Ext :: string
  wl_Filename :: string
  wl_Size :: int
  wl_UploadedAt :: int
  wl_Encrypted :: bool

fun split_ext :: "string list \<Rightarrow> string \<Rightarrow> string \<times> string" where
  "split_ext [] base = (base, '''')"
| "split_ext (e # es) base = (if has_suffix base e then (trim_suffix base e, e) else split_ext es base)"

definition wal_entry :: "bool \<Rightarrow> FileInfo \<Rightarrow> WALFile" where
  "wal_entry encrypted fi =
     (let base = filepath_Base (fi_Path fi);
          (logicalBase, ext) = split_ext [''.gz.aes'', ''.zst.aes'', ''.aes'', ''.gz'', ''.zst''] base
      in \<lparr>wl_Name = logicalBase, wl_Ext = ext, wl_Filename = base, wl_Size = fi_Size fi, wl_UploadedAt = fi_ModTime fi,
          wl_Encrypted = encrypted\<rparr>)"

definition ListWALFiles :: "cfg_globals \<Rightarrow> 's VariadicStorage \<Rightarrow> ('s, WALFile list) m" where
  "ListWALFiles g vs =
     bindE (liftE (Cfg g)) (\<lambda>cfg.
     bindE (var_ListInfoRaw vs '''') (\<lambda>infos.
     retE (map (wal_entry (en_Algo (sg_Encryption (cf_Storage cfg)) \<noteq> '''')) infos)))"

record Backup =
  bu_Label :: string
  bu_Started :: "int option"
  bu_Finished :: "int option"
  bu_Size :: "64 word"
  bu_WALStartLSN :: "lsn option"
  bu_WALStopLSN :: "lsn option"
  bu_Status :: string

definition backup_entry :: "(io_reader \<Rightarrow> gerr + Result) \<Rightarrow> string \<Rightarrow> gerr + io_reader \<Rightarrow> Backup" where
  "backup_entry decode label r =
     (let b = \<lparr>bu_Label = ''pgrwl_'' @ label, bu_Started = None, bu_Finished = None, bu_Size = 0, bu_WALStartLSN = None,
               bu_WALStopLSN = None, bu_Status = ''unknown''\<rparr>
      in case r of
           Inl e \<Rightarrow> b\<lparr>bu_Status := ''in_progress''\<rparr>
         | Inr rc \<Rightarrow>
             (case decode rc of
                Inl e \<Rightarrow> b
              | Inr result \<Rightarrow> b\<lparr>bu_Size := rs_BytesTotal result, bu_WALStartLSN := Some (rs_StartLSN result),
                  bu_WALStopLSN := Some (rs_StopLSN result), bu_Status := ''completed'',
                  bu_Started := Some (rs_StartedAt result), bu_Finished := Some (rs_FinishedAt result)\<rparr>))"

fun backups_loop :: "'s Storage \<Rightarrow> (io_reader \<Rightarrow> gerr + Result) \<Rightarrow> string list \<Rightarrow> ('s, Backup list) m" where
  "backups_loop st decode [] = retE []"
| "backups_loop st decode (dir # dirs) =
     (let label = filepath_Base dir in
      bindE (tryE (st_Get st (filepath_Join [label, label @ ''.json'']))) (\<lambda>r.
      bindE (backups_loop st decode dirs) (\<lambda>bs. retE (backup_entry decode label r # bs))))"

definition ListBackups_of :: "'s Storage \<Rightarrow> (io_reader \<Rightarrow> gerr + Result) \<Rightarrow> ('s, Backup list) m" where
  "ListBackups_of st decode =
     bindE (st_ListTopLevelDirs st '''') (\<lambda>dirs.
     bindE (backups_loop st decode dirs) (\<lambda>backups.
     retE (sort_Slice (\<lambda>a b. bu_Label b < bu_Label a) backups)))"

definition ListBackups :: "('k, 'c, 'g, 'a world_scheme) libs \<Rightarrow> (string \<Rightarrow> int) \<Rightarrow> cfg_globals \<Rightarrow> cryptenv \<Rightarrow> string
    \<Rightarrow> (io_reader \<Rightarrow> gerr + Result) \<Rightarrow> ('a world_scheme, Backup list) m" where
  "ListBackups L mt g E dir decode =
     bindE (SetupStorage L mt g \<lparr>ss_BaseDir = dir, ss_SubPath = BaseBackupSubpath, ss_S3PartSizeBytes = 0\<rparr>) (\<lambda>backupStor.
       ListBackups_of (var_storage E backupStor) decode)"

subsection \<open>The receiver's handlers (receiveapi/handler.go)\<close>

text \<open>After an error the handlers go on and write the missing value (\<open>None\<close>) as well.\<close>

definition list_handler :: "('s, 'x) m \<Rightarrow> (gerr \<Rightarrow> gerr + bytes) \<Rightarrow> ('x option \<Rightarrow> gerr + bytes) \<Rightarrow> 's Handler" where
  "list_handler svc enc_err enc rq =
     bindE (tryE (on_fst svc)) (\<lambda>r.
       thenE (case r of Inl e \<Rightarrow> on_snd (WriteJSON StatusInternalServerError (enc_err e)) | Inr _ \<Rightarrow> retE ())
         (on_snd (WriteJSON StatusOK (enc (case r of Inl e \<Rightarrow> None | Inr x \<Rightarrow> Some x)))))"

definition StatusHandler :: "('s \<Rightarrow> 'x) \<Rightarrow> ('x \<Rightarrow> gerr + bytes) \<Rightarrow> 's Handler" where
  "StatusHandler status enc rq = bindE (on_fst (getE status)) (\<lambda>x. on_snd (WriteJSON StatusOK (enc x)))"

definition WalsHandler :: "cfg_globals \<Rightarrow> 's VariadicStorage \<Rightarrow> (gerr \<Rightarrow> gerr + bytes) \<Rightarrow> (WALFile list option \<Rightarrow> gerr + bytes) \<Rightarrow> 's Handler" where
  "WalsHandler g vs = list_handler (ListWALFiles g vs)"

definition BackupsHandler :: "('s, Backup list) m \<Rightarrow> (gerr \<Rightarrow> gerr + bytes) \<Rightarrow> (Backup list option \<Rightarrow> gerr + bytes) \<Rightarrow> 's Handler" where
  "BackupsHandler listBackups = list_handler listBackups"

definition BriefConfigHandler :: "cfg_globals \<Rightarrow> (gerr \<Rightarrow> gerr + bytes) \<Rightarrow> (bool option \<Rightarrow> gerr + bytes) \<Rightarrow> 's Handler" where
  "BriefConfigHandler g = list_handler (liftE (BriefConfig g))"

definition RedactedConfigHandler :: "cfg_globals \<Rightarrow> (Config \<Rightarrow> gerr + bytes) \<Rightarrow> 's Handler" where
  "RedactedConfigHandler g enc rq = on_snd (WriteJSON StatusOK (enc (FullRedactedConfig g)))"

subsection \<open>The backup service and its handlers (backupapi)\<close>

text \<open>Whether there is a supervisor is an argument; its context is the runner's.\<close>

definition bkp_Start :: "bool \<Rightarrow> ('a backupsv_scheme, BackupRunState) m" where
  "bkp_Start hasSup =
     (if \<not> hasSup then throwE (EMsg ''backup supervisor is nil'')
      else thenE ctx_check (TriggerAsync ''manual''))"

definition bkp_Status :: "bool \<Rightarrow> 'a backupsv_scheme \<Rightarrow> BackupRunState" where
  "bkp_Status hasSup s =
     (if \<not> hasSup then NewBackupState\<lparr>bs_Running := False, bs_Status := BackupRunIdle, bs_LastError := Some (EMsg ''backup supervisor is nil'')\<rparr>
      else BackupStatus s)"

text \<open>The encoder's argument is the object's \<open>status\<close> and its \<open>error\<close>.\<close>

definition writeStartBackupError :: "(string \<times> string \<Rightarrow> gerr + bytes) \<Rightarrow> gerr \<Rightarrow> (response, unit) m" where
  "writeStartBackupError enc e =
     (if errors_Is e ErrBackupAlreadyRunning then WriteJSON StatusConflict (enc (''already_running'', gerr_text e))
      else if errors_Is e ECanceled then WriteJSON StatusServiceUnavailable (enc (''stopping'', gerr_text e))
      else WriteJSON StatusInternalServerError (enc (''error'', gerr_text e)))"

definition StartHandler :: "bool \<Rightarrow> (string \<times> string \<Rightarrow> gerr + bytes) \<Rightarrow> (BackupRunState \<Rightarrow> gerr + bytes) \<Rightarrow> 'a backupsv_scheme Handler" where
  "StartHandler hasSup enc_err enc rq =
     bindE (tryE (on_fst (bkp_Start hasSup))) (\<lambda>r.
       case r of
         Inl e \<Rightarrow> on_snd (writeStartBackupError enc_err e)
       | Inr status \<Rightarrow> on_snd (WriteJSON StatusOK (enc status)))"

definition BackupStatusHandler :: "bool \<Rightarrow> (BackupRunState \<Rightarrow> gerr + bytes) \<Rightarrow> 'a backupsv_scheme Handler" where
  "BackupStatusHandler hasSup = StatusHandler (bkp_Status hasSup)"

subsection \<open>The routes (streamapi/app.go)\<close>

record 's stream_handlers =
  sh_Start :: "'s Handler"
  sh_BackupStatus :: "'s Handler"
  sh_Status :: "'s Handler"
  sh_BriefConfig :: "'s Handler"
  sh_RedactedConfig :: "'s Handler"
  sh_Wals :: "'s Handler"
  sh_Backups :: "'s Handler"
  sh_metrics :: "'s Handler"
  sh_pprof :: "string list \<Rightarrow> 's Handler"

definition stream_routes :: "'s stream_handlers \<Rightarrow> (string \<times> string list \<times> 's Handler) list" where
  "stream_routes H =
     [(''POST'', [''api'', ''v1'', ''basebackup''], sh_Start H),
      (''GET'', [''api'', ''v1'', ''basebackup'', ''status''], sh_BackupStatus H),
      (''GET'', [''api'', ''v1'', ''status''], sh_Status H),
      (''GET'', [''api'', ''v1'', ''brief-config''], sh_BriefConfig H),
      (''GET'', [''api'', ''v1'', ''redacted-config''], sh_RedactedConfig H),
      (''GET'', [''api'', ''v1'', ''wals''], sh_Wals H),
      (''GET'', [''api'', ''v1'', ''backups''], sh_Backups H)]"

text \<open>A pattern with the method GET also matches HEAD; a path that matches under other methods only is a 405.\<close>

definition StatusMethodNotAllowed :: nat where "StatusMethodNotAllowed = 405"

definition method_matches :: "string \<Rightarrow> string \<Rightarrow> bool" where
  "method_matches pat m = (m = pat \<or> (pat = ''GET'' \<and> m = ''HEAD''))"

definition initOptionalHandlers :: "Config \<Rightarrow> 's stream_handlers \<Rightarrow> request \<Rightarrow> 's Handler option" where
  "initOptionalHandlers cfg H rq =
     (if cf_MetricsEnable cfg \<and> rq_Path rq = [''metrics''] then Some (sh_metrics H)
      else if cf_PprofEnable cfg \<and> take 2 (rq_Path rq) = [''debug'', ''pprof''] \<and> length (rq_Path rq) > 2
        then Some (sh_pprof H (drop 2 (rq_Path rq)))
      else None)"

text \<open>The logging middleware between \<open>Cors\<close> and the rate limiter only passes on (\<open>logging_transparent\<close>) and is left out.\<close>

definition stream_Init :: "Config \<Rightarrow> ('s, bool) m \<Rightarrow> 's stream_handlers \<Rightarrow> 's Handler" where
  "stream_Init cfg allow H rq =
     (let rs = filter (\<lambda>(m, p, h). p = rq_Path rq) (stream_routes H) in
      if rq_Path rq = [''healthz''] then on_snd (WriteHeader StatusOK)
      else case initOptionalHandlers cfg H rq of Some h \<Rightarrow> h rq | None \<Rightarrow>
        (case filter (\<lambda>(m, p, h). method_matches m (rq_Method rq)) rs of
          (m, p, h) # _ \<Rightarrow> Chain [SafeHandlerMiddleware, Cors, RateLimiter allow] h rq
        | [] \<Rightarrow> if rs = [] then on_snd (http_Error ''404 page not found'' StatusNotFound)
                else on_snd (http_Error ''Method Not Allowed'' StatusMethodNotAllowed)))"

end
