(* ===== verification/StreamApiSpec.thy ===== *)
theory StreamApiSpec
  imports StreamApi
begin

section \<open>What the API answers\<close>

subsection \<open>Listings\<close>

lemma split_ext_append: "split_ext es base = (n, e) \<Longrightarrow> n @ e = base"
proof (induction es)
  case (Cons a es)
  have a: "take (length base - length a) base @ a = base" if "drop (length base - length a) base = a"
    using append_take_drop_id [of "length base - length a" base] that by simp
  with Cons show ?case by (cases "has_suffix base a") (auto simp: has_suffix_def trim_suffix_def)
qed simp

text \<open>The name and the extension of an entry are its file name.\<close>

lemma wal_entry_name: "wl_Name (wal_entry b fi) @ wl_Ext (wal_entry b fi) = wl_Filename (wal_entry b fi)"
  by (auto simp: wal_entry_def Let_def split: prod.split dest: split_ext_append simp del: split_ext.simps)

definition newest_first :: "Backup list \<Rightarrow> bool" where
  "newest_first bs \<longleftrightarrow> sorted_wrt (\<lambda>a b. bu_Label b \<le> bu_Label a) bs"

lemma sort_newest: "newest_first (sort_Slice (\<lambda>a b. bu_Label b < bu_Label a) bs)"
  using sorted_sort_Slice [of "\<lambda>a b. bu_Label b < bu_Label a" bs] by (simp add: newest_first_def not_less)

lemma backup_entry_label [simp]: "bu_Label (backup_entry decode label r) = ''pgrwl_'' @ label"
  by (simp add: backup_entry_def Let_def split: sum.split)

lemma backup_entry_completed:
  "bu_Status (backup_entry decode label r) = ''completed'' \<longleftrightarrow> (\<exists>rc result. r = Inr rc \<and> decode rc = Inr result)"
  by (auto simp: backup_entry_def Let_def split: sum.split)

lemma backups_loop_labels:
  "wp (backups_loop st decode dirs) (\<lambda>bs t. map bu_Label bs = map (\<lambda>d. ''pgrwl_'' @ filepath_Base d) dirs)
     (\<lambda>_ _. True) s"
proof (induction dirs arbitrary: s)
  case (Cons d dirs)
  have "wp (st_Get st (filepath_Join [filepath_Base d, filepath_Base d @ ''.json'']))
      (\<lambda>x t. True) (\<lambda>x t. True) s" by (simp add: wp_def split: prod.split sum.split)
  then show ?case
    by (simp add: Let_def) (erule wp_conseq; auto intro!: wp_conseq [OF Cons.IH])
qed simp

text \<open>A listing of backups has an entry for each directory of the storage, the newest first.\<close>

lemma backups_listed:
  assumes "ListBackups_of st decode s = (Inr bs, t)" and "st_ListTopLevelDirs st '''' s = (Inr dirs, u)"
  shows "newest_first bs" and "mset (map bu_Label bs) = mset (map (\<lambda>d. ''pgrwl_'' @ filepath_Base d) dirs)"
proof -
  obtain xs where xs: "backups_loop st decode dirs u = (Inr xs, t)" "bs = sort_Slice (\<lambda>a b. bu_Label b < bu_Label a) xs"
    using assms by (auto simp: ListBackups_of_def bindE_def retE_def split: prod.splits sum.splits)
  show "newest_first bs" unfolding xs(2) by (rule sort_newest)
  have "map bu_Label xs = map (\<lambda>d. ''pgrwl_'' @ filepath_Base d) dirs"
    using backups_loop_labels [of st decode dirs u] xs(1) by (simp add: wp_def)
  then show "mset (map bu_Label bs) = mset (map (\<lambda>d. ''pgrwl_'' @ filepath_Base d) dirs)"
    unfolding xs(2) by (metis mset_map mset_sort_Slice)
qed

subsection \<open>Handlers\<close>

lemma wp_WriteJSON:
  assumes "steady r" and "enc = Inr b"
    and "\<And>t. steady t \<Longrightarrow> rs_body t = rs_body r @ b \<Longrightarrow> rs_status t = Some (sent_status c r) \<Longrightarrow> Q () t"
  shows "wp (WriteJSON c enc) Q R r"
  using assms(1,2)
  by (auto simp: WriteJSON_def steady_def sent_status_def intro!: wp_rs_Write assms(3))

text \<open>After an error a listing handler answers with status 500 and two documents, the error and the missing value.\<close>

lemma list_error_two_documents:
  assumes svc: "svc s = (Inl e, t)" "\<not> is_abort e" and enc: "enc_err e = Inr b" "enc None = Inr n"
  shows "\<exists>r. list_handler svc enc_err enc rq (s, new_response (\<lambda>_. None)) = (Inr (), (t, r)) \<and> answer_of r = (500, (b @ n, EEOF))"
proof -
  have st: "steady (new_response (\<lambda>_. None))" by (simp add: steady_def new_response_def)
  have "wp svc Q R s = R e t" for Q R using svc by (simp add: wp_def)
  then have "wp (list_handler svc enc_err enc rq) (\<lambda>_ (u, r). u = t \<and> answer_of r = (500, (b @ n, EEOF))) (\<lambda>_ _. False)
      (s, new_response (\<lambda>_. None))"
    by (simp add: list_handler_def svc(2))
      (auto intro!: wp_WriteJSON [OF _ enc(1)] wp_WriteJSON [OF _ enc(2)] st
        simp: sent_status_def new_response_def answer_of_def StatusInternalServerError_def steady_def)
  then show ?thesis by (auto simp: wp_def split: prod.splits sum.splits)
qed

text \<open>
  Preflight requests do not reach the CORS middleware: the patterns name their methods, so the mux itself answers
  405, without the headers a browser asks for.
\<close>

lemma preflight_refused:
  assumes "rq_Method rq = ''OPTIONS''" and "rq_Path rq \<in> (\<lambda>(m, p, h). p) ` set (stream_routes H)"
    and "cf_PprofEnable cfg = False"
  shows "stream_Init cfg allow H rq = on_snd (http_Error ''Method Not Allowed'' StatusMethodNotAllowed)"
proof -
  have m: "method_matches m ''OPTIONS'' = (m = ''OPTIONS'')" for m by (auto simp: method_matches_def)
  show ?thesis using assms by (auto simp: stream_Init_def initOptionalHandlers_def stream_routes_def m Let_def)
qed

text \<open>A manual backup while another one runs is refused with 409 and leaves the state of the slot alone.\<close>

lemma start_conflict:
  assumes "bs_Running (bk_state s)" and "bk_ctx s (w_tick s) = None" and "bk_ctx s (Suc (w_tick s)) = None"
    and "enc_err (''already_running'', gerr_text ErrBackupAlreadyRunning) = Inr b"
  shows "\<exists>t r. StartHandler True enc_err enc rq (s, new_response (\<lambda>_. None)) = (Inr (), (t, r)) \<and>
     answer_of r = (409, (b, EEOF)) \<and> bk_state t = bk_state s"
proof -
  let ?t = "s\<lparr>w_tick := Suc (Suc (Suc (w_tick s)))\<rparr>"
  have "bkp_Start True s = (Inl ErrBackupAlreadyRunning, ?t)"
    using assms(1-3)
    by (simp add: bkp_Start_def TriggerAsync_def StartAsync_def reserve_def ctx_check_def time_Now_def Begin_def exec_simps)
  then have svc: "wp (bkp_Start True) Q R s = R ErrBackupAlreadyRunning ?t" for Q R by (simp add: wp_def)
  have st: "steady (new_response (\<lambda>_. None))" by (simp add: steady_def new_response_def)
  have e: "\<not> is_abort ErrBackupAlreadyRunning" "errors_Is ErrBackupAlreadyRunning ErrBackupAlreadyRunning"
    by (simp_all add: ErrBackupAlreadyRunning_def)
  have "wp (StartHandler True enc_err enc rq) (\<lambda>_ (u, r). u = ?t \<and> answer_of r = (409, (b, EEOF))) (\<lambda>_ _. False)
      (s, new_response (\<lambda>_. None))"
    by (simp add: StartHandler_def svc e writeStartBackupError_def)
      (auto intro!: wp_WriteJSON [OF _ assms(4)] st simp: sent_status_def new_response_def answer_of_def StatusConflict_def steady_def)
  then show ?thesis by (auto simp: wp_def split: prod.splits sum.splits)
qed

end
