(* ===== verification/Ui.thy ===== *)
theory Ui
  imports Http Restore
begin

section \<open>The web user interface (ui/server.go, ui/client.go, ui/models.go, cmd/pgrwl-ui/main.go)\<close>

text \<open>
  The UI asks a receiver for its status, its configuration, its WAL files and its backups and shows them.  A time
  is the number of nanoseconds since Go's zero time, which is 0; sizes are of a type \<open>'f\<close> of floating point
  numbers the model only passes on.  The HTTP client, the JSON decoder and the execution of the HTML templates are
  parameters.  Log messages are left out.
\<close>

subsection \<open>Data\<close>

record UReceiver =
  rc_Label :: string
  rc_Addr :: string

record UStreamStatus =
  us_Slot :: string
  us_Timeline :: int
  us_LastFlushLSN :: string
  us_Uptime :: string
  us_Running :: bool

record UPgrwlStatus =
  ps_RunningMode :: string
  ps_StreamStatus :: "UStreamStatus option"

record UBriefConfig =
  uc_RetentionEnable :: bool

record 'f UWALFile =
  uw_Name :: string
  uw_Ext :: string
  uw_Filename :: string
  uw_SizeMB :: 'f
  uw_UploadedAt :: int
  uw_Encrypted :: bool

record 'f UBackup =
  ub_Label :: string
  ub_Started :: int
  ub_Finished :: int
  ub_SizeGB :: 'f
  ub_WALStartLSN :: string
  ub_WALStopLSN :: string
  ub_Status :: string

record 'f UiSnapshot =
  sn_Receiver :: UReceiver
  sn_Status :: "UPgrwlStatus option"
  sn_Config :: "UBriefConfig option"
  sn_WALFiles :: "'f UWALFile list"
  sn_Backups :: "'f UBackup list"
  sn_Error :: string

subsection \<open>The client\<close>

text \<open>\<open>send\<close> is the HTTP client: a GET request to a URL, answered by a status code, its text and a body.\<close>

definition getJSON :: "(string \<Rightarrow> ('n, nat \<times> string \<times> io_reader) m) \<Rightarrow> (io_reader \<Rightarrow> gerr + 'x) \<Rightarrow> string \<Rightarrow> string \<Rightarrow> ('n, 'x) m" where
  "getJSON send decode baseURL path =
     bindE (send (trim_right_char (CHR ''/'') baseURL @ path)) (\<lambda>(code, status, body).
       if code < 200 \<or> 300 \<le> code then throwE (EMsg (path @ '' returned '' @ status))
       else liftE (decode body))"

record ('n, 'f) HTTPClient =
  hc_send :: "string \<Rightarrow> ('n, nat \<times> string \<times> io_reader) m"
  hc_status :: "io_reader \<Rightarrow> gerr + UPgrwlStatus"
  hc_config :: "io_reader \<Rightarrow> gerr + UBriefConfig"
  hc_wals :: "io_reader \<Rightarrow> gerr + 'f UWALFile list"
  hc_backups :: "io_reader \<Rightarrow> gerr + 'f UBackup list"

text \<open>
  The four goroutines of \<open>Snapshot\<close>: each waits for its answer and then changes the snapshot under the mutex.
  A goroutine moves when its answer arrives, and once more when it gets the lock.
\<close>

datatype fetch = FetchStatus | FetchConfig | FetchWals | FetchBackups

datatype 'f doc = DocStatus UPgrwlStatus | DocConfig UBriefConfig | DocWals "'f UWALFile list" | DocBackups "'f UBackup list"

primrec fetch_doc :: "('n, 'f) HTTPClient \<Rightarrow> string \<Rightarrow> fetch \<Rightarrow> ('n, 'f doc) m" where
  "fetch_doc C addr FetchStatus = bindE (getJSON (hc_send C) (hc_status C) addr ''/api/v1/status'') (\<lambda>x. retE (DocStatus x))"
| "fetch_doc C addr FetchConfig = bindE (getJSON (hc_send C) (hc_config C) addr ''/api/v1/brief-config'') (\<lambda>x. retE (DocConfig x))"
| "fetch_doc C addr FetchWals = bindE (getJSON (hc_send C) (hc_wals C) addr ''/api/v1/wals'') (\<lambda>x. retE (DocWals x))"
| "fetch_doc C addr FetchBackups = bindE (getJSON (hc_send C) (hc_backups C) addr ''/api/v1/backups'') (\<lambda>x. retE (DocBackups x))"

primrec set_doc :: "'f doc \<Rightarrow> 'f UiSnapshot \<Rightarrow> 'f UiSnapshot" where
  "set_doc (DocStatus x) s = s\<lparr>sn_Status := Some x\<rparr>"
| "set_doc (DocConfig x) s = s\<lparr>sn_Config := Some x\<rparr>"
| "set_doc (DocWals x) s = s\<lparr>sn_WALFiles := x\<rparr>"
| "set_doc (DocBackups x) s = s\<lparr>sn_Backups := x\<rparr>"

definition merge_doc :: "UReceiver \<Rightarrow> fetch \<Rightarrow> gerr + 'f doc \<Rightarrow> 'f UiSnapshot \<Rightarrow> 'f UiSnapshot" where
  "merge_doc rc f r s =
     (case r of
        Inr d \<Rightarrow> set_doc d s
      | Inl e \<Rightarrow> if f = FetchStatus
                 then s\<lparr>sn_Error := ''cannot reach receiver at '' @ rc_Addr rc @ '': '' @ gerr_text e\<rparr> else s)"

record ('n, 'f) snapping =
  sp_net :: 'n
  sp_got :: "fetch \<Rightarrow> (gerr + 'f doc) option"
  sp_merged :: "fetch set"
  sp_snap :: "'f UiSnapshot"

definition snap_start :: "UReceiver \<Rightarrow> 'n \<Rightarrow> ('n, 'f) snapping" where
  "snap_start rc n = \<lparr>sp_net = n, sp_got = (\<lambda>_. None), sp_merged = {},
     sp_snap = \<lparr>sn_Receiver = rc, sn_Status = None, sn_Config = None, sn_WALFiles = [], sn_Backups = [], sn_Error = ''''\<rparr>\<rparr>"

inductive snap_step :: "('n, 'f) HTTPClient \<Rightarrow> UReceiver \<Rightarrow> ('n, 'f) snapping \<Rightarrow> ('n, 'f) snapping \<Rightarrow> bool" for C rc where
  answer: "sp_got s f = None \<Longrightarrow> fetch_doc C (rc_Addr rc) f (sp_net s) = (r, n) \<Longrightarrow>
    snap_step C rc s (s\<lparr>sp_net := n, sp_got := (sp_got s)(f := Some r)\<rparr>)"
| merge: "sp_got s f = Some r \<Longrightarrow> f \<notin> sp_merged s \<Longrightarrow>
    snap_step C rc s (s\<lparr>sp_merged := insert f (sp_merged s), sp_snap := merge_doc rc f r (sp_snap s)\<rparr>)"

inductive_cases snap_stepE: "snap_step C rc s t"

text \<open>The run in which the goroutines take their turns one after the other.\<close>

fun snap_turns :: "('n, 'f) HTTPClient \<Rightarrow> UReceiver \<Rightarrow> fetch list \<Rightarrow> 'f UiSnapshot \<Rightarrow> ('n, 'f UiSnapshot) m" where
  "snap_turns C rc [] s = retE s"
| "snap_turns C rc (f # fs) s =
     bindE (tryE (fetch_doc C (rc_Addr rc) f)) (\<lambda>r. snap_turns C rc fs (merge_doc rc f r s))"

definition client_Snapshot :: "('n, 'f) HTTPClient \<Rightarrow> UReceiver \<Rightarrow> ('n, 'f UiSnapshot) m" where
  "client_Snapshot C rc = snap_turns C rc [FetchStatus, FetchConfig, FetchWals, FetchBackups]
     \<lparr>sn_Receiver = rc, sn_Status = None, sn_Config = None, sn_WALFiles = [], sn_Backups = [], sn_Error = ''''\<rparr>"

subsection \<open>Helpers of the pages\<close>

definition pageSize :: int where "pageSize = 15"

definition parseNonNegativeInt :: "string \<Rightarrow> int" where
  "parseNonNegativeInt s = (case Atoi s of Inl e \<Rightarrow> 0 | Inr v \<Rightarrow> if v < 0 then 0 else v)"

record ui_request =
  uq_Method :: string
  uq_Path :: string
  uq_Query :: "string \<Rightarrow> string"

definition selectedReceiverIndex :: "ui_request \<Rightarrow> int \<Rightarrow> int" where
  "selectedReceiverIndex r n =
     (let idx = parseNonNegativeInt (uq_Query r ''receiver'') in if n \<le> idx then 0 else idx)"

definition wal_selected :: "string \<Rightarrow> string \<Rightarrow> 'f UWALFile \<Rightarrow> bool" where
  "wal_selected query ext f \<longleftrightarrow>
     \<not> (query \<noteq> '''' \<and> \<not> str_contains (to_lower (uw_Filename f)) query) \<and>
     (if ext = ''zst'' \<or> ext = ''gz'' then uw_Ext f = ext
      else if ext = ''plain'' then uw_Ext f = '''' else True)"

definition filterWAL :: "'f UWALFile list \<Rightarrow> string \<Rightarrow> string \<Rightarrow> 'f UWALFile list" where
  "filterWAL files query ext = filter (wal_selected (to_lower query) ext) files"

definition pageNums :: "int \<Rightarrow> int \<Rightarrow> int list" where
  "pageNums page n =
     (let start = max 0 (page - 2);
          last' = min n (start + 5);
          start = max 0 (last' - 5)
      in [start..last' - 1])"

definition displayFrom :: "int \<Rightarrow> int \<Rightarrow> int" where
  "displayFrom from n = (if n = 0 then 0 else from + 1)"

text \<open>\<open>url.QueryEscape\<close>.\<close>

definition url_unreserved :: "char \<Rightarrow> bool" where
  "url_unreserved c = (let n = (of_char c :: nat) in
     48 \<le> n \<and> n \<le> 57 \<or> 65 \<le> n \<and> n \<le> 90 \<or> 97 \<le> n \<and> n \<le> 122 \<or> c \<in> set ''-_.~'')"

definition QueryEscape :: "string \<Rightarrow> string" where
  "QueryEscape s = concat (map (\<lambda>c. if url_unreserved c then [c] else if c = CHR '' '' then ''+''
     else CHR ''%'' # hexw 2 (of_char c)) s)"

definition queryURL :: "string \<Rightarrow> int \<Rightarrow> string \<Rightarrow> string \<Rightarrow> int \<Rightarrow> string" where
  "queryURL path receiver q ext page =
     path @ ''?receiver='' @ fmt_d receiver @ ''&q='' @ QueryEscape q @ ''&ext='' @ QueryEscape ext @ ''&page='' @ fmt_d page"

subsection \<open>The view\<close>

record 'f View =
  vw_Active :: string
  vw_Receivers :: "UReceiver list"
  vw_SelectedIndex :: int
  vw_Snapshot :: "'f UiSnapshot"
  vw_Query :: string
  vw_ExtFilter :: string
  vw_Page :: int
  vw_PageSize :: int
  vw_FilteredWAL :: "'f UWALFile list"
  vw_VisibleWAL :: "'f UWALFile list"
  vw_TotalPages :: int
  vw_PageNums :: "int list"
  vw_PageFrom :: int
  vw_PageTo :: int

record ('n, 'f) Server =
  sv_receivers :: "UReceiver list"
  sv_client :: "UReceiver \<Rightarrow> ('n, 'f UiSnapshot) m"
  sv_tpl :: "string \<Rightarrow> 'f View \<Rightarrow> gerr + bytes"

definition NewServer :: "UReceiver list \<Rightarrow> (UReceiver \<Rightarrow> ('n, 'f UiSnapshot) m) option \<Rightarrow> ('n, 'f) HTTPClient
    \<Rightarrow> (string \<Rightarrow> 'f View \<Rightarrow> gerr + bytes) \<Rightarrow> ('n, 'f) Server" where
  "NewServer receivers client http tpl =
     \<lparr>sv_receivers = (if receivers = [] then [\<lparr>rc_Label = ''localhost'', rc_Addr = ''http://127.0.0.1:7070''\<rparr>] else receivers),
      sv_client = (case client of None \<Rightarrow> client_Snapshot http | Some c \<Rightarrow> c), sv_tpl = tpl\<rparr>"

text \<open>The stable sort is HOL's.\<close>

definition sort_newest :: "'f UWALFile list \<Rightarrow> 'f UWALFile list" where
  "sort_newest files = sort_key (\<lambda>f. - uw_UploadedAt f) files"

definition view_of :: "UReceiver list \<Rightarrow> int \<Rightarrow> string \<Rightarrow> ui_request \<Rightarrow> 'f UiSnapshot \<Rightarrow> 'f View" where
  "view_of receivers selected active r snap0 =
     (let snap = snap0\<lparr>sn_WALFiles := sort_newest (sn_WALFiles snap0)\<rparr>;
          walFilter = (let e = uq_Query r ''ext'' in if e = '''' then ''all'' else e);
          query = trim_space (uq_Query r ''q'');
          page = parseNonNegativeInt (uq_Query r ''page'');
          walRows = filterWAL (sn_WALFiles snap) query walFilter;
          n = int (length walRows);
          totalPages = max 1 ((n + pageSize - 1) div pageSize);
          page = (if totalPages \<le> page then totalPages - 1 else page);
          from = page * pageSize;
          to = min (from + pageSize) n;
          from = (if to < from then to else from)
      in \<lparr>vw_Active = active, vw_Receivers = receivers, vw_SelectedIndex = selected, vw_Snapshot = snap, vw_Query = query,
          vw_ExtFilter = walFilter, vw_Page = page, vw_PageSize = pageSize, vw_FilteredWAL = walRows,
          vw_VisibleWAL = drop (nat from) (take (nat to) walRows), vw_TotalPages = totalPages,
          vw_PageNums = pageNums page totalPages, vw_PageFrom = displayFrom from n, vw_PageTo = to\<rparr>)"

text \<open>An index out of range panics.\<close>

definition buildView :: "('n, 'f) Server \<Rightarrow> ui_request \<Rightarrow> string \<Rightarrow> ('n, 'f View) m" where
  "buildView sv r active =
     (let selected = selectedReceiverIndex r (int (length (sv_receivers sv))) in
      if selected < 0 \<or> int (length (sv_receivers sv)) \<le> selected then throwE (EPanic ''index out of range'')
      else bindE (sv_client sv (sv_receivers sv ! nat selected)) (\<lambda>snap.
        retE (view_of (sv_receivers sv) selected active r snap)))"

subsection \<open>Pages\<close>

definition StatusSeeOther :: nat where "StatusSeeOther = 303"

text \<open>\<open>http.Redirect\<close> to the path \<open>/ui/status\<close>, when no content type is set.\<close>

definition redirect_status :: "ui_request \<Rightarrow> (response, unit) m" where
  "redirect_status r =
     thenE (set_header ''Location'' ''/ui/status'')
    (thenE (whenE (uq_Method r = ''GET'' \<or> uq_Method r = ''HEAD'') (set_header ''Content-Type'' ''text/html; charset=utf-8''))
    (thenE (WriteHeader StatusSeeOther)
       (whenE (uq_Method r = ''GET'')
          (bindE (tryE (rs_Write (''<a href=\"/ui/status\">See Other</a>.'' @ [CHR 0x0A, CHR 0x0A]))) (\<lambda>_. retE ())))))"

definition render :: "('n, 'f) Server \<Rightarrow> string \<Rightarrow> 'f View \<Rightarrow> (response, unit) m" where
  "render sv name data =
     (case sv_tpl sv name data of
        Inl e \<Rightarrow> http_Error ''render error'' StatusInternalServerError
      | Inr buf \<Rightarrow> thenE (set_header ''Content-Type'' ''text/html; charset=utf-8'') (bindE (tryE (rs_Write buf)) (\<lambda>_. retE ())))"

definition show_view :: "('n, 'f) Server \<Rightarrow> ui_request \<Rightarrow> string \<Rightarrow> string \<Rightarrow> ('n, unit) http" where
  "show_view sv r active name = bindE (on_fst (buildView sv r active)) (\<lambda>view. on_snd (render sv name view))"

definition ui_page :: "('n, 'f) Server \<Rightarrow> ui_request \<Rightarrow> ('n, unit) http" where
  "ui_page sv r =
     (let name = trim_prefix (uq_Path r) ''/ui/'' in
      if name \<in> {''status'', ''wal'', ''backups'', ''config''} then show_view sv r name ''layout''
      else on_snd (redirect_status r))"

text \<open>The patterns of \<open>Mount\<close>: the longest that matches decides.  The static files are a handler of their own.\<close>

definition ui_Mount :: "('n, 'f) Server \<Rightarrow> (ui_request \<Rightarrow> ('n, unit) http) \<Rightarrow> ui_request \<Rightarrow> ('n, unit) http" where
  "ui_Mount sv static r =
     (if has_prefix (uq_Path r) ''/ui/static/'' then static (r\<lparr>uq_Path := trim_prefix (uq_Path r) ''/ui/static/''\<rparr>)
      else if uq_Path r = ''/ui'' then on_snd (redirect_status r)
      else if uq_Path r = ''/ui/fragments/status'' then show_view sv r ''status'' ''status-panel''
      else if uq_Path r = ''/ui/fragments/wal-table'' then show_view sv r ''wal'' ''wal-table''
      else if uq_Path r = ''/ui/fragments/backups-table'' then show_view sv r ''backups'' ''backups-table''
      else if has_prefix (uq_Path r) ''/ui/'' then ui_page sv r
      else on_snd (http_Error ''404 page not found'' StatusNotFound))"

subsection \<open>The configuration of the UI\<close>

record UiConfig =
  uic_ListenAddr :: string
  uic_Receivers :: "UReceiver list"

definition defaultListenAddr :: string where "defaultListenAddr = '':8080''"

fun receivers_loop :: "string list \<Rightarrow> UReceiver list \<Rightarrow> gerr + unit" where
  "receivers_loop seen [] = Inr ()"
| "receivers_loop seen (r # rs) =
     (if rc_Label r = '''' then Inl (EMsg ''receivers[].label is required'')
      else if rc_Addr r = '''' then Inl (EMsg ''receivers[].addr is required'')
      else if rc_Label r \<in> set seen then Inl (EMsg ''duplicate receiver label'')
      else receivers_loop (rc_Label r # seen) rs)"

definition validateConfig :: "UiConfig \<Rightarrow> gerr + unit" where
  "validateConfig cfg =
     (if uic_ListenAddr cfg = '''' then Inl (EMsg ''listen_addr is required'')
      else if uic_Receivers cfg = [] then Inl (EMsg ''at least one receiver is required'')
      else receivers_loop [] (uic_Receivers cfg))"

definition hasExt :: "string \<Rightarrow> string \<Rightarrow> bool" where
  "hasExt path ext = (length ext \<le> length path \<and> drop (length path - length ext) path = ext)"

definition ui_configPath :: "string \<Rightarrow> string" where
  "ui_configPath env = (if env \<noteq> '''' then env else ''pgrwl-ui.yaml'')"

text \<open>The two decoders fill in what the document has over the defaults.\<close>

definition loadConfig :: "(bytes \<Rightarrow> UiConfig \<Rightarrow> gerr + UiConfig) \<Rightarrow> (bytes \<Rightarrow> UiConfig \<Rightarrow> gerr + UiConfig) \<Rightarrow> string
    \<Rightarrow> ('a world_scheme, UiConfig) m" where
  "loadConfig json yaml path =
     (let cfg = \<lparr>uic_ListenAddr = defaultListenAddr, uic_Receivers = [\<lparr>rc_Label = ''localhost'', rc_Addr = ''http://127.0.0.1:7070''\<rparr>]\<rparr> in
      bindE (tryE (os_ReadFile path)) (\<lambda>r.
        case r of
          Inl e \<Rightarrow> if errors_Is e ENotExist then retE cfg else throwE e
        | Inr b \<Rightarrow>
            bindE (if hasExt path ''.json'' then wrapE ''parse json config'' (liftE (json b cfg))
                   else wrapE ''parse yaml config'' (liftE (yaml b cfg))) (\<lambda>cfg.
            thenE (liftE (validateConfig cfg)) (retE cfg))))"

text \<open>\<open>main\<close> up to the start of the server: the routes of its mux.\<close>

definition ui_main_mux :: "('n, 'f) Server \<Rightarrow> (ui_request \<Rightarrow> ('n, unit) http) \<Rightarrow> ui_request \<Rightarrow> ('n, unit) http" where
  "ui_main_mux sv static r =
     (if uq_Path r = ''/healthz'' then on_snd (WriteHeader StatusOK) else ui_Mount sv static r)"

end
