(* ===== verification/UiReady.thy ===== *)
theory UiReady
  imports Ui
begin

section \<open>What the pages of the UI compute (ui/templates.go)\<close>

text \<open>
  The functions the templates call: the state of the receiver, the throughput of the last day, and whether the last
  backup can be restored from the archive.  Formatting a time and the operations on floating point numbers are
  parameters.  Segment numbers are natural numbers: they stay below \<open>2 ^ 41\<close>, so that \<open>uint64\<close> never wraps
  (\<open>walSegmentNo_bound\<close>).  The text of the templates is not modelled.
\<close>

subsection \<open>Labels\<close>

definition chipVariant :: "UPgrwlStatus option \<Rightarrow> string" where
  "chipVariant s = (case s of
       None \<Rightarrow> ''loading''
     | Some p \<Rightarrow> (case ps_StreamStatus p of None \<Rightarrow> ''loading'' | Some t \<Rightarrow> if us_Running t then ''streaming'' else ''stopped''))"

definition chipLabel :: "UPgrwlStatus option \<Rightarrow> string" where
  "chipLabel s = (case s of
       None \<Rightarrow> ''connecting''
     | Some p \<Rightarrow> (case ps_StreamStatus p of None \<Rightarrow> ''connecting'' | Some t \<Rightarrow> if us_Running t then ''streaming'' else ''stopped''))"

definition statusClass :: "UPgrwlStatus option \<Rightarrow> string" where
  "statusClass s = (if chipVariant s = ''streaming'' then ''ok'' else if chipVariant s = ''stopped'' then ''bad'' else ''warn'')"

definition statusText :: "UPgrwlStatus option \<Rightarrow> string" where
  "statusText s = (case s of
       None \<Rightarrow> ''UNKNOWN''
     | Some p \<Rightarrow> (case ps_StreamStatus p of None \<Rightarrow> ''UNKNOWN'' | Some t \<Rightarrow> if us_Running t then ''STREAMING'' else ''STOPPED''))"

definition dotColor :: "UPgrwlStatus option \<Rightarrow> string" where
  "dotColor s = (if chipVariant s = ''streaming'' then ''var(--green)''
     else if chipVariant s = ''stopped'' then ''var(--red)'' else ''var(--amber)'')"

definition ringColor :: "UPgrwlStatus option \<Rightarrow> string" where
  "ringColor s = (if chipVariant s = ''streaming'' then ''var(--green)'' else ''var(--amber)'')"

definition retentionLabel :: "UBriefConfig option \<Rightarrow> string" where
  "retentionLabel c = (case c of Some x \<Rightarrow> if uc_RetentionEnable x then ''enabled'' else ''disabled'' | None \<Rightarrow> ''disabled'')"

definition retentionClass :: "UBriefConfig option \<Rightarrow> string" where
  "retentionClass c = (case c of Some x \<Rightarrow> if uc_RetentionEnable x then ''green'' else ''amber'' | None \<Rightarrow> ''amber'')"

definition backupVariant :: "string \<Rightarrow> string" where
  "backupVariant status =
     (let s = to_lower status in
      if s \<in> {''done'', ''ok'', ''success'', ''completed'', ''complete''} then ''green''
      else if s \<in> {''running'', ''in_progress'', ''pending''} then ''amber''
      else if s \<in> {''failed'', ''error''} then ''red'' else ''muted'')"

text \<open>The small functions of the table \<open>funcs\<close>.\<close>

definition fn_active :: "string \<Rightarrow> string \<Rightarrow> string" where
  "fn_active got want = (if got = want then ''active'' else '''')"

definition fn_count :: "'a list \<Rightarrow> string" where
  "fn_count xs = (if xs = [] then '''' else fmt_d (int (length xs)))"

definition fn_stream :: "'f View \<Rightarrow> UStreamStatus option" where
  "fn_stream v = (case sn_Status (vw_Snapshot v) of None \<Rightarrow> None | Some s \<Rightarrow> ps_StreamStatus s)"

definition fn_pageTitle :: "string \<Rightarrow> string" where
  "fn_pageTitle active =
     (if active = ''status'' then ''pgrwl - Status'' else if active = ''wal'' then ''pgrwl - WAL files''
      else if active = ''backups'' then ''pgrwl - Backups'' else if active = ''config'' then ''pgrwl - Config'' else ''pgrwl'')"

definition fn_extLabel :: "string \<Rightarrow> string" where
  "fn_extLabel ext = (if ext = '''' then ''plain'' else ext)"

definition fn_extVariant :: "string \<Rightarrow> string" where
  "fn_extVariant ext = (if ext = ''zst'' then ''blue'' else if ext = ''gz'' then ''amber'' else ''muted'')"

definition fn_encLabel :: "bool \<Rightarrow> string" where
  "fn_encLabel v = (if v then ''aes-gcm'' else ''-'')"

definition fn_encVariant :: "bool \<Rightarrow> string" where
  "fn_encVariant v = (if v then ''teal'' else ''muted'')"

definition fn_showFooter :: "'f View \<Rightarrow> bool" where
  "fn_showFooter v = (vw_FilteredWAL v \<noteq> [])"

subsection \<open>The throughput of the last day\<close>

text \<open>The operations on \<open>float64\<close>: \<open>fl_less a b\<close> is \<open>a < b\<close>, \<open>fl_percent a b\<close> is \<open>int((a / b) * 100)\<close>.\<close>

record 'f float64 =
  fl_zero :: 'f
  fl_add :: "'f \<Rightarrow> 'f \<Rightarrow> 'f"
  fl_less :: "'f \<Rightarrow> 'f \<Rightarrow> bool"
  fl_percent :: "'f \<Rightarrow> 'f \<Rightarrow> int"

definition Hour :: int where "Hour = 3600000000000"

text \<open>\<open>t.Truncate(time.Hour)\<close>.\<close>

definition trunc_hour :: "int \<Rightarrow> int" where
  "trunc_hour t = t - t mod Hour"

record 'f ThroughputBucket =
  tb_Label :: string
  tb_SizeMB :: 'f
  tb_Count :: int
  tb_Height :: int
  tb_Current :: bool

definition day_start :: "int \<Rightarrow> int" where
  "day_start now = trunc_hour (now - 23 * Hour)"

definition empty_bucket :: "'f float64 \<Rightarrow> (int \<Rightarrow> string) \<Rightarrow> int \<Rightarrow> nat \<Rightarrow> 'f ThroughputBucket" where
  "empty_bucket F hhmm start i =
     \<lparr>tb_Label = hhmm (start + int i * Hour), tb_SizeMB = fl_zero F, tb_Count = 0, tb_Height = 0, tb_Current = (i = 23)\<rparr>"

definition bucket_add :: "'f float64 \<Rightarrow> int \<Rightarrow> int \<Rightarrow> 'f UWALFile \<Rightarrow> 'f ThroughputBucket list \<Rightarrow> 'f ThroughputBucket list" where
  "bucket_add F now start f buckets =
     (if uw_UploadedAt f = 0 then buckets
      else if uw_UploadedAt f < start \<or> now < uw_UploadedAt f then buckets
      else let idx = (trunc_hour (uw_UploadedAt f) - start) div Hour in
           if idx < 0 \<or> int (length buckets) \<le> idx then buckets
           else let b = buckets ! nat idx in
                buckets[nat idx := b\<lparr>tb_SizeMB := fl_add F (tb_SizeMB b) (uw_SizeMB f), tb_Count := tb_Count b + 1\<rparr>])"

fun max_size :: "'f float64 \<Rightarrow> 'f \<Rightarrow> 'f ThroughputBucket list \<Rightarrow> 'f" where
  "max_size F m [] = m"
| "max_size F m (b # bs) = max_size F (if fl_less F m (tb_SizeMB b) then tb_SizeMB b else m) bs"

definition set_height :: "'f float64 \<Rightarrow> 'f \<Rightarrow> 'f ThroughputBucket \<Rightarrow> 'f ThroughputBucket" where
  "set_height F maxMB b =
     b\<lparr>tb_Height := if maxMB = fl_zero F then 6
        else let height = fl_percent F (tb_SizeMB b) maxMB;
                 height = (if height < 6 then 6 else height)
             in if 100 < height then 100 else height\<rparr>"

definition walThroughputLast24h :: "'f float64 \<Rightarrow> (int \<Rightarrow> string) \<Rightarrow> int \<Rightarrow> 'f UWALFile list \<Rightarrow> 'f ThroughputBucket list" where
  "walThroughputLast24h F hhmm now files =
     (let start = day_start now;
          buckets = fold (bucket_add F now start) files (map (empty_bucket F hhmm start) [0..<24]);
          maxMB = max_size F (fl_zero F) buckets
      in map (set_height F maxMB) buckets)"

subsection \<open>The latest file and the latest backup\<close>

fun latest_by :: "('a \<Rightarrow> int) \<Rightarrow> 'a \<Rightarrow> 'a list \<Rightarrow> 'a" where
  "latest_by t x [] = x"
| "latest_by t x (y # ys) = latest_by t (if t x < t y then y else x) ys"

definition lastWAL :: "'f UWALFile list \<Rightarrow> 'f UWALFile option" where
  "lastWAL files = (case files of [] \<Rightarrow> None | f # fs \<Rightarrow> Some (latest_by uw_UploadedAt f fs))"

definition lastBackup :: "'f UBackup list \<Rightarrow> 'f UBackup option" where
  "lastBackup backups = (case backups of [] \<Rightarrow> None | b # bs \<Rightarrow> Some (latest_by ub_Started b bs))"

text \<open>\<open>show\<close> is the rounding to milliseconds and the printing of a \<open>time.Duration\<close>.\<close>

definition ui_duration :: "(int \<Rightarrow> string) \<Rightarrow> int \<Rightarrow> int \<Rightarrow> string" where
  "ui_duration shw started finished =
     (if started = 0 \<or> finished = 0 \<or> finished < started then ''-'' else shw (finished - started))"

subsection \<open>Positions and names\<close>

text \<open>
  \<open>fmt.Sscanf(s, "%x", &n)\<close> into a \<open>uint32\<close>: blanks are skipped, a new line among them is an error, then come
  the digits; what follows them is not read.
\<close>

definition scan_blank :: "char \<Rightarrow> bool" where
  "scan_blank c = (is_blank c \<and> c \<noteq> CHR 0x0A)"

definition is_hex :: "char \<Rightarrow> bool" where
  "is_hex c = (case digit_val c of None \<Rightarrow> False | Some d \<Rightarrow> d < 16)"

definition parseHex32 :: "string \<Rightarrow> nat option" where
  "parseHex32 s =
     (case ParseUint (takeWhile is_hex (dropWhile scan_blank s)) 16 64 of
        Inl e \<Rightarrow> None
      | Inr n \<Rightarrow> if n < 2 ^ 32 then Some n else None)"

definition walBaseName :: "string \<Rightarrow> string" where
  "walBaseName name = (let name = trim_space name in if 24 \<le> length name then take 24 name else name)"

definition shortWAL :: "string \<Rightarrow> string" where
  "shortWAL name = (let base = walBaseName name in if length base \<le> 4 then base else drop (length base - 4) base)"

definition ui_walSegmentSize :: nat where
  "ui_walSegmentSize = 16 * 1024 * 1024"

definition segsPerXLogID :: nat where
  "segsPerXLogID = 0x100000000 div ui_walSegmentSize"

definition walSegmentNo :: "string \<Rightarrow> nat option" where
  "walSegmentNo name =
     (let base = walBaseName name in
      if length base < 24 then None
      else case parseHex32 (take 8 (drop 8 base)) of
          None \<Rightarrow> None
        | Some log \<Rightarrow>
            (case parseHex32 (take 8 (drop 16 base)) of
               None \<Rightarrow> None
             | Some seg \<Rightarrow> Some (log * segsPerXLogID + seg)))"

definition walTimeline :: "string \<Rightarrow> nat" where
  "walTimeline name =
     (let base = walBaseName name in
      if length base < 8 then 0 else case parseHex32 (take 8 base) of None \<Rightarrow> 0 | Some tli \<Rightarrow> tli)"

definition walFileNameFromSeg :: "nat \<Rightarrow> nat \<Rightarrow> string" where
  "walFileNameFromSeg timeline seg = fmt_X 8 timeline @ fmt_X 8 (seg div segsPerXLogID) @ fmt_X 8 (seg mod segsPerXLogID)"

definition segmentNoFromLSN :: "string \<Rightarrow> nat option" where
  "segmentNoFromLSN lsn =
     (case split_on (CHR ''/'') lsn of
        [a, b] \<Rightarrow>
          (case parseHex32 a of
             None \<Rightarrow> None
           | Some hi \<Rightarrow>
               (case parseHex32 b of None \<Rightarrow> None | Some lo \<Rightarrow> Some ((hi * 2 ^ 32 + lo) div ui_walSegmentSize)))
      | _ \<Rightarrow> None)"

text \<open>The covering file's name, and whether it is there.\<close>

definition walFileNameForLSN :: "string \<Rightarrow> 'f UWALFile list \<Rightarrow> string \<times> bool" where
  "walFileNameForLSN lsn files =
     (if files = [] then ('''', False)
      else case segmentNoFromLSN lsn of
          None \<Rightarrow> ('''', False)
        | Some seg \<Rightarrow>
            let timeline = (case lastWAL files of
                   None \<Rightarrow> 1
                 | Some latest \<Rightarrow> let tl = walTimeline (uw_Name latest) in if tl \<noteq> 0 then tl else 1);
                want = walFileNameFromSeg timeline seg
            in (want, \<exists>f \<in> set files. has_prefix (uw_Name f) want \<or> has_prefix (uw_Filename f) want))"

subsection \<open>The sequence of segments\<close>

record walSequenceCheck =
  sc_ok :: bool
  sc_prev :: string
  sc_missing :: string

definition file_seg :: "'f UWALFile \<Rightarrow> nat option" where
  "file_seg f = (case walSegmentNo (uw_Name f) of Some s \<Rightarrow> Some s | None \<Rightarrow> walSegmentNo (uw_Filename f))"

text \<open>The map of the numbers that are present, with the names, and the greatest number.\<close>

fun present_segs :: "'f UWALFile list \<Rightarrow> (nat \<Rightarrow> string option) \<times> nat \<Rightarrow> (nat \<Rightarrow> string option) \<times> nat" where
  "present_segs [] pm = pm"
| "present_segs (f # fs) (present, maxSeg) =
     (case file_seg f of
        None \<Rightarrow> present_segs fs (present, maxSeg)
      | Some seg \<Rightarrow> present_segs fs (present(seg \<mapsto> uw_Name f), if maxSeg < seg then seg else maxSeg))"

function seq_loop :: "(nat \<Rightarrow> string option) \<Rightarrow> nat \<Rightarrow> nat \<Rightarrow> string \<Rightarrow> nat \<Rightarrow> walSequenceCheck" where
  "seq_loop present maxSeg timeline prev seg =
     (if maxSeg < seg then \<lparr>sc_ok = True, sc_prev = '''', sc_missing = ''''\<rparr>
      else case present seg of
          None \<Rightarrow> \<lparr>sc_ok = False, sc_prev = prev, sc_missing = walFileNameFromSeg timeline seg\<rparr>
        | Some name \<Rightarrow> seq_loop present maxSeg timeline name (seg + 1))"
  by pat_completeness auto
termination
  by (relation "measure (\<lambda>(present, maxSeg, timeline, prev, seg). Suc maxSeg - seg)") auto

declare seq_loop.simps [simp del]

definition walSequenceStatus :: "string \<Rightarrow> 'f UWALFile list \<Rightarrow> walSequenceCheck" where
  "walSequenceStatus coveringWAL files =
     (case walSegmentNo coveringWAL of
        None \<Rightarrow> \<lparr>sc_ok = False, sc_prev = coveringWAL, sc_missing = ''''\<rparr>
      | Some coverSeg \<Rightarrow>
          let (present, maxSeg) = present_segs files (\<lambda>_. None, 0) in
          if present coverSeg = None then \<lparr>sc_ok = False, sc_prev = '''', sc_missing = coveringWAL\<rparr>
          else seq_loop present maxSeg (walTimeline coveringWAL) coveringWAL (coverSeg + 1))"

subsection \<open>Restore readiness\<close>

record RestoreReadiness =
  rr_PossibleLabel :: string
  rr_StatusClass :: string
  rr_Summary :: string
  rr_BackupEndLSN :: string
  rr_CoveringWAL :: string
  rr_CoveringClass :: string
  rr_SequenceLabel :: string
  rr_SequenceClass :: string
  rr_RestoreFrom :: string
  rr_RestoreTo :: string
  rr_Note :: string

text \<open>\<open>fmt\<close> formats a time that is not zero.\<close>

definition fmtTimeLocal :: "(int \<Rightarrow> string) \<Rightarrow> int \<Rightarrow> string" where
  "fmtTimeLocal fmt t = (if t = 0 then ''-'' else fmt t)"

definition restore_unknown :: RestoreReadiness where
  "restore_unknown = \<lparr>rr_PossibleLabel = ''unknown'', rr_StatusClass = ''warn'', rr_Summary = ''not enough backup/WAL metadata'',
     rr_BackupEndLSN = ''-'', rr_CoveringWAL = ''-'', rr_CoveringClass = ''warn'', rr_SequenceLabel = ''unknown'',
     rr_SequenceClass = ''warn'', rr_RestoreFrom = ''-'', rr_RestoreTo = ''-'',
     rr_Note = ''Restore readiness needs a completed backup and archived WAL files.''\<rparr>"

definition backup_end :: "'f UBackup \<Rightarrow> string" where
  "backup_end b =
     (let l = ub_WALStopLSN b; l = (if l = '''' then ub_WALStartLSN b else l) in if l = '''' then ''-'' else l)"

definition restore_to :: "(int \<Rightarrow> string) \<Rightarrow> 'f View \<Rightarrow> string" where
  "restore_to fmt v =
     (case fn_stream v of
        Some ss \<Rightarrow> if us_LastFlushLSN ss \<noteq> '''' then ''now / '' @ us_LastFlushLSN ss
                   else (case lastWAL (sn_WALFiles (vw_Snapshot v)) of None \<Rightarrow> ''-'' | Some l \<Rightarrow> fmtTimeLocal fmt (uw_UploadedAt l))
      | None \<Rightarrow> (case lastWAL (sn_WALFiles (vw_Snapshot v)) of None \<Rightarrow> ''-'' | Some l \<Rightarrow> fmtTimeLocal fmt (uw_UploadedAt l)))"

definition restoreReadiness :: "(int \<Rightarrow> string) \<Rightarrow> 'f View \<Rightarrow> RestoreReadiness" where
  "restoreReadiness fmt v =
     (let files = sn_WALFiles (vw_Snapshot v) in
      case lastBackup (sn_Backups (vw_Snapshot v)) of
        None \<Rightarrow> restore_unknown\<lparr>rr_PossibleLabel := ''no'', rr_StatusClass := ''bad'', rr_Summary := ''no completed backup found'',
          rr_Note := ''Create or discover a base backup before restore readiness can be checked.''\<rparr>
      | Some backup \<Rightarrow>
          let r = restore_unknown\<lparr>rr_RestoreFrom := fmtTimeLocal fmt (ub_Started backup), rr_BackupEndLSN := backup_end backup,
                rr_RestoreTo := restore_to fmt v\<rparr>;
              (coveringWAL, ok) = walFileNameForLSN (rr_BackupEndLSN r) files
          in if \<not> ok then
               r\<lparr>rr_PossibleLabel := ''no'', rr_StatusClass := ''bad'',
                 rr_Summary := if files = [] then ''no WAL files in archive'' else ''covering WAL not found'',
                 rr_CoveringWAL := ''missing'', rr_CoveringClass := ''bad'', rr_SequenceLabel := ''not checked'',
                 rr_SequenceClass := ''warn'',
                 rr_Note := if files = [] then ''No WAL files are present in the archive; cannot verify restore chain.''
                   else ''The WAL file that covers the latest backup end LSN was not found in the archive.''\<rparr>
             else
               let r = r\<lparr>rr_CoveringWAL := coveringWAL, rr_CoveringClass := ''ok''\<rparr>;
                   seq = walSequenceStatus coveringWAL files
               in if sc_ok seq then
                    r\<lparr>rr_PossibleLabel := ''yes'', rr_StatusClass := ''ok'', rr_Summary := ''chain is complete'',
                      rr_SequenceLabel := ''correct'', rr_SequenceClass := ''ok'',
                      rr_Note := ''WAL '' @ shortWAL coveringWAL @ '' covers the latest backup end LSN. All later WAL files are present in order. No missing WAL detected.''\<rparr>
                  else
                    r\<lparr>rr_PossibleLabel := ''no'', rr_StatusClass := ''bad'', rr_Summary := ''WAL gap detected'',
                      rr_SequenceLabel := ''gap after '' @ shortWAL (sc_prev seq), rr_SequenceClass := ''bad'',
                      rr_Note := ''WAL '' @ shortWAL coveringWAL @ '' covers the backup end LSN, but the sequence is broken. First missing WAL: '' @ shortWAL (sc_missing seq) @ ''.''\<rparr>)"

end
