(* ===== verification/UiReadySpec.thy ===== *)
theory UiReadySpec
  imports UiReady
begin

section \<open>What the restore readiness of the UI means\<close>

subsection \<open>Reading hexadecimal numbers\<close>

lemma is_hex_digit: "d < 16 \<Longrightarrow> is_hex (hex_digit d)"
  by (simp add: is_hex_def digit_val_hex_digit)

lemma hex_digit_not_blank: "d < 16 \<Longrightarrow> \<not> is_blank (hex_digit d)"
  by (auto simp: is_blank_def hex_digit_def)

lemma hex_upper_ne: "hex_upper n \<noteq> []"
  by (subst hex_upper.simps) simp

lemma hex_upper_digits: "c \<in> set (hex_upper n) \<Longrightarrow> \<exists>d<16. c = hex_digit d"
proof (induction n rule: hex_upper.induct)
  case (1 n)
  show ?case
  proof (cases "n < 16")
    case True
    with 1(2) show ?thesis by (auto simp: hex_upper.simps [of n])
  next
    case False
    with 1(2) have "c \<in> set (hex_upper (n div 16)) \<or> c = hex_digit (n mod 16)" by (auto simp: hex_upper.simps [of n])
    with 1(1) [OF False] show ?thesis by (metis mod_less_divisor zero_less_numeral)
  qed
qed

lemma fmt_X_digits:
  assumes "c \<in> set (fmt_X w n)"
  shows "\<exists>d<16. c = hex_digit d"
proof -
  have "CHR ''0'' = hex_digit 0" by code_simp
  then have "\<exists>d<16. CHR ''0'' = hex_digit d" by (intro exI [of _ 0]) simp
  moreover have "c \<in> set (hex_upper n) \<or> c = CHR ''0''" using assms by (auto simp: fmt_X_def Let_def)
  ultimately show ?thesis using hex_upper_digits by blast
qed

lemma parse_hex_upper: "n \<le> m \<Longrightarrow> parse_digits 16 m 0 (hex_upper n) = Inr n"
proof (induction n rule: hex_upper.induct)
  case (1 n)
  show ?case
  proof (cases "n < 16")
    case True
    with 1(2) show ?thesis by (simp add: hex_upper.simps [of n] digit_val_hex_digit)
  next
    case False
    have "n div 16 \<le> m" using 1(2) by (meson div_le_dividend le_trans)
    with 1(1) [OF False] have "parse_digits 16 m 0 (hex_upper (n div 16)) = Inr (n div 16)" by blast
    with False 1(2) show ?thesis by (simp add: hex_upper.simps [of n] parse_digits_append digit_val_hex_digit not_less)
  qed
qed

lemma parse_zeros: "parse_digits 16 m 0 (replicate k (CHR ''0'') @ s) = parse_digits 16 m 0 s"
  by (induction k) (simp_all add: digit_val_def)

lemma parse_fmt_X: "n < 2 ^ 32 \<Longrightarrow> parseHex32 (fmt_X w n @ t) = (if t = [] \<or> \<not> is_hex (hd t) then Some n else parseHex32 (fmt_X w n @ t))"
proof -
  assume n: "n < 2 ^ 32"
  have d: "is_hex c \<and> \<not> is_blank c" if "c \<in> set (fmt_X w n)" for c
    using fmt_X_digits [OF that] is_hex_digit hex_digit_not_blank by blast
  have ne: "fmt_X w n \<noteq> []" using hex_upper_ne [of n] by (simp add: fmt_X_def Let_def)
  then obtain c cs where c: "fmt_X w n = c # cs" by (cases "fmt_X w n") auto
  have b: "dropWhile scan_blank (fmt_X w n @ t) = fmt_X w n @ t" using d [of c] by (simp add: c scan_blank_def)
  have "takeWhile is_hex (fmt_X w n @ t) = fmt_X w n" if "t = [] \<or> \<not> is_hex (hd t)"
  proof -
    have "takeWhile is_hex t = []" using that by (cases t) auto
    with d show ?thesis by (simp add: takeWhile_append2)
  qed
  moreover have "ParseUint (fmt_X w n) 16 64 = Inr n"
    using n parse_hex_upper [of n "2 ^ 64 - 1"] ne by (simp add: ParseUint_def fmt_X_def Let_def parse_zeros)
  ultimately show ?thesis using n by (simp add: parseHex32_def b)
qed

lemma parseHex32_fmt_X [simp]: "n < 2 ^ 32 \<Longrightarrow> parseHex32 (fmt_X w n) = Some n"
  using parse_fmt_X [of n w "[]"] by simp

lemma parseHex32_bound: "parseHex32 s = Some n \<Longrightarrow> n < 2 ^ 32"
  by (auto simp: parseHex32_def split: sum.splits if_splits)

lemma segsPerXLogID_eq [simp]: "segsPerXLogID = 256"
  by (simp add: segsPerXLogID_def ui_walSegmentSize_def)

text \<open>No arithmetic on segment numbers leaves the range of \<open>uint64\<close>.\<close>

lemma walSegmentNo_bound: "walSegmentNo name = Some n \<Longrightarrow> n < 2 ^ 41"
  by (auto simp: walSegmentNo_def Let_def split: if_splits option.splits dest!: parseHex32_bound)

lemma length_fmt_X8: "n < 2 ^ 32 \<Longrightarrow> length (fmt_X 8 n) = 8"
  by (simp add: fmt_X_hexw)

lemma trim_space_id: "(\<And>c. c \<in> set s \<Longrightarrow> \<not> is_blank c) \<Longrightarrow> trim_space s = s"
proof -
  assume a: "\<And>c. c \<in> set s \<Longrightarrow> \<not> is_blank c"
  have d: "dropWhile is_blank u = u" if "\<And>c. c \<in> set u \<Longrightarrow> \<not> is_blank c" for u using that by (cases u) auto
  have "dropWhile is_blank (rev s) = rev s" using a by (intro d) simp
  with d [OF a] show ?thesis by (simp add: trim_space_def)
qed

lemma walBaseName_seg:
  assumes "tm < 2 ^ 32" and "n < 2 ^ 40"
  shows "walBaseName (walFileNameFromSeg tm n) = walFileNameFromSeg tm n" and "length (walFileNameFromSeg tm n) = 24"
    and "take 8 (walFileNameFromSeg tm n) = fmt_X 8 tm" and "take 8 (drop 8 (walFileNameFromSeg tm n)) = fmt_X 8 (n div 256)"
    and "drop 16 (walFileNameFromSeg tm n) = fmt_X 8 (n mod 256)"
proof -
  have "n div 256 < 2 ^ 32" using assms(2) by simp
  then have l: "length (fmt_X 8 tm) = 8" "length (fmt_X 8 (n div 256)) = 8" "length (fmt_X 8 (n mod 256)) = 8"
    using assms(1) by (simp_all add: length_fmt_X8)
  then show len: "length (walFileNameFromSeg tm n) = 24" by (simp add: walFileNameFromSeg_def)
  have "trim_space (walFileNameFromSeg tm n) = walFileNameFromSeg tm n"
    by (rule trim_space_id) (auto simp: walFileNameFromSeg_def dest!: fmt_X_digits hex_digit_not_blank)
  then show "walBaseName (walFileNameFromSeg tm n) = walFileNameFromSeg tm n" using len by (simp add: walBaseName_def Let_def)
  show "take 8 (walFileNameFromSeg tm n) = fmt_X 8 tm" "take 8 (drop 8 (walFileNameFromSeg tm n)) = fmt_X 8 (n div 256)"
    "drop 16 (walFileNameFromSeg tm n) = fmt_X 8 (n mod 256)"
    using l by (simp_all add: walFileNameFromSeg_def)
qed

lemma walSegmentNo_name: "tm < 2 ^ 32 \<Longrightarrow> n < 2 ^ 40 \<Longrightarrow> walSegmentNo (walFileNameFromSeg tm n) = Some n"
  by (simp add: walSegmentNo_def walBaseName_seg length_fmt_X8 Let_def)

lemma walTimeline_name: "tm < 2 ^ 32 \<Longrightarrow> n < 2 ^ 40 \<Longrightarrow> walTimeline (walFileNameFromSeg tm n) = tm"
  by (simp add: walTimeline_def walBaseName_seg Let_def)

lemma segmentNoFromLSN_fmt:
  assumes "hi < 2 ^ 32" and "lo < 2 ^ 32"
  shows "segmentNoFromLSN (fmt_X a hi @ ''/'' @ fmt_X b lo) = Some ((hi * 2 ^ 32 + lo) div 2 ^ 24)"
proof -
  have "\<not> is_hex (CHR ''/'')" by code_simp
  then have s: "CHR ''/'' \<notin> set (fmt_X w n)" for w n using is_hex_digit by (auto dest!: fmt_X_digits)
  have "split_on (CHR ''/'') (fmt_X a hi @ CHR ''/'' # fmt_X b lo) = [fmt_X a hi, fmt_X b lo]"
    by (simp add: split_on_sep split_on_plain s)
  with assms show ?thesis by (simp add: segmentNoFromLSN_def ui_walSegmentSize_def)
qed

subsection \<open>The sequence\<close>

definition seg_set :: "'f UWALFile list \<Rightarrow> nat set" where
  "seg_set files = {n. \<exists>f \<in> set files. file_seg f = Some n}"

lemma present_segs_spec:
  "present_segs files (pr, m) = (pr', m') \<Longrightarrow> dom pr' = dom pr \<union> seg_set files \<and> m' = Max (insert m (seg_set files))"
proof (induction files arbitrary: pr m)
  case Nil
  then show ?case by (simp add: seg_set_def)
next
  case (Cons f fs)
  have fin: "finite (seg_set xs)" for xs :: "'f UWALFile list"
  proof -
    have "seg_set xs = the ` {o'. o' \<in> set (map file_seg xs) \<and> o' \<noteq> None}" by (force simp: seg_set_def image_iff)
    then show ?thesis by simp
  qed
  show ?case
  proof (cases "file_seg f")
    case None
    then have "seg_set (f # fs) = seg_set fs" by (auto simp: seg_set_def)
    with Cons None show ?thesis by simp
  next
    case (Some n)
    then have e: "seg_set (f # fs) = insert n (seg_set fs)" by (auto simp: seg_set_def)
    let ?m = "if m < n then n else m"
    have mm: "?m = max m n" by simp
    from Cons.prems Some have "present_segs fs (pr(n \<mapsto> uw_Name f), ?m) = (pr', m')" by simp
    from Cons.IH [OF this] have "dom pr' = dom (pr(n \<mapsto> uw_Name f)) \<union> seg_set fs" "m' = Max (insert (max m n) (seg_set fs))"
      unfolding mm by blast+
    moreover have "Max (insert (max m n) (seg_set fs)) = Max (insert m (insert n (seg_set fs)))"
      using fin [of fs] by (cases "seg_set fs = {}") (simp_all add: max.assoc)
    ultimately show ?thesis by (auto simp: e)
  qed
qed

lemma seq_loop_ok: "sc_ok (seq_loop pr m tm prev seg) \<longleftrightarrow> (\<forall>k. seg \<le> k \<and> k \<le> m \<longrightarrow> pr k \<noteq> None)"
proof (induction pr m tm prev seg rule: seq_loop.induct)
  case (1 pr m tm prev seg)
  show ?case
  proof (cases "m < seg")
    case True
    then show ?thesis by (auto simp: seq_loop.simps [of pr m tm prev seg])
  next
    case over: False
    show ?thesis
    proof (cases "pr seg")
      case None
      with over show ?thesis by (auto simp: seq_loop.simps [of pr m tm prev seg])
    next
      case (Some name)
      have "(\<forall>k. seg \<le> k \<and> k \<le> m \<longrightarrow> pr k \<noteq> None) \<longleftrightarrow> (\<forall>k. Suc seg \<le> k \<and> k \<le> m \<longrightarrow> pr k \<noteq> None)"
        using Some by (metis Suc_le_eq le_neq_implies_less less_imp_le option.distinct(1))
      with 1 [OF over Some] over Some show ?thesis by (simp add: seq_loop.simps [of pr m tm prev seg])
    qed
  qed
qed

lemma finite_seg_set: "finite (seg_set files)"
proof -
  have "seg_set files = the ` {o'. o' \<in> set (map file_seg files) \<and> o' \<noteq> None}" by (force simp: seg_set_def image_iff)
  then show ?thesis by simp
qed

lemma walSequenceStatus_ok:
  assumes "walSegmentNo w = Some n"
  shows "sc_ok (walSequenceStatus w files) \<longleftrightarrow> n \<in> seg_set files \<and> (\<forall>m \<in> seg_set files. {n..m} \<subseteq> seg_set files)"
proof -
  obtain pr m where pm: "present_segs files (\<lambda>_. None, 0) = (pr, m)" by (cases "present_segs files (\<lambda>_. None, 0)")
  from present_segs_spec [OF this] have p: "pr k = None \<longleftrightarrow> k \<notin> seg_set files" for k by (auto simp: domIff)
  have m: "m = Max (insert 0 (seg_set files))" using present_segs_spec [OF pm] by simp
  have chain: "(\<forall>k. Suc n \<le> k \<and> k \<le> m \<longrightarrow> k \<in> seg_set files) \<longleftrightarrow> (\<forall>m \<in> seg_set files. {n..m} \<subseteq> seg_set files)"
    if n: "n \<in> seg_set files"
  proof -
    have ne: "insert 0 (seg_set files) \<noteq> {}" and mx: "\<And>k. k \<in> seg_set files \<Longrightarrow> k \<le> m"
      using finite_seg_set [of files] by (auto simp: m)
    have "m \<in> seg_set files"
    proof (cases "m = 0")
      case True
      with mx [OF n] n show ?thesis by simp
    next
      case False
      have "m \<in> insert 0 (seg_set files)" unfolding m by (rule Max_in) (simp_all add: finite_seg_set)
      with False show ?thesis by simp
    qed
    show ?thesis
    proof (intro iffI ballI subsetI allI impI)
      fix k m' assume a: "\<forall>k. Suc n \<le> k \<and> k \<le> m \<longrightarrow> k \<in> seg_set files" "m' \<in> seg_set files" "k \<in> {n..m'}"
      with mx [OF a(2)] n show "k \<in> seg_set files" by (cases "k = n") auto
    next
      fix k assume "\<forall>m \<in> seg_set files. {n..m} \<subseteq> seg_set files" "Suc n \<le> k \<and> k \<le> m"
      with \<open>m \<in> seg_set files\<close> show "k \<in> seg_set files" by fastforce
    qed
  qed
  show ?thesis
    using chain by (simp add: walSequenceStatus_def assms pm seq_loop_ok p del: not_None_eq)
qed

subsection \<open>Properties\<close>

text \<open>C30: The UI computes segment names as the receiver does, for segments of 16 MiB: the segment number it reads from a printed
  position is that of \<open>XLByteToSeg\<close>, the name it makes of a timeline and a number is that of \<open>XLogFileName\<close>, and it
  reads both back from the name.\<close>

theorem ui_names_agree:
  fixes p :: lsn and tli :: u32
  assumes "text = fmt_X a (unat p div 2 ^ 32) @ ''/'' @ fmt_X b (unat p mod 2 ^ 32)"
  shows "\<exists>n name. XLByteToSeg p 0x1000000 = Inr n \<and> XLogFileName tli n 0x1000000 = Inr name \<and>
    segmentNoFromLSN text = Some (unat n) \<and> walFileNameFromSeg (unat tli) (unat n) = name \<and>
    walSegmentNo name = Some (unat n) \<and> walTimeline name = unat tli"
proof -
  have pw: "IsPowerOf2 (0x1000000 :: u64)" using IsPowerOf2_iff [of "0x1000000"] by (auto intro!: exI [of _ 24])
  define n where "n = p div 0x1000000"
  have un: "unat n = unat p div 2 ^ 24" by (simp add: n_def unat_div)
  have up: "unat p < 2 ^ 64" using unsigned_less [of p, where ?'a = nat] by simp
  have nb: "unat n < 2 ^ 40" using up by (simp add: un)
  have tb: "unat tli < 2 ^ 32" using unsigned_less [of tli, where ?'a = nat] by simp
  have sg: "segs 0x1000000 = 256" by (simp add: segs_def)
  have name: "XLogFileName tli n 0x1000000 = Inr (walFileNameFromSeg (unat tli) (unat n))"
    using XLogFileName_ok [OF pw, of tli n] by (simp add: wal_name_def walFileNameFromSeg_def sg)
  have "unat p div 2 ^ 32 < 2 ^ 32" using up by simp
  then have "segmentNoFromLSN text = Some (unat n)"
    using segmentNoFromLSN_fmt [of "unat p div 2 ^ 32" "unat p mod 2 ^ 32" a b] by (simp add: assms un div_mult_mod_eq)
  with name nb tb show ?thesis
    by (auto simp: XLByteToSeg_ok [OF pw] walSegmentNo_name walTimeline_name simp flip: n_def)
qed

theorem ui_names_agree_witness:
  "\<exists>n name. XLByteToSeg 0x15000028 0x1000000 = Inr n \<and> XLogFileName 3 n 0x1000000 = Inr name \<and>
    segmentNoFromLSN (fmt_X 1 0 @ ''/'' @ fmt_X 8 0x15000028) = Some (unat n) \<and> walFileNameFromSeg (unat (3 :: u32)) (unat n) = name \<and>
    walSegmentNo name = Some (unat n) \<and> walTimeline name = unat (3 :: u32)"
proof (rule ui_names_agree)
  have u: "unat (0x15000028 :: lsn) div 2 ^ 32 = 0" "unat (0x15000028 :: lsn) mod 2 ^ 32 = 0x15000028" by simp_all
  show "fmt_X 1 0 @ ''/'' @ fmt_X 8 0x15000028 = fmt_X 1 (unat (0x15000028 :: lsn) div 2 ^ 32) @ ''/'' @ fmt_X 8 (unat (0x15000028 :: lsn) mod 2 ^ 32)"
    unfolding u by (rule refl)
qed

lemma readiness_cases:
  assumes "lastBackup (sn_Backups (vw_Snapshot v)) = Some b" and "walFileNameForLSN (backup_end b) (sn_WALFiles (vw_Snapshot v)) = (w, ok)"
  shows "rr_PossibleLabel (restoreReadiness fmt v) = ''yes'' \<longleftrightarrow> ok \<and> sc_ok (walSequenceStatus w (sn_WALFiles (vw_Snapshot v)))"
  by (simp add: restoreReadiness_def Let_def assms restore_unknown_def)

lemma lastWAL_set: "lastWAL files = Some f \<Longrightarrow> f \<in> set files"
proof -
  have "latest_by t x ys \<in> insert x (set ys)" for t :: "'f UWALFile \<Rightarrow> int" and x ys
    by (induction ys arbitrary: x) (auto split: if_splits)
  then show "lastWAL files = Some f \<Longrightarrow> f \<in> set files" by (cases files) (auto simp: lastWAL_def)
qed

lemma walTimeline_bound: "walTimeline name < 2 ^ 32"
  by (auto simp: walTimeline_def Let_def dest: parseHex32_bound split: option.split)

lemma segmentNoFromLSN_bound:
  assumes "segmentNoFromLSN l = Some n"
  shows "n < 2 ^ 40"
proof -
  obtain hi lo where "hi < 2 ^ 32" "lo < 2 ^ 32" "n = (hi * 2 ^ 32 + lo) div 2 ^ 24"
    using assms by (auto simp: segmentNoFromLSN_def ui_walSegmentSize_def dest!: parseHex32_bound split: list.splits option.splits)
  then show ?thesis by simp
qed

lemma covering_name:
  assumes "walFileNameForLSN l files = (w, True)"
  shows "\<exists>tm n. tm < 2 ^ 32 \<and> segmentNoFromLSN l = Some n \<and> w = walFileNameFromSeg tm n \<and> walSegmentNo w = Some n \<and> tm \<noteq> 0"
proof -
  obtain n tm where n: "segmentNoFromLSN l = Some n" "w = walFileNameFromSeg tm n" "tm < 2 ^ 32" "tm \<noteq> 0"
    using assms walTimeline_bound
    by (fastforce simp: walFileNameForLSN_def Let_def split: if_splits option.splits)
  with walSegmentNo_name [OF n(3) segmentNoFromLSN_bound [OF n(1)]] show ?thesis by blast
qed

lemma readiness_iff:
  "rr_PossibleLabel (restoreReadiness fmt v) = ''yes'' \<longleftrightarrow>
     (\<exists>b w n. lastBackup (sn_Backups (vw_Snapshot v)) = Some b \<and>
        walFileNameForLSN (backup_end b) (sn_WALFiles (vw_Snapshot v)) = (w, True) \<and> segmentNoFromLSN (backup_end b) = Some n \<and>
        n \<in> seg_set (sn_WALFiles (vw_Snapshot v)) \<and>
        (\<forall>m \<in> seg_set (sn_WALFiles (vw_Snapshot v)). {n..m} \<subseteq> seg_set (sn_WALFiles (vw_Snapshot v))))"
proof (cases "lastBackup (sn_Backups (vw_Snapshot v))")
  case None
  then show ?thesis by (simp add: restoreReadiness_def restore_unknown_def)
next
  case (Some b)
  obtain w ok where w: "walFileNameForLSN (backup_end b) (sn_WALFiles (vw_Snapshot v)) = (w, ok)" by fastforce
  show ?thesis
  proof (cases ok)
    case False
    with readiness_cases [OF Some w] w Some show ?thesis by simp
  next
    case True
    with w have "walFileNameForLSN (backup_end b) (sn_WALFiles (vw_Snapshot v)) = (w, True)" by simp
    from covering_name [OF this] obtain n where n: "segmentNoFromLSN (backup_end b) = Some n" "walSegmentNo w = Some n" by blast
    show ?thesis
      unfolding readiness_cases [OF Some w] walSequenceStatus_ok [OF n(2)] using True w Some n(1) by simp
  qed
qed

lemma chain_Max:
  assumes "(n :: nat) \<in> S" and "finite S"
  shows "(\<forall>m \<in> S. {n..m} \<subseteq> S) \<longleftrightarrow> {n..Max S} \<subseteq> S"
proof
  assume "\<forall>m \<in> S. {n..m} \<subseteq> S"
  moreover have "Max S \<in> S" using assms by (intro Max_in) auto
  ultimately show "{n..Max S} \<subseteq> S" by blast
next
  assume s: "{n..Max S} \<subseteq> S"
  have "{n..m} \<subseteq> {n..Max S}" if "m \<in> S" for m using Max_ge [OF assms(2) that] by auto
  with s show "\<forall>m \<in> S. {n..m} \<subseteq> S" by blast
qed

text \<open>C29: What the verdict of the restore readiness means. The label is \<open>yes\<close> exactly when there is a backup, the file that
  covers the end of the latest one is in the archive, and from its segment number on to the greatest number in the
  archive every number belongs to some file.\<close>

theorem ready_iff_chain:
  "rr_PossibleLabel (restoreReadiness fmt v) = ''yes'' \<longleftrightarrow>
     (\<exists>b w n. lastBackup (sn_Backups (vw_Snapshot v)) = Some b \<and>
        walFileNameForLSN (backup_end b) (sn_WALFiles (vw_Snapshot v)) = (w, True) \<and> segmentNoFromLSN (backup_end b) = Some n \<and>
        n \<in> seg_set (sn_WALFiles (vw_Snapshot v)) \<and>
        {n..Max (seg_set (sn_WALFiles (vw_Snapshot v)))} \<subseteq> seg_set (sn_WALFiles (vw_Snapshot v)))"
  using chain_Max [OF _ finite_seg_set] unfolding readiness_iff by metis

text \<open>C38: A missing segment can be hidden by another timeline. With the archive of a failover, in which the latest timeline has
  the segments before and after a number but that number only exists on the old timeline, the verdict is that the
  chain is complete, although the archive has no file of that number on the timeline of the covering file.\<close>

theorem ready_hides_gap:
  fixes size :: 'f
  assumes tls: "t1 < 2 ^ 32" "t2 < 2 ^ 32" "t2 \<noteq> 0" "t1 \<noteq> t2" and n: "n + 2 < 2 ^ 40"
    and archive: "sn_WALFiles (vw_Snapshot v) = map (\<lambda>(t, k, at). \<lparr>uw_Name = walFileNameFromSeg t k, uw_Ext = '''',
         uw_Filename = walFileNameFromSeg t k, uw_SizeMB = size, uw_UploadedAt = at, uw_Encrypted = False\<rparr>)
       [(t2, n + 2, 3), (t1, n + 1, 2), (t2, n, 1)]"
    and backup: "lastBackup (sn_Backups (vw_Snapshot v)) = Some b" "segmentNoFromLSN (backup_end b) = Some n"
  shows "rr_PossibleLabel (restoreReadiness fmt v) = ''yes'' \<and> rr_CoveringWAL (restoreReadiness fmt v) = walFileNameFromSeg t2 n \<and>
    filter (\<lambda>f. has_prefix (uw_Name f) (walFileNameFromSeg t2 (n + 1))) (sn_WALFiles (vw_Snapshot v)) = []"
proof -
  let ?file = "\<lambda>(t, k, at). \<lparr>uw_Name = walFileNameFromSeg t k, uw_Ext = '''',
         uw_Filename = walFileNameFromSeg t k, uw_SizeMB = size, uw_UploadedAt = at, uw_Encrypted = False\<rparr> :: 'f UWALFile"
  let ?files = "sn_WALFiles (vw_Snapshot v)"
  have last': "lastWAL ?files = Some (?file (t2, n + 2, 3))" by (simp add: archive lastWAL_def)
  have w: "walFileNameForLSN (backup_end b) ?files = (walFileNameFromSeg t2 n, True)"
  proof -
    have "has_prefix s s" for s by (simp add: has_prefix_def)
    then show ?thesis
      using tls n by (simp add: walFileNameForLSN_def backup(2) last' walTimeline_name Let_def) (simp add: archive)
  qed
  have seg: "file_seg (?file (t, k, at)) = Some k" if "t < 2 ^ 32" "k < 2 ^ 40" for t k at
    using that by (simp add: file_seg_def walSegmentNo_name)
  have S: "seg_set ?files = {n, n + 1, n + 2}"
    using seg [OF tls(1), of "n + 1" 2] seg [OF tls(2), of "n + 2" 3] seg [OF tls(2), of n 1] n
    by (auto simp: seg_set_def archive)
  have chain: "\<forall>m \<in> {n, n + 1, n + 2}. {n..m} \<subseteq> {n, n + 1, n + 2}" by auto
  have yes: "rr_PossibleLabel (restoreReadiness fmt v) = ''yes''"
    unfolding readiness_iff by (intro exI [of _ b] exI [of _ "walFileNameFromSeg t2 n"] exI [of _ n]) (use backup w S chain in auto)
  moreover have "rr_CoveringWAL (restoreReadiness fmt v) = walFileNameFromSeg t2 n"
    using yes by (simp add: restoreReadiness_def Let_def backup w restore_unknown_def)
  moreover have "\<not> has_prefix (walFileNameFromSeg t k) (walFileNameFromSeg t2 (n + 1))"
    if "t < 2 ^ 32" "k < 2 ^ 40" "(t, k) \<noteq> (t2, n + 1)" for t k
  proof
    assume "has_prefix (walFileNameFromSeg t k) (walFileNameFromSeg t2 (n + 1))"
    then have "walFileNameFromSeg t k = walFileNameFromSeg t2 (n + 1)"
      using walBaseName_seg(2) [OF that(1,2)] walBaseName_seg(2) [OF tls(2), of "n + 1"] n by (simp add: has_prefix_def)
    with walSegmentNo_name [OF that(1,2)] walSegmentNo_name [OF tls(2), of "n + 1"] n
      walTimeline_name [OF that(1,2)] walTimeline_name [OF tls(2), of "n + 1"] that(3) show False by simp
  qed
  ultimately show ?thesis using tls n by (simp add: archive)
qed

definition demo_file :: "nat \<times> nat \<times> int \<Rightarrow> unit UWALFile" where
  "demo_file = (\<lambda>(t, k, at). \<lparr>uw_Name = walFileNameFromSeg t k, uw_Ext = '''', uw_Filename = walFileNameFromSeg t k,
     uw_SizeMB = (), uw_UploadedAt = at, uw_Encrypted = False\<rparr>)"

definition demo_backup :: "unit UBackup" where
  "demo_backup = \<lparr>ub_Label = ''b'', ub_Started = 1, ub_Finished = 2, ub_SizeGB = (), ub_WALStartLSN = '''',
     ub_WALStopLSN = fmt_X 1 0 @ ''/'' @ fmt_X 1 0x5000100, ub_Status = ''completed''\<rparr>"

definition demo_view :: "unit View" where
  "demo_view = view_of [] 0 ''status'' \<lparr>uq_Method = ''GET'', uq_Path = ''/ui/status'', uq_Query = (\<lambda>_. '''')\<rparr>
     \<lparr>sn_Receiver = \<lparr>rc_Label = ''r'', rc_Addr = ''http://r''\<rparr>, sn_Status = None, sn_Config = None,
      sn_WALFiles = map demo_file [(2, 7, 3), (1, 6, 2), (2, 5, 1)], sn_Backups = [demo_backup], sn_Error = ''''\<rparr>"

lemma view_snapshot: "vw_Snapshot (view_of rs i active r snap) = snap\<lparr>sn_WALFiles := sort_newest (sn_WALFiles snap)\<rparr>"
  by (simp only: view_of_def Let_def View.simps)

theorem ready_hides_gap_witness:
  "rr_PossibleLabel (restoreReadiness (\<lambda>_. '''') demo_view) = ''yes'' \<and>
   rr_CoveringWAL (restoreReadiness (\<lambda>_. '''') demo_view) = walFileNameFromSeg 2 5 \<and>
   filter (\<lambda>f. has_prefix (uw_Name f) (walFileNameFromSeg 2 (5 + 1))) (sn_WALFiles (vw_Snapshot demo_view)) = []"
proof (rule ready_hides_gap [of 1 2 5 demo_view "()" demo_backup])
  show "sn_WALFiles (vw_Snapshot demo_view) = map (\<lambda>(t, k, at). \<lparr>uw_Name = walFileNameFromSeg t k, uw_Ext = '''',
         uw_Filename = walFileNameFromSeg t k, uw_SizeMB = (), uw_UploadedAt = at, uw_Encrypted = False\<rparr>)
       [(2, 5 + 2, 3), (1, 5 + 1, 2), (2, 5, 1)]"
    by (simp add: demo_view_def view_snapshot sort_newest_def demo_file_def)
  show "lastBackup (sn_Backups (vw_Snapshot demo_view)) = Some demo_backup"
    by (simp add: demo_view_def view_snapshot lastBackup_def)
  have "segmentNoFromLSN (fmt_X 1 0 @ ''/'' @ fmt_X 1 0x5000100) = Some ((0 * 2 ^ 32 + 0x5000100) div 2 ^ 24)"
    by (rule segmentNoFromLSN_fmt) simp_all
  moreover have "backup_end demo_backup = fmt_X 1 0 @ ''/'' @ fmt_X 1 0x5000100"
    by (simp add: backup_end_def demo_backup_def Let_def)
  ultimately show "segmentNoFromLSN (backup_end demo_backup) = Some 5" by simp
qed simp_all

subsection \<open>The throughput counts every file once\<close>

lemma trunc_hour_bounds: "trunc_hour t \<le> t" "t < trunc_hour t + Hour" "trunc_hour t mod Hour = 0"
proof -
  have h: "0 < Hour" by (simp add: Hour_def)
  then show "trunc_hour t \<le> t" "t < trunc_hour t + Hour" using pos_mod_bound [OF h, of t] by (simp_all add: trunc_hour_def)
  show "trunc_hour t mod Hour = 0" by (simp add: trunc_hour_def mod_diff_left_eq)
qed

text \<open>The bucket of a file, which the code's range check never rejects.\<close>

definition hour_of :: "int \<Rightarrow> 'f UWALFile \<Rightarrow> int" where
  "hour_of now f = (trunc_hour (uw_UploadedAt f) - day_start now) div Hour"

definition in_day :: "int \<Rightarrow> 'f UWALFile \<Rightarrow> bool" where
  "in_day now f \<longleftrightarrow> uw_UploadedAt f \<noteq> 0 \<and> day_start now \<le> uw_UploadedAt f \<and> uw_UploadedAt f \<le> now"

lemma hour_of_range:
  assumes "in_day now f"
  shows "0 \<le> hour_of now f \<and> hour_of now f < 24"
proof -
  have h: "0 < Hour" by (simp add: Hour_def)
  let ?u = "uw_UploadedAt f" and ?s = "day_start now"
  have u: "?s \<le> ?u" "?u \<le> now" using assms by (auto simp: in_day_def)
  obtain a where a: "?s = a * Hour" using trunc_hour_bounds(3) [of "now - 23 * Hour"] by (auto simp: day_start_def mod_eq_0_iff_dvd dvd_def mult.commute)
  obtain b where b: "trunc_hour ?u = b * Hour" using trunc_hour_bounds(3) [of ?u] by (auto simp: mod_eq_0_iff_dvd dvd_def mult.commute)
  have "a * Hour < (b + 1) * Hour" using u(1) trunc_hour_bounds(2) [of ?u] a b by (simp add: algebra_simps)
  then have ab: "a \<le> b" using h by (simp add: mult_less_cancel_right)
  have "now - 23 * Hour < ?s + Hour" using trunc_hour_bounds(2) [of "now - 23 * Hour"] by (simp add: day_start_def)
  then have "b * Hour < (a + 24) * Hour" using u(2) trunc_hour_bounds(1) [of ?u] a b by (simp add: algebra_simps)
  then have "b < a + 24" using h by (simp add: mult_less_cancel_right)
  moreover have "hour_of now f = b - a" using h by (simp add: hour_of_def a b flip: left_diff_distrib)
  ultimately show ?thesis using ab by simp
qed

definition counted_in :: "int \<Rightarrow> nat \<Rightarrow> 'f UWALFile list \<Rightarrow> int" where
  "counted_in now i files = int (length (filter (\<lambda>f. in_day now f \<and> hour_of now f = int i) files))"

lemma bucket_add_counts:
  assumes "length bs = 24"
  shows "length (bucket_add F now (day_start now) f bs) = 24 \<and>
    (\<forall>i < 24. tb_Count (bucket_add F now (day_start now) f bs ! i) = tb_Count (bs ! i) + counted_in now i [f] \<and>
       tb_Current (bucket_add F now (day_start now) f bs ! i) = tb_Current (bs ! i))"
proof (cases "in_day now f")
  case False
  then have "bucket_add F now (day_start now) f bs = bs" by (auto simp: bucket_add_def in_day_def)
  with False assms show ?thesis by (simp add: counted_in_def)
next
  case True
  note r = hour_of_range [OF True]
  let ?h = "nat (hour_of now f)"
  have "bucket_add F now (day_start now) f bs = bs[?h := (bs ! ?h)\<lparr>tb_SizeMB := fl_add F (tb_SizeMB (bs ! ?h)) (uw_SizeMB f), tb_Count := tb_Count (bs ! ?h) + 1\<rparr>]"
    using True r assms by (simp add: bucket_add_def in_day_def hour_of_def Let_def)
  with True r assms show ?thesis by (auto simp: counted_in_def nth_list_update nat_eq_iff)
qed

lemma fold_counts:
  "length bs = 24 \<Longrightarrow> length (fold (bucket_add F now (day_start now)) files bs) = 24 \<and>
    (\<forall>i < 24. tb_Count (fold (bucket_add F now (day_start now)) files bs ! i) = tb_Count (bs ! i) + counted_in now i files \<and>
       tb_Current (fold (bucket_add F now (day_start now)) files bs ! i) = tb_Current (bs ! i))"
proof (induction files arbitrary: bs)
  case Nil
  then show ?case by (simp add: counted_in_def)
next
  case (Cons f fs)
  have c: "counted_in now i (f # fs) = counted_in now i [f] + counted_in now i fs" for i by (simp add: counted_in_def)
  from bucket_add_counts [OF Cons.prems, of F now f] Cons.IH [of "bucket_add F now (day_start now) f bs"]
  show ?case by (simp add: c)
qed

lemma counted_sum: "(\<Sum>i<24. counted_in now i files) = int (length (filter (in_day now) files))"
proof (induction files)
  case Nil
  then show ?case by (simp add: counted_in_def)
next
  case (Cons f fs)
  have "(\<Sum>i<24. counted_in now i [f]) = (if in_day now f then 1 else 0)"
  proof (cases "in_day now f")
    case True
    with hour_of_range [OF True] have "(\<Sum>i<24. counted_in now i [f]) = (\<Sum>i<24. if i = nat (hour_of now f) then 1 else 0)"
      by (intro sum.cong) (auto simp: counted_in_def)
    also have "\<dots> = 1" using hour_of_range [OF True] by (subst sum.delta) auto
    finally show ?thesis using True by simp
  qed (simp add: counted_in_def)
  moreover have "counted_in now i (f # fs) = counted_in now i [f] + counted_in now i fs" for i by (simp add: counted_in_def)
  ultimately show ?case using Cons by (simp add: sum.distrib)
qed

text \<open>The throughput of the last day loses and repeats nothing. There are 24 buckets; the bucket of an hour counts exactly the
  files of the archive uploaded in that hour of the day that ends now, so that together they count every file of the
  day once; heights are between 6 and 100 whatever floating point arithmetic gives, and the last bucket is the
  current one.\<close>

theorem throughput_counts:
  "let bs = walThroughputLast24h F hhmm now files in
     map tb_Count bs = map (\<lambda>i. counted_in now i files) [0..<24] \<and> map tb_Current bs = map (\<lambda>i. i = 23) [0..<24] \<and>
     tb_Height ` set bs \<subseteq> {6..100} \<and> sum_list (map tb_Count bs) = int (length (filter (in_day now) files))"
proof -
  let ?e = "map (empty_bucket F hhmm (day_start now)) [0..<24]"
  let ?bs = "fold (bucket_add F now (day_start now)) files ?e"
  let ?m = "max_size F (fl_zero F) ?bs"
  have e: "length ?e = 24" "\<And>i. i < 24 \<Longrightarrow> tb_Count (?e ! i) = 0 \<and> tb_Current (?e ! i) = (i = 23)"
    by (simp_all add: empty_bucket_def)
  note fc = fold_counts [OF e(1), of F now files]
  have W: "walThroughputLast24h F hhmm now files = map (set_height F ?m) ?bs" by (simp add: walThroughputLast24h_def Let_def)
  have h: "6 \<le> tb_Height (set_height F m b) \<and> tb_Height (set_height F m b) \<le> 100 \<and> tb_Count (set_height F m b) = tb_Count b \<and>
      tb_Current (set_height F m b) = tb_Current b" for m b
    by (simp add: set_height_def Let_def)
  have c: "map tb_Count (map (set_height F ?m) ?bs) = map (\<lambda>i. counted_in now i files) [0..<24]"
    by (rule nth_equalityI) (use fc e(2) h in auto)
  have "map tb_Current (map (set_height F ?m) ?bs) = map (\<lambda>i. i = 23) [0..<24]"
    by (rule nth_equalityI) (use fc e(2) h in auto)
  moreover have "tb_Height ` set (map (set_height F ?m) ?bs) \<subseteq> {6..100}" using h by auto
  moreover have "sum_list (map (\<lambda>i. counted_in now i files) [0..<24]) = int (length (filter (in_day now) files))"
    by (simp add: counted_sum [symmetric] sum_list_sum_nth atLeast0LessThan del: upt.simps(2) upt_rec_numeral)
  ultimately show ?thesis unfolding W Let_def c by blast
qed

end
