(* ===== verification/UiSpec.thy ===== *)
theory UiSpec
  imports UiReadySpec StreamApi RestoreSpec
begin

section \<open>The pages of the UI and what they show\<close>

subsection \<open>The WAL table\<close>

text \<open>The page that a request gets.\<close>

definition page_request :: "string \<Rightarrow> string \<Rightarrow> string \<Rightarrow> ui_request" where
  "page_request q ext pg = \<lparr>uq_Method = ''GET'', uq_Path = ''/ui/wal'',
     uq_Query = (\<lambda>k. if k = ''q'' then q else if k = ''ext'' then ext else if k = ''page'' then pg else '''')\<rparr>"

definition page_slice :: "int \<Rightarrow> 'a list \<Rightarrow> 'a list" where
  "page_slice p xs = take 15 (drop (nat p * 15) xs)"

definition page_count :: "'a list \<Rightarrow> int" where
  "page_count xs = max 1 ((int (length xs) + 14) div 15)"

lemma view_table:
  fixes snap :: "'f UiSnapshot" and r :: ui_request
  defines "rows \<equiv> filterWAL (sort_newest (sn_WALFiles snap)) (trim_space (uq_Query r ''q'')) (if uq_Query r ''ext'' = '''' then ''all'' else uq_Query r ''ext'')"
  shows "vw_FilteredWAL (view_of rs i active r snap) = rows"
    and "vw_TotalPages (view_of rs i active r snap) = page_count rows"
    and "vw_Page (view_of rs i active r snap) = min (parseNonNegativeInt (uq_Query r ''page'')) (page_count rows - 1)"
    and "vw_VisibleWAL (view_of rs i active r snap) = page_slice (vw_Page (view_of rs i active r snap)) rows"
proof -
  have sn: "sn_WALFiles (snap\<lparr>sn_WALFiles := x\<rparr>) = x" for x by simp
  note fields = view_of_def Let_def View.simps sn
  have rows: "rows = filterWAL (sort_newest (sn_WALFiles snap)) (trim_space (uq_Query r ''q'')) (let e = uq_Query r ''ext'' in if e = '''' then ''all'' else e)"
    by (simp only: rows_def Let_def)
  have pc: "page_count xs = max 1 ((int (length xs) + pageSize - 1) div pageSize)" for xs :: "'b list"
    by (simp add: page_count_def pageSize_def)
  show "vw_FilteredWAL (view_of rs i active r snap) = rows" by (simp only: fields rows)
  show t: "vw_TotalPages (view_of rs i active r snap) = page_count rows" by (simp only: fields rows pc)
  have "vw_Page (view_of rs i active r snap) =
      (if page_count rows \<le> parseNonNegativeInt (uq_Query r ''page'') then page_count rows - 1 else parseNonNegativeInt (uq_Query r ''page''))"
    by (simp only: fields rows pc)
  then show p: "vw_Page (view_of rs i active r snap) = min (parseNonNegativeInt (uq_Query r ''page'')) (page_count rows - 1)"
    by (simp add: min_def)
  have pos: "0 \<le> vw_Page (view_of rs i active r snap)"
    unfolding p by (auto simp: parseNonNegativeInt_def page_count_def split: sum.split)
  have v: "vw_VisibleWAL (view_of rs i active r snap) =
    (let from = vw_Page (view_of rs i active r snap) * 15; to = min (from + 15) (int (length rows)); from = (if to < from then to else from)
     in drop (nat from) (take (nat to) rows))"
    by (simp only: fields rows pageSize_def)
  define k where "k = nat (vw_Page (view_of rs i active r snap))"
  have k: "vw_Page (view_of rs i active r snap) = int k" using pos by (simp add: k_def)
  show "vw_VisibleWAL (view_of rs i active r snap) = page_slice (vw_Page (view_of rs i active r snap)) rows"
  proof (cases "k * 15 \<le> length rows")
    case True
    then have a: "\<not> min (int k * 15 + 15) (int (length rows)) < int k * 15" by simp
    have b: "nat (min (int k * 15 + 15) (int (length rows))) = min (k * 15 + 15) (length rows)" "nat (int k * 15) = k * 15" by auto
    show ?thesis unfolding v k page_slice_def Let_def if_not_P [OF a] b
      by (auto simp: drop_take min_def)
  next
    case False
    then have "min (int k * 15 + 15) (int (length rows)) < int k * 15" by simp
    with False show ?thesis unfolding v k page_slice_def Let_def by simp
  qed
qed

lemma concat_slices: "length xs \<le> n * 15 \<Longrightarrow> concat (map (\<lambda>p. page_slice (int p) xs) [0..<n]) = xs"
proof (induction n arbitrary: xs)
  case (Suc n)
  have m: "map (\<lambda>p. page_slice (int p) xs) [0..<Suc n] = page_slice 0 xs # map (\<lambda>p. page_slice (int p) (drop 15 xs)) [0..<n]"
    by (subst upt_rec) (simp add: page_slice_def map_Suc_upt [symmetric] comp_def nat_add_distrib add.commute del: upt_Suc)
  show ?case unfolding m using Suc.IH [of "drop 15 xs"] Suc.prems by (simp add: page_slice_def)
qed simp

lemma digit_val_dec: "k < 10 \<Longrightarrow> digit_val (char_of (48 + k)) = Some k"
  by (simp add: digit_val_def of_char_of)

lemma parse_dec_digits: "n \<le> m \<Longrightarrow> parse_digits 10 m 0 (dec_digits n) = Inr n"
proof (induction n rule: dec_digits.induct)
  case (1 n)
  show ?case
  proof (cases "n < 10")
    case True
    with 1(2) show ?thesis by (simp add: dec_digits.simps [of n] digit_val_dec)
  next
    case False
    have "n div 10 \<le> m" using 1(2) by (meson div_le_dividend le_trans)
    with 1(1) [OF False] have "parse_digits 10 m 0 (dec_digits (n div 10)) = Inr (n div 10)" by blast
    with False 1(2) show ?thesis by (simp add: dec_digits.simps [of n] parse_digits_append digit_val_dec not_less)
  qed
qed

lemma parse_dec:
  assumes "n < 2 ^ 63"
  shows "parseNonNegativeInt (dec_digits n) = int n"
proof -
  obtain c t where c: "dec_digits n = c # t" using dec_digits_ne [of n] by (cases "dec_digits n") auto
  have s: "c \<noteq> CHR ''-''" using dec_digits_not [of c n] by (auto simp: c)
  have p: "c \<noteq> CHR ''+''"
  proof
    assume "c = CHR ''+''"
    moreover obtain k where "k < 10" "c = char_of (48 + k :: nat)" using dec_digits_digits [of c n] by (auto simp: c)
    ultimately have "digit_val (CHR ''+'') = Some k" using digit_val_dec by metis
    moreover have "digit_val (CHR ''+'') = None" by code_simp
    ultimately show False by simp
  qed
  have "ParseUint (dec_digits n) 10 64 = Inr n"
    using parse_dec_digits [of n "2 ^ 64 - 1"] assms dec_digits_ne [of n] by (simp add: ParseUint_def)
  with assms s p show ?thesis by (simp add: parseNonNegativeInt_def Atoi_def ParseInt_def c)
qed

text \<open>C27: Paging through the WAL table shows every matching file exactly once, the newest first. With the same filter, the
  tables of the pages 0, 1, ... up to the number of pages shown, put together, are the filtered list; that list has the
  files of the receiver's snapshot that match the name and the extension, no more and no fewer times, and is sorted by
  the time of upload.\<close>

theorem wal_table_pages:
  fixes snap :: "'f UiSnapshot"
  assumes "length (sn_WALFiles snap) < 2 ^ 63"
  shows "let V = (\<lambda>p. view_of rs i active (page_request q ext (dec_digits p)) snap); rows = vw_FilteredWAL (V 0) in
    concat (map (\<lambda>p. vw_VisibleWAL (V p)) [0..<nat (vw_TotalPages (V 0))]) = rows \<and>
    mset rows = mset (filter (wal_selected (to_lower (trim_space q)) (if ext = '''' then ''all'' else ext)) (sn_WALFiles snap)) \<and>
    sorted_wrt (\<lambda>a b. uw_UploadedAt b \<le> uw_UploadedAt a) rows"
proof -
  define rows where "rows = filterWAL (sort_newest (sn_WALFiles snap)) (trim_space q) (if ext = '''' then ''all'' else ext)"
  let ?V = "\<lambda>p. view_of rs i active (page_request q ext (dec_digits p)) snap"
  have q: "uq_Query (page_request q ext pg) ''q'' = q" "uq_Query (page_request q ext pg) ''ext'' = ext"
    "uq_Query (page_request q ext pg) ''page'' = pg" for pg by (simp_all add: page_request_def)
  have V: "vw_FilteredWAL (?V p) = rows" "vw_TotalPages (?V p) = page_count rows"
    "vw_Page (?V p) = min (parseNonNegativeInt (dec_digits p)) (page_count rows - 1)"
    "vw_VisibleWAL (?V p) = page_slice (vw_Page (?V p)) rows" for p
    using view_table [of rs i active "page_request q ext (dec_digits p)" snap] by (simp_all only: q rows_def)
  have len: "length rows < 2 ^ 63"
    using assms length_filter_le [of _ "sort_newest (sn_WALFiles snap)"] by (auto simp: rows_def filterWAL_def sort_newest_def intro: le_less_trans)
  have c: "1 \<le> page_count rows" "int (length rows) \<le> page_count rows * 15" "page_count rows \<le> int (length rows) + 1"
    by (auto simp: page_count_def)
  have vis: "vw_VisibleWAL (?V p) = page_slice (int p) rows" if "p < nat (page_count rows)" for p
  proof -
    have "p < 2 ^ 63" using that c(3) len by linarith
    then have "vw_Page (?V p) = int p" using that by (simp add: V(3) parse_dec min_def)
    then show ?thesis by (simp add: V(4))
  qed
  have "concat (map (\<lambda>p. vw_VisibleWAL (?V p)) [0..<nat (page_count rows)]) = concat (map (\<lambda>p. page_slice (int p) rows) [0..<nat (page_count rows)])"
    by (intro arg_cong [of _ _ concat] map_cong refl vis) simp
  also have "\<dots> = rows" by (rule concat_slices) (use c in linarith)
  finally have pages: "concat (map (\<lambda>p. vw_VisibleWAL (?V p)) [0..<nat (page_count rows)]) = rows" .
  have m: "mset rows = mset (filter (wal_selected (to_lower (trim_space q)) (if ext = '''' then ''all'' else ext)) (sn_WALFiles snap))"
    by (simp add: rows_def filterWAL_def sort_newest_def)
  have "sorted_wrt (\<lambda>a b. uw_UploadedAt b \<le> uw_UploadedAt a) (sort_newest (sn_WALFiles snap))"
    using sorted_sort_key [of "\<lambda>f. - uw_UploadedAt f" "sn_WALFiles snap"] by (simp add: sort_newest_def sorted_map)
  then have "sorted_wrt (\<lambda>a b. uw_UploadedAt b \<le> uw_UploadedAt a) rows" by (simp add: rows_def filterWAL_def sorted_wrt_filter)
  with pages m show ?thesis unfolding Let_def V(1,2) by blast
qed

theorem wal_table_pages_witness:
  "let V = (\<lambda>p. view_of [] 0 ''wal'' (page_request ''0000'' ''plain'' (dec_digits p)) (vw_Snapshot demo_view)); rows = vw_FilteredWAL (V 0) in
    concat (map (\<lambda>p. vw_VisibleWAL (V p)) [0..<nat (vw_TotalPages (V 0))]) = rows \<and>
    mset rows = mset (filter (wal_selected (to_lower (trim_space ''0000'')) (if ''plain'' = '''' then ''all'' else ''plain''))
      (sn_WALFiles (vw_Snapshot demo_view))) \<and>
    sorted_wrt (\<lambda>a b. uw_UploadedAt b \<le> uw_UploadedAt a) rows"
  by (rule wal_table_pages) (simp add: demo_view_def view_snapshot sort_newest_def)

text \<open>The buttons \<open>gz\<close> and \<open>zst\<close> of the WAL table show nothing. The receiver's service gives extensions with their dot and
  the suffix of the encryption, the filter compares with the bare words: of the files a receiver lists, none is ever
  selected under either.\<close>

theorem compression_filter_empty:
  assumes "\<forall>f \<in> set files. \<exists>enc fi. uw_Ext f = wl_Ext (wal_entry enc fi)" and "ext = ''gz'' \<or> ext = ''zst''"
  shows "filterWAL files query ext = []"
proof -
  have "wl_Ext (wal_entry enc fi) \<noteq> ext" for enc fi
    using assms(2) by (auto simp: wal_entry_def Let_def split: prod.split if_splits)
  with assms show ?thesis by (auto simp: filterWAL_def filter_empty_conv wal_selected_def)
qed

theorem compression_filter_empty_witness:
  "filterWAL [(demo_file (1, 5, 1))\<lparr>uw_Ext := ''.gz'', uw_Filename := walFileNameFromSeg 1 5 @ ''.gz''\<rparr>] '''' ''gz'' = []"
proof (rule compression_filter_empty)
  have "wl_Ext (wal_entry False \<lparr>fi_Path = ''a.gz'', fi_ModTime = 0, fi_Size = 0\<rparr>) = ''.gz''" by code_simp
  then show "\<forall>f \<in> set [(demo_file (1, 5, 1))\<lparr>uw_Ext := ''.gz'', uw_Filename := walFileNameFromSeg 1 5 @ ''.gz''\<rparr>].
      \<exists>enc fi. uw_Ext f = wl_Ext (wal_entry enc fi)"
    by (intro ballI exI [of _ False] exI [of _ "\<lparr>fi_Path = ''a.gz'', fi_ModTime = 0, fi_Size = 0\<rparr>"]) simp
qed simp

subsection \<open>The snapshot does not depend on the order of the answers\<close>

definition doc_kind :: "'f doc \<Rightarrow> fetch" where
  "doc_kind d = (case d of DocStatus _ \<Rightarrow> FetchStatus | DocConfig _ \<Rightarrow> FetchConfig | DocWals _ \<Rightarrow> FetchWals | DocBackups _ \<Rightarrow> FetchBackups)"

lemma fetch_doc_kind: "fetch_doc C addr f n = (Inr d, m) \<Longrightarrow> doc_kind d = f"
  by (cases f) (auto simp: doc_kind_def bindE_def retE_def split: prod.splits sum.splits)

text \<open>The snapshot that the answers of a set of goroutines make.\<close>

definition merged_snapshot :: "UReceiver \<Rightarrow> (fetch \<Rightarrow> (gerr + 'f doc) option) \<Rightarrow> fetch set \<Rightarrow> 'f UiSnapshot" where
  "merged_snapshot rc got M =
     \<lparr>sn_Receiver = rc,
      sn_Status = (case got FetchStatus of Some (Inr (DocStatus x)) \<Rightarrow> if FetchStatus \<in> M then Some x else None | _ \<Rightarrow> None),
      sn_Config = (case got FetchConfig of Some (Inr (DocConfig x)) \<Rightarrow> if FetchConfig \<in> M then Some x else None | _ \<Rightarrow> None),
      sn_WALFiles = (case got FetchWals of Some (Inr (DocWals x)) \<Rightarrow> if FetchWals \<in> M then x else [] | _ \<Rightarrow> []),
      sn_Backups = (case got FetchBackups of Some (Inr (DocBackups x)) \<Rightarrow> if FetchBackups \<in> M then x else [] | _ \<Rightarrow> []),
      sn_Error = (case got FetchStatus of Some (Inl e) \<Rightarrow> if FetchStatus \<in> M
        then ''cannot reach receiver at '' @ rc_Addr rc @ '': '' @ gerr_text e else '''' | _ \<Rightarrow> '''')\<rparr>"

definition snap_inv :: "UReceiver \<Rightarrow> ('n, 'f) snapping \<Rightarrow> bool" where
  "snap_inv rc s \<longleftrightarrow> (\<forall>f d. sp_got s f = Some (Inr d) \<longrightarrow> doc_kind d = f) \<and> (\<forall>f \<in> sp_merged s. sp_got s f \<noteq> None) \<and>
     sp_snap s = merged_snapshot rc (sp_got s) (sp_merged s)"

lemma snap_inv_step:
  assumes "snap_step C rc s t" and "snap_inv rc s"
  shows "snap_inv rc t"
  using assms(1)
proof (cases rule: snap_step.cases)
  case (answer f r n)
  have f: "f \<notin> sp_merged s" using answer(2) assms(2) by (auto simp: snap_inv_def)
  have "merged_snapshot rc ((sp_got s)(f := Some r)) (sp_merged s) = merged_snapshot rc (sp_got s) (sp_merged s)"
    using f answer(2) by (cases f) (auto simp: merged_snapshot_def split: option.split sum.split doc.split)
  moreover have "r = Inr d \<Longrightarrow> doc_kind d = f" for d using answer(3) by (simp add: fetch_doc_kind)
  ultimately show ?thesis using assms(2) answer(1) by (auto simp: snap_inv_def)
next
  case (merge f r)
  have k: "r = Inr d \<Longrightarrow> doc_kind d = f" for d using assms(2) merge(2) by (auto simp: snap_inv_def)
  have "merge_doc rc f r (merged_snapshot rc (sp_got s) (sp_merged s)) = merged_snapshot rc (sp_got s) (insert f (sp_merged s))"
    using k merge(2,3)
    by (cases f; cases r)
      (auto simp: merged_snapshot_def merge_doc_def doc_kind_def split: doc.splits option.split sum.split)
  with assms(2) merge(1,2) show ?thesis by (auto simp: snap_inv_def)
qed

text \<open>C28: The snapshot is the same in whatever order the four answers arrive and are merged: when all goroutines are done it
  has exactly what each request returned, a failed one leaves its part empty and does not touch the others, and the
  error is set exactly by a failure of the status request.\<close>

theorem snapshot_order_free:
  assumes "(snap_step C rc)\<^sup>*\<^sup>* (snap_start rc n) t" and "sp_merged t = UNIV"
  shows "sp_snap t = merged_snapshot rc (sp_got t) UNIV \<and> (\<forall>f. sp_got t f \<noteq> None)"
proof -
  have "snap_inv rc t"
    using assms(1)
  proof (induction rule: rtranclp_induct)
    case base
    show ?case by (simp add: snap_inv_def snap_start_def merged_snapshot_def)
  next
    case (step s t)
    then show ?case by (blast intro: snap_inv_step)
  qed
  with assms(2) show ?thesis by (simp add: snap_inv_def)
qed

text \<open>The goroutines taking their turns one after the other is one of the orders.\<close>

lemma snap_turns_run:
  assumes "snap_turns C rc fs (sp_snap s) (sp_net s) = (Inr r, n)" and "distinct fs"
    and "\<forall>f \<in> set fs. sp_got s f = None \<and> f \<notin> sp_merged s"
  shows "\<exists>t. (snap_step C rc)\<^sup>*\<^sup>* s t \<and> sp_snap t = r \<and> sp_net t = n \<and> sp_merged t = sp_merged s \<union> set fs"
  using assms
proof (induction fs arbitrary: s)
  case Nil
  then show ?case by (auto simp: retE_def)
next
  case (Cons f fs)
  obtain x m where x: "fetch_doc C (rc_Addr rc) f (sp_net s) = (x, m)" by fastforce
  let ?s1 = "s\<lparr>sp_net := m, sp_got := (sp_got s)(f := Some x)\<rparr>"
  let ?s2 = "?s1\<lparr>sp_merged := insert f (sp_merged ?s1), sp_snap := merge_doc rc f x (sp_snap ?s1)\<rparr>"
  have "snap_step C rc s ?s1" by (rule snap_step.answer) (use Cons.prems(3) x in auto)
  moreover have "snap_step C rc ?s1 ?s2" by (rule snap_step.merge) (use Cons.prems(3) in auto)
  ultimately have two: "(snap_step C rc)\<^sup>*\<^sup>* s ?s2" by (meson r_into_rtranclp rtranclp_trans)
  have "snap_turns C rc fs (sp_snap ?s2) (sp_net ?s2) = (Inr r, n)"
    using Cons.prems(1) x by (cases x) (simp_all add: bindE_def tryE_def split: if_splits)
  moreover have "\<forall>g \<in> set fs. sp_got ?s2 g = None \<and> g \<notin> sp_merged ?s2" using Cons.prems(2,3) by auto
  ultimately obtain t where
    "(snap_step C rc)\<^sup>*\<^sup>* ?s2 t" "sp_snap t = r" "sp_net t = n" "sp_merged t = sp_merged ?s2 \<union> set fs"
    using Cons.IH [of ?s2] Cons.prems(2) by (meson distinct.simps(2))
  with two show ?case by (intro exI [of _ t]) (auto intro: rtranclp_trans)
qed

definition ui_demo_client :: "(nat, unit) HTTPClient" where
  "ui_demo_client = \<lparr>hc_send = (\<lambda>url n. (Inr (if has_suffix url ''status'' then (503, ''503'', ([], EEOF)) else (200, ''200'', ([], EEOF))), Suc n)),
     hc_status = (\<lambda>_. Inl EEOF), hc_config = (\<lambda>_. Inr \<lparr>uc_RetentionEnable = True\<rparr>), hc_wals = (\<lambda>_. Inr [demo_file (1, 5, 1)]),
     hc_backups = (\<lambda>_. Inl EUnexpectedEOF)\<rparr>"

theorem snapshot_order_free_witness:
  "\<exists>t. (snap_step ui_demo_client \<lparr>rc_Label = ''r'', rc_Addr = ''http://r''\<rparr>)\<^sup>*\<^sup>* (snap_start \<lparr>rc_Label = ''r'', rc_Addr = ''http://r''\<rparr> 0) t \<and>
     sp_merged t = UNIV \<and> sp_snap t = merged_snapshot \<lparr>rc_Label = ''r'', rc_Addr = ''http://r''\<rparr> (sp_got t) UNIV"
proof -
  let ?rc = "\<lparr>rc_Label = ''r'', rc_Addr = ''http://r''\<rparr>"
  have "\<exists>r n. client_Snapshot ui_demo_client ?rc 0 = (Inr r, n)"
    by (simp add: client_Snapshot_def getJSON_def ui_demo_client_def bindE_def tryE_def retE_def throwE_def liftE_def has_suffix_def trim_right_char_def)
  then obtain r n where "snap_turns ui_demo_client ?rc [FetchStatus, FetchConfig, FetchWals, FetchBackups]
      (sp_snap (snap_start ?rc 0 :: (nat, unit) snapping)) (sp_net (snap_start ?rc 0 :: (nat, unit) snapping)) = (Inr r, n)"
    by (auto simp: client_Snapshot_def snap_start_def)
  from snap_turns_run [OF this] obtain t where t: "(snap_step ui_demo_client ?rc)\<^sup>*\<^sup>* (snap_start ?rc 0) t"
    "sp_merged t = {FetchStatus, FetchConfig, FetchWals, FetchBackups}" by (auto simp: snap_start_def)
  have u: "sp_merged t = UNIV" unfolding t(2) by (auto intro: fetch.exhaust)
  from snapshot_order_free [OF t(1) u] t(1) u show ?thesis by blast
qed

subsection \<open>Requests never leave the list of receivers\<close>

lemma selected_in_range:
  assumes "0 < n"
  shows "0 \<le> selectedReceiverIndex r n \<and> selectedReceiverIndex r n < n"
  using assms by (auto simp: selectedReceiverIndex_def parseNonNegativeInt_def Let_def split: sum.split)

text \<open>Whatever the query says, a server of \<open>NewServer\<close> asks one of its receivers and does not panic itself.\<close>

lemma view_of_some_receiver:
  assumes "sv = NewServer rs client http tpl"
  shows "\<exists>rc \<in> set (sv_receivers sv). \<exists>i. buildView sv r active = bindE (sv_client sv rc) (\<lambda>snap. retE (view_of (sv_receivers sv) i active r snap))"
proof -
  have ne: "sv_receivers sv \<noteq> []" by (simp add: assms NewServer_def)
  then have "0 < int (length (sv_receivers sv))" by simp
  from selected_in_range [OF this] have s: "0 \<le> selectedReceiverIndex r (int (length (sv_receivers sv)))"
    "selectedReceiverIndex r (int (length (sv_receivers sv))) < int (length (sv_receivers sv))" by blast+
  let ?i = "selectedReceiverIndex r (int (length (sv_receivers sv)))"
  have "nat ?i < length (sv_receivers sv)" using s by simp
  from nth_mem [OF this] have "sv_receivers sv ! nat ?i \<in> set (sv_receivers sv)" .
  moreover have "buildView sv r active = bindE (sv_client sv (sv_receivers sv ! nat ?i)) (\<lambda>snap. retE (view_of (sv_receivers sv) ?i active r snap))"
    using s by (simp add: buildView_def Let_def)
  ultimately show ?thesis by blast
qed

subsection \<open>The configuration\<close>

lemma receivers_loop_ok:
  "receivers_loop seen rs = Inr () \<longleftrightarrow>
     distinct (map rc_Label rs) \<and> (\<forall>r \<in> set rs. rc_Label r \<noteq> '''' \<and> rc_Addr r \<noteq> '''') \<and> rc_Label ` set rs \<inter> set seen = {}"
  by (induction seen rs rule: receivers_loop.induct) auto

text \<open>What \<open>loadConfig\<close> returns has an address to listen on, and receivers with distinct labels and with addresses.\<close>

lemma ui_config_valid:
  assumes "loadConfig json yaml path s = (Inr cfg, t)"
  shows "uic_ListenAddr cfg \<noteq> '''' \<and> uic_Receivers cfg \<noteq> [] \<and> distinct (map rc_Label (uic_Receivers cfg)) \<and>
    (\<forall>r \<in> set (uic_Receivers cfg). rc_Label r \<noteq> '''' \<and> rc_Addr r \<noteq> '''')"
proof -
  have v: "validateConfig c = Inr () \<Longrightarrow> uic_ListenAddr c \<noteq> '''' \<and> uic_Receivers c \<noteq> [] \<and> distinct (map rc_Label (uic_Receivers c)) \<and>
    (\<forall>r \<in> set (uic_Receivers c). rc_Label r \<noteq> '''' \<and> rc_Addr r \<noteq> '''')" for c
    by (auto simp: validateConfig_def receivers_loop_ok split: if_splits)
  have "validateConfig cfg = Inr () \<or> cfg = \<lparr>uic_ListenAddr = defaultListenAddr, uic_Receivers = [\<lparr>rc_Label = ''localhost'', rc_Addr = ''http://127.0.0.1:7070''\<rparr>]\<rparr>"
    using assms by (auto simp: loadConfig_def Let_def exec_simps split: sum.splits prod.splits if_splits)
  then show ?thesis by (elim disjE) (erule v, simp add: defaultListenAddr_def)
qed

end
