(* ===== verification/Spec2Isabelle.thy ===== *)
theory Spec2Isabelle
  imports Commands FakeReaders HttpServer LoggingSpec Metrics ModesSpec ReceiveSafe RecoverySpec ResumeSpec Retry S3Spec Sizes StreamApiSpec UiSpec
begin

text \<open>
A model of pgrwl, a program that archives the write-ahead log (WAL) of a PostgreSQL server.  It streams
  WAL over the replication protocol into segment files, tells the server how far the WAL is safe, moves
  finished segments into a storage, takes base backups and deletes what no recovery needs any more.  The
  development models the parts on which the data depends, in the order data flows through them, and proves
  what makes each correct.

  Conventions (Prelude, GoLib).  A stateful Go function is a computation \<open>('s, 'a) m\<close> from a state to an
  error or a value and a new state; \<open>bindE\<close> is the sequence with its early return, \<open>tryE\<close> looks at an
  error, \<open>wrapE\<close> wraps it; a panic and \<open>os.Exit\<close> are errors no handler catches.  \<open>wp\<close> is its weakest
  precondition (total correctness), \<open>keeps\<close> says that it leaves a part of the state alone.  Machine
  integers are words; Go strings are lists of bytes, and case conversion and blanks are the ASCII ones.
  Libraries that are not part of the repository (pgconn, pglogrepl, the ciphers and compressors, JSON) are
  parameters.  Log messages and the calls of metrics are left out everywhere; that the latter change nothing is
  \<open>metrics_transparent\<close> (Metrics, src/internal/opt/metrics).

  World models the operating system and src/internal/core/fsync: files with a volatile and a durable
  side, directories likewise, descriptors, and a fault function that decides which system call fails, so
  that a theorem about all worlds is one about all failures; \<open>crash\<close> is a power loss.

  Receiving WAL (src/internal/core/xlog).  GoConv and XLogInternal model safeconv.go and xlog_internal.go
  (segment numbers, names, sizes), with the round trip and the order of names; WalFile models walfile.go,
  StreamUtil streamutil.go, ReceiveLog receivelog.go, PgReceiveWal pg_receivewal.go and stats.go.  The
  messages of the server are a list of events.  WalStore states what the directory must hold (\<open>store_inv\<close>,
  \<open>open_at\<close>) and WalFileSpec proves that the operations on segment files keep it; ReceiveSafe shows that
  what is acknowledged to the server is durable and that finished segments are archived; ResumeSpec that
  streaming resumes at the position of the greatest file.  FileTree holds \<open>os.ReadDir\<close>, \<open>filepath.WalkDir\<close>
  and \<open>sort.Slice\<close>.

  Storing (src/internal/opt/shared).  IOStream models readers, writers and the codecs, AesGcm aesgcm.go and
  Pipe pipe.go: a reader is the bytes it delivers and the error it ends with.  AesGcmSpec proves the round
  trip, the format and what is and is not authenticated.  Storage is the interface of storage.go with its
  contract, the locale \<open>storage_backend\<close>; MemStorage (mem.go) and LocalFS with LocalSpec (localfs.go) are
  interpretations of it; Variadic (dynstor.go) is built on any backend and VariadicSpec proves its
  operations inside the locale.

  Uploading (src/internal/opt/supervisors/receivesv).  Upload models upload.go and supervisor.go.  The
  workers' jobs are cut at their calls; a schedule chooses the worker that moves, and a bound of five rounds
  per file and one per worker is enough for every job to end.  UploadSpec proves the invariant that a file is
  removed only after its contents are stored, over every interleaving, for every backend of the locale.

  Backups (src/internal/opt/supervisors/backupsv, src/internal/opt/basebackup).  Retain models retain.go,
  Retention the cleaner, the store and the recovery window retention, RetentionSpec proves a whole run safe;
  the locale \<open>wal_archive\<close> extends the backend by a complete listing.  BackupRun models the runner, the
  state of the slot and the supervisor; the locale \<open>backup_slot\<close> is the contract of the slot.

  Base backups (src/internal/opt/basebackup).  StreamBB models stream_bb.go and streaming_file.go: the server's
  messages are a list, a streaming file is one put of its whole stream.  StreamBBSpec proves that a backup that
  reports success is complete and one that fails has no marker.  Restore models the package restore with the
  helpers of tarx, fsx and strx, over the world of files extended by symbolic links; RestoreSpec proves
  extraction exact and, with StreamBBSpec, that a restore gives back what the server sent.

  Configuring (src/config, src/internal/opt/api/storage.go, src/internal/opt/cmd/conf.go).  Config models the
  checks, the placeholders and the single load; S3 (s3.go, s3util.go, s3multipart.go) and SFTP (sftp.go) the remote
  backends over records of the client libraries' calls; Setup the opening of a storage.  S3Spec proves uploads exact
  for a client that obeys the documented contract (\<open>s3_lawful\<close>); SetupSpec that an accepted configuration can only
  fail to start in opening its backend, and that what is printed shows no secret.

  Serving and running (src/internal/opt/api, src/internal/opt/cmd).  Http models handlers, the response of
  package net/http and the middleware; ServeApi the WAL file server and the restore command, and ServeSpec that
  what was archived is what is restored; StreamApi and StreamApiSpec the API of the receiver.  Modes models the
  goroutines of the two daemons as a step relation; ModesSpec proves by rule induction what stops a daemon and what
  it returns, and for fair executions that it returns.

  Commands models create.go, creator.go, the schedule and the actions of main.go: a schedule survives whatever its
  jobs do, and a daemon runs in one mode, after its configuration was accepted for it.

  Archiving as a whole.  ArchiveStore proves that the compressing and encrypting storage over a backend with atomic
  puts (\<open>storage_strict\<close>) is itself a backend on the decoded files, so that every theorem about the locale holds over
  it; ArchiveSpec composes receiver, uploader, storage, server and restore command: a received segment can be
  restored at every moment of its way, and after a successful round from the archive.  RecoverySpec adds the retention: the WAL that
  the anchor of a retention run needs can still be fetched after the run.

  The user interface (src/ui, src/cmd/pgrwl-ui).  Ui models client.go with its four goroutines as a step relation,
  server.go and the configuration; UiReady the functions of templates.go.  UiReadySpec proves that names agree with
  XLogInternal and what the verdict of the restore readiness means; UiSpec the pages of the WAL table and that the
  snapshot does not depend on the order of the answers.

  Logging (src/internal/core/logger, middleware/logging.go).  Logging models the handler that prints records, the
  choice of a handler and the middleware, with a handler of requests as a datatype of its calls.  The fuel of
  \<open>write_attr\<close> is the depth of the groups (\<open>write_attr_fuel\<close>).  LoggingSpec proves that a record is one line
  and that the middleware is transparent.  HttpServer models server.go as a step relation over what net/http documents,
  with what Run returns and what it does not wait for; FakeReaders the readers of the tests, which lose no byte;
  Sizes the printed sizes, whose unit never runs out.

  Retry models retry.go, as a partial function because it may retry for ever, and jobq.go.

  Not modelled: the text of the HTML templates and the static files, command
  line parsing, the cron library's clock, port_windows.go.  Symbolic links are only those a restore makes, and
  paths are not followed through them; the bounds of the fuelled loops are stated with them.
\<close>

end
